(* ===== verification/Prelude.thy ===== *)
theory Prelude
  imports "HOL-Library.Word"
begin

text \<open>
  Shared vocabulary of the development: the machine integers of the Rust sources as words,
  the result type of fallible code with its sequencing operator (Rust's \<open>?\<close>), checked and
  saturating arithmetic, and little-endian byte strings.  The collection \<open>ok_simps\<close> inverts
  a successful run of early-return code into the conjunction of the conditions it passed.
\<close>

unbundle bit_operations_syntax

named_theorems ok_simps \<open>inversion of successful runs\<close>

subsection \<open>Machine types\<close>

type_synonym u8 = "8 word"
type_synonym u16 = "16 word"
type_synonym u32 = "32 word"
type_synonym u64 = "64 word"
type_synonym u128 = "128 word"

text \<open>A \<open>[u8; 32]\<close> array is kept as the 256-bit word with these little-endian bytes.\<close>

type_synonym pubkey = "256 word"
type_synonym hash32 = "256 word"
type_synonym bytes = "u8 list"

subsection \<open>Results\<close>

definition rbind :: "'e + 'a \<Rightarrow> ('a \<Rightarrow> 'e + 'b) \<Rightarrow> 'e + 'b" where
  "rbind m f = (case m of Inl e \<Rightarrow> Inl e | Inr x \<Rightarrow> f x)"

lemma rbind_simps [simp]:
  "rbind (Inl e) f = Inl e"
  "rbind (Inr x) f = f x"
  by (simp_all add: rbind_def)

lemma rbind_ok [ok_simps]: "rbind m f = Inr y \<longleftrightarrow> (\<exists>x. m = Inr x \<and> f x = Inr y)"
  by (cases m) auto

lemma rbind_err: "rbind m f = Inl e \<longleftrightarrow> m = Inl e \<or> (\<exists>x. m = Inr x \<and> f x = Inl e)"
  by (cases m) auto

lemma rbind_assoc: "rbind (rbind m f) g = rbind m (\<lambda>x. rbind (f x) g)"
  by (cases m) auto

lemma guard_ok [ok_simps]:
  "((if c then Inl e else k) = Inr y) \<longleftrightarrow> \<not> c \<and> k = Inr y"
  "((if c then k else Inl e) = Inr y) \<longleftrightarrow> c \<and> k = Inr y"
  by auto

text \<open>\<open>Option::ok_or\<close> and \<open>Result::map_err\<close>.\<close>

definition ok_or :: "'a option \<Rightarrow> 'e \<Rightarrow> 'e + 'a" where
  "ok_or x e = (case x of None \<Rightarrow> Inl e | Some v \<Rightarrow> Inr v)"

lemma ok_or_simps [simp]:
  "ok_or None e = Inl e"
  "ok_or (Some v) e = Inr v"
  by (simp_all add: ok_or_def)

lemma ok_or_ok [ok_simps]: "ok_or x e = Inr v \<longleftrightarrow> x = Some v"
  by (cases x) auto

definition is_ok :: "'e + 'a \<Rightarrow> bool" where
  "is_ok r = (case r of Inl _ \<Rightarrow> False | Inr _ \<Rightarrow> True)"

lemma is_ok_simps [simp]: "\<not> is_ok (Inl e)" "is_ok (Inr v)"
  by (simp_all add: is_ok_def)

subsection \<open>Checked and saturating arithmetic\<close>

definition checked_add :: "'a::len word \<Rightarrow> 'a word \<Rightarrow> 'a word option" where
  "checked_add a b = (if unat a + unat b < 2 ^ LENGTH('a) then Some (a + b) else None)"

definition checked_sub :: "'a::len word \<Rightarrow> 'a word \<Rightarrow> 'a word option" where
  "checked_sub a b = (if b \<le> a then Some (a - b) else None)"

definition saturating_add :: "'a::len word \<Rightarrow> 'a word \<Rightarrow> 'a word" where
  "saturating_add a b = (if unat a + unat b < 2 ^ LENGTH('a) then a + b else - 1)"

definition saturating_sub :: "'a::len word \<Rightarrow> 'a word \<Rightarrow> 'a word" where
  "saturating_sub a b = (if b \<le> a then a - b else 0)"

lemma unat_add_exact: "unat a + unat b < 2 ^ LENGTH('a) \<Longrightarrow> unat (a + b) = unat a + unat b"
  for a b :: "'a::len word"
  by (simp add: unat_word_ariths)

lemma unat_max: "unat (- 1 :: 'a::len word) = 2 ^ LENGTH('a) - 1"
  by (simp add: unsigned_minus_1_eq_mask mask_eq_exp_minus_1)

lemma checked_add_Some_iff:
  "checked_add a b = Some c \<longleftrightarrow> unat c = unat a + unat b" for a b c :: "'a::len word"
proof
  assume "checked_add a b = Some c"
  then show "unat c = unat a + unat b"
    by (auto simp: checked_add_def unat_add_exact split: if_splits)
next
  assume h: "unat c = unat a + unat b"
  have "unat c < 2 ^ LENGTH('a)" by simp
  with h have lt: "unat a + unat b < 2 ^ LENGTH('a)" by simp
  then have "a + b = c" using h by (simp add: word_unat_eq_iff unat_add_exact)
  with lt show "checked_add a b = Some c" by (simp add: checked_add_def)
qed

lemma checked_add_None_iff:
  "checked_add a b = None \<longleftrightarrow> 2 ^ LENGTH('a) \<le> unat a + unat b" for a b :: "'a::len word"
  by (auto simp: checked_add_def)

lemma checked_sub_Some_iff:
  "checked_sub a b = Some c \<longleftrightarrow> unat a = unat b + unat c" for a b c :: "'a::len word"
proof
  assume "checked_sub a b = Some c"
  then show "unat a = unat b + unat c"
    by (auto simp: checked_sub_def unat_sub word_le_nat_alt split: if_splits)
next
  assume h: "unat a = unat b + unat c"
  then have le: "b \<le> a" by (simp add: word_le_nat_alt)
  then have "a - b = c" using h by (simp add: word_unat_eq_iff unat_sub)
  with le show "checked_sub a b = Some c" by (simp add: checked_sub_def)
qed

lemma checked_sub_None_iff: "checked_sub a b = None \<longleftrightarrow> a < b"
  by (auto simp: checked_sub_def not_le)

lemma checked_sub_eq: "b \<le> a \<Longrightarrow> checked_sub a b = Some (a - b)"
  by (simp add: checked_sub_def)

lemma word_sub_less: "b \<le> a \<Longrightarrow> b \<noteq> 0 \<Longrightarrow> a - b < a" for a b :: "'a::len word"
  using unat_gt_0 [of b] by (simp add: word_less_nat_alt word_le_nat_alt unat_sub)

lemma le_sub_self_iff: "b \<le> a \<Longrightarrow> a \<le> a - b \<longleftrightarrow> b = 0" for a b :: "'a::len word"
  using word_sub_less [of b a] by (auto simp: not_less [symmetric])

lemma unat_saturating_add:
  "unat (saturating_add a b) = min (unat a + unat b) (2 ^ LENGTH('a) - 1)" for a b :: "'a::len word"
  by (auto simp: saturating_add_def unat_add_exact unat_max min_def)

lemma unat_saturating_sub: "unat (saturating_sub a b) = unat a - unat b"
  by (auto simp: saturating_sub_def unat_sub word_le_nat_alt)

subsection \<open>Little-endian byte strings\<close>

definition le_bytes :: "nat \<Rightarrow> 'a::len word \<Rightarrow> bytes" where
  "le_bytes n w = map (\<lambda>i. ucast (drop_bit (8 * i) w)) [0..<n]"

primrec le_word :: "bytes \<Rightarrow> 'a::len word" where
  "le_word [] = 0"
| "le_word (b # bs) = ucast b OR push_bit 8 (le_word bs)"

lemma length_le_bytes [simp]: "length (le_bytes n w) = n"
  by (simp add: le_bytes_def)

lemma bit_le_word:
  "bit (le_word bs :: 'a::len word) i \<longleftrightarrow>
     i < LENGTH('a) \<and> i div 8 < length bs \<and> bit (bs ! (i div 8)) (i mod 8)"
proof (induction bs arbitrary: i)
  case Nil
  then show ?case by simp
next
  case (Cons b bs)
  show ?case
  proof (cases "i < 8")
    case True
    then show ?thesis
      by (auto simp: bit_or_iff bit_push_bit_iff bit_ucast_iff)
  next
    case False
    then obtain j where j: "i = j + 8" by (metis add.commute le_Suc_ex not_le)
    have "\<not> bit b i" using False by (auto dest: bit_imp_le_length)
    have d: "(j + 8) div 8 = Suc (j div 8)" by simp
    from \<open>\<not> bit b i\<close> show ?thesis using Cons.IH [of j]
      by (auto simp: j d bit_or_iff bit_push_bit_iff bit_ucast_iff)
  qed
qed

lemma le_word_le_bytes [simp]:
  assumes "LENGTH('a) = 8 * n"
  shows "le_word (le_bytes n w) = (w :: 'a::len word)"
proof (rule bit_eqI)
  fix i
  assume "possible_bit TYPE('a word) i"
  then have i: "i < LENGTH('a)" by simp
  then have "i div 8 < n" using assms by auto
  then show "bit (le_word (le_bytes n w) :: 'a word) i \<longleftrightarrow> bit w i"
    using i by (simp add: bit_le_word le_bytes_def bit_ucast_iff bit_drop_bit_eq)
qed

lemma le_bytes_le_word [simp]:
  assumes "LENGTH('a) = 8 * n" "length bs = n"
  shows "le_bytes n (le_word bs :: 'a::len word) = bs"
proof (rule nth_equalityI)
  show "length (le_bytes n (le_word bs :: 'a word)) = length bs" using assms by simp
next
  fix k
  assume "k < length (le_bytes n (le_word bs :: 'a word))"
  then have k: "k < n" by simp
  show "le_bytes n (le_word bs :: 'a word) ! k = bs ! k"
  proof (rule bit_eqI)
    fix i
    assume "possible_bit TYPE(8 word) i"
    then have i: "i < 8" by simp
    then have "8 * k + i < LENGTH('a)" "(8 * k + i) div 8 = k" "(8 * k + i) mod 8 = i"
      using k assms by auto
    then show "bit (le_bytes n (le_word bs :: 'a word) ! k) i \<longleftrightarrow> bit (bs ! k) i"
      using k i assms
      by (simp add: le_bytes_def bit_ucast_iff bit_drop_bit_eq bit_le_word)
  qed
qed

lemma le_bytes_inject:
  assumes "LENGTH('a) = 8 * n"
  shows "le_bytes n v = le_bytes n w \<longleftrightarrow> v = (w :: 'a::len word)"
  using le_word_le_bytes [OF assms] by metis

text \<open>The byte views the sources take of integers and addresses.\<close>

abbreviation u16_le :: "u16 \<Rightarrow> bytes" where "u16_le \<equiv> le_bytes 2"
abbreviation u32_le :: "u32 \<Rightarrow> bytes" where "u32_le \<equiv> le_bytes 4"
abbreviation u64_le :: "u64 \<Rightarrow> bytes" where "u64_le \<equiv> le_bytes 8"
abbreviation u128_le :: "u128 \<Rightarrow> bytes" where "u128_le \<equiv> le_bytes 16"
abbreviation key_bytes :: "pubkey \<Rightarrow> bytes" where "key_bytes \<equiv> le_bytes 32"

text \<open>The least power of two at or above a number, and the number of trailing zero bits, on unbounded numbers.\<close>

function power_from :: "nat \<Rightarrow> nat \<Rightarrow> nat" where
  "power_from p n = (if n \<le> p \<or> p = 0 then p else power_from (2 * p) n)"
  by auto
termination by (relation "measure (\<lambda>(p, n). n - p)") auto

function zeros_below :: "nat \<Rightarrow> nat" where
  "zeros_below n = (if n = 0 \<or> odd n then 0 else Suc (zeros_below (n div 2)))"
  by auto
termination by (relation "measure id") auto

declare power_from.simps [simp del] zeros_below.simps [simp del]

lemma power_from_ge: "p \<noteq> 0 \<Longrightarrow> n \<le> power_from p n"
  by (induction p n rule: power_from.induct) (subst power_from.simps, auto)

lemma power_from_le: "p \<noteq> 0 \<Longrightarrow> p \<le> power_from p n"
  by (induction p n rule: power_from.induct) (subst power_from.simps, auto)

lemma power_from_power: "\<exists>k. power_from (2 ^ j) n = 2 ^ k"
proof (induction "2 ^ j :: nat" n arbitrary: j rule: power_from.induct)
  case (1 n)
  show ?case
  proof (cases "n \<le> 2 ^ j")
    case True
    then show ?thesis by (subst power_from.simps) auto
  next
    case False
    then have "\<exists>k. power_from (2 ^ Suc j) n = 2 ^ k" using 1 [of "Suc j"] by simp
    with False show ?thesis by (subst power_from.simps) simp
  qed
qed

lemma power_from_least: "p \<noteq> 0 \<Longrightarrow> n \<le> p * 2 ^ k \<Longrightarrow> power_from p n \<le> p * 2 ^ k"
proof (induction p n arbitrary: k rule: power_from.induct)
  case (1 p n)
  show ?case
  proof (cases "n \<le> p")
    case True
    then show ?thesis by (subst power_from.simps) simp
  next
    case False
    with "1.prems" have "k \<noteq> 0" by (cases k) auto
    then obtain l where k: "k = Suc l" by (cases k) auto
    have "power_from (2 * p) n \<le> 2 * p * 2 ^ l"
      using "1.IH" [of l] "1.prems" False by (simp add: k mult.assoc mult.left_commute)
    then show ?thesis using False "1.prems"(1) by (subst power_from.simps) (simp add: k mult.assoc mult.left_commute)
  qed
qed

lemma zeros_below_power [simp]: "zeros_below (2 ^ k) = k"
  by (induction k) (subst zeros_below.simps, simp)+

text \<open>The shapes of an account list that is long enough.\<close>

lemma conses2: "\<not> length xs < 2 \<Longrightarrow> \<exists>a b ys. xs = a # b # ys"
  and conses4: "\<not> length xs < 4 \<Longrightarrow> \<exists>a b c d ys. xs = a # b # c # d # ys"
  and conses5: "\<not> length xs < 5 \<Longrightarrow> \<exists>a b c d e ys. xs = a # b # c # d # e # ys"
  and conses11: "\<not> length xs < 11 \<Longrightarrow> \<exists>a b c d e f g h i j l ys. xs = a # b # c # d # e # f # g # h # i # j # l # ys"
  by (auto simp: not_less numeral_eq_Suc Suc_le_length_iff)

end
