(* ===== verification/Borsh.thy ===== *)
theory Borsh
  imports Prelude
begin

text \<open>
  The serialization interface the programs use.  Borsh is a library: every operation of the
  model takes the codec of each stored struct as a parameter, and \<open>borsh_codec\<close> states what is
  relied on (reading back what was written, no other reading, a fixed length).  The second half
  builds the field-by-field little-endian layouts of the stored structs and discharges those laws.
\<close>

subsection \<open>Codecs\<close>

record 'a codec =
  ser :: "'a \<Rightarrow> bytes"
  deser :: "bytes \<Rightarrow> ('a \<times> bytes) option"

text \<open>\<open>T::try_from_slice\<close>: the whole input must be consumed.\<close>

definition try_from_slice :: "'a codec \<Rightarrow> bytes \<Rightarrow> 'a option" where
  "try_from_slice c bs = (case deser c bs of Some (v, []) \<Rightarrow> Some v | _ \<Rightarrow> None)"

text \<open>\<open>BorshSerialize::serialize(&v, &mut &mut data[..])\<close>: overwrite a prefix of the buffer;
  a short buffer is an error.\<close>

definition write_slice :: "'a codec \<Rightarrow> 'a \<Rightarrow> bytes \<Rightarrow> bytes option" where
  "write_slice c v bs =
     (if length (ser c v) \<le> length bs then Some (ser c v @ drop (length (ser c v)) bs) else None)"

text \<open>\<open>account_size\<close>: the length of the serialization.\<close>

definition account_size :: "'a codec \<Rightarrow> 'a \<Rightarrow> nat" where
  "account_size c v = length (ser c v)"

locale borsh_codec =
  fixes c :: "'a codec" and wf :: "'a \<Rightarrow> bool" and size :: nat
  assumes deser_ser: "wf v \<Longrightarrow> deser c (ser c v @ r) = Some (v, r)"
    and deser_sound: "deser c bs = Some (v, r) \<Longrightarrow> wf v \<and> bs = ser c v @ r"
    and ser_length: "wf v \<Longrightarrow> length (ser c v) = size"
begin

lemma try_from_slice_ser: "wf v \<Longrightarrow> try_from_slice c (ser c v) = Some v"
  using deser_ser [of v "[]"] by (simp add: try_from_slice_def)

lemma try_from_sliceD:
  assumes "try_from_slice c bs = Some v"
  shows "wf v" "bs = ser c v" "length bs = size"
proof -
  have "deser c bs = Some (v, [])"
    using assms by (auto simp: try_from_slice_def split: option.splits list.splits)
  then have "wf v \<and> bs = ser c v @ []" by (rule deser_sound)
  then show "wf v" "bs = ser c v" "length bs = size" by (auto simp: ser_length)
qed

lemma try_from_slice_iff: "try_from_slice c bs = Some v \<longleftrightarrow> wf v \<and> bs = ser c v"
  using try_from_sliceD try_from_slice_ser by blast

lemma write_slice_exact:
  "wf v \<Longrightarrow> length bs = size \<Longrightarrow> write_slice c v bs = Some (ser c v)"
  by (simp add: write_slice_def ser_length)

lemma write_slice_read:
  assumes "wf v" "length bs = size" "write_slice c v bs = Some bs'"
  shows "try_from_slice c bs' = Some v" "length bs' = size"
  using assms write_slice_exact [of v bs] by (auto simp: try_from_slice_ser ser_length)

lemma write_slice_length: "write_slice c v bs = Some bs' \<Longrightarrow> length bs' = length bs"
  by (auto simp: write_slice_def split: if_splits)

lemma account_size_eq: "wf v \<Longrightarrow> account_size c v = size"
  by (simp add: account_size_def ser_length)

lemma ser_inject: "wf v \<Longrightarrow> wf w \<Longrightarrow> ser c v = ser c w \<Longrightarrow> v = w"
  by (metis option.inject try_from_slice_ser)

end

subsection \<open>Layout combinators\<close>

definition word_layout :: "nat \<Rightarrow> 'w::len word codec" where
  "word_layout n = \<lparr> ser = le_bytes n,
     deser = (\<lambda>bs. if n \<le> length bs then Some (le_word (take n bs), drop n bs) else None) \<rparr>"

definition bytes_layout :: "nat \<Rightarrow> bytes codec" where
  "bytes_layout n = \<lparr> ser = (\<lambda>v. v),
     deser = (\<lambda>bs. if n \<le> length bs then Some (take n bs, drop n bs) else None) \<rparr>"

definition enum_layout :: "('a \<Rightarrow> u8) \<Rightarrow> (u8 \<Rightarrow> 'a option) \<Rightarrow> 'a codec" where
  "enum_layout tag untag = \<lparr> ser = (\<lambda>v. [tag v]),
     deser = (\<lambda>bs. case bs of [] \<Rightarrow> None | b # r \<Rightarrow> map_option (\<lambda>v. (v, r)) (untag b)) \<rparr>"

definition pair_layout :: "'a codec \<Rightarrow> 'b codec \<Rightarrow> ('a \<times> 'b) codec" where
  "pair_layout c d = \<lparr> ser = (\<lambda>(x, y). ser c x @ ser d y),
     deser = (\<lambda>bs. case deser c bs of None \<Rightarrow> None
        | Some (x, r) \<Rightarrow> map_option (\<lambda>(y, q). ((x, y), q)) (deser d r)) \<rparr>"

definition iso_layout :: "('a \<Rightarrow> 'b) \<Rightarrow> ('b \<Rightarrow> 'a) \<Rightarrow> 'b codec \<Rightarrow> 'a codec" where
  "iso_layout f g c = \<lparr> ser = (\<lambda>v. ser c (f v)),
     deser = (\<lambda>bs. map_option (\<lambda>(x, r). (g x, r)) (deser c bs)) \<rparr>"

definition bool_layout :: "bool codec" where
  "bool_layout = enum_layout (\<lambda>b. if b then 1 else 0)
     (\<lambda>b. if b = 0 then Some False else if b = 1 then Some True else None)"

primrec array_layout :: "nat \<Rightarrow> 'a codec \<Rightarrow> 'a list codec" where
  "array_layout 0 c = \<lparr> ser = (\<lambda>_. []), deser = (\<lambda>bs. Some ([], bs)) \<rparr>"
| "array_layout (Suc n) c =
     iso_layout (\<lambda>xs. (hd xs, tl xs)) (\<lambda>(x, xs). x # xs) (pair_layout c (array_layout n c))"

subsection \<open>The layouts satisfy the codec laws\<close>

lemma borsh_word: "LENGTH('w::len) = 8 * n \<Longrightarrow> borsh_codec (word_layout n :: 'w word codec) (\<lambda>_. True) n"
  by unfold_locales (auto simp: word_layout_def min_def split: if_splits)

lemma borsh_bytes: "borsh_codec (bytes_layout n) (\<lambda>v. length v = n) n"
  by unfold_locales (auto simp: bytes_layout_def split: if_splits)

lemma borsh_enum:
  assumes "\<And>v. untag (tag v) = Some v" "\<And>b v. untag b = Some v \<Longrightarrow> b = tag v"
  shows "borsh_codec (enum_layout tag untag) (\<lambda>_. True) 1"
  using assms by unfold_locales (auto simp: enum_layout_def split: list.splits)

lemma borsh_bool: "borsh_codec bool_layout (\<lambda>_. True) 1"
  unfolding bool_layout_def by (rule borsh_enum) (auto split: if_splits)

lemma borsh_pair:
  assumes "borsh_codec c p n" "borsh_codec d q m"
  shows "borsh_codec (pair_layout c d) (\<lambda>(x, y). p x \<and> q y) (n + m)"
proof
  fix v r assume "case v of (x, y) \<Rightarrow> p x \<and> q y"
  then show "deser (pair_layout c d) (ser (pair_layout c d) v @ r) = Some (v, r)"
    using assms by (auto simp: pair_layout_def borsh_codec.deser_ser split: prod.splits)
next
  fix bs v r assume h: "deser (pair_layout c d) bs = Some (v, r)"
  then obtain x s y where "deser c bs = Some (x, s)" "deser d s = Some (y, r)" "v = (x, y)"
    by (auto simp: pair_layout_def split: option.splits)
  then show "(case v of (x, y) \<Rightarrow> p x \<and> q y) \<and> bs = ser (pair_layout c d) v @ r"
    using assms by (auto simp: pair_layout_def dest: borsh_codec.deser_sound)
next
  fix v assume "case v of (x, y) \<Rightarrow> p x \<and> q y"
  then show "length (ser (pair_layout c d) v) = n + m"
    using assms by (auto simp: pair_layout_def borsh_codec.ser_length)
qed

lemma borsh_iso:
  assumes "borsh_codec c p n" "\<And>v. q v \<Longrightarrow> g (f v) = v \<and> p (f v)"
    "\<And>x. p x \<Longrightarrow> f (g x) = x \<and> q (g x)"
  shows "borsh_codec (iso_layout f g c) q n"
proof
  fix v r assume "q v"
  then show "deser (iso_layout f g c) (ser (iso_layout f g c) v @ r) = Some (v, r)"
    using assms by (auto simp: iso_layout_def borsh_codec.deser_ser)
next
  fix bs v r assume "deser (iso_layout f g c) bs = Some (v, r)"
  then obtain x where "deser c bs = Some (x, r)" "v = g x"
    by (auto simp: iso_layout_def)
  then show "q v \<and> bs = ser (iso_layout f g c) v @ r"
    using assms by (auto simp: iso_layout_def dest: borsh_codec.deser_sound)
next
  fix v assume "q v"
  then show "length (ser (iso_layout f g c) v) = n"
    using assms by (auto simp: iso_layout_def borsh_codec.ser_length)
qed

lemma borsh_array:
  assumes "borsh_codec c p n"
  shows "borsh_codec (array_layout k c) (\<lambda>xs. length xs = k \<and> list_all p xs) (k * n)"
proof (induction k)
  case 0
  show ?case by unfold_locales auto
next
  case (Suc k)
  have "borsh_codec (pair_layout c (array_layout k c))
      (\<lambda>(x, xs). p x \<and> length xs = k \<and> list_all p xs) (n + k * n)"
    using borsh_pair [OF assms Suc.IH] by simp
  then have "borsh_codec (array_layout (Suc k) c) (\<lambda>xs. length xs = Suc k \<and> list_all p xs) (n + k * n)"
    unfolding array_layout.simps by (rule borsh_iso) (auto simp: length_Suc_conv)
  then show ?case by simp
qed

subsection \<open>Layouts of structs whose every value is storable\<close>

lemma borsh_pairT:
  "borsh_codec c (\<lambda>_. True) n \<Longrightarrow> borsh_codec d (\<lambda>_. True) m \<Longrightarrow>
   borsh_codec (pair_layout c d) (\<lambda>_. True) (n + m)"
  using borsh_pair [of c "\<lambda>_. True" n d "\<lambda>_. True" m] by (simp add: case_prod_unfold)

lemma borsh_isoT:
  "borsh_codec c (\<lambda>_. True) n \<Longrightarrow> (\<And>v. g (f v) = v) \<Longrightarrow> (\<And>x. f (g x) = x) \<Longrightarrow>
   borsh_codec (iso_layout f g c) (\<lambda>_. True) n"
  by (rule borsh_iso) auto

lemma borsh_size_eq: "borsh_codec c p n \<Longrightarrow> n = m \<Longrightarrow> borsh_codec c p m"
  by simp

text \<open>The first field of a struct starts its serialization.\<close>

lemma ser_iso_pair_prefix:
  "take n (ser (iso_layout f g (pair_layout (word_layout n) d)) v) = le_bytes n (fst (f v))"
  by (simp add: iso_layout_def pair_layout_def word_layout_def case_prod_unfold)

end
