(* ===== verification/Ledger.thy ===== *)
theory Ledger
  imports Borsh Events
begin

text \<open>
  The machine the on-chain programs run on: accounts, the account views an instruction receives,
  program errors, and the cross-program calls to the system program the Portal makes (transfer,
  allocate, assign), with the privilege check of the runtime.  The views only name an address, so
  two views of one account alias.  Library code the programs call (hashing, address derivation,
  rent, sysvars, the token program's account formats) is the record \<open>runtime\<close>, a parameter of
  every operation.
\<close>

named_theorems st_simps \<open>reading an updated ledger\<close>

subsection \<open>Errors\<close>

datatype (plugins only: code size) portal_error =
    InvalidInstruction | InvalidAccountData | SessionExpired | SessionStillActive | Unauthorized
  | InsufficientFees | ArithmeticOverflow | InvalidPdaSeeds | SessionAccountOwnerMismatch
  | SessionDeserializeFailed | SessionStateInvalid | DepositReceiptDeserializeFailed
  | DepositReceiptStateInvalid | DelegatedAccountOwnerMismatch
  | DelegationRecordAlreadyInitialized | DelegationRecordDeserializeFailed
  | DelegationRecordStateInvalid | DelegateBufferOwnerMismatch | DelegateBufferSizeMismatch
  | SettlementInProgress | SettlementNotInProgress | SettlementTooEarly
  | SettlementErSlotNotAdvanced | SettlementErSlotMismatch | SettlementChecksumMismatch
  | SettlementChunkTooLarge | SettlementChunkOutOfBounds | SettlementUnauthorizedAbort
  | DelegationRecordAccountMismatch | DelegatedAccountDataNotEmpty
  | SettlementLamportsNotConserved | SettlementLamportsBelowRentExempt | WithdrawalSinkMismatch
  | CheckpointCommitTooEarly | CheckpointStateInvalid | CheckpointUnauthorizedCancel
  | CheckpointErSlotNotAdvanced | CheckpointDeserializeFailed | CheckpointCursorStateInvalid
  | CheckpointCursorDeserializeFailed | CheckpointBondInsufficient
  | CheckpointBondAlreadyResolved | CheckpointChallenged | CheckpointChallengeWindowClosed
  | StepProofStateInvalid | StepProofDeserializeFailed | StepProofAlreadySealed
  | StepProofNotSealed | StepProofChunkOutOfBounds | StepProofCheckpointMismatch
  | StepProofVerifierUnavailable | StepProofHashMismatch | CheckpointCancelWindowClosed
  | CheckpointPreviousRootMismatch | CheckpointActiveExists | StepProofPublicInputMismatch
  | ChallengeStateInvalid | ChallengeDeserializeFailed | ChallengeTurnInvalid
  | ChallengeDeadlineNotReached | ChallengeResponseInvalid | DataAvailabilityStateInvalid
  | DataAvailabilityDeserializeFailed | DataAvailabilityCommitmentMismatch
  | CheckpointChallengeWindowTooLong | StepProofVerificationFailed
  | UndelegationRequestAlreadyInitialized | UndelegationRequestDeserializeFailed
  | UndelegationRequestStateInvalid | UndelegationNotSettled

text \<open>Errors of the runtime and of the system program inside a cross-program call.\<close>

datatype instruction_error =
    MissingAccount | PrivilegeEscalation | MissingRequiredSignature | InvalidSeeds
  | AccountAlreadyInUse | InvalidAccountDataLength | InvalidArgument | ResultWithNegativeLamports
  | ExternalAccountLamportSpend | ReadonlyLamportChange | ModifiedProgramId
  | ReadonlyDataModified | ExternalAccountDataModified | CpiArithmeticOverflow

text \<open>\<open>ProgramError\<close>; \<open>Portal\<close> is \<open>From<PortalError>\<close> and \<open>Panicked\<close> a panic, which aborts the
  transaction like any other error.\<close>

datatype program_error =
    NotEnoughAccountKeys | InvalidInstructionData | ProgInvalidAccountData
  | ProgArithmeticOverflow | InsufficientFunds | AccountBorrowFailed | IncorrectProgramId
  | InvalidRealloc | ProgInvalidSeeds | InvalidAccountOwner | ProgMissingRequiredSignature | AccountAlreadyInitialized
  | ProgInvalidArgument | Panicked | Cpi instruction_error | Portal portal_error

type_synonym 'a res = "program_error + 'a"

subsection \<open>Accounts and state\<close>

record account =
  lamports :: u64
  data :: bytes
  owner :: pubkey
  executable :: bool

record account_info =
  address :: pubkey
  is_signer :: bool
  is_writable :: bool

record st =
  accts :: "pubkey \<Rightarrow> account"
  events :: "transfer_event list"

abbreviation lam :: "st \<Rightarrow> pubkey \<Rightarrow> u64" where "lam s k \<equiv> lamports (accts s k)"
abbreviation dat :: "st \<Rightarrow> pubkey \<Rightarrow> bytes" where "dat s k \<equiv> data (accts s k)"
abbreviation own :: "st \<Rightarrow> pubkey \<Rightarrow> pubkey" where "own s k \<equiv> owner (accts s k)"
abbreviation exe :: "st \<Rightarrow> pubkey \<Rightarrow> bool" where "exe s k \<equiv> executable (accts s k)"

definition set_lam :: "pubkey \<Rightarrow> u64 \<Rightarrow> st \<Rightarrow> st" where
  "set_lam k v s = s\<lparr>accts := (accts s)(k := (accts s k)\<lparr>lamports := v\<rparr>)\<rparr>"

definition set_dat :: "pubkey \<Rightarrow> bytes \<Rightarrow> st \<Rightarrow> st" where
  "set_dat k v s = s\<lparr>accts := (accts s)(k := (accts s k)\<lparr>data := v\<rparr>)\<rparr>"

definition set_own :: "pubkey \<Rightarrow> pubkey \<Rightarrow> st \<Rightarrow> st" where
  "set_own k v s = s\<lparr>accts := (accts s)(k := (accts s k)\<lparr>owner := v\<rparr>)\<rparr>"

text \<open>\<open>emit_transfer_event\<close> appends to the transaction log.\<close>

definition emit_transfer_event :: "transfer_event \<Rightarrow> st \<Rightarrow> st" where
  "emit_transfer_event e s = s\<lparr>events := events s @ [e]\<rparr>"

text \<open>Clearing the data of an account: \<open>data.fill(0)\<close>.\<close>

definition fill_zero :: "pubkey \<Rightarrow> st \<Rightarrow> st" where
  "fill_zero k s = set_dat k (replicate (length (dat s k)) 0) s"

lemma set_lam_read [simp, st_simps]:
  "lam (set_lam k v s) j = (if j = k then v else lam s j)"
  "dat (set_lam k v s) j = dat s j"
  "own (set_lam k v s) j = own s j"
  "exe (set_lam k v s) j = exe s j"
  "events (set_lam k v s) = events s"
  by (auto simp: set_lam_def)

lemma set_dat_read [simp, st_simps]:
  "lam (set_dat k v s) j = lam s j"
  "dat (set_dat k v s) j = (if j = k then v else dat s j)"
  "own (set_dat k v s) j = own s j"
  "exe (set_dat k v s) j = exe s j"
  "events (set_dat k v s) = events s"
  by (auto simp: set_dat_def)

lemma set_own_read [simp, st_simps]:
  "lam (set_own k v s) j = lam s j"
  "dat (set_own k v s) j = dat s j"
  "own (set_own k v s) j = (if j = k then v else own s j)"
  "exe (set_own k v s) j = exe s j"
  "events (set_own k v s) = events s"
  by (auto simp: set_own_def)

lemma emit_read [simp, st_simps]:
  "accts (emit_transfer_event e s) = accts s"
  "events (emit_transfer_event e s) = events s @ [e]"
  by (auto simp: emit_transfer_event_def)

lemma fill_zero_read [simp, st_simps]:
  "lam (fill_zero k s) j = lam s j"
  "dat (fill_zero k s) j = (if j = k then replicate (length (dat s k)) 0 else dat s j)"
  "own (fill_zero k s) j = own s j"
  "exe (fill_zero k s) j = exe s j"
  "events (fill_zero k s) = events s"
  by (auto simp: fill_zero_def)

lemma st_eqI:
  assumes "\<And>k. lam s k = lam t k" "\<And>k. dat s k = dat t k" "\<And>k. own s k = own t k"
    "\<And>k. exe s k = exe t k" "events s = events t"
  shows "s = (t :: st)"
  using assms by (auto intro!: account.equality st.equality simp: fun_eq_iff)

lemma acct_eqI:
  "lam s k = lam t k \<Longrightarrow> dat s k = dat t k \<Longrightarrow> own s k = own t k \<Longrightarrow> exe s k = exe t k \<Longrightarrow>
   accts s k = accts t k"
  by (rule account.equality) auto

subsection \<open>Conservation of lamports\<close>

text \<open>There are finitely many addresses, so the lamports of a ledger have a total.\<close>

definition total_lamports :: "st \<Rightarrow> nat" where
  "total_lamports s = (\<Sum>k\<in>UNIV. unat (lam s k))"

lemma total_lamports_cong: "(\<And>k. lam s k = lam t k) \<Longrightarrow> total_lamports s = total_lamports t"
  by (simp add: total_lamports_def)

lemma total_set_lam: "total_lamports (set_lam k v s) + unat (lam s k) = total_lamports s + unat v"
proof -
  have "(\<Sum>j\<in>UNIV. unat (lam (set_lam k v s) j)) =
      unat v + (\<Sum>j\<in>UNIV - {k}. unat (lam (set_lam k v s) j))"
    by (subst sum.remove [of UNIV k]) auto
  also have "(\<Sum>j\<in>UNIV - {k}. unat (lam (set_lam k v s) j)) = (\<Sum>j\<in>UNIV - {k}. unat (lam s j))"
    by (rule sum.cong) auto
  finally show ?thesis
    unfolding total_lamports_def by (subst (2) sum.remove [of UNIV k]) auto
qed

lemma total_other [simp]:
  "total_lamports (set_dat k v s) = total_lamports s"
  "total_lamports (set_own k p s) = total_lamports s"
  "total_lamports (emit_transfer_event e s) = total_lamports s"
  "total_lamports (fill_zero k s) = total_lamports s"
  by (simp_all add: total_lamports_def)

lemma total_move:
  assumes "a \<noteq> b" "unat (lam s a) = unat x + unat d" "unat y = unat (lam s b) + unat d"
  shows "total_lamports (set_lam b y (set_lam a x s)) = total_lamports s"
  using total_set_lam [of a x s] total_set_lam [of b y "set_lam a x s"] assms by simp

end
