(* ===== verification/System_Program.thy ===== *)
theory System_Program
  imports Ledger
begin

text \<open>
  The runtime services of a program (the record \<open>runtime\<close>: library code, taken as parameters, and
  the features the program is built with) and
  its cross-program calls to the system program: the privilege check of
  \<open>invoke_context.rs\<close> and the transfer, allocate and assign instructions of
  \<open>system_processor.rs\<close> with the account setters of \<open>instruction_accounts.rs\<close>.  The account-data
  growth budget of a whole transaction is not tracked.
\<close>

subsection \<open>Library parameters\<close>

record runtime =
  system_id :: pubkey
  clock_slot :: u64
  clock_unix_timestamp :: u64
  clock_from_account :: "pubkey \<Rightarrow> account \<Rightarrow> (u64 \<times> u64) res"
  rent_minimum :: "nat \<Rightarrow> u64 res"
  find_program_address :: "bytes list \<Rightarrow> pubkey \<Rightarrow> pubkey \<times> u8"
  create_program_address :: "bytes list \<Rightarrow> pubkey \<Rightarrow> pubkey option"
  max_permitted_data_length :: u64
  hashv :: "bytes list \<Rightarrow> hash32"
  close_account :: "account \<Rightarrow> account"
  token_id :: pubkey
  mint_initialized :: "pubkey \<Rightarrow> account \<Rightarrow> bool res"
  poseidon :: "bytes list \<Rightarrow> hash32 option"
  negate_g1_be :: "bytes \<Rightarrow> bytes"
  groth16_verify :: "bytes \<Rightarrow> bytes \<Rightarrow> bytes \<Rightarrow> bytes list \<Rightarrow> bool"
  zk_verifier_prototype :: bool
  test_verifier :: bool

subsection \<open>Cross-program call privileges\<close>

record account_meta =
  m_address :: pubkey
  m_signer :: bool
  m_writable :: bool

definition meta_writable :: "account_meta list \<Rightarrow> pubkey \<Rightarrow> bool" where
  "meta_writable ms k = list_ex (\<lambda>m. m_address m = k \<and> m_writable m) ms"

definition meta_signer :: "account_meta list \<Rightarrow> pubkey \<Rightarrow> bool" where
  "meta_signer ms k = list_ex (\<lambda>m. m_address m = k \<and> m_signer m) ms"

fun verify_metas :: "account_info list \<Rightarrow> account_meta list \<Rightarrow> pubkey list \<Rightarrow> account_meta list \<Rightarrow> unit res" where
  "verify_metas caller all signers [] = Inr ()"
| "verify_metas caller all signers (m # ms) =
     (case find (\<lambda>a. address a = m_address m) caller of
        None \<Rightarrow> Inl (Cpi MissingAccount)
      | Some a \<Rightarrow>
          if meta_writable all (m_address m) \<and> \<not> is_writable a then Inl (Cpi PrivilegeEscalation)
          else if meta_signer all (m_address m) \<and> \<not> (is_signer a \<or> m_address m \<in> set signers)
          then Inl (Cpi PrivilegeEscalation)
          else verify_metas caller all signers ms)"

definition verify_instruction_accounts ::
  "account_info list \<Rightarrow> account_meta list \<Rightarrow> pubkey list \<Rightarrow> pubkey \<Rightarrow> unit res" where
  "verify_instruction_accounts caller ms signers program =
     rbind (verify_metas caller ms signers ms) (\<lambda>_.
     if program \<notin> address ` set caller then Inl (Cpi MissingAccount) else Inr ())"

subsection \<open>Account setters of the runtime\<close>

text \<open>The current program of these setters is the system program, and every account it changes
  is writable in the call.\<close>

definition runtime_set_lamports :: "'a runtime_scheme \<Rightarrow> bool \<Rightarrow> pubkey \<Rightarrow> u64 \<Rightarrow> st \<Rightarrow> st res" where
  "runtime_set_lamports R w k v s =
     (if own s k \<noteq> system_id R \<and> v < lam s k then Inl (Cpi ExternalAccountLamportSpend)
      else if \<not> w then Inl (Cpi ReadonlyLamportChange)
      else Inr (set_lam k v s))"

definition checked_add_lamports :: "'a runtime_scheme \<Rightarrow> bool \<Rightarrow> pubkey \<Rightarrow> u64 \<Rightarrow> st \<Rightarrow> st res" where
  "checked_add_lamports R w k d s =
     rbind (ok_or (checked_add (lam s k) d) (Cpi CpiArithmeticOverflow)) (\<lambda>v.
     runtime_set_lamports R w k v s)"

definition checked_sub_lamports :: "'a runtime_scheme \<Rightarrow> bool \<Rightarrow> pubkey \<Rightarrow> u64 \<Rightarrow> st \<Rightarrow> st res" where
  "checked_sub_lamports R w k d s =
     rbind (ok_or (checked_sub (lam s k) d) (Cpi CpiArithmeticOverflow)) (\<lambda>v.
     runtime_set_lamports R w k v s)"

definition is_zeroed :: "bytes \<Rightarrow> bool" where
  "is_zeroed bs = list_all (\<lambda>b. b = 0) bs"

lemma is_zeroed_replicate [simp]: "is_zeroed (replicate n 0)"
  by (simp add: is_zeroed_def list_all_iff)

lemma is_zeroed_Nil [simp]: "is_zeroed []"
  by (simp add: is_zeroed_def)

definition runtime_set_owner :: "'a runtime_scheme \<Rightarrow> bool \<Rightarrow> pubkey \<Rightarrow> pubkey \<Rightarrow> st \<Rightarrow> st res" where
  "runtime_set_owner R w k p s =
     (if own s k \<noteq> system_id R then Inl (Cpi ModifiedProgramId)
      else if \<not> w then Inl (Cpi ModifiedProgramId)
      else if \<not> is_zeroed (dat s k) then Inl (Cpi ModifiedProgramId)
      else Inr (set_own k p s))"

definition runtime_set_data_length :: "'a runtime_scheme \<Rightarrow> bool \<Rightarrow> pubkey \<Rightarrow> nat \<Rightarrow> st \<Rightarrow> st res" where
  "runtime_set_data_length R w k n s =
     (if \<not> w then Inl (Cpi ReadonlyDataModified)
      else if own s k \<noteq> system_id R then Inl (Cpi ExternalAccountDataModified)
      else if length (dat s k) = n then Inr s
      else Inr (set_dat k (take n (dat s k) @ replicate (n - length (dat s k)) 0) s))"

subsection \<open>System instructions\<close>

definition transfer_verified :: "'a runtime_scheme \<Rightarrow> account_meta list \<Rightarrow> pubkey \<Rightarrow> pubkey \<Rightarrow> u64 \<Rightarrow> st \<Rightarrow> st res" where
  "transfer_verified R ms from to amount s =
     (if dat s from \<noteq> [] then Inl (Cpi InvalidArgument)
      else if amount > lam s from then Inl (Cpi ResultWithNegativeLamports)
      else rbind (checked_sub_lamports R (meta_writable ms from) from amount s) (\<lambda>s.
           checked_add_lamports R (meta_writable ms to) to amount s))"

definition system_transfer :: "'a runtime_scheme \<Rightarrow> account_meta list \<Rightarrow> pubkey \<Rightarrow> pubkey \<Rightarrow> u64 \<Rightarrow> st \<Rightarrow> st res" where
  "system_transfer R ms from to amount s =
     (if \<not> meta_signer ms from then Inl (Cpi MissingRequiredSignature)
      else transfer_verified R ms from to amount s)"

definition system_allocate :: "'a runtime_scheme \<Rightarrow> account_meta list \<Rightarrow> pubkey \<Rightarrow> u64 \<Rightarrow> st \<Rightarrow> st res" where
  "system_allocate R ms k space s =
     (if \<not> meta_signer ms k then Inl (Cpi MissingRequiredSignature)
      else if dat s k \<noteq> [] \<or> own s k \<noteq> system_id R then Inl (Cpi AccountAlreadyInUse)
      else if space > max_permitted_data_length R then Inl (Cpi InvalidAccountDataLength)
      else runtime_set_data_length R (meta_writable ms k) k (unat space) s)"

definition system_assign :: "'a runtime_scheme \<Rightarrow> account_meta list \<Rightarrow> pubkey \<Rightarrow> pubkey \<Rightarrow> st \<Rightarrow> st res" where
  "system_assign R ms k p s =
     (if own s k = p then Inr s
      else if \<not> meta_signer ms k then Inl (Cpi MissingRequiredSignature)
      else runtime_set_owner R (meta_writable ms k) k p s)"

definition system_create_account ::
  "'a runtime_scheme \<Rightarrow> account_meta list \<Rightarrow> pubkey \<Rightarrow> pubkey \<Rightarrow> u64 \<Rightarrow> u64 \<Rightarrow> pubkey \<Rightarrow> st \<Rightarrow> st res" where
  "system_create_account R ms from to amount space p s =
     (if lam s to > 0 then Inl (Cpi AccountAlreadyInUse)
      else rbind (system_allocate R ms to space s) (\<lambda>s.
           rbind (system_assign R ms to p s) (\<lambda>s.
           system_transfer R ms from to amount s)))"

subsection \<open>The calls a program makes\<close>

text \<open>A call names its accounts and, for \<open>invoke_signed\<close>, the seeds of an address derived from
  the calling program that signs.\<close>

definition invoke_transfer :: "'a runtime_scheme \<Rightarrow> account_info list \<Rightarrow> pubkey \<Rightarrow> pubkey \<Rightarrow> u64 \<Rightarrow> st \<Rightarrow> st res" where
  "invoke_transfer R caller from to amount s =
     (let ms = [\<lparr>m_address = from, m_signer = True, m_writable = True\<rparr>,
                \<lparr>m_address = to, m_signer = False, m_writable = True\<rparr>]
      in rbind (verify_instruction_accounts caller ms [] (system_id R)) (\<lambda>_.
         system_transfer R ms from to amount s))"

definition derive_signer :: "'a runtime_scheme \<Rightarrow> pubkey \<Rightarrow> bytes list \<Rightarrow> pubkey res" where
  "derive_signer R program seeds = ok_or (create_program_address R seeds program) (Cpi InvalidSeeds)"

definition invoke_allocate ::
  "'a runtime_scheme \<Rightarrow> pubkey \<Rightarrow> account_info list \<Rightarrow> pubkey \<Rightarrow> u64 \<Rightarrow> bytes list \<Rightarrow> st \<Rightarrow> st res" where
  "invoke_allocate R program caller k space seeds s =
     (let ms = [\<lparr>m_address = k, m_signer = True, m_writable = True\<rparr>]
      in rbind (derive_signer R program seeds) (\<lambda>signer.
         rbind (verify_instruction_accounts caller ms [signer] (system_id R)) (\<lambda>_.
         system_allocate R ms k space s)))"

definition invoke_assign ::
  "'a runtime_scheme \<Rightarrow> pubkey \<Rightarrow> account_info list \<Rightarrow> pubkey \<Rightarrow> pubkey \<Rightarrow> bytes list \<Rightarrow> st \<Rightarrow> st res" where
  "invoke_assign R program caller k p seeds s =
     (let ms = [\<lparr>m_address = k, m_signer = True, m_writable = True\<rparr>]
      in rbind (derive_signer R program seeds) (\<lambda>signer.
         rbind (verify_instruction_accounts caller ms [signer] (system_id R)) (\<lambda>_.
         system_assign R ms k p s)))"

definition invoke_create_account ::
  "'a runtime_scheme \<Rightarrow> pubkey \<Rightarrow> account_info list \<Rightarrow> pubkey \<Rightarrow> pubkey \<Rightarrow> u64 \<Rightarrow> u64 \<Rightarrow> pubkey \<Rightarrow> bytes list \<Rightarrow> st \<Rightarrow> st res" where
  "invoke_create_account R program caller from to amount space p seeds s =
     (let ms = [\<lparr>m_address = from, m_signer = True, m_writable = True\<rparr>,
                \<lparr>m_address = to, m_signer = True, m_writable = True\<rparr>]
      in rbind (derive_signer R program seeds) (\<lambda>signer.
         rbind (verify_instruction_accounts caller ms [signer] (system_id R)) (\<lambda>_.
         system_create_account R ms from to amount space p s)))"

subsection \<open>What a successful call does\<close>

lemma invoke_transfer_ok:
  assumes "invoke_transfer R caller from to amount s = Inr s'"
  shows "dat s from = []" "amount \<le> lam s from"
    and "amount \<noteq> 0 \<Longrightarrow> own s from = system_id R"
    and "s' = set_lam to (lam (set_lam from (lam s from - amount) s) to + amount)
            (set_lam from (lam s from - amount) s)"
    and "unat (lam (set_lam from (lam s from - amount) s) to) + unat amount < 2 ^ 64"
  using assms
  by (auto simp: invoke_transfer_def system_transfer_def transfer_verified_def ok_simps Let_def
      checked_sub_lamports_def checked_add_lamports_def runtime_set_lamports_def checked_sub_def
      checked_add_def not_less le_sub_self_iff split: if_splits)

lemma invoke_transfer_total:
  assumes "invoke_transfer R caller from to amount s = Inr s'"
  shows "total_lamports s' = total_lamports s"
proof -
  note ok = invoke_transfer_ok [OF assms]
  let ?m = "set_lam from (lam s from - amount) s"
  have "total_lamports ?m + unat amount = total_lamports s"
    using total_set_lam [of "from" "lam s from - amount" s] ok(2)
    by (simp add: unat_sub word_le_nat_alt)
  then show ?thesis
    using total_set_lam [of to "lam ?m to + amount" ?m] ok(4,5)
    by (simp add: unat_add_exact)
qed

lemma invoke_transfer_frame:
  assumes "invoke_transfer R caller from to amount s = Inr s'"
  shows "dat s' k = dat s k" "own s' k = own s k" "exe s' k = exe s k" "events s' = events s"
    and "k \<noteq> from \<Longrightarrow> k \<noteq> to \<Longrightarrow> lam s' k = lam s k"
    and "from \<noteq> to \<Longrightarrow> unat (lam s' from) + unat amount = unat (lam s from)"
    and "from \<noteq> to \<Longrightarrow> unat (lam s' to) = unat (lam s to) + unat amount"
    and "from = to \<Longrightarrow> lam s' k = lam s k"
  using invoke_transfer_ok [OF assms]
  by (auto simp: unat_sub word_le_nat_alt unat_add_exact)

lemma invoke_allocate_ok:
  assumes "invoke_allocate R program caller k space seeds s = Inr s'"
  shows "dat s k = []" "own s k = system_id R" "s' = set_dat k (replicate (unat space) 0) s"
    "space \<le> max_permitted_data_length R"
  using assms
  by (auto simp: invoke_allocate_def system_allocate_def runtime_set_data_length_def ok_simps Let_def
      st_eqI not_less split: if_splits)

lemma invoke_assign_ok:
  assumes "invoke_assign R program caller k p seeds s = Inr s'"
  shows "s' = set_own k p s"
  using assms
  by (auto simp: invoke_assign_def system_assign_def runtime_set_owner_def ok_simps Let_def
      st_eqI split: if_splits)

lemma invoke_create_account_ok:
  assumes "invoke_create_account R program caller from to amount space p seeds s = Inr s'"
  shows "lam s to = 0" "dat s to = []" "own s to = system_id R" "amount \<noteq> 0 \<Longrightarrow> from \<noteq> to"
    and "dat s' k = (if k = to then replicate (unat space) 0 else dat s k)"
    and "own s' k = (if k = to then p else own s k)" "exe s' k = exe s k" "events s' = events s"
    and "k \<noteq> from \<Longrightarrow> k \<noteq> to \<Longrightarrow> lam s' k = lam s k" "lam s' to = (if from = to then 0 else amount)"
    and "total_lamports s' = total_lamports s"
proof -
  let ?ms = "[\<lparr>m_address = from, m_signer = True, m_writable = True\<rparr>, \<lparr>m_address = to, m_signer = True, m_writable = True\<rparr>]"
  from assms obtain s1 s2 where z: "lam s to = 0" and a: "system_allocate R ?ms to space s = Inr s1"
    and b: "system_assign R ?ms to p s1 = Inr s2" and c: "system_transfer R ?ms from to amount s2 = Inr s'"
    by (auto simp: invoke_create_account_def system_create_account_def ok_simps Let_def word_gt_0)
  have s1: "dat s to = []" "own s to = system_id R" "s1 = set_dat to (replicate (unat space) 0) s"
    using a by (auto simp: system_allocate_def runtime_set_data_length_def ok_simps st_eqI split: if_splits)
  have s2: "s2 = set_own to p s1"
    using b by (auto simp: system_assign_def runtime_set_owner_def ok_simps st_eqI split: if_splits)
  have m: "meta_writable ?ms from" "meta_writable ?ms to" by (simp_all add: meta_writable_def)
  have s': "amount \<le> lam s2 from" "s' = set_lam to (lam (set_lam from (lam s2 from - amount) s2) to + amount) (set_lam from (lam s2 from - amount) s2)"
      "unat (lam (set_lam from (lam s2 from - amount) s2) to) + unat amount < 2 ^ 64"
    using c by (auto simp: system_transfer_def transfer_verified_def ok_simps checked_sub_lamports_def checked_add_lamports_def
        runtime_set_lamports_def checked_sub_def checked_add_def not_less m split: if_splits)
  show "lam s to = 0" "dat s to = []" "own s to = system_id R" by (rule z s1)+
  show "amount \<noteq> 0 \<Longrightarrow> from \<noteq> to" using s'(1) z by (auto simp: s2 s1(3))
  show "dat s' k = (if k = to then replicate (unat space) 0 else dat s k)"
    "own s' k = (if k = to then p else own s k)" "exe s' k = exe s k" "events s' = events s"
    "k \<noteq> from \<Longrightarrow> k \<noteq> to \<Longrightarrow> lam s' k = lam s k" "lam s' to = (if from = to then 0 else amount)"
    using z by (auto simp: s'(2) s2 s1(3))
  have "total_lamports (set_lam from (lam s2 from - amount) s2) + unat amount = total_lamports s2"
    using total_set_lam [of "from" "lam s2 from - amount" s2] s'(1) by (simp add: unat_sub word_le_nat_alt)
  then show "total_lamports s' = total_lamports s"
    using total_set_lam [of to "lam (set_lam from (lam s2 from - amount) s2) to + amount" "set_lam from (lam s2 from - amount) s2"] s'(3)
    by (simp add: s'(2) unat_add_exact s2 s1(3))
qed

end
