(* ===== verification/Zk_Continuity.thy ===== *)
theory Zk_Continuity
  imports Borsh
begin

text \<open>
  The version-2 continuity types shared by the Portal and the provers
  (\<open>zk-types/src/continuity.rs\<close>): session identities, ingress payloads and records, state-root
  openings and input contexts, each with its validity check and its domain-separated commitment.
  The hash function and the codecs are parameters.
\<close>

definition ascii :: "string \<Rightarrow> bytes" where
  "ascii cs = map of_char cs"

type_synonym hasher = "bytes list \<Rightarrow> hash32"

datatype continuity_error =
  Encoding | UnsupportedVersion | InvalidIdentity | InvalidSequence | InvalidRoot | InvalidPayload

definition CHECKPOINT_FORMAT_VERSION_V2 :: u8 where "CHECKPOINT_FORMAT_VERSION_V2 = 2"
definition INGRESS_RECORD_DISCRIMINATOR_V2 :: u64 where
  "INGRESS_RECORD_DISCRIMINATOR_V2 = le_word (ascii ''NSINGR02'')"
definition INGRESS_RECORD_SEED_V2 :: bytes where "INGRESS_RECORD_SEED_V2 = ascii ''ingress_v2''"
definition MAX_INGRESS_ENCODING_BYTES_V2 :: nat where "MAX_INGRESS_ENCODING_BYTES_V2 = 512"

subsection \<open>Commitments\<close>

text \<open>\<open>root[0] &= 0x1f\<close> clears the top three bits of the first byte.\<close>

definition mask_root :: "hash32 \<Rightarrow> hash32" where
  "mask_root w = w AND NOT 224"

definition commitment :: "'a codec \<Rightarrow> bytes \<Rightarrow> 'a \<Rightarrow> hasher \<Rightarrow> continuity_error + hash32" where
  "commitment c label v hash =
     (let encoded = ser c v in
      if length encoded > MAX_INGRESS_ENCODING_BYTES_V2 then Inl Encoding
      else if length label \<ge> 2 ^ 16 then Inl Encoding
      else Inr (mask_root (hash [ascii ''northstar-continuity-v2'', u16_le (of_nat (length label)),
             label, u16_le (of_nat (length encoded)), encoded])))"

subsection \<open>Session identity\<close>

record session_identity =
  id_version :: u8
  id_l1_genesis :: hash32
  id_portal :: hash32
  id_session :: hash32
  id_nonce :: u128
  id_grid_id :: u64
  id_validator :: hash32
  id_profile :: hash32

definition identity_commitment ::
  "session_identity codec \<Rightarrow> session_identity \<Rightarrow> hasher \<Rightarrow> continuity_error + hash32" where
  "identity_commitment c i hash =
     (if id_version i \<noteq> CHECKPOINT_FORMAT_VERSION_V2 then Inl UnsupportedVersion
      else if 0 \<in> set [id_l1_genesis i, id_portal i, id_session i, id_validator i, id_profile i]
              \<or> id_nonce i = 0 then Inl InvalidIdentity
      else commitment c (ascii ''session'') i hash)"

subsection \<open>Ingress payloads and records\<close>

datatype ingress_payload =
    Delegation (dl_account: hash32) (dl_record: hash32) (dl_owner: hash32) (dl_lamports: u64)
      (dl_data_len: u32) (dl_data_hash: hash32) (dl_executable: bool) (dl_rent_epoch: u64)
  | SolDeposit (sd_recipient: hash32) (sd_receipt: hash32) (sd_amount: u64) (sd_cumulative: u64)
  | TokenDeposit (td_bridge: hash32) (td_session_bridge: hash32) (td_account: hash32)
      (td_receipt: hash32) (td_mint: hash32) (td_token_program: hash32) (td_origin_deposited: u64)
      (td_amount: u64) (td_cumulative: u64)
  | Freeze (fz_account: hash32) (fz_request: hash32) (fz_requested_l1_slot: u64)
  | Release (rl_account: hash32) (rl_request: hash32)

fun payload_account :: "ingress_payload \<Rightarrow> hash32" where
  "payload_account (Delegation account _ _ _ _ _ _ _) = account"
| "payload_account (TokenDeposit _ _ account _ _ _ _ _ _) = account"
| "payload_account (Freeze account _ _) = account"
| "payload_account (Release account _) = account"
| "payload_account (SolDeposit recipient _ _ _) = recipient"

fun payload_fields_valid :: "ingress_payload \<Rightarrow> bool" where
  "payload_fields_valid (Delegation _ record _ _ _ data_hash executable _) =
     (record \<noteq> 0 \<and> data_hash \<noteq> 0 \<and> \<not> executable)"
| "payload_fields_valid (SolDeposit _ receipt amount cumulative) =
     (receipt \<noteq> 0 \<and> amount > 0 \<and> cumulative \<ge> amount)"
| "payload_fields_valid (TokenDeposit bridge session_bridge _ receipt mint token_program origin amount cumulative) =
     (0 \<notin> set [bridge, session_bridge, receipt, mint, token_program] \<and> amount > 0
      \<and> (case checked_sub cumulative origin of None \<Rightarrow> False | Some available \<Rightarrow> available \<ge> amount))"
| "payload_fields_valid (Freeze _ request _) = (request \<noteq> 0)"
| "payload_fields_valid (Release _ request) = (request \<noteq> 0)"

definition payload_validate :: "ingress_payload \<Rightarrow> continuity_error + unit" where
  "payload_validate p =
     (if payload_fields_valid p \<and> payload_account p \<noteq> 0 then Inr () else Inl InvalidPayload)"

record ingress_record =
  ir_discriminator :: u64
  ir_version :: u8
  ir_session_context :: hash32
  ir_sequence :: u64
  ir_l1_slot :: u64
  ir_previous_root :: hash32
  ir_payload :: ingress_payload
  ir_root :: hash32
  ir_bump :: u8

type_synonym ingress_preimage = "u8 \<times> hash32 \<times> u64 \<times> u64 \<times> hash32 \<times> ingress_payload"

definition computed_root :: "ingress_preimage codec \<Rightarrow> ingress_record \<Rightarrow> hasher \<Rightarrow> continuity_error + hash32" where
  "computed_root c r hash = commitment c (ascii ''ingress'')
     (ir_version r, ir_session_context r, ir_sequence r, ir_l1_slot r, ir_previous_root r, ir_payload r) hash"

definition ingress_record_new ::
  "ingress_preimage codec \<Rightarrow> hash32 \<Rightarrow> u64 \<Rightarrow> u64 \<Rightarrow> hash32 \<Rightarrow> ingress_payload \<Rightarrow> u8 \<Rightarrow> hasher
    \<Rightarrow> continuity_error + ingress_record" where
  "ingress_record_new c context sequence l1_slot previous_root payload bump hash =
     (let record = \<lparr>ir_discriminator = INGRESS_RECORD_DISCRIMINATOR_V2,
        ir_version = CHECKPOINT_FORMAT_VERSION_V2, ir_session_context = context,
        ir_sequence = sequence, ir_l1_slot = l1_slot, ir_previous_root = previous_root,
        ir_payload = payload, ir_root = 0, ir_bump = bump\<rparr>
      in rbind (payload_validate payload) (\<lambda>_.
         if context = 0 \<or> sequence = 0 then Inl InvalidSequence
         else rbind (computed_root c record hash) (\<lambda>root. Inr (record\<lparr>ir_root := root\<rparr>))))"

definition validate_next ::
  "ingress_preimage codec \<Rightarrow> ingress_record \<Rightarrow> hash32 \<Rightarrow> u64 \<Rightarrow> hash32 \<Rightarrow> hasher \<Rightarrow> continuity_error + unit" where
  "validate_next c r context consumed previous_root hash =
     (if ir_discriminator r \<noteq> INGRESS_RECORD_DISCRIMINATOR_V2
         \<or> ir_version r \<noteq> CHECKPOINT_FORMAT_VERSION_V2 then Inl UnsupportedVersion
      else if ir_session_context r \<noteq> context then Inl InvalidIdentity
      else if Some (ir_sequence r) \<noteq> checked_add consumed 1 then Inl InvalidSequence
      else rbind (payload_validate (ir_payload r)) (\<lambda>_.
        if ir_previous_root r \<noteq> previous_root then Inl InvalidRoot
        else rbind (computed_root c r hash) (\<lambda>root.
        if ir_root r \<noteq> root then Inl InvalidRoot else Inr ())))"

subsection \<open>State-root openings and input contexts\<close>

record state_root_opening =
  so_session_context :: hash32
  so_account_root :: hash32
  so_origin_root :: hash32
  so_ingress_count :: u64
  so_ingress_root :: hash32

definition opening_commitment ::
  "state_root_opening codec \<Rightarrow> state_root_opening \<Rightarrow> hasher \<Rightarrow> continuity_error + hash32" where
  "opening_commitment c r hash =
     (if so_session_context r = 0 then Inl InvalidIdentity
      else if so_account_root r = 0 \<or> so_origin_root r = 0 then Inl InvalidRoot
      else if (so_ingress_count r = 0) \<noteq> (so_ingress_root r = 0) then Inl InvalidRoot
      else commitment c (ascii ''state'') r hash)"

definition empty_state_opening_v2 ::
  "state_root_opening codec \<Rightarrow> hash32 codec \<Rightarrow> hash32 \<Rightarrow> hasher \<Rightarrow> continuity_error + state_root_opening" where
  "empty_state_opening_v2 c ch context hash =
     (let empty_leaf = hash [ascii ''northstar-checkpoint-v1'', ascii ''state'', ascii ''empty-leaf'',
            u64_le 4, u32_le 0];
          account_root = mask_root (hash [ascii ''northstar-checkpoint-v1'', ascii ''state'', ascii ''root'',
            u32_le 0, key_bytes empty_leaf])
      in rbind (commitment ch (ascii ''origins'') (hash [replicate 20 0]) hash) (\<lambda>origin_root.
         let opening = \<lparr>so_session_context = context, so_account_root = account_root,
            so_origin_root = origin_root, so_ingress_count = 0, so_ingress_root = 0\<rparr>
         in rbind (opening_commitment c opening hash) (\<lambda>_. Inr opening)))"

record input_context =
  ic_session_context :: hash32
  ic_readonly_l1_root :: hash32
  ic_ingress_start :: u64
  ic_ingress_start_root :: hash32
  ic_ingress_end :: u64
  ic_ingress_end_root :: hash32

definition input_context_commitment ::
  "input_context codec \<Rightarrow> input_context \<Rightarrow> hasher \<Rightarrow> continuity_error + hash32" where
  "input_context_commitment c x hash =
     (if ic_session_context x = 0 \<or> ic_readonly_l1_root x = 0
         \<or> ic_ingress_start x > ic_ingress_end x
         \<or> (ic_ingress_start x = 0) \<noteq> (ic_ingress_start_root x = 0)
         \<or> (ic_ingress_end x = 0) \<noteq> (ic_ingress_end_root x = 0) then Inl InvalidRoot
      else commitment c (ascii ''input-context'') x hash)"

end
