(* ===== verification/Portal_State.thy ===== *)
theory Portal_State
  imports System_Program Zk_Continuity
begin

text \<open>
  The stored structs of the Portal program (\<open>portal/src/state.rs\<close> and the version-2 frames of
  \<open>portal/src/continuity.rs\<close>), its constants, its derived addresses (\<open>portal/src/pda.rs\<close>), the
  version-agnostic readers and writers of sessions and deposit receipts, and the interface
  \<open>portal_env\<close> of the library code the instructions use.
\<close>

subsection \<open>Constants\<close>

definition MAX_SETTLEMENT_CHUNK :: nat where "MAX_SETTLEMENT_CHUNK = 700"
definition MAX_SETTLEMENT_LAMPORT_ACCOUNTS :: nat where "MAX_SETTLEMENT_LAMPORT_ACCOUNTS = 7"
definition CHECKPOINT_PROPOSER_BOND_LAMPORTS :: u64 where "CHECKPOINT_PROPOSER_BOND_LAMPORTS = 1000000"
definition MAX_CHECKPOINT_CADENCE_L1_SLOTS :: u64 where "MAX_CHECKPOINT_CADENCE_L1_SLOTS = 75"
definition CANONICAL_CHECKPOINT_STEPS :: u64 where "CANONICAL_CHECKPOINT_STEPS = 16"
definition TRACE_AUTH_PATH_NODES :: nat where "TRACE_AUTH_PATH_NODES = 5"
definition TX_EFFECT_AUTH_PATH_NODES :: nat where "TX_EFFECT_AUTH_PATH_NODES = 4"
definition MAX_CHALLENGE_WINDOW_SLOTS :: u64 where "MAX_CHALLENGE_WINDOW_SLOTS = 9000"
definition CHALLENGE_TURN_WINDOW_SLOTS :: u64 where "CHALLENGE_TURN_WINDOW_SLOTS = 750"
definition MAX_STEP_PROOF_BYTES :: nat where "MAX_STEP_PROOF_BYTES = 356"
definition MAX_STEP_PROOF_CHUNK :: nat where "MAX_STEP_PROOF_CHUNK = 128"

definition WITHDRAWAL_SINK :: pubkey where
  "WITHDRAWAL_SINK = le_word [0x05, 0x7d, 0x77, 0xa2, 0x13, 0x37, 0xb6, 0x2d, 0xb7, 0x7d, 0xba, 0x7e,
     0x26, 0xf8, 0xe1, 0x47, 0x06, 0x35, 0xbd, 0x36, 0x53, 0x76, 0xa6, 0x7d, 0x7f, 0xf5, 0xa1, 0x82,
     0x3e, 0xe0, 0x8f, 0xb8]"

subsection \<open>Sessions and fee vaults\<close>

datatype settlement_status = Idle | InProgress

record session =
  s_discriminator :: u64
  s_grid_id :: u64
  s_ttl_slots :: u64
  s_fee_cap :: u64
  s_created_at :: u64
  s_nonce :: u128
  s_authority :: pubkey
  s_validator :: pubkey
  s_settlement_interval_slots :: u64
  s_last_settled_l1_slot :: u64
  s_last_settled_er_slot :: u64
  s_settlement_status :: settlement_status
  s_settlement_er_slot :: u64
  s_settlement_checksum :: hash32
  s_settlement_accumulator :: hash32
  s_settlement_started_l1_slot :: u64
  s_bump :: u8

definition session_DISCRIMINATOR :: u64 where
  "session_DISCRIMINATOR = le_word [243, 81, 72, 115, 214, 188, 72, 144]"

definition session_is_valid :: "session \<Rightarrow> bool" where
  "session_is_valid x = (s_discriminator x = session_DISCRIMINATOR)"

definition session_is_expired :: "session \<Rightarrow> u64 \<Rightarrow> bool" where
  "session_is_expired x slot = (slot > saturating_add (s_created_at x) (s_ttl_slots x))"

record fee_vault =
  fv_discriminator :: u64
  fv_authority :: pubkey
  fv_bump :: u8

definition fee_vault_DISCRIMINATOR :: u64 where
  "fee_vault_DISCRIMINATOR = le_word [192, 178, 69, 232, 58, 149, 157, 132]"

definition fee_vault_is_valid :: "fee_vault \<Rightarrow> bool" where
  "fee_vault_is_valid x = (fv_discriminator x = fee_vault_DISCRIMINATOR)"

subsection \<open>Checkpoints\<close>

datatype checkpoint_status = Pending | Committed | Cancelled | Settled | Challenged | Invalid
datatype bond_status = Locked | Released | Slashed

record checkpoint =
  cp_discriminator :: u64
  cp_session :: pubkey
  cp_er_slot :: u64
  cp_step_count :: u64
  cp_previous_state_root :: hash32
  cp_new_state_root :: hash32
  cp_trace_root :: hash32
  cp_tx_effect_root :: hash32
  cp_readonly_l1_root :: hash32
  cp_da_commitment :: hash32
  cp_effect_commitment :: hash32
  cp_proposer :: pubkey
  cp_proposed_at_l1_slot :: u64
  cp_challenge_deadline_l1_slot :: u64
  cp_status :: checkpoint_status
  cp_bond_lamports :: u64
  cp_bond_status :: bond_status
  cp_challenger :: pubkey
  cp_challenged_at_l1_slot :: u64
  cp_challenge_resolved :: bool
  cp_bump :: u8

definition checkpoint_DISCRIMINATOR :: u64 where
  "checkpoint_DISCRIMINATOR = le_word [199, 62, 186, 186, 98, 119, 211, 139]"

definition checkpoint_is_valid :: "checkpoint \<Rightarrow> bool" where
  "checkpoint_is_valid x = (cp_discriminator x = checkpoint_DISCRIMINATOR)"

record cursor =
  cc_discriminator :: u64
  cc_session :: pubkey
  cc_latest_finalized_checkpoint :: pubkey
  cc_latest_finalized_er_slot :: u64
  cc_latest_finalized_state_root :: hash32
  cc_active_checkpoint :: pubkey
  cc_active_er_slot :: u64
  cc_bump :: u8

definition cursor_DISCRIMINATOR :: u64 where
  "cursor_DISCRIMINATOR = le_word [251, 223, 216, 188, 51, 244, 129, 196]"

definition cursor_is_valid :: "cursor \<Rightarrow> bool" where
  "cursor_is_valid x = (cc_discriminator x = cursor_DISCRIMINATOR)"

subsection \<open>Challenges, data availability and step proofs\<close>

datatype challenge_status = Active | ChallengerWon | ValidatorWon
datatype challenge_turn = Respondent | Challenger | Prove

record challenge =
  ch_discriminator :: u64
  ch_checkpoint :: pubkey
  ch_challenger :: pubkey
  ch_respondent :: pubkey
  ch_opened_at_l1_slot :: u64
  ch_hard_deadline_l1_slot :: u64
  ch_turn_deadline_l1_slot :: u64
  ch_start_step :: u64
  ch_end_step :: u64
  ch_midpoint_step :: u64
  ch_start_state_root :: hash32
  ch_end_state_root :: hash32
  ch_midpoint_state_root :: hash32
  ch_status :: challenge_status
  ch_turn :: challenge_turn
  ch_rounds :: u32
  ch_bump :: u8

definition challenge_DISCRIMINATOR :: u64 where
  "challenge_DISCRIMINATOR = le_word [119, 250, 161, 121, 119, 81, 22, 208]"

definition challenge_is_valid :: "challenge \<Rightarrow> bool" where
  "challenge_is_valid x = (ch_discriminator x = challenge_DISCRIMINATOR)"

datatype da_status = Missing | Revealed | Defaulted

record da_proof =
  da_discriminator :: u64
  da_challenge :: pubkey
  da_checkpoint :: pubkey
  da_commitment :: hash32
  da_payload_root :: hash32
  da_inclusion_proof_hash :: hash32
  da_revealed_at_l1_slot :: u64
  da_status :: da_status
  da_bump :: u8

definition da_proof_DISCRIMINATOR :: u64 where
  "da_proof_DISCRIMINATOR = le_word [24, 139, 155, 40, 135, 132, 79, 129]"

definition da_proof_is_valid :: "da_proof \<Rightarrow> bool" where
  "da_proof_is_valid x = (da_discriminator x = da_proof_DISCRIMINATOR)"

record step_proof =
  sp_discriminator :: u64
  sp_checkpoint :: pubkey
  sp_challenge :: pubkey
  sp_authority :: pubkey
  sp_proof_kind :: u8
  sp_proof_version :: u8
  sp_step_index :: u64
  sp_session_context :: hash32
  sp_tx_effect_root :: hash32
  sp_readonly_l1_root :: hash32
  sp_settlement_effect_root :: hash32
  sp_public_input_hash :: hash32
  sp_written_len :: u32
  sp_sealed :: bool
  sp_proof_hash :: hash32
  sp_bump :: u8
  sp_data :: bytes

definition step_proof_DISCRIMINATOR :: u64 where
  "step_proof_DISCRIMINATOR = le_word [62, 34, 242, 0, 245, 185, 56, 19]"

definition step_proof_is_valid :: "step_proof \<Rightarrow> bool" where
  "step_proof_is_valid x = (sp_discriminator x = step_proof_DISCRIMINATOR)"

text \<open>The buffer \<open>data\<close> is a \<open>[u8; 356]\<close> array.\<close>

definition step_proof_wf :: "step_proof \<Rightarrow> bool" where
  "step_proof_wf x = (length (sp_data x) = MAX_STEP_PROOF_BYTES)"

subsection \<open>Delegation\<close>

record delegation_record =
  dr_discriminator :: u64
  dr_owner_program :: pubkey
  dr_grid_id :: u64
  dr_bump :: u8

definition delegation_record_DISCRIMINATOR :: u64 where
  "delegation_record_DISCRIMINATOR = le_word [203, 185, 161, 226, 129, 251, 132, 155]"

definition delegation_record_is_valid :: "delegation_record \<Rightarrow> bool" where
  "delegation_record_is_valid x = (dr_discriminator x = delegation_record_DISCRIMINATOR)"

record undelegation_request =
  ur_discriminator :: u64
  ur_session :: pubkey
  ur_delegated_account :: pubkey
  ur_owner_program :: pubkey
  ur_authority :: pubkey
  ur_requested_at_l1_slot :: u64
  ur_approved :: bool
  ur_bump :: u8

definition undelegation_request_DISCRIMINATOR :: u64 where
  "undelegation_request_DISCRIMINATOR = le_word [141, 66, 225, 119, 110, 101, 37, 38]"

definition undelegation_request_is_valid :: "undelegation_request \<Rightarrow> bool" where
  "undelegation_request_is_valid x = (ur_discriminator x = undelegation_request_DISCRIMINATOR)"

subsection \<open>Deposits, bridges and token withdrawals\<close>

record deposit_receipt =
  rc_discriminator :: u64
  rc_session :: pubkey
  rc_recipient :: pubkey
  rc_balance :: u64
  rc_withdrawn :: u64
  rc_bump :: u8

definition deposit_receipt_DISCRIMINATOR :: u64 where
  "deposit_receipt_DISCRIMINATOR = le_word [64, 175, 24, 183, 138, 109, 70, 78]"

definition deposit_receipt_is_valid :: "deposit_receipt \<Rightarrow> bool" where
  "deposit_receipt_is_valid x = (rc_discriminator x = deposit_receipt_DISCRIMINATOR)"

record session_bridge =
  sb_discriminator :: u64
  sb_session :: pubkey
  sb_mint :: pubkey
  sb_bridge_program :: pubkey
  sb_vault :: pubkey
  sb_token_program :: pubkey
  sb_bump :: u8

definition session_bridge_DISCRIMINATOR :: u64 where
  "session_bridge_DISCRIMINATOR = le_word [145, 47, 8, 254, 118, 119, 114, 215]"

definition session_bridge_is_valid :: "session_bridge \<Rightarrow> bool" where
  "session_bridge_is_valid x = (sb_discriminator x = session_bridge_DISCRIMINATOR)"

record token_withdrawal_authorization =
  tw_discriminator :: u64
  tw_checkpoint :: pubkey
  tw_tuple_hash :: hash32
  tw_consumed :: bool
  tw_bump :: u8

definition token_withdrawal_authorization_DISCRIMINATOR :: u64 where
  "token_withdrawal_authorization_DISCRIMINATOR = le_word [201, 36, 84, 147, 113, 63, 92, 11]"

definition token_withdrawal_authorization_is_valid :: "token_withdrawal_authorization \<Rightarrow> bool" where
  "token_withdrawal_authorization_is_valid x =
     (tw_discriminator x = token_withdrawal_authorization_DISCRIMINATOR)"

end
