(* ===== verification/Portal_Env.thy ===== *)
theory Portal_Env
  imports Portal_State
begin

text \<open>
  The environment of the Portal's instructions: the version-2 frames
  (\<open>portal/src/continuity.rs\<close>), the record \<open>portal_env\<close> of library parameters (the runtime and
  one codec per stored struct), derived addresses, reading and writing of stored structs, the
  creation of program-owned accounts (\<open>instructions/mod.rs\<close>), and the interface locale
  \<open>portal_codecs\<close> with the layouts that satisfy it.
\<close>

subsection \<open>Version-2 frames\<close>

record session_v2 =
  s2_discriminator :: u64
  s2_base :: session
  s2_l1_genesis :: hash32
  s2_profile :: hash32
  s2_ingress_count :: u64
  s2_ingress_root :: hash32
  s2_consumed_ingress_count :: u64
  s2_consumed_ingress_root :: hash32

definition session_v2_DISCRIMINATOR :: u64 where
  "session_v2_DISCRIMINATOR = le_word (ascii ''NSSESS02'')"

definition session_v2_identity :: "session_v2 \<Rightarrow> pubkey \<Rightarrow> pubkey \<Rightarrow> session_identity" where
  "session_v2_identity x portal session = \<lparr>id_version = 2, id_l1_genesis = s2_l1_genesis x,
     id_portal = portal, id_session = session, id_nonce = s_nonce (s2_base x),
     id_grid_id = s_grid_id (s2_base x), id_validator = s_validator (s2_base x),
     id_profile = s2_profile x\<rparr>"

definition session_v2_is_valid :: "session_v2 \<Rightarrow> bool" where
  "session_v2_is_valid x =
     (s2_discriminator x = session_v2_DISCRIMINATOR
      \<and> session_is_valid (s2_base x)
      \<and> s_nonce (s2_base x) > 0
      \<and> s2_l1_genesis x \<noteq> 0
      \<and> s2_profile x \<noteq> 0
      \<and> s2_consumed_ingress_count x \<le> s2_ingress_count x
      \<and> (s2_ingress_count x = 0) = (s2_ingress_root x = 0)
      \<and> (s2_consumed_ingress_count x = 0) = (s2_consumed_ingress_root x = 0))"

record session_epoch_v2 =
  se_discriminator :: u64
  se_last_nonce :: u128
  se_bump :: u8

definition session_epoch_v2_DISCRIMINATOR :: u64 where
  "session_epoch_v2_DISCRIMINATOR = le_word (ascii ''NSEPOCH2'')"

record deposit_receipt_v2 =
  r2_discriminator :: u64
  r2_base :: deposit_receipt
  r2_session_context :: hash32
  r2_total_deposited :: u64

definition deposit_receipt_v2_DISCRIMINATOR :: u64 where
  "deposit_receipt_v2_DISCRIMINATOR = le_word (ascii ''NSRECP02'')"

record session_bridge_v2 =
  b2_discriminator :: u64
  b2_base :: session_bridge
  b2_session_context :: hash32

definition session_bridge_v2_DISCRIMINATOR :: u64 where
  "session_bridge_v2_DISCRIMINATOR = le_word (ascii ''NSBRDG02'')"

definition session_bridge_v2_is_valid :: "session_bridge_v2 \<Rightarrow> bool" where
  "session_bridge_v2_is_valid x =
     (b2_discriminator x = session_bridge_v2_DISCRIMINATOR
      \<and> session_bridge_is_valid (b2_base x)
      \<and> b2_session_context x \<noteq> 0)"

record checkpoint_binding_v2 =
  cb_discriminator :: u64
  cb_checkpoint :: hash32
  cb_pre :: state_root_opening
  cb_post :: state_root_opening
  cb_prefix_record :: hash32
  cb_input_context_root :: hash32
  cb_bump :: u8

definition checkpoint_binding_v2_DISCRIMINATOR :: u64 where
  "checkpoint_binding_v2_DISCRIMINATOR = le_word (ascii ''NSCHKP02'')"

subsection \<open>Library parameters of the Portal\<close>

record portal_env = runtime +
  session_codec :: "session codec"
  session_v2_codec :: "session_v2 codec"
  fee_vault_codec :: "fee_vault codec"
  checkpoint_codec :: "checkpoint codec"
  cursor_codec :: "cursor codec"
  challenge_codec :: "challenge codec"
  da_proof_codec :: "da_proof codec"
  step_proof_codec :: "step_proof codec"
  delegation_record_codec :: "delegation_record codec"
  undelegation_request_codec :: "undelegation_request codec"
  deposit_receipt_codec :: "deposit_receipt codec"
  deposit_receipt_v2_codec :: "deposit_receipt_v2 codec"
  session_bridge_codec :: "session_bridge codec"
  token_withdrawal_authorization_codec :: "token_withdrawal_authorization codec"
  session_identity_codec :: "session_identity codec"

subsection \<open>Derived addresses\<close>

definition find_session_pda :: "portal_env \<Rightarrow> pubkey \<Rightarrow> pubkey \<times> u8" where
  "find_session_pda E program = find_program_address E [ascii ''session''] program"

definition find_fee_vault_pda :: "portal_env \<Rightarrow> pubkey \<Rightarrow> pubkey \<times> u8" where
  "find_fee_vault_pda E program = find_program_address E [ascii ''fee_vault''] program"

definition find_delegation_record_pda :: "portal_env \<Rightarrow> pubkey \<Rightarrow> pubkey \<Rightarrow> pubkey \<times> u8" where
  "find_delegation_record_pda E program k =
     find_program_address E [ascii ''delegation'', key_bytes k] program"

definition find_undelegation_request_pda :: "portal_env \<Rightarrow> pubkey \<Rightarrow> pubkey \<Rightarrow> pubkey \<times> u8" where
  "find_undelegation_request_pda E program k =
     find_program_address E [ascii ''undelegation_request'', key_bytes k] program"

definition find_checkpoint_pda :: "portal_env \<Rightarrow> pubkey \<Rightarrow> pubkey \<Rightarrow> u64 \<Rightarrow> pubkey \<times> u8" where
  "find_checkpoint_pda E program session er_slot =
     find_program_address E [ascii ''checkpoint'', key_bytes session, u64_le er_slot] program"

definition find_checkpoint_cursor_pda :: "portal_env \<Rightarrow> pubkey \<Rightarrow> pubkey \<Rightarrow> pubkey \<times> u8" where
  "find_checkpoint_cursor_pda E program session =
     find_program_address E [ascii ''checkpoint_cursor'', key_bytes session] program"

definition find_challenge_pda :: "portal_env \<Rightarrow> pubkey \<Rightarrow> pubkey \<Rightarrow> pubkey \<times> u8" where
  "find_challenge_pda E program checkpoint =
     find_program_address E [ascii ''challenge'', key_bytes checkpoint] program"

definition find_da_proof_pda :: "portal_env \<Rightarrow> pubkey \<Rightarrow> pubkey \<Rightarrow> pubkey \<times> u8" where
  "find_da_proof_pda E program challenge =
     find_program_address E [ascii ''da_proof'', key_bytes challenge] program"

definition find_step_proof_pda :: "portal_env \<Rightarrow> pubkey \<Rightarrow> pubkey \<Rightarrow> pubkey \<times> u8" where
  "find_step_proof_pda E program checkpoint =
     find_program_address E [ascii ''step_proof'', key_bytes checkpoint] program"

definition find_deposit_receipt_pda :: "portal_env \<Rightarrow> pubkey \<Rightarrow> pubkey \<Rightarrow> pubkey \<Rightarrow> pubkey \<times> u8" where
  "find_deposit_receipt_pda E program session recipient =
     find_program_address E [ascii ''deposit_receipt'', key_bytes session, key_bytes recipient] program"

definition find_deposit_receipt_v2_pda :: "portal_env \<Rightarrow> pubkey \<Rightarrow> hash32 \<Rightarrow> pubkey \<Rightarrow> pubkey \<times> u8" where
  "find_deposit_receipt_v2_pda E program context recipient =
     find_program_address E [ascii ''deposit_receipt_v2'', key_bytes context, key_bytes recipient] program"

definition find_session_bridge_pda :: "portal_env \<Rightarrow> pubkey \<Rightarrow> pubkey \<Rightarrow> pubkey \<Rightarrow> pubkey \<times> u8" where
  "find_session_bridge_pda E program session mint =
     find_program_address E [ascii ''session_bridge'', key_bytes session, key_bytes mint] program"

definition find_token_withdrawal_authorization_pda ::
  "portal_env \<Rightarrow> pubkey \<Rightarrow> pubkey \<Rightarrow> pubkey \<Rightarrow> u64 \<Rightarrow> pubkey \<times> u8" where
  "find_token_withdrawal_authorization_pda E program checkpoint vault withdrawn =
     find_program_address E
       [ascii ''token_withdrawal_auth'', key_bytes checkpoint, key_bytes vault, u64_le withdrawn] program"

subsection \<open>Reading and writing stored structs\<close>

text \<open>\<open>T::try_from_slice(&account.try_borrow()?).map_err(|_| e)?\<close>\<close>

definition load :: "'a codec \<Rightarrow> portal_error \<Rightarrow> st \<Rightarrow> pubkey \<Rightarrow> 'a res" where
  "load c e s k = ok_or (try_from_slice c (dat s k)) (Portal e)"

text \<open>\<open>BorshSerialize::serialize(&v, &mut &mut data[..])\<close>, with the error of the call site
  (a panic for \<open>unwrap\<close>).\<close>

definition store :: "'a codec \<Rightarrow> 'a \<Rightarrow> program_error \<Rightarrow> pubkey \<Rightarrow> st \<Rightarrow> st res" where
  "store c v e k s = rbind (ok_or (write_slice c v (dat s k)) e) (\<lambda>bs. Inr (set_dat k bs s))"

definition starts_with :: "bytes \<Rightarrow> u64 \<Rightarrow> bool" where
  "starts_with bs d = (take 8 bs = u64_le d)"

definition parse_session :: "portal_env \<Rightarrow> bytes \<Rightarrow> session res" where
  "parse_session E bs =
     (if starts_with bs session_v2_DISCRIMINATOR then
        rbind (ok_or (try_from_slice (session_v2_codec E) bs) (Portal SessionDeserializeFailed)) (\<lambda>x.
        if \<not> session_v2_is_valid x then Inl (Portal SessionStateInvalid) else Inr (s2_base x))
      else
        rbind (ok_or (try_from_slice (session_codec E) bs) (Portal SessionDeserializeFailed)) (\<lambda>x.
        if \<not> session_is_valid x then Inl (Portal SessionStateInvalid) else Inr x))"

definition exceeds_deposited :: "deposit_receipt \<Rightarrow> u64 \<Rightarrow> bool" where
  "exceeds_deposited x deposited =
     (case checked_add (rc_balance x) (rc_withdrawn x) of None \<Rightarrow> True | Some amount \<Rightarrow> amount > deposited)"

definition parse_deposit_receipt :: "portal_env \<Rightarrow> bytes \<Rightarrow> deposit_receipt res" where
  "parse_deposit_receipt E bs =
     (if starts_with bs deposit_receipt_v2_DISCRIMINATOR then
        rbind (ok_or (try_from_slice (deposit_receipt_v2_codec E) bs) (Portal DepositReceiptDeserializeFailed)) (\<lambda>x.
        if \<not> deposit_receipt_is_valid (r2_base x) \<or> r2_session_context x = 0
           \<or> exceeds_deposited (r2_base x) (r2_total_deposited x)
        then Inl (Portal DepositReceiptStateInvalid) else Inr (r2_base x))
      else
        rbind (ok_or (try_from_slice (deposit_receipt_codec E) bs) (Portal DepositReceiptDeserializeFailed)) (\<lambda>x.
        if \<not> deposit_receipt_is_valid x then Inl (Portal DepositReceiptStateInvalid) else Inr x))"

definition write_deposit_receipt :: "portal_env \<Rightarrow> bytes \<Rightarrow> deposit_receipt \<Rightarrow> bytes res" where
  "write_deposit_receipt E bs x =
     (if starts_with bs deposit_receipt_v2_DISCRIMINATOR then
        rbind (ok_or (try_from_slice (deposit_receipt_v2_codec E) bs) (Portal DepositReceiptDeserializeFailed)) (\<lambda>f.
        if rc_session x \<noteq> rc_session (r2_base f)
           \<or> rc_recipient x \<noteq> rc_recipient (r2_base f)
           \<or> rc_bump x \<noteq> rc_bump (r2_base f)
           \<or> rc_withdrawn x < rc_withdrawn (r2_base f)
           \<or> exceeds_deposited x (r2_total_deposited f)
        then Inl (Portal DepositReceiptStateInvalid)
        else ok_or (write_slice (deposit_receipt_v2_codec E) (f\<lparr>r2_base := x\<rparr>) bs) (Portal DepositReceiptStateInvalid))
      else ok_or (write_slice (deposit_receipt_codec E) x bs) (Portal DepositReceiptStateInvalid))"

text \<open>The fields of a session that no instruction may change once it is open.\<close>

definition session_fixed_fields ::
  "session \<Rightarrow> u128 \<times> u64 \<times> pubkey \<times> pubkey \<times> u64 \<times> u64 \<times> u64 \<times> u64 \<times> u8" where
  "session_fixed_fields x = (s_nonce x, s_grid_id x, s_authority x, s_validator x, s_created_at x,
     s_ttl_slots x, s_fee_cap x, s_settlement_interval_slots x, s_bump x)"

definition write_session :: "portal_env \<Rightarrow> bytes \<Rightarrow> session \<Rightarrow> bytes res" where
  "write_session E bs x =
     (if starts_with bs session_v2_DISCRIMINATOR then
        rbind (ok_or (try_from_slice (session_v2_codec E) bs) (Portal SessionDeserializeFailed)) (\<lambda>f.
        if \<not> session_v2_is_valid f then Inl (Portal SessionStateInvalid)
        else if session_fixed_fields (s2_base f) \<noteq> session_fixed_fields x then Inl (Portal SessionStateInvalid)
        else ok_or (write_slice (session_v2_codec E) (f\<lparr>s2_base := x\<rparr>) bs) (Portal SessionStateInvalid))
      else ok_or (write_slice (session_codec E) x bs) (Portal SessionStateInvalid))"

subsection \<open>Creating a program-owned account\<close>

definition initialize_pda_account ::
  "portal_env \<Rightarrow> pubkey \<Rightarrow> account_info list \<Rightarrow> pubkey \<Rightarrow> pubkey \<Rightarrow> u64 \<Rightarrow> u64 \<Rightarrow> pubkey \<Rightarrow> bytes list \<Rightarrow> st \<Rightarrow> st res" where
  "initialize_pda_account E program caller payer pda amount space new_owner seeds s =
     (if dat s pda \<noteq> [] \<or> own s pda \<noteq> system_id E then Inl (Portal InvalidAccountData)
      else rbind
        (if lam s pda < amount then
           rbind (ok_or (checked_sub amount (lam s pda)) (Portal ArithmeticOverflow)) (\<lambda>d.
           invoke_transfer E caller payer pda d s)
         else Inr s) (\<lambda>s.
        rbind (invoke_allocate E program caller pda space seeds s) (\<lambda>s.
        invoke_assign E program caller pda new_owner seeds s)))"

text \<open>\<open>AccountView::close\<close>.\<close>

definition close :: "portal_env \<Rightarrow> pubkey \<Rightarrow> st \<Rightarrow> st" where
  "close E k s = s\<lparr>accts := (accts s)(k := close_account E (accts s k))\<rparr>"

end
