(* ===== verification/Portal_Layout.thy ===== *)
theory Portal_Layout
  imports Portal_Env
begin

text \<open>
  The byte layouts of the stored structs: fields in declaration order, integers little-endian,
  enums and booleans as one byte.  Each satisfies the codec laws at the length the sources give
  for it.  The locale \<open>portal_codecs\<close> is the interface the instructions rely on; it is
  interpreted on these layouts.
\<close>

subsection \<open>Enum tags\<close>

fun settlement_status_u8 :: "settlement_status \<Rightarrow> u8" where
  "settlement_status_u8 Idle = 0"
| "settlement_status_u8 InProgress = 1"

definition settlement_status_of :: "u8 \<Rightarrow> settlement_status option" where
  "settlement_status_of b = (if b = 0 then Some Idle else if b = 1 then Some InProgress else None)"

fun checkpoint_status_u8 :: "checkpoint_status \<Rightarrow> u8" where
  "checkpoint_status_u8 Pending = 0"
| "checkpoint_status_u8 Committed = 1"
| "checkpoint_status_u8 Cancelled = 2"
| "checkpoint_status_u8 Settled = 3"
| "checkpoint_status_u8 Challenged = 4"
| "checkpoint_status_u8 Invalid = 5"

definition checkpoint_status_of :: "u8 \<Rightarrow> checkpoint_status option" where
  "checkpoint_status_of b =
     (if b = 0 then Some Pending else if b = 1 then Some Committed else if b = 2 then Some Cancelled
      else if b = 3 then Some Settled else if b = 4 then Some Challenged else if b = 5 then Some Invalid
      else None)"

fun bond_status_u8 :: "bond_status \<Rightarrow> u8" where
  "bond_status_u8 Locked = 0"
| "bond_status_u8 Released = 1"
| "bond_status_u8 Slashed = 2"

definition bond_status_of :: "u8 \<Rightarrow> bond_status option" where
  "bond_status_of b = (if b = 0 then Some Locked else if b = 1 then Some Released
     else if b = 2 then Some Slashed else None)"

fun challenge_status_u8 :: "challenge_status \<Rightarrow> u8" where
  "challenge_status_u8 Active = 0"
| "challenge_status_u8 ChallengerWon = 1"
| "challenge_status_u8 ValidatorWon = 2"

definition challenge_status_of :: "u8 \<Rightarrow> challenge_status option" where
  "challenge_status_of b = (if b = 0 then Some Active else if b = 1 then Some ChallengerWon
     else if b = 2 then Some ValidatorWon else None)"

fun challenge_turn_u8 :: "challenge_turn \<Rightarrow> u8" where
  "challenge_turn_u8 Respondent = 0"
| "challenge_turn_u8 Challenger = 1"
| "challenge_turn_u8 Prove = 2"

definition challenge_turn_of :: "u8 \<Rightarrow> challenge_turn option" where
  "challenge_turn_of b = (if b = 0 then Some Respondent else if b = 1 then Some Challenger
     else if b = 2 then Some Prove else None)"

fun da_status_u8 :: "da_status \<Rightarrow> u8" where
  "da_status_u8 Missing = 0"
| "da_status_u8 Revealed = 1"
| "da_status_u8 Defaulted = 2"

definition da_status_of :: "u8 \<Rightarrow> da_status option" where
  "da_status_of b = (if b = 0 then Some Missing else if b = 1 then Some Revealed
     else if b = 2 then Some Defaulted else None)"

abbreviation "settlement_status_layout \<equiv> enum_layout settlement_status_u8 settlement_status_of"
abbreviation "checkpoint_status_layout \<equiv> enum_layout checkpoint_status_u8 checkpoint_status_of"
abbreviation "bond_status_layout \<equiv> enum_layout bond_status_u8 bond_status_of"
abbreviation "challenge_status_layout \<equiv> enum_layout challenge_status_u8 challenge_status_of"
abbreviation "challenge_turn_layout \<equiv> enum_layout challenge_turn_u8 challenge_turn_of"
abbreviation "da_status_layout \<equiv> enum_layout da_status_u8 da_status_of"

lemma borsh_settlement_status: "borsh_codec settlement_status_layout (\<lambda>_. True) 1"
proof (rule borsh_enum)
  show "settlement_status_of (settlement_status_u8 v) = Some v" for v
    by (cases v) (simp_all add: settlement_status_of_def)
qed (auto simp: settlement_status_of_def split: if_splits)

lemma borsh_checkpoint_status: "borsh_codec checkpoint_status_layout (\<lambda>_. True) 1"
proof (rule borsh_enum)
  show "checkpoint_status_of (checkpoint_status_u8 v) = Some v" for v
    by (cases v) (simp_all add: checkpoint_status_of_def)
qed (auto simp: checkpoint_status_of_def split: if_splits)

lemma borsh_bond_status: "borsh_codec bond_status_layout (\<lambda>_. True) 1"
proof (rule borsh_enum)
  show "bond_status_of (bond_status_u8 v) = Some v" for v
    by (cases v) (simp_all add: bond_status_of_def)
qed (auto simp: bond_status_of_def split: if_splits)

lemma borsh_challenge_status: "borsh_codec challenge_status_layout (\<lambda>_. True) 1"
proof (rule borsh_enum)
  show "challenge_status_of (challenge_status_u8 v) = Some v" for v
    by (cases v) (simp_all add: challenge_status_of_def)
qed (auto simp: challenge_status_of_def split: if_splits)

lemma borsh_challenge_turn: "borsh_codec challenge_turn_layout (\<lambda>_. True) 1"
proof (rule borsh_enum)
  show "challenge_turn_of (challenge_turn_u8 v) = Some v" for v
    by (cases v) (simp_all add: challenge_turn_of_def)
qed (auto simp: challenge_turn_of_def split: if_splits)

lemma borsh_da_status: "borsh_codec da_status_layout (\<lambda>_. True) 1"
proof (rule borsh_enum)
  show "da_status_of (da_status_u8 v) = Some v" for v
    by (cases v) (simp_all add: da_status_of_def)
qed (auto simp: da_status_of_def split: if_splits)

lemma borsh_w8: "borsh_codec (word_layout 1 :: u8 codec) (\<lambda>_. True) 1" by (rule borsh_word) simp
lemma borsh_w32: "borsh_codec (word_layout 4 :: u32 codec) (\<lambda>_. True) 4" by (rule borsh_word) simp
lemma borsh_w64: "borsh_codec (word_layout 8 :: u64 codec) (\<lambda>_. True) 8" by (rule borsh_word) simp
lemma borsh_w128: "borsh_codec (word_layout 16 :: u128 codec) (\<lambda>_. True) 16" by (rule borsh_word) simp
lemma borsh_w256: "borsh_codec (word_layout 32 :: pubkey codec) (\<lambda>_. True) 32" by (rule borsh_word) simp

lemmas borsh_fields =
  borsh_pairT borsh_w8 borsh_w32 borsh_w64 borsh_w128 borsh_w256 borsh_bool borsh_settlement_status
  borsh_checkpoint_status borsh_bond_status borsh_challenge_status borsh_challenge_turn borsh_da_status

subsection \<open>Struct layouts\<close>

definition session_layout :: "session codec" where
  "session_layout = iso_layout
     (\<lambda>x. (s_discriminator x, s_grid_id x, s_ttl_slots x, s_fee_cap x, s_created_at x, s_nonce x,
        s_authority x, s_validator x, s_settlement_interval_slots x,
        s_last_settled_l1_slot x, s_last_settled_er_slot x, s_settlement_status x,
        s_settlement_er_slot x, s_settlement_checksum x, s_settlement_accumulator x,
        s_settlement_started_l1_slot x, s_bump x))
     (\<lambda>(a0, a1, a2, a3, a4, a5, a6, a7, a8, a9, a10, a11, a12, a13, a14, a15, a16).
        \<lparr>s_discriminator = a0, s_grid_id = a1, s_ttl_slots = a2, s_fee_cap = a3,
        s_created_at = a4, s_nonce = a5, s_authority = a6, s_validator = a7,
        s_settlement_interval_slots = a8, s_last_settled_l1_slot = a9,
        s_last_settled_er_slot = a10, s_settlement_status = a11,
        s_settlement_er_slot = a12, s_settlement_checksum = a13,
        s_settlement_accumulator = a14, s_settlement_started_l1_slot = a15, s_bump = a16\<rparr>)
     (pair_layout (word_layout 8) (pair_layout (word_layout 8) (pair_layout (word_layout 8)
     (pair_layout (word_layout 8) (pair_layout (word_layout 8) (pair_layout (word_layout 16)
     (pair_layout (word_layout 32) (pair_layout (word_layout 32) (pair_layout (word_layout 8)
     (pair_layout (word_layout 8) (pair_layout (word_layout 8)
     (pair_layout settlement_status_layout (pair_layout (word_layout 8)
     (pair_layout (word_layout 32) (pair_layout (word_layout 32) (pair_layout (word_layout 8) (word_layout 1)))))))))))))))))"

lemma borsh_session: "borsh_codec session_layout (\<lambda>_. True) 226"
  unfolding session_layout_def
  by (rule borsh_size_eq, rule borsh_isoT, (rule borsh_fields)+) auto

definition session_v2_layout :: "session_v2 codec" where
  "session_v2_layout = iso_layout
     (\<lambda>x. (s2_discriminator x, s2_base x, s2_l1_genesis x, s2_profile x, s2_ingress_count x,
        s2_ingress_root x, s2_consumed_ingress_count x, s2_consumed_ingress_root x))
     (\<lambda>(a0, a1, a2, a3, a4, a5, a6, a7).
        \<lparr>s2_discriminator = a0, s2_base = a1, s2_l1_genesis = a2, s2_profile = a3,
        s2_ingress_count = a4, s2_ingress_root = a5, s2_consumed_ingress_count = a6,
        s2_consumed_ingress_root = a7\<rparr>)
     (pair_layout (word_layout 8) (pair_layout session_layout (pair_layout (word_layout 32)
     (pair_layout (word_layout 32) (pair_layout (word_layout 8) (pair_layout (word_layout 32)
     (pair_layout (word_layout 8) (word_layout 32))))))))"

lemma borsh_session_v2: "borsh_codec session_v2_layout (\<lambda>_. True) 378"
  unfolding session_v2_layout_def
  by (rule borsh_size_eq, rule borsh_isoT, (rule borsh_session borsh_fields)+) auto

definition fee_vault_layout :: "fee_vault codec" where
  "fee_vault_layout = iso_layout
     (\<lambda>x. (fv_discriminator x, fv_authority x, fv_bump x))
     (\<lambda>(a0, a1, a2).
        \<lparr>fv_discriminator = a0, fv_authority = a1, fv_bump = a2\<rparr>)
     (pair_layout (word_layout 8) (pair_layout (word_layout 32) (word_layout 1)))"

lemma borsh_fee_vault: "borsh_codec fee_vault_layout (\<lambda>_. True) 41"
  unfolding fee_vault_layout_def
  by (rule borsh_size_eq, rule borsh_isoT, (rule borsh_fields)+) auto

definition checkpoint_layout :: "checkpoint codec" where
  "checkpoint_layout = iso_layout
     (\<lambda>x. (cp_discriminator x, cp_session x, cp_er_slot x, cp_step_count x,
        cp_previous_state_root x, cp_new_state_root x, cp_trace_root x,
        cp_tx_effect_root x, cp_readonly_l1_root x, cp_da_commitment x,
        cp_effect_commitment x, cp_proposer x, cp_proposed_at_l1_slot x,
        cp_challenge_deadline_l1_slot x, cp_status x, cp_bond_lamports x,
        cp_bond_status x, cp_challenger x, cp_challenged_at_l1_slot x,
        cp_challenge_resolved x, cp_bump x))
     (\<lambda>(a0, a1, a2, a3, a4, a5, a6, a7, a8, a9, a10, a11, a12, a13, a14, a15, a16, a17, a18,
        a19, a20).
        \<lparr>cp_discriminator = a0, cp_session = a1, cp_er_slot = a2, cp_step_count = a3,
        cp_previous_state_root = a4, cp_new_state_root = a5, cp_trace_root = a6,
        cp_tx_effect_root = a7, cp_readonly_l1_root = a8, cp_da_commitment = a9,
        cp_effect_commitment = a10, cp_proposer = a11, cp_proposed_at_l1_slot = a12,
        cp_challenge_deadline_l1_slot = a13, cp_status = a14, cp_bond_lamports = a15,
        cp_bond_status = a16, cp_challenger = a17, cp_challenged_at_l1_slot = a18,
        cp_challenge_resolved = a19, cp_bump = a20\<rparr>)
     (pair_layout (word_layout 8) (pair_layout (word_layout 32) (pair_layout (word_layout 8)
     (pair_layout (word_layout 8) (pair_layout (word_layout 32) (pair_layout (word_layout 32)
     (pair_layout (word_layout 32) (pair_layout (word_layout 32) (pair_layout (word_layout 32)
     (pair_layout (word_layout 32) (pair_layout (word_layout 32) (pair_layout (word_layout 32)
     (pair_layout (word_layout 8) (pair_layout (word_layout 8)
     (pair_layout checkpoint_status_layout (pair_layout (word_layout 8)
     (pair_layout bond_status_layout (pair_layout (word_layout 32)
     (pair_layout (word_layout 8) (pair_layout bool_layout (word_layout 1)))))))))))))))))))))"

lemma borsh_checkpoint: "borsh_codec checkpoint_layout (\<lambda>_. True) 380"
  unfolding checkpoint_layout_def
  by (rule borsh_size_eq, rule borsh_isoT, (rule borsh_fields)+) auto

definition cursor_layout :: "cursor codec" where
  "cursor_layout = iso_layout
     (\<lambda>x. (cc_discriminator x, cc_session x, cc_latest_finalized_checkpoint x,
        cc_latest_finalized_er_slot x, cc_latest_finalized_state_root x,
        cc_active_checkpoint x, cc_active_er_slot x, cc_bump x))
     (\<lambda>(a0, a1, a2, a3, a4, a5, a6, a7).
        \<lparr>cc_discriminator = a0, cc_session = a1, cc_latest_finalized_checkpoint = a2,
        cc_latest_finalized_er_slot = a3, cc_latest_finalized_state_root = a4,
        cc_active_checkpoint = a5, cc_active_er_slot = a6, cc_bump = a7\<rparr>)
     (pair_layout (word_layout 8) (pair_layout (word_layout 32) (pair_layout (word_layout 32)
     (pair_layout (word_layout 8) (pair_layout (word_layout 32) (pair_layout (word_layout 32)
     (pair_layout (word_layout 8) (word_layout 1))))))))"

lemma borsh_cursor: "borsh_codec cursor_layout (\<lambda>_. True) 153"
  unfolding cursor_layout_def
  by (rule borsh_size_eq, rule borsh_isoT, (rule borsh_fields)+) auto

definition challenge_layout :: "challenge codec" where
  "challenge_layout = iso_layout
     (\<lambda>x. (ch_discriminator x, ch_checkpoint x, ch_challenger x, ch_respondent x,
        ch_opened_at_l1_slot x, ch_hard_deadline_l1_slot x, ch_turn_deadline_l1_slot x,
        ch_start_step x, ch_end_step x, ch_midpoint_step x, ch_start_state_root x,
        ch_end_state_root x, ch_midpoint_state_root x, ch_status x, ch_turn x,
        ch_rounds x, ch_bump x))
     (\<lambda>(a0, a1, a2, a3, a4, a5, a6, a7, a8, a9, a10, a11, a12, a13, a14, a15, a16).
        \<lparr>ch_discriminator = a0, ch_checkpoint = a1, ch_challenger = a2, ch_respondent = a3,
        ch_opened_at_l1_slot = a4, ch_hard_deadline_l1_slot = a5,
        ch_turn_deadline_l1_slot = a6, ch_start_step = a7, ch_end_step = a8,
        ch_midpoint_step = a9, ch_start_state_root = a10, ch_end_state_root = a11,
        ch_midpoint_state_root = a12, ch_status = a13, ch_turn = a14, ch_rounds = a15,
        ch_bump = a16\<rparr>)
     (pair_layout (word_layout 8) (pair_layout (word_layout 32) (pair_layout (word_layout 32)
     (pair_layout (word_layout 32) (pair_layout (word_layout 8) (pair_layout (word_layout 8)
     (pair_layout (word_layout 8) (pair_layout (word_layout 8) (pair_layout (word_layout 8)
     (pair_layout (word_layout 8) (pair_layout (word_layout 32) (pair_layout (word_layout 32)
     (pair_layout (word_layout 32) (pair_layout challenge_status_layout
     (pair_layout challenge_turn_layout (pair_layout (word_layout 4) (word_layout 1)))))))))))))))))"

lemma borsh_challenge: "borsh_codec challenge_layout (\<lambda>_. True) 255"
  unfolding challenge_layout_def
  by (rule borsh_size_eq, rule borsh_isoT, (rule borsh_fields)+) auto

definition da_proof_layout :: "da_proof codec" where
  "da_proof_layout = iso_layout
     (\<lambda>x. (da_discriminator x, da_challenge x, da_checkpoint x, da_commitment x, da_payload_root x,
        da_inclusion_proof_hash x, da_revealed_at_l1_slot x, da_status x, da_bump x))
     (\<lambda>(a0, a1, a2, a3, a4, a5, a6, a7, a8).
        \<lparr>da_discriminator = a0, da_challenge = a1, da_checkpoint = a2, da_commitment = a3,
        da_payload_root = a4, da_inclusion_proof_hash = a5, da_revealed_at_l1_slot = a6,
        da_status = a7, da_bump = a8\<rparr>)
     (pair_layout (word_layout 8) (pair_layout (word_layout 32) (pair_layout (word_layout 32)
     (pair_layout (word_layout 32) (pair_layout (word_layout 32) (pair_layout (word_layout 32)
     (pair_layout (word_layout 8) (pair_layout da_status_layout (word_layout 1)))))))))"

lemma borsh_da_proof: "borsh_codec da_proof_layout (\<lambda>_. True) 178"
  unfolding da_proof_layout_def
  by (rule borsh_size_eq, rule borsh_isoT, (rule borsh_fields)+) auto

definition delegation_record_layout :: "delegation_record codec" where
  "delegation_record_layout = iso_layout
     (\<lambda>x. (dr_discriminator x, dr_owner_program x, dr_grid_id x, dr_bump x))
     (\<lambda>(a0, a1, a2, a3).
        \<lparr>dr_discriminator = a0, dr_owner_program = a1, dr_grid_id = a2, dr_bump = a3\<rparr>)
     (pair_layout (word_layout 8) (pair_layout (word_layout 32) (pair_layout (word_layout 8) (word_layout 1))))"

lemma borsh_delegation_record: "borsh_codec delegation_record_layout (\<lambda>_. True) 49"
  unfolding delegation_record_layout_def
  by (rule borsh_size_eq, rule borsh_isoT, (rule borsh_fields)+) auto

definition undelegation_request_layout :: "undelegation_request codec" where
  "undelegation_request_layout = iso_layout
     (\<lambda>x. (ur_discriminator x, ur_session x, ur_delegated_account x, ur_owner_program x,
        ur_authority x, ur_requested_at_l1_slot x, ur_approved x, ur_bump x))
     (\<lambda>(a0, a1, a2, a3, a4, a5, a6, a7).
        \<lparr>ur_discriminator = a0, ur_session = a1, ur_delegated_account = a2,
        ur_owner_program = a3, ur_authority = a4, ur_requested_at_l1_slot = a5,
        ur_approved = a6, ur_bump = a7\<rparr>)
     (pair_layout (word_layout 8) (pair_layout (word_layout 32) (pair_layout (word_layout 32)
     (pair_layout (word_layout 32) (pair_layout (word_layout 32) (pair_layout (word_layout 8)
     (pair_layout bool_layout (word_layout 1))))))))"

lemma borsh_undelegation_request: "borsh_codec undelegation_request_layout (\<lambda>_. True) 146"
  unfolding undelegation_request_layout_def
  by (rule borsh_size_eq, rule borsh_isoT, (rule borsh_fields)+) auto

definition deposit_receipt_layout :: "deposit_receipt codec" where
  "deposit_receipt_layout = iso_layout
     (\<lambda>x. (rc_discriminator x, rc_session x, rc_recipient x, rc_balance x, rc_withdrawn x,
        rc_bump x))
     (\<lambda>(a0, a1, a2, a3, a4, a5).
        \<lparr>rc_discriminator = a0, rc_session = a1, rc_recipient = a2, rc_balance = a3,
        rc_withdrawn = a4, rc_bump = a5\<rparr>)
     (pair_layout (word_layout 8) (pair_layout (word_layout 32) (pair_layout (word_layout 32)
     (pair_layout (word_layout 8) (pair_layout (word_layout 8) (word_layout 1))))))"

lemma borsh_deposit_receipt: "borsh_codec deposit_receipt_layout (\<lambda>_. True) 89"
  unfolding deposit_receipt_layout_def
  by (rule borsh_size_eq, rule borsh_isoT, (rule borsh_fields)+) auto

definition deposit_receipt_v2_layout :: "deposit_receipt_v2 codec" where
  "deposit_receipt_v2_layout = iso_layout
     (\<lambda>x. (r2_discriminator x, r2_base x, r2_session_context x, r2_total_deposited x))
     (\<lambda>(a0, a1, a2, a3).
        \<lparr>r2_discriminator = a0, r2_base = a1, r2_session_context = a2, r2_total_deposited = a3\<rparr>)
     (pair_layout (word_layout 8) (pair_layout deposit_receipt_layout
     (pair_layout (word_layout 32) (word_layout 8))))"

lemma borsh_deposit_receipt_v2: "borsh_codec deposit_receipt_v2_layout (\<lambda>_. True) 137"
  unfolding deposit_receipt_v2_layout_def
  by (rule borsh_size_eq, rule borsh_isoT, (rule borsh_deposit_receipt borsh_fields)+) auto

definition session_bridge_layout :: "session_bridge codec" where
  "session_bridge_layout = iso_layout
     (\<lambda>x. (sb_discriminator x, sb_session x, sb_mint x, sb_bridge_program x, sb_vault x,
        sb_token_program x, sb_bump x))
     (\<lambda>(a0, a1, a2, a3, a4, a5, a6).
        \<lparr>sb_discriminator = a0, sb_session = a1, sb_mint = a2, sb_bridge_program = a3,
        sb_vault = a4, sb_token_program = a5, sb_bump = a6\<rparr>)
     (pair_layout (word_layout 8) (pair_layout (word_layout 32) (pair_layout (word_layout 32)
     (pair_layout (word_layout 32) (pair_layout (word_layout 32) (pair_layout (word_layout 32) (word_layout 1)))))))"

lemma borsh_session_bridge: "borsh_codec session_bridge_layout (\<lambda>_. True) 169"
  unfolding session_bridge_layout_def
  by (rule borsh_size_eq, rule borsh_isoT, (rule borsh_fields)+) auto

definition token_withdrawal_authorization_layout :: "token_withdrawal_authorization codec" where
  "token_withdrawal_authorization_layout = iso_layout
     (\<lambda>x. (tw_discriminator x, tw_checkpoint x, tw_tuple_hash x, tw_consumed x, tw_bump x))
     (\<lambda>(a0, a1, a2, a3, a4).
        \<lparr>tw_discriminator = a0, tw_checkpoint = a1, tw_tuple_hash = a2, tw_consumed = a3,
        tw_bump = a4\<rparr>)
     (pair_layout (word_layout 8) (pair_layout (word_layout 32) (pair_layout (word_layout 32)
     (pair_layout bool_layout (word_layout 1)))))"

lemma borsh_token_withdrawal_authorization: "borsh_codec token_withdrawal_authorization_layout (\<lambda>_. True) 74"
  unfolding token_withdrawal_authorization_layout_def
  by (rule borsh_size_eq, rule borsh_isoT, (rule borsh_fields)+) auto

definition session_identity_layout :: "session_identity codec" where
  "session_identity_layout = iso_layout
     (\<lambda>x. (id_version x, id_l1_genesis x, id_portal x, id_session x, id_nonce x, id_grid_id x,
        id_validator x, id_profile x))
     (\<lambda>(a0, a1, a2, a3, a4, a5, a6, a7).
        \<lparr>id_version = a0, id_l1_genesis = a1, id_portal = a2, id_session = a3, id_nonce = a4,
        id_grid_id = a5, id_validator = a6, id_profile = a7\<rparr>)
     (pair_layout (word_layout 1) (pair_layout (word_layout 32) (pair_layout (word_layout 32)
     (pair_layout (word_layout 32) (pair_layout (word_layout 16) (pair_layout (word_layout 8)
     (pair_layout (word_layout 32) (word_layout 32))))))))"

lemma borsh_session_identity: "borsh_codec session_identity_layout (\<lambda>_. True) 185"
  unfolding session_identity_layout_def
  by (rule borsh_size_eq, rule borsh_isoT, (rule borsh_fields)+) auto

definition step_proof_layout :: "step_proof codec" where
  "step_proof_layout = iso_layout
     (\<lambda>x. (sp_discriminator x, sp_checkpoint x, sp_challenge x, sp_authority x, sp_proof_kind x,
        sp_proof_version x, sp_step_index x, sp_session_context x, sp_tx_effect_root x,
        sp_readonly_l1_root x, sp_settlement_effect_root x, sp_public_input_hash x,
        sp_written_len x, sp_sealed x, sp_proof_hash x, sp_bump x, sp_data x))
     (\<lambda>(a0, a1, a2, a3, a4, a5, a6, a7, a8, a9, a10, a11, a12, a13, a14, a15, a16).
        \<lparr>sp_discriminator = a0, sp_checkpoint = a1, sp_challenge = a2, sp_authority = a3,
        sp_proof_kind = a4, sp_proof_version = a5, sp_step_index = a6,
        sp_session_context = a7, sp_tx_effect_root = a8, sp_readonly_l1_root = a9,
        sp_settlement_effect_root = a10, sp_public_input_hash = a11,
        sp_written_len = a12, sp_sealed = a13, sp_proof_hash = a14, sp_bump = a15,
        sp_data = a16\<rparr>)
     (pair_layout (word_layout 8) (pair_layout (word_layout 32) (pair_layout (word_layout 32)
     (pair_layout (word_layout 32) (pair_layout (word_layout 1) (pair_layout (word_layout 1)
     (pair_layout (word_layout 8) (pair_layout (word_layout 32) (pair_layout (word_layout 32)
     (pair_layout (word_layout 32) (pair_layout (word_layout 32) (pair_layout (word_layout 32)
     (pair_layout (word_layout 4) (pair_layout bool_layout (pair_layout (word_layout 32)
     (pair_layout (word_layout 1) (bytes_layout MAX_STEP_PROOF_BYTES)))))))))))))))))"

lemma borsh_step_proof: "borsh_codec step_proof_layout step_proof_wf 668"
proof -
  have tail: "borsh_codec (pair_layout (word_layout 1 :: u8 codec) (bytes_layout MAX_STEP_PROOF_BYTES))
      (\<lambda>(b, d). length d = MAX_STEP_PROOF_BYTES) (1 + MAX_STEP_PROOF_BYTES)"
    using borsh_pair [OF borsh_w8 borsh_bytes [of MAX_STEP_PROOF_BYTES]] by (simp add: case_prod_unfold)
  have step: "borsh_codec (pair_layout c d) (\<lambda>(x, y). q y) (n + m)"
    if "borsh_codec c (\<lambda>_. True) n" "borsh_codec d q m" for c :: "'x codec" and d :: "'y codec" and q n m
    using borsh_pair [OF that] by simp
  show ?thesis
    unfolding step_proof_layout_def
    by (rule borsh_size_eq, rule borsh_iso, (rule tail | rule step | rule borsh_fields)+)
      (auto simp: step_proof_wf_def MAX_STEP_PROOF_BYTES_def)
qed

subsection \<open>The interface of the instructions\<close>

locale portal_codecs =
  session_c: borsh_codec "session_codec E" "\<lambda>_. True" 226 +
  session_v2_c: borsh_codec "session_v2_codec E" "\<lambda>_. True" 378 +
  fee_vault_c: borsh_codec "fee_vault_codec E" "\<lambda>_. True" 41 +
  checkpoint_c: borsh_codec "checkpoint_codec E" "\<lambda>_. True" 380 +
  cursor_c: borsh_codec "cursor_codec E" "\<lambda>_. True" 153 +
  challenge_c: borsh_codec "challenge_codec E" "\<lambda>_. True" 255 +
  da_proof_c: borsh_codec "da_proof_codec E" "\<lambda>_. True" 178 +
  delegation_record_c: borsh_codec "delegation_record_codec E" "\<lambda>_. True" 49 +
  undelegation_request_c: borsh_codec "undelegation_request_codec E" "\<lambda>_. True" 146 +
  deposit_receipt_c: borsh_codec "deposit_receipt_codec E" "\<lambda>_. True" 89 +
  deposit_receipt_v2_c: borsh_codec "deposit_receipt_v2_codec E" "\<lambda>_. True" 137 +
  session_bridge_c: borsh_codec "session_bridge_codec E" "\<lambda>_. True" 169 +
  token_auth_c: borsh_codec "token_withdrawal_authorization_codec E" "\<lambda>_. True" 74 +
  session_identity_c: borsh_codec "session_identity_codec E" "\<lambda>_. True" 185 +
  step_proof_c: borsh_codec "step_proof_codec E" step_proof_wf 668
  for E :: portal_env +
  assumes session_prefix: "take 8 (ser (session_codec E) x) = u64_le (s_discriminator x)"
    and session_v2_prefix: "take 8 (ser (session_v2_codec E) y) = u64_le (s2_discriminator y)"
    and deposit_receipt_prefix: "take 8 (ser (deposit_receipt_codec E) z) = u64_le (rc_discriminator z)"
    and deposit_receipt_v2_prefix:
      "take 8 (ser (deposit_receipt_v2_codec E) w) = u64_le (r2_discriminator w)"

text \<open>A runtime with these layouts as its serialization library.\<close>

definition with_layouts :: "runtime \<Rightarrow> portal_env" where
  "with_layouts R = runtime.extend R
     \<lparr>session_codec = session_layout, session_v2_codec = session_v2_layout, fee_vault_codec = fee_vault_layout
      , checkpoint_codec = checkpoint_layout, cursor_codec = cursor_layout, challenge_codec = challenge_layout, da_proof_codec = da_proof_layout, step_proof_codec = step_proof_layout
      , delegation_record_codec = delegation_record_layout, undelegation_request_codec = undelegation_request_layout, deposit_receipt_codec = deposit_receipt_layout, deposit_receipt_v2_codec = deposit_receipt_v2_layout
      , session_bridge_codec = session_bridge_layout, token_withdrawal_authorization_codec = token_withdrawal_authorization_layout, session_identity_codec = session_identity_layout\<rparr>"

lemma with_layouts_sel [simp]:
  "session_codec (with_layouts R) = session_layout"
  "session_v2_codec (with_layouts R) = session_v2_layout"
  "fee_vault_codec (with_layouts R) = fee_vault_layout"
  "checkpoint_codec (with_layouts R) = checkpoint_layout"
  "cursor_codec (with_layouts R) = cursor_layout"
  "challenge_codec (with_layouts R) = challenge_layout"
  "da_proof_codec (with_layouts R) = da_proof_layout"
  "step_proof_codec (with_layouts R) = step_proof_layout"
  "delegation_record_codec (with_layouts R) = delegation_record_layout"
  "undelegation_request_codec (with_layouts R) = undelegation_request_layout"
  "deposit_receipt_codec (with_layouts R) = deposit_receipt_layout"
  "deposit_receipt_v2_codec (with_layouts R) = deposit_receipt_v2_layout"
  "session_bridge_codec (with_layouts R) = session_bridge_layout"
  "token_withdrawal_authorization_codec (with_layouts R) = token_withdrawal_authorization_layout"
  "session_identity_codec (with_layouts R) = session_identity_layout"
  by (simp_all add: with_layouts_def runtime.defs)

lemma with_layouts_runtime [simp]:
  "system_id (with_layouts R) = system_id R"
  "clock_slot (with_layouts R) = clock_slot R"
  "clock_unix_timestamp (with_layouts R) = clock_unix_timestamp R"
  "clock_from_account (with_layouts R) = clock_from_account R"
  "rent_minimum (with_layouts R) = rent_minimum R"
  "find_program_address (with_layouts R) = find_program_address R"
  "create_program_address (with_layouts R) = create_program_address R"
  "max_permitted_data_length (with_layouts R) = max_permitted_data_length R"
  "hashv (with_layouts R) = hashv R"
  "close_account (with_layouts R) = close_account R"
  "token_id (with_layouts R) = token_id R"
  "mint_initialized (with_layouts R) = mint_initialized R"
  "poseidon (with_layouts R) = poseidon R"
  "groth16_verify (with_layouts R) = groth16_verify R"
  "zk_verifier_prototype (with_layouts R) = zk_verifier_prototype R"
  "test_verifier (with_layouts R) = test_verifier R"
  by (simp_all add: with_layouts_def runtime.defs)

interpretation lay: portal_codecs "with_layouts R" for R
proof -
  show "portal_codecs (with_layouts R)"
    unfolding portal_codecs_def portal_codecs_axioms_def
    by (simp add: borsh_session borsh_session_v2 borsh_fee_vault borsh_checkpoint borsh_cursor borsh_challenge borsh_da_proof borsh_delegation_record borsh_undelegation_request borsh_deposit_receipt borsh_deposit_receipt_v2 borsh_session_bridge borsh_token_withdrawal_authorization borsh_session_identity borsh_step_proof
        ser_iso_pair_prefix session_layout_def [symmetric])
      (simp add: session_layout_def session_v2_layout_def deposit_receipt_layout_def
        deposit_receipt_v2_layout_def ser_iso_pair_prefix)
qed

end
