(* ===== verification/Portal_Store.thy ===== *)
theory Portal_Store
  imports Portal_Layout
begin

text \<open>
  Facts about the stored data that the instructions share: reading back what \<open>store\<close> and the
  version-agnostic writers wrote, as an interface \<open>versioned_store\<close> that sessions and deposit
  receipts implement under the codec laws, and the exact effect of creating an account.
\<close>

subsection \<open>Plain structs\<close>

lemma load_ok [ok_simps]: "load c e s k = Inr v \<longleftrightarrow> try_from_slice c (dat s k) = Some v"
  by (simp add: load_def ok_simps)

lemma store_ok [ok_simps]:
  "store c v e k s = Inr s' \<longleftrightarrow> (\<exists>bs. write_slice c v (dat s k) = Some bs \<and> s' = set_dat k bs s)"
  by (auto simp: store_def ok_simps)

lemma load_set_dat_other: "j \<noteq> k \<Longrightarrow> load c e (set_dat k bs s) j = load c e s j"
  by (simp add: load_def)

context borsh_codec
begin

text \<open>Overwriting a stored struct: the store succeeds, and a load gives the new value.\<close>

lemma store_over:
  assumes "try_from_slice c (dat s k) = Some u" "wf v"
  shows "store c v e k s = Inr (set_dat k (ser c v) s)"
  using assms write_slice_exact [of v "dat s k"] try_from_sliceD(3) by (simp add: store_def)

lemma store_fresh:
  assumes "dat s k = replicate size 0" "wf v"
  shows "store c v e k s = Inr (set_dat k (ser c v) s)"
  using assms write_slice_exact [of v "dat s k"] by (simp add: store_def)

lemma load_ser: "dat s k = ser c v \<Longrightarrow> wf v \<Longrightarrow> load c e s k = Inr v"
  by (simp add: load_def try_from_slice_ser)

end

subsection \<open>Versioned structs\<close>

locale versioned_store =
  fixes parse :: "bytes \<Rightarrow> 'v res" and put :: "bytes \<Rightarrow> 'v \<Rightarrow> bytes res" and valid :: "'v \<Rightarrow> bool"
  assumes parse_valid: "parse bs = Inr x \<Longrightarrow> valid x"
    and parse_put: "parse bs = Inr x \<Longrightarrow> put bs y = Inr bs' \<Longrightarrow> valid y \<Longrightarrow> parse bs' = Inr y"
    and put_length: "parse bs = Inr x \<Longrightarrow> put bs y = Inr bs' \<Longrightarrow> length bs' = length bs"
begin

text \<open>A sequence of writes, each to what the one before it left.\<close>

fun puts :: "bytes \<Rightarrow> 'v list \<Rightarrow> bytes res" where
  "puts bs [] = Inr bs"
| "puts bs (y # ys) = rbind (put bs y) (\<lambda>bs'. puts bs' ys)"

lemma parse_puts:
  assumes "parse bs = Inr x" "list_all valid ys" "puts bs ys = Inr bs'"
  shows "parse bs' = Inr (last (x # ys)) \<and> length bs' = length bs"
  using assms
proof (induction ys arbitrary: bs x)
  case Nil
  then show ?case by simp
next
  case (Cons y ys)
  then obtain b where b: "put bs y = Inr b" "puts b ys = Inr bs'" by (auto simp: ok_simps)
  have "parse b = Inr y" using parse_put [OF Cons.prems(1) b(1)] Cons.prems(2) by simp
  with Cons.IH [of b y] b Cons.prems put_length [OF Cons.prems(1) b(1)] show ?case by simp
qed

end

lemma discriminators_distinct [simp]:
  "session_DISCRIMINATOR \<noteq> session_v2_DISCRIMINATOR"
  "session_v2_DISCRIMINATOR \<noteq> session_DISCRIMINATOR"
  "deposit_receipt_DISCRIMINATOR \<noteq> deposit_receipt_v2_DISCRIMINATOR"
  "deposit_receipt_v2_DISCRIMINATOR \<noteq> deposit_receipt_DISCRIMINATOR"
  by (simp_all add: session_DISCRIMINATOR_def session_v2_DISCRIMINATOR_def ascii_def
      deposit_receipt_DISCRIMINATOR_def deposit_receipt_v2_DISCRIMINATOR_def push_bit_eq_mult
      or.commute)

context portal_codecs
begin

lemma starts_with_session:
  "starts_with (ser (session_codec E) x) d \<longleftrightarrow> s_discriminator x = d"
  by (simp add: starts_with_def session_prefix le_bytes_inject)

lemma starts_with_session_v2:
  "starts_with (ser (session_v2_codec E) x) d \<longleftrightarrow> s2_discriminator x = d"
  by (simp add: starts_with_def session_v2_prefix le_bytes_inject)

lemma starts_with_receipt:
  "starts_with (ser (deposit_receipt_codec E) x) d \<longleftrightarrow> rc_discriminator x = d"
  by (simp add: starts_with_def deposit_receipt_prefix le_bytes_inject)

lemma starts_with_receipt_v2:
  "starts_with (ser (deposit_receipt_v2_codec E) x) d \<longleftrightarrow> r2_discriminator x = d"
  by (simp add: starts_with_def deposit_receipt_v2_prefix le_bytes_inject)

lemmas starts_with_simps =
  starts_with_session starts_with_session_v2 starts_with_receipt starts_with_receipt_v2

text \<open>A session account holds a valid version-1 session or a valid version-2 frame.\<close>

lemma parse_session_cases:
  "parse_session E bs = Inr x \<longleftrightarrow>
     session_is_valid x \<and> bs = ser (session_codec E) x \<or>
     (\<exists>f. session_v2_is_valid f \<and> bs = ser (session_v2_codec E) f \<and> x = s2_base f)"
  (is "?l \<longleftrightarrow> ?r")
proof
  assume ?l
  then show ?r
    by (auto simp: parse_session_def ok_simps session_c.try_from_slice_iff
        session_v2_c.try_from_slice_iff split: if_splits)
next
  assume ?r
  then show ?l
    by (auto simp: parse_session_def session_c.try_from_slice_ser session_v2_c.try_from_slice_ser
        starts_with_simps session_is_valid_def session_v2_is_valid_def)
qed

lemma session_fixed_fields_nonce: "session_fixed_fields x = session_fixed_fields y \<Longrightarrow> s_nonce x = s_nonce y"
  by (simp add: session_fixed_fields_def)

lemma session_v2_is_valid_base:
  assumes "session_v2_is_valid f" "session_is_valid x" "session_fixed_fields (s2_base f) = session_fixed_fields x"
  shows "session_v2_is_valid (f\<lparr>s2_base := x\<rparr>)"
  using assms session_fixed_fields_nonce [OF assms(3)] by (simp add: session_v2_is_valid_def)

lemma write_session_read:
  assumes p: "parse_session E bs = Inr x" and v: "session_is_valid y"
    and fixd: "session_fixed_fields y = session_fixed_fields x"
  shows "\<exists>bs'. write_session E bs y = Inr bs' \<and> parse_session E bs' = Inr y \<and> length bs' = length bs"
proof -
  from p consider (v1) "session_is_valid x" "bs = ser (session_codec E) x"
    | (v2) f where "session_v2_is_valid f" "bs = ser (session_v2_codec E) f" "x = s2_base f"
    by (auto simp: parse_session_cases)
  then show ?thesis
  proof cases
    case v1
    then have "write_session E bs y = Inr (ser (session_codec E) y)"
      by (simp add: write_session_def starts_with_simps session_is_valid_def
          session_c.write_slice_exact session_c.ser_length)
    then show ?thesis using v1 v by (auto simp: parse_session_cases session_c.ser_length)
  next
    case v2
    then have "write_session E bs y = Inr (ser (session_v2_codec E) (f\<lparr>s2_base := y\<rparr>))"
      using fixd
      by (simp add: write_session_def starts_with_simps session_v2_c.try_from_slice_ser
          session_v2_c.write_slice_exact session_v2_c.ser_length) (simp add: session_v2_is_valid_def)
    moreover have "session_v2_is_valid (f\<lparr>s2_base := y\<rparr>)"
      using v2 v fixd by (auto intro: session_v2_is_valid_base)
    ultimately show ?thesis
      using v2 by (auto simp: parse_session_cases session_v2_c.ser_length)
  qed
qed

lemma write_session_fixed:
  assumes "parse_session E bs = Inr x" "write_session E bs y = Inr bs'"
    "starts_with bs session_v2_DISCRIMINATOR"
  shows "session_fixed_fields y = session_fixed_fields x"
  using assms
  by (auto simp: parse_session_cases write_session_def ok_simps starts_with_simps
      session_v2_c.try_from_slice_ser session_is_valid_def split: if_splits)

end

sublocale portal_codecs \<subseteq> ses: versioned_store "parse_session E" "write_session E" session_is_valid
proof
  fix bs x assume "parse_session E bs = Inr x"
  then show "session_is_valid x" by (auto simp: parse_session_cases session_v2_is_valid_def)
next
  fix bs x y bs' assume h: "parse_session E bs = Inr x" "write_session E bs y = Inr bs'" "session_is_valid y"
  show "parse_session E bs' = Inr y"
  proof (cases "starts_with bs session_v2_DISCRIMINATOR")
    case True
    then show ?thesis using write_session_read [OF h(1,3)] write_session_fixed [OF h(1,2)] h(2) by auto
  next
    case False
    then have "bs = ser (session_codec E) x"
      using h(1) by (auto simp: parse_session_cases starts_with_simps session_v2_is_valid_def)
    then show ?thesis using h False
      by (auto simp: write_session_def ok_simps session_c.write_slice_exact session_c.ser_length
          parse_session_cases)
  qed
next
  fix bs x y bs' assume "parse_session E bs = Inr x" "write_session E bs y = Inr bs'"
  then show "length bs' = length bs"
    by (auto simp: write_session_def write_slice_def ok_simps split: if_splits)
qed


context portal_codecs
begin

text \<open>A receipt account holds a valid version-1 receipt, or a version-2 frame whose balance and
  withdrawals are covered by its deposits.\<close>

lemma parse_receipt_cases:
  "parse_deposit_receipt E bs = Inr x \<longleftrightarrow>
     deposit_receipt_is_valid x \<and> bs = ser (deposit_receipt_codec E) x \<or>
     (\<exists>f. r2_discriminator f = deposit_receipt_v2_DISCRIMINATOR \<and> deposit_receipt_is_valid (r2_base f)
        \<and> r2_session_context f \<noteq> 0 \<and> \<not> exceeds_deposited (r2_base f) (r2_total_deposited f)
        \<and> bs = ser (deposit_receipt_v2_codec E) f \<and> x = r2_base f)"
  (is "?l \<longleftrightarrow> ?r")
proof
  assume ?l
  then show ?r
    by (auto simp: parse_deposit_receipt_def ok_simps deposit_receipt_c.try_from_slice_iff
        deposit_receipt_v2_c.try_from_slice_iff starts_with_simps split: if_splits)
next
  assume ?r
  then show ?l
    by (auto simp: parse_deposit_receipt_def deposit_receipt_c.try_from_slice_ser
        deposit_receipt_v2_c.try_from_slice_ser starts_with_simps deposit_receipt_is_valid_def)
qed

end

sublocale portal_codecs \<subseteq> rcp: versioned_store "parse_deposit_receipt E" "write_deposit_receipt E" deposit_receipt_is_valid
proof
  fix bs x assume "parse_deposit_receipt E bs = Inr x"
  then show "deposit_receipt_is_valid x" by (auto simp: parse_receipt_cases)
next
  fix bs x y bs'
  assume h: "parse_deposit_receipt E bs = Inr x" "write_deposit_receipt E bs y = Inr bs'" "deposit_receipt_is_valid y"
  show "parse_deposit_receipt E bs' = Inr y"
  proof (cases "starts_with bs deposit_receipt_v2_DISCRIMINATOR")
    case True
    then obtain f where f: "r2_discriminator f = deposit_receipt_v2_DISCRIMINATOR" "r2_session_context f \<noteq> 0"
        "bs = ser (deposit_receipt_v2_codec E) f"
      using h(1) by (auto simp: parse_receipt_cases starts_with_simps deposit_receipt_is_valid_def)
    with h(2) True have "\<not> exceeds_deposited y (r2_total_deposited f)"
        "bs' = ser (deposit_receipt_v2_codec E) (f\<lparr>r2_base := y\<rparr>)"
      by (auto simp: write_deposit_receipt_def ok_simps deposit_receipt_v2_c.try_from_slice_ser
          deposit_receipt_v2_c.write_slice_exact deposit_receipt_v2_c.ser_length split: if_splits)
    then show ?thesis using f h(3)
      by (auto simp: parse_receipt_cases intro!: exI [of _ "f\<lparr>r2_base := y\<rparr>"])
  next
    case False
    then have "bs = ser (deposit_receipt_codec E) x"
      using h(1) by (auto simp: parse_receipt_cases starts_with_simps)
    then show ?thesis using h False
      by (auto simp: write_deposit_receipt_def ok_simps deposit_receipt_c.write_slice_exact
          deposit_receipt_c.ser_length parse_receipt_cases)
  qed
next
  fix bs x y bs' assume "parse_deposit_receipt E bs = Inr x" "write_deposit_receipt E bs y = Inr bs'"
  then show "length bs' = length bs"
    by (auto simp: write_deposit_receipt_def write_slice_def ok_simps split: if_splits)
qed

subsection \<open>Creating an account\<close>

lemma initialize_pda_account_ok:
  assumes "initialize_pda_account E program caller payer pda amount space p seeds s = Inr s'"
  shows "dat s pda = []" "own s pda = system_id E"
    and "dat s' k = (if k = pda then replicate (unat space) 0 else dat s k)"
    and "own s' k = (if k = pda then p else own s k)"
    and "exe s' k = exe s k" and "events s' = events s"
    and "total_lamports s' = total_lamports s"
    and "k \<noteq> payer \<Longrightarrow> k \<noteq> pda \<Longrightarrow> lam s' k = lam s k"
    and "payer \<noteq> pda \<Longrightarrow> unat (lam s' pda) = max (unat (lam s pda)) (unat amount)"
    and "payer \<noteq> pda \<Longrightarrow> unat (lam s' payer) + (unat (lam s' pda) - unat (lam s pda)) = unat (lam s payer)"
proof -
  obtain t u where guard: "dat s pda = []" "own s pda = system_id E"
    and t: "if lam s pda < amount then (\<exists>d. checked_sub amount (lam s pda) = Some d
              \<and> invoke_transfer E caller payer pda d s = Inr t) else t = s"
    and u: "invoke_allocate E program caller pda space seeds t = Inr u"
    and v: "invoke_assign E program caller pda p seeds u = Inr s'"
    using assms by (auto simp: initialize_pda_account_def ok_simps split: if_splits)
  have s': "s' = set_own pda p (set_dat pda (replicate (unat space) 0) t)"
    using invoke_allocate_ok [OF u] invoke_assign_ok [OF v] by simp
  have t': "dat t k = dat s k \<and> own t k = own s k \<and> exe t k = exe s k \<and> events t = events s
     \<and> total_lamports t = total_lamports s \<and> (k \<noteq> payer \<longrightarrow> k \<noteq> pda \<longrightarrow> lam t k = lam s k)
     \<and> (payer \<noteq> pda \<longrightarrow> unat (lam t pda) = max (unat (lam s pda)) (unat amount)
        \<and> unat (lam t payer) + (unat (lam t pda) - unat (lam s pda)) = unat (lam s payer))" for k
  proof (cases "lam s pda < amount")
    case True
    then obtain d where d: "checked_sub amount (lam s pda) = Some d" "invoke_transfer E caller payer pda d s = Inr t"
      using t by auto
    then have "unat amount = unat (lam s pda) + unat d" by (simp add: checked_sub_Some_iff)
    then show ?thesis
      using invoke_transfer_frame [OF d(2)] invoke_transfer_total [OF d(2)] by auto
  next
    case False
    then show ?thesis using t by (auto simp: word_less_nat_alt)
  qed
  show "dat s pda = []" "own s pda = system_id E" using guard by auto
  show "dat s' k = (if k = pda then replicate (unat space) 0 else dat s k)"
    "own s' k = (if k = pda then p else own s k)" "exe s' k = exe s k" "events s' = events s"
    "total_lamports s' = total_lamports s" "k \<noteq> payer \<Longrightarrow> k \<noteq> pda \<Longrightarrow> lam s' k = lam s k"
    "payer \<noteq> pda \<Longrightarrow> unat (lam s' pda) = max (unat (lam s pda)) (unat amount)"
    "payer \<noteq> pda \<Longrightarrow> unat (lam s' payer) + (unat (lam s' pda) - unat (lam s pda)) = unat (lam s payer)"
    using t' [of k] t' by (auto simp: s')
qed

text \<open>A ledger in which only the account \<open>k\<close> was created, with the data \<open>bs\<close>.\<close>

definition created_at :: "pubkey \<Rightarrow> pubkey \<Rightarrow> bytes \<Rightarrow> st \<Rightarrow> st \<Rightarrow> bool" where
  "created_at program k bs s s' \<longleftrightarrow>
     dat s k = [] \<and> (\<forall>j. dat s' j = (if j = k then bs else dat s j)
       \<and> own s' j = (if j = k then program else own s j) \<and> exe s' j = exe s j)
     \<and> events s' = events s \<and> total_lamports s' = total_lamports s"

lemma created_atD:
  assumes "created_at program k bs s s'"
  shows "dat s k = []" "dat s' j = (if j = k then bs else dat s j)"
    "own s' j = (if j = k then program else own s j)" "exe s' j = exe s j" "events s' = events s"
    "total_lamports s' = total_lamports s"
  using assms by (auto simp: created_at_def)

lemma initialize_created:
  assumes "initialize_pda_account E program caller payer pda amount space p seeds s = Inr s'"
  shows "created_at p pda (replicate (unat space) 0) s s'"
  using initialize_pda_account_ok [OF assms] by (auto simp: created_at_def)

context borsh_codec
begin

lemma create_store:
  assumes init: "initialize_pda_account E program caller payer pda amount (of_nat (account_size c v)) p seeds s = Inr t"
    and st: "store c v e pda t = Inr s'" and wf: "wf v" and fits: "size < 2 ^ 64"
  shows "created_at p pda (ser c v) s s'"
proof -
  note t = initialize_created [OF init]
  have "unat (of_nat size :: u64) = size" using fits by (simp add: unat_of_nat)
  then have "dat t pda = replicate size 0" using created_atD(2) [OF t] account_size_eq [OF wf] by simp
  from store_fresh [OF this wf] st have "s' = set_dat pda (ser c v) t" by simp
  then show ?thesis using t by (auto simp: created_at_def)
qed

end

end
