(* ===== verification/Sample_Env.thy ===== *)
theory Sample_Env
  imports Portal_Store
begin

text \<open>
  The laws of the runtime services (\<open>portal_runtime\<close>) and a concrete environment that satisfies
  them, at which the properties with hypotheses are evaluated.  Its address derivation and hash
  read only the lengths of their inputs, which keeps evaluation small.
\<close>

locale portal_runtime = portal_codecs +
  assumes close_law: "close_account E a = a\<lparr>lamports := 0, data := [], owner := system_id E\<rparr>"
    and find_create: "find_program_address E seeds p = (k, b) \<Longrightarrow>
      create_program_address E (seeds @ [[b]]) p = Some k"
begin

lemma close_read [simp]:
  "lam (close E k s) j = (if j = k then 0 else lam s j)"
  "dat (close E k s) j = (if j = k then [] else dat s j)"
  "own (close E k s) j = (if j = k then system_id E else own s j)"
  "exe (close E k s) j = exe s j"
  "events (close E k s) = events s"
  by (auto simp: close_def close_law)

lemma total_close: "total_lamports (close E k s) + unat (lam s k) = total_lamports s"
proof -
  have "total_lamports (close E k s) = total_lamports (set_lam k 0 s)"
    by (rule total_lamports_cong) simp
  then show ?thesis using total_set_lam [of k 0 s] by simp
qed

end

definition parts_length :: "bytes list \<Rightarrow> nat" where
  "parts_length parts = sum_list (map length parts)"

definition sample_runtime :: "u64 \<Rightarrow> runtime" where
  "sample_runtime slot =
     \<lparr>system_id = 0, clock_slot = slot, clock_unix_timestamp = 1700000000,
      clock_from_account = (\<lambda>_ _. Inr (20, 1700000000)),
      rent_minimum = (\<lambda>n. Inr (of_nat (n + 128) * 10)),
      find_program_address = (\<lambda>seeds p. (1000 + of_nat (parts_length seeds), 255)),
      create_program_address = (\<lambda>seeds p. Some (999 + of_nat (parts_length seeds))),
      max_permitted_data_length = 10485760,
      hashv = (\<lambda>parts. 1 + of_nat (parts_length parts)),
      close_account = (\<lambda>a. a\<lparr>lamports := 0, data := [], owner := 0\<rparr>),
      token_id = 600, mint_initialized = (\<lambda>_ a. Inr (data a \<noteq> [])),
      poseidon = (\<lambda>ins. Some (of_nat (parts_length ins))),
      negate_g1_be = (\<lambda>g. g), groth16_verify = (\<lambda>_ _ _ _. False),
      zk_verifier_prototype = False, test_verifier = True\<rparr>"

definition sample_env :: "u64 \<Rightarrow> portal_env" where
  "sample_env slot = with_layouts (sample_runtime slot)"

lemma sample_env_codecs [simp]:
  "session_codec (sample_env slot) = session_layout"
  "session_v2_codec (sample_env slot) = session_v2_layout"
  "fee_vault_codec (sample_env slot) = fee_vault_layout"
  "checkpoint_codec (sample_env slot) = checkpoint_layout"
  "cursor_codec (sample_env slot) = cursor_layout"
  "challenge_codec (sample_env slot) = challenge_layout"
  "da_proof_codec (sample_env slot) = da_proof_layout"
  "step_proof_codec (sample_env slot) = step_proof_layout"
  "delegation_record_codec (sample_env slot) = delegation_record_layout"
  "undelegation_request_codec (sample_env slot) = undelegation_request_layout"
  "deposit_receipt_codec (sample_env slot) = deposit_receipt_layout"
  "deposit_receipt_v2_codec (sample_env slot) = deposit_receipt_v2_layout"
  "session_bridge_codec (sample_env slot) = session_bridge_layout"
  "token_withdrawal_authorization_codec (sample_env slot) = token_withdrawal_authorization_layout"
  "session_identity_codec (sample_env slot) = session_identity_layout"
  by (simp_all add: sample_env_def)

lemma sample_env_runtime [simp]:
  "system_id (sample_env slot) = 0"
  "clock_slot (sample_env slot) = slot"
  "clock_unix_timestamp (sample_env slot) = 1700000000"
  "clock_from_account (sample_env slot) k a = Inr (20, 1700000000)"
  "rent_minimum (sample_env slot) n = Inr (of_nat (n + 128) * 10)"
  "find_program_address (sample_env slot) seeds p = (1000 + of_nat (parts_length seeds), 255)"
  "create_program_address (sample_env slot) seeds p = Some (999 + of_nat (parts_length seeds))"
  "max_permitted_data_length (sample_env slot) = 10485760"
  "hashv (sample_env slot) parts = 1 + of_nat (parts_length parts)"
  "close_account (sample_env slot) a = a\<lparr>lamports := 0, data := [], owner := 0\<rparr>"
  "token_id (sample_env slot) = 600"
  "mint_initialized (sample_env slot) k a = Inr (data a \<noteq> [])"
  "poseidon (sample_env slot) ins = Some (of_nat (parts_length ins))"
  "groth16_verify (sample_env slot) pa pb pc inputs = False"
  "zk_verifier_prototype (sample_env slot) = False"
  "test_verifier (sample_env slot) = True"
  by (simp_all add: sample_env_def sample_runtime_def)

interpretation smp: portal_runtime "sample_env slot" for slot
  unfolding sample_env_def
proof
  show "close_account (with_layouts (sample_runtime slot)) a =
      a\<lparr>lamports := 0, data := [], owner := system_id (with_layouts (sample_runtime slot))\<rparr>" for a :: account
    by (simp add: sample_runtime_def)
  show "create_program_address (with_layouts (sample_runtime slot)) (seeds @ [[b]]) p = Some k"
    if "find_program_address (with_layouts (sample_runtime slot)) seeds p = (k, b)" for seeds p k b
    using that by (auto simp: sample_runtime_def parts_length_def)
qed

lemma sample_find [simp]:
  "find_session_pda (sample_env slot) p = (1007, 255)"
  "find_fee_vault_pda (sample_env slot) p = (1009, 255)"
  "find_delegation_record_pda (sample_env slot) p k = (1042, 255)"
  "find_undelegation_request_pda (sample_env slot) p k = (1052, 255)"
  "find_checkpoint_pda (sample_env slot) p k n = (1050, 255)"
  "find_checkpoint_cursor_pda (sample_env slot) p k = (1049, 255)"
  "find_challenge_pda (sample_env slot) p k = (1041, 255)"
  "find_da_proof_pda (sample_env slot) p k = (1040, 255)"
  "find_step_proof_pda (sample_env slot) p k = (1042, 255)"
  "find_deposit_receipt_pda (sample_env slot) p k j = (1079, 255)"
  "find_deposit_receipt_v2_pda (sample_env slot) p h j = (1082, 255)"
  "find_session_bridge_pda (sample_env slot) p k j = (1078, 255)"
  "find_token_withdrawal_authorization_pda (sample_env slot) p k j n = (1093, 255)"
  by (simp_all add: find_session_pda_def find_fee_vault_pda_def find_delegation_record_pda_def
      find_undelegation_request_pda_def find_checkpoint_pda_def find_checkpoint_cursor_pda_def
      find_challenge_pda_def find_da_proof_pda_def find_step_proof_pda_def find_deposit_receipt_pda_def
      find_deposit_receipt_v2_pda_def find_session_bridge_pda_def
      find_token_withdrawal_authorization_pda_def parts_length_def ascii_def)

text \<open>Ledgers of the evaluations: listed accounts over empty ones, no event logged.\<close>

definition empty_account :: account where
  "empty_account = \<lparr>lamports = 0, data = [], owner = 0, executable = False\<rparr>"

definition sample_st :: "(pubkey \<times> account) list \<Rightarrow> st" where
  "sample_st xs = \<lparr>accts = (\<lambda>k. case map_of xs k of None \<Rightarrow> empty_account | Some a \<Rightarrow> a), events = []\<rparr>"

definition signer :: "pubkey \<Rightarrow> account_info" where
  "signer k = \<lparr>address = k, is_signer = True, is_writable = True\<rparr>"

definition mutable :: "pubkey \<Rightarrow> account_info" where
  "mutable k = \<lparr>address = k, is_signer = False, is_writable = True\<rparr>"

definition readonly :: "pubkey \<Rightarrow> account_info" where
  "readonly k = \<lparr>address = k, is_signer = False, is_writable = False\<rparr>"

lemma sample_infos [simp]:
  "address (signer k) = k" "is_signer (signer k)" "is_writable (signer k)"
  "address (mutable k) = k" "\<not> is_signer (mutable k)" "is_writable (mutable k)"
  "address (readonly k) = k" "\<not> is_signer (readonly k)" "\<not> is_writable (readonly k)"
  by (simp_all add: signer_def mutable_def readonly_def)

lemma sample_st_read [simp]:
  "accts (sample_st xs) k = (case map_of xs k of None \<Rightarrow> empty_account | Some a \<Rightarrow> a)"
  "events (sample_st xs) = []"
  by (simp_all add: sample_st_def)

text \<open>Evaluation rules of the layouts.\<close>

lemma layout_size [simp]:
  "length (ser session_layout x0) = 226"
  "length (ser session_v2_layout x1) = 378"
  "length (ser fee_vault_layout x2) = 41"
  "length (ser checkpoint_layout x3) = 380"
  "length (ser cursor_layout x4) = 153"
  "length (ser challenge_layout x5) = 255"
  "length (ser da_proof_layout x6) = 178"
  "length (ser delegation_record_layout x7) = 49"
  "length (ser undelegation_request_layout x8) = 146"
  "length (ser deposit_receipt_layout x9) = 89"
  "length (ser deposit_receipt_v2_layout x10) = 137"
  "length (ser session_bridge_layout x11) = 169"
  "length (ser token_withdrawal_authorization_layout x12) = 74"
  "length (ser session_identity_layout x13) = 185"
  by (rule borsh_codec.ser_length [OF borsh_session], simp, rule borsh_codec.ser_length [OF borsh_session_v2], simp, rule borsh_codec.ser_length [OF borsh_fee_vault], simp, rule borsh_codec.ser_length [OF borsh_checkpoint], simp, rule borsh_codec.ser_length [OF borsh_cursor], simp, rule borsh_codec.ser_length [OF borsh_challenge], simp, rule borsh_codec.ser_length [OF borsh_da_proof], simp, rule borsh_codec.ser_length [OF borsh_delegation_record], simp, rule borsh_codec.ser_length [OF borsh_undelegation_request], simp, rule borsh_codec.ser_length [OF borsh_deposit_receipt], simp, rule borsh_codec.ser_length [OF borsh_deposit_receipt_v2], simp, rule borsh_codec.ser_length [OF borsh_session_bridge], simp, rule borsh_codec.ser_length [OF borsh_token_withdrawal_authorization], simp, rule borsh_codec.ser_length [OF borsh_session_identity], simp)

lemma layout_read [simp]:
  "try_from_slice session_layout (ser session_layout x0) = Some x0"
  "try_from_slice session_v2_layout (ser session_v2_layout x1) = Some x1"
  "try_from_slice fee_vault_layout (ser fee_vault_layout x2) = Some x2"
  "try_from_slice checkpoint_layout (ser checkpoint_layout x3) = Some x3"
  "try_from_slice cursor_layout (ser cursor_layout x4) = Some x4"
  "try_from_slice challenge_layout (ser challenge_layout x5) = Some x5"
  "try_from_slice da_proof_layout (ser da_proof_layout x6) = Some x6"
  "try_from_slice delegation_record_layout (ser delegation_record_layout x7) = Some x7"
  "try_from_slice undelegation_request_layout (ser undelegation_request_layout x8) = Some x8"
  "try_from_slice deposit_receipt_layout (ser deposit_receipt_layout x9) = Some x9"
  "try_from_slice deposit_receipt_v2_layout (ser deposit_receipt_v2_layout x10) = Some x10"
  "try_from_slice session_bridge_layout (ser session_bridge_layout x11) = Some x11"
  "try_from_slice token_withdrawal_authorization_layout (ser token_withdrawal_authorization_layout x12) = Some x12"
  "try_from_slice session_identity_layout (ser session_identity_layout x13) = Some x13"
  by (rule borsh_codec.try_from_slice_ser [OF borsh_session], simp, rule borsh_codec.try_from_slice_ser [OF borsh_session_v2], simp, rule borsh_codec.try_from_slice_ser [OF borsh_fee_vault], simp, rule borsh_codec.try_from_slice_ser [OF borsh_checkpoint], simp, rule borsh_codec.try_from_slice_ser [OF borsh_cursor], simp, rule borsh_codec.try_from_slice_ser [OF borsh_challenge], simp, rule borsh_codec.try_from_slice_ser [OF borsh_da_proof], simp, rule borsh_codec.try_from_slice_ser [OF borsh_delegation_record], simp, rule borsh_codec.try_from_slice_ser [OF borsh_undelegation_request], simp, rule borsh_codec.try_from_slice_ser [OF borsh_deposit_receipt], simp, rule borsh_codec.try_from_slice_ser [OF borsh_deposit_receipt_v2], simp, rule borsh_codec.try_from_slice_ser [OF borsh_session_bridge], simp, rule borsh_codec.try_from_slice_ser [OF borsh_token_withdrawal_authorization], simp, rule borsh_codec.try_from_slice_ser [OF borsh_session_identity], simp)

lemma layout_account_size [simp]:
  "account_size session_layout x0 = 226"
  "account_size session_v2_layout x1 = 378"
  "account_size fee_vault_layout x2 = 41"
  "account_size checkpoint_layout x3 = 380"
  "account_size cursor_layout x4 = 153"
  "account_size challenge_layout x5 = 255"
  "account_size da_proof_layout x6 = 178"
  "account_size delegation_record_layout x7 = 49"
  "account_size undelegation_request_layout x8 = 146"
  "account_size deposit_receipt_layout x9 = 89"
  "account_size deposit_receipt_v2_layout x10 = 137"
  "account_size session_bridge_layout x11 = 169"
  "account_size token_withdrawal_authorization_layout x12 = 74"
  "account_size session_identity_layout x13 = 185"
  by (simp_all add: account_size_def)

text \<open>Short inputs are never read as one of the structs.\<close>

lemma layout_read_empty [simp]:
  "try_from_slice session_layout [] = None"
  "try_from_slice session_v2_layout [] = None"
  "try_from_slice fee_vault_layout [] = None"
  "try_from_slice checkpoint_layout [] = None"
  "try_from_slice cursor_layout [] = None"
  "try_from_slice challenge_layout [] = None"
  "try_from_slice da_proof_layout [] = None"
  "try_from_slice delegation_record_layout [] = None"
  "try_from_slice undelegation_request_layout [] = None"
  "try_from_slice deposit_receipt_layout [] = None"
  "try_from_slice deposit_receipt_v2_layout [] = None"
  "try_from_slice session_bridge_layout [] = None"
  "try_from_slice token_withdrawal_authorization_layout [] = None"
  "try_from_slice session_identity_layout [] = None"
  using borsh_codec.try_from_sliceD(3) [OF borsh_session, of "[]"]
    borsh_codec.try_from_sliceD(3) [OF borsh_session_v2, of "[]"]
    borsh_codec.try_from_sliceD(3) [OF borsh_fee_vault, of "[]"]
    borsh_codec.try_from_sliceD(3) [OF borsh_checkpoint, of "[]"]
    borsh_codec.try_from_sliceD(3) [OF borsh_cursor, of "[]"]
    borsh_codec.try_from_sliceD(3) [OF borsh_challenge, of "[]"]
    borsh_codec.try_from_sliceD(3) [OF borsh_da_proof, of "[]"]
    borsh_codec.try_from_sliceD(3) [OF borsh_delegation_record, of "[]"]
    borsh_codec.try_from_sliceD(3) [OF borsh_undelegation_request, of "[]"]
    borsh_codec.try_from_sliceD(3) [OF borsh_deposit_receipt, of "[]"]
    borsh_codec.try_from_sliceD(3) [OF borsh_deposit_receipt_v2, of "[]"]
    borsh_codec.try_from_sliceD(3) [OF borsh_session_bridge, of "[]"]
    borsh_codec.try_from_sliceD(3) [OF borsh_token_withdrawal_authorization, of "[]"]
    borsh_codec.try_from_sliceD(3) [OF borsh_session_identity, of "[]"]
  by (fastforce intro: ccontr)+

text \<open>Unfolding rules for the evaluation of cross-program calls.\<close>

lemmas cpi_eval =
  initialize_pda_account_def invoke_transfer_def verify_instruction_accounts_def meta_writable_def
  meta_signer_def system_transfer_def transfer_verified_def checked_sub_lamports_def checked_sub_def
  checked_add_lamports_def checked_add_def runtime_set_lamports_def invoke_allocate_def
  derive_signer_def parts_length_def ascii_def system_allocate_def runtime_set_data_length_def
  invoke_assign_def system_assign_def runtime_set_owner_def

lemmas store_eval = load_def store_def write_slice_def empty_account_def Let_def

end
