(* ===== verification/Portal_Session.thy ===== *)
theory Portal_Session
  imports Sample_Env
begin

text \<open>
  Session lifecycle and deposits of the Portal: \<open>open_session.rs\<close>, \<open>close_session.rs\<close>,
  \<open>deposit_fee.rs\<close> and \<open>start_withdrawal.rs\<close>.  A session is the single account at the session
  address; opening it also creates the fee vault, closing it returns the lamports of session,
  vault and checkpoint cursor to the authority.
\<close>

subsection \<open>Opening a session\<close>

record open_session =
  os_grid_id :: u64
  os_ttl_slots :: u64
  os_fee_cap :: u64
  os_validator :: pubkey
  os_settlement_interval_slots :: u64

record v2_session_initialization =
  vi_nonce :: u128
  vi_l1_genesis :: hash32
  vi_profile :: hash32

definition initial_session :: "open_session \<Rightarrow> u128 \<Rightarrow> u64 \<Rightarrow> pubkey \<Rightarrow> u8 \<Rightarrow> session" where
  "initial_session args nonce slot payer bump =
     \<lparr>s_discriminator = session_DISCRIMINATOR, s_grid_id = os_grid_id args,
      s_ttl_slots = os_ttl_slots args, s_fee_cap = os_fee_cap args, s_created_at = slot,
      s_nonce = nonce, s_authority = payer, s_validator = os_validator args,
      s_settlement_interval_slots = os_settlement_interval_slots args,
      s_last_settled_l1_slot = slot, s_last_settled_er_slot = 0, s_settlement_status = Idle,
      s_settlement_er_slot = 0, s_settlement_checksum = 0, s_settlement_accumulator = 0,
      s_settlement_started_l1_slot = 0, s_bump = bump\<rparr>"

definition initial_frame :: "v2_session_initialization \<Rightarrow> session \<Rightarrow> session_v2" where
  "initial_frame i x =
     \<lparr>s2_discriminator = session_v2_DISCRIMINATOR, s2_base = x, s2_l1_genesis = vi_l1_genesis i,
      s2_profile = vi_profile i, s2_ingress_count = 0, s2_ingress_root = 0,
      s2_consumed_ingress_count = 0, s2_consumed_ingress_root = 0\<rparr>"

definition process_open_session_initialized ::
  "portal_env \<Rightarrow> pubkey \<Rightarrow> account_info list \<Rightarrow> open_session \<Rightarrow> v2_session_initialization option \<Rightarrow> st \<Rightarrow> st res" where
  "process_open_session_initialized E program accs args version2 s =
     (if length accs < 4 then Inl NotEnoughAccountKeys else
      let payer = accs ! 0; session = accs ! 1; fee_vault = accs ! 2 in
      if \<not> is_signer payer then Inl (Portal Unauthorized)
      else if os_settlement_interval_slots args = 0
              \<or> os_settlement_interval_slots args > MAX_CHECKPOINT_CADENCE_L1_SLOTS
      then Inl InvalidInstructionData
      else if address session \<noteq> fst (find_session_pda E program) then Inl (Portal InvalidPdaSeeds)
      else if address fee_vault \<noteq> fst (find_fee_vault_pda E program) then Inl (Portal InvalidPdaSeeds)
      else
      let session_bump = snd (find_session_pda E program);
          fee_vault_bump = snd (find_fee_vault_pda E program);
          session_state = initial_session args (case version2 of None \<Rightarrow> 0 | Some i \<Rightarrow> vi_nonce i)
            (clock_slot E) (address payer) session_bump;
          session_frame = map_option (\<lambda>i. initial_frame i session_state) version2;
          fee_vault_state = \<lparr>fv_discriminator = fee_vault_DISCRIMINATOR,
            fv_authority = address payer, fv_bump = fee_vault_bump\<rparr>;
          session_size = (case session_frame of None \<Rightarrow> account_size (session_codec E) session_state
            | Some f \<Rightarrow> account_size (session_v2_codec E) f);
          fee_vault_size = account_size (fee_vault_codec E) fee_vault_state
      in rbind (rent_minimum E session_size) (\<lambda>session_lamports.
         rbind (rent_minimum E fee_vault_size) (\<lambda>fee_vault_lamports.
         rbind (initialize_pda_account E program accs (address payer) (address session) session_lamports
                 (of_nat session_size) program [ascii ''session'', [session_bump]] s) (\<lambda>s.
         rbind (initialize_pda_account E program accs (address payer) (address fee_vault) fee_vault_lamports
                 (of_nat fee_vault_size) program [ascii ''fee_vault'', [fee_vault_bump]] s) (\<lambda>s.
         rbind (case session_frame of
                  None \<Rightarrow> store (session_codec E) session_state Panicked (address session) s
                | Some f \<Rightarrow> store (session_v2_codec E) f Panicked (address session) s) (\<lambda>s.
         if address fee_vault = address session then Inl AccountBorrowFailed
         else store (fee_vault_codec E) fee_vault_state Panicked (address fee_vault) s))))))"

definition process_open_session ::
  "portal_env \<Rightarrow> pubkey \<Rightarrow> account_info list \<Rightarrow> open_session \<Rightarrow> st \<Rightarrow> st res" where
  "process_open_session E program accs args s = process_open_session_initialized E program accs args None s"

subsection \<open>Closing a session\<close>

text \<open>\<open>to.set_lamports(to.lamports().checked_add(from.lamports())?)\<close>, when there is something to add.\<close>

definition refund :: "pubkey \<Rightarrow> pubkey \<Rightarrow> st \<Rightarrow> st res" where
  "refund to k s =
     (if lam s k > 0 then
        rbind (ok_or (checked_add (lam s to) (lam s k)) (Portal ArithmeticOverflow)) (\<lambda>v.
        Inr (set_lam to v s))
      else Inr s)"

definition check_closable_cursor :: "portal_env \<Rightarrow> pubkey \<Rightarrow> pubkey \<Rightarrow> pubkey \<Rightarrow> st \<Rightarrow> unit res" where
  "check_closable_cursor E program session cursor s =
     (if dat s cursor = [] then Inr ()
      else if own s cursor \<noteq> program then Inl (Portal CheckpointCursorStateInvalid)
      else rbind (load (cursor_codec E) CheckpointCursorDeserializeFailed s cursor) (\<lambda>c.
        if \<not> cursor_is_valid c \<or> cc_session c \<noteq> session then Inl (Portal CheckpointCursorStateInvalid)
        else if cc_active_checkpoint c \<noteq> 0 then Inl (Portal CheckpointActiveExists)
        else Inr ()))"

definition process_close_session :: "portal_env \<Rightarrow> pubkey \<Rightarrow> account_info list \<Rightarrow> st \<Rightarrow> st res" where
  "process_close_session E program accs s =
     (if length accs < 5 then Inl NotEnoughAccountKeys else
      let closer = address (accs ! 0); session = address (accs ! 1); fee_vault = address (accs ! 2);
          cursor = address (accs ! 4) in
      if \<not> is_signer (accs ! 0) then Inl (Portal Unauthorized)
      else if session \<noteq> fst (find_session_pda E program) then Inl (Portal InvalidPdaSeeds)
      else if fee_vault \<noteq> fst (find_fee_vault_pda E program) then Inl (Portal InvalidPdaSeeds)
      else if cursor \<noteq> fst (find_checkpoint_cursor_pda E program session) then Inl (Portal InvalidPdaSeeds)
      else rbind (load (session_codec E) SessionDeserializeFailed s session) (\<lambda>session_state.
      if \<not> session_is_valid session_state then Inl (Portal SessionStateInvalid)
      else if closer \<noteq> s_authority session_state then Inl (Portal Unauthorized)
      else rbind (load (fee_vault_codec E) InvalidAccountData s fee_vault) (\<lambda>fee_vault_state.
      if \<not> fee_vault_is_valid fee_vault_state \<or> fv_authority fee_vault_state \<noteq> closer
      then Inl (Portal Unauthorized)
      else if s_settlement_status session_state = InProgress then Inl (Portal SettlementInProgress)
      else rbind (check_closable_cursor E program session cursor s) (\<lambda>_.
      rbind (refund closer fee_vault s) (\<lambda>s.
      let s = set_lam fee_vault 0 s in
      rbind (refund closer session s) (\<lambda>s.
      rbind (if lam s cursor > 0 then
               rbind (refund closer cursor s) (\<lambda>s.
               Inr (close E cursor (fill_zero cursor (set_lam cursor 0 s))))
             else Inr s) (\<lambda>s.
      let s = set_lam session 0 s;
          s = fill_zero session (fill_zero fee_vault s)
      in Inr (close E session (close E fee_vault s)))))))))"

subsection \<open>Depositing fees\<close>

definition new_receipt :: "pubkey \<Rightarrow> pubkey \<Rightarrow> u8 \<Rightarrow> deposit_receipt" where
  "new_receipt session recipient bump =
     \<lparr>rc_discriminator = deposit_receipt_DISCRIMINATOR, rc_session = session, rc_recipient = recipient,
      rc_balance = 0, rc_withdrawn = 0, rc_bump = bump\<rparr>"

definition deposit_event :: "portal_env \<Rightarrow> pubkey \<Rightarrow> pubkey \<Rightarrow> u64 \<Rightarrow> u64 \<Rightarrow> u64 \<Rightarrow> transfer_event" where
  "deposit_event E depositor recipient amount pre_escrow post_escrow =
     \<lparr>ev_version = transfer_event_version, ev_kind = Deposit, ev_from = depositor, ev_to = recipient,
      ev_lamports = amount, ev_pre_balance = pre_escrow, ev_post_balance = post_escrow,
      ev_slot = clock_slot E, ev_timestamp = clock_unix_timestamp E\<rparr>"

text \<open>The first deposit creates the receipt, a later one checks it.\<close>

definition create_or_check_receipt ::
  "portal_env \<Rightarrow> pubkey \<Rightarrow> account_info list \<Rightarrow> pubkey \<Rightarrow> pubkey \<Rightarrow> pubkey \<Rightarrow> pubkey \<Rightarrow> u64 \<Rightarrow> st \<Rightarrow> st res" where
  "create_or_check_receipt E program accs depositor session receipt recipient rent_exempt s =
     (let bump = snd (find_deposit_receipt_pda E program session recipient);
          fresh = new_receipt session recipient bump
      in if dat s receipt = [] then
           rbind (initialize_pda_account E program accs depositor receipt rent_exempt
                   (of_nat (account_size (deposit_receipt_codec E) fresh)) program
                   [ascii ''deposit_receipt'', key_bytes session, key_bytes recipient, [bump]] s) (\<lambda>s.
           store (deposit_receipt_codec E) fresh Panicked receipt s)
         else
           rbind (load (deposit_receipt_codec E) DepositReceiptDeserializeFailed s receipt) (\<lambda>r.
           if \<not> deposit_receipt_is_valid r then Inl (Portal DepositReceiptStateInvalid)
           else if rc_session r \<noteq> session \<or> rc_recipient r \<noteq> recipient then Inl (Portal InvalidPdaSeeds)
           else Inr s))"

definition process_deposit_fee ::
  "portal_env \<Rightarrow> pubkey \<Rightarrow> account_info list \<Rightarrow> u64 \<Rightarrow> st \<Rightarrow> st res" where
  "process_deposit_fee E program accs amount s =
     (if length accs < 5 then Inl NotEnoughAccountKeys else
      let depositor = address (accs ! 0); session = address (accs ! 1);
          receipt = address (accs ! 2); recipient = address (accs ! 3) in
      if \<not> is_signer (accs ! 0) then Inl (Portal Unauthorized)
      else if own s session \<noteq> program then Inl (Portal SessionAccountOwnerMismatch)
      else rbind (load (session_codec E) SessionDeserializeFailed s session) (\<lambda>session_state.
      if \<not> session_is_valid session_state then Inl (Portal SessionStateInvalid)
      else if session_is_expired session_state (clock_slot E) then Inl (Portal SessionExpired)
      else if own s recipient \<noteq> system_id E \<or> dat s recipient \<noteq> [] \<or> exe s recipient
      then Inl (Portal InvalidAccountData)
      else if amount = 0 then Inr s
      else if receipt \<noteq> fst (find_deposit_receipt_pda E program session recipient)
      then Inl (Portal InvalidPdaSeeds)
      else rbind (rent_minimum E (account_size (deposit_receipt_codec E) (new_receipt session recipient
                    (snd (find_deposit_receipt_pda E program session recipient))))) (\<lambda>rent_exempt.
      rbind (if dat s receipt = [] then Inr 0
             else ok_or (checked_sub (lam s receipt) rent_exempt) (Portal InsufficientFees)) (\<lambda>pre_escrow.
      rbind (ok_or (checked_add pre_escrow amount) ProgArithmeticOverflow) (\<lambda>post_escrow.
      rbind (create_or_check_receipt E program accs depositor session receipt recipient rent_exempt
              (emit_transfer_event (deposit_event E depositor recipient amount pre_escrow post_escrow) s)) (\<lambda>s.
      invoke_transfer E accs depositor receipt amount s))))))"

subsection \<open>Starting a withdrawal\<close>

definition process_start_withdrawal :: "portal_env \<Rightarrow> account_info list \<Rightarrow> u64 \<Rightarrow> st \<Rightarrow> st res" where
  "process_start_withdrawal E accs amount s =
     (if length accs < 5 then Inl NotEnoughAccountKeys else
      let source = address (accs ! 0); l1_recipient = address (accs ! 1); sink = address (accs ! 2);
          clock_account = address (accs ! 4)
      in rbind (clock_from_account E clock_account (accts s clock_account)) (\<lambda>clock.
      if \<not> is_signer (accs ! 0) then Inl (Portal Unauthorized)
      else if sink \<noteq> WITHDRAWAL_SINK then Inl (Portal WithdrawalSinkMismatch)
      else if amount = 0 then Inr s
      else
      let pre_balance = lam s source
      in rbind (ok_or (checked_sub pre_balance amount) InsufficientFunds) (\<lambda>post_balance.
         let s = emit_transfer_event \<lparr>ev_version = transfer_event_version, ev_kind = Withdrawal,
                   ev_from = source, ev_to = l1_recipient, ev_lamports = amount,
                   ev_pre_balance = pre_balance, ev_post_balance = post_balance,
                   ev_slot = fst clock, ev_timestamp = snd clock\<rparr> s
         in invoke_transfer E accs source sink amount s)))"

subsection \<open>Opening: what a successful call establishes\<close>

definition vault_of :: "portal_env \<Rightarrow> pubkey \<Rightarrow> pubkey \<Rightarrow> fee_vault" where
  "vault_of E program payer = \<lparr>fv_discriminator = fee_vault_DISCRIMINATOR, fv_authority = payer,
     fv_bump = snd (find_fee_vault_pda E program)\<rparr>"

context portal_codecs
begin

lemma open_session_effect:
  assumes "process_open_session E program (payer # session # fee_vault # rest) args s = Inr s'"
  defines "x \<equiv> initial_session args 0 (clock_slot E) (address payer) (snd (find_session_pda E program))"
  shows "is_signer payer"
    and "0 < os_settlement_interval_slots args" "os_settlement_interval_slots args \<le> 75"
    and "dat s (address session) = []" "dat s (address fee_vault) = []"
    and "address session \<noteq> address fee_vault"
    and "dat s' k = (if k = address session then ser (session_codec E) x
           else if k = address fee_vault then ser (fee_vault_codec E) (vault_of E program (address payer))
           else dat s k)"
    and "own s' k = (if k = address session \<or> k = address fee_vault then program else own s k)"
    and "exe s' k = exe s k" and "events s' = events s"
    and "total_lamports s' = total_lamports s"
    and "k \<noteq> address payer \<Longrightarrow> k \<noteq> address session \<Longrightarrow> k \<noteq> address fee_vault \<Longrightarrow> lam s' k = lam s k"
proof -
  let ?sk = "address session" and ?fk = "address fee_vault"
  note sizes = account_size_def session_c.ser_length fee_vault_c.ser_length
  obtain sl vl t u bs cs where
    g: "is_signer payer" "0 < os_settlement_interval_slots args" "os_settlement_interval_slots args \<le> 75"
      "?fk \<noteq> ?sk"
    and t: "initialize_pda_account E program (payer # session # fee_vault # rest) (address payer) ?sk sl 226
        program [ascii ''session'', [snd (find_session_pda E program)]] s = Inr t"
    and u: "initialize_pda_account E program (payer # session # fee_vault # rest) (address payer) ?fk vl 41
        program [ascii ''fee_vault'', [snd (find_fee_vault_pda E program)]] t = Inr u"
    and bs: "write_slice (session_codec E) x (dat u ?sk) = Some bs"
    and cs: "write_slice (fee_vault_codec E) (vault_of E program (address payer)) (dat (set_dat ?sk bs u) ?fk) = Some cs"
    and s': "s' = set_dat ?fk cs (set_dat ?sk bs u)"
    using assms(1)
    by (auto simp: process_open_session_def process_open_session_initialized_def Let_def ok_simps sizes
        x_def vault_of_def MAX_CHECKPOINT_CADENCE_L1_SLOTS_def word_neq_0_conv)
  note t1 = initialize_pda_account_ok [OF t] and u1 = initialize_pda_account_ok [OF u]
  have bs': "bs = ser (session_codec E) x"
    using bs g(4) by (simp add: t1(3) u1(3) session_c.write_slice_exact)
  have cs': "cs = ser (fee_vault_codec E) (vault_of E program (address payer))"
    using cs g(4) by (simp add: t1(3) u1(3) fee_vault_c.write_slice_exact)
  show "is_signer payer" "0 < os_settlement_interval_slots args" "os_settlement_interval_slots args \<le> 75"
    "?sk \<noteq> ?fk" using g by auto
  show "dat s ?sk = []" "dat s ?fk = []" using t1(1) u1(1) t1(3) [of ?fk] g(4) by auto
  show "dat s' k = (if k = ?sk then ser (session_codec E) x
      else if k = ?fk then ser (fee_vault_codec E) (vault_of E program (address payer)) else dat s k)"
    using g(4) by (auto simp: s' bs' cs' t1(3) u1(3))
  show "own s' k = (if k = ?sk \<or> k = ?fk then program else own s k)"
    "exe s' k = exe s k" "events s' = events s" "total_lamports s' = total_lamports s"
    "k \<noteq> address payer \<Longrightarrow> k \<noteq> ?sk \<Longrightarrow> k \<noteq> ?fk \<Longrightarrow> lam s' k = lam s k"
    by (auto simp: s' t1(4-8) u1(4-8))
qed

lemma initial_session_valid: "session_is_valid (initial_session args n slot payer bump)"
  by (simp add: session_is_valid_def initial_session_def)

end

subsection \<open>Closing: refunds\<close>

lemma set_lam_self [simp]: "set_lam k (lam s k) s = s"
  by (rule st_eqI) auto

lemma refund_ok:
  assumes "refund to k s = Inr s'"
  shows "s' = set_lam to (lam s to + lam s k) s \<and> unat (lam s to + lam s k) = unat (lam s to) + unat (lam s k)"
proof (cases "lam s k > 0")
  case True
  then obtain v where "checked_add (lam s to) (lam s k) = Some v" "s' = set_lam to v s"
    using assms by (auto simp: refund_def ok_simps)
  then show ?thesis
    by (metis checked_add_Some_iff checked_add_def option.distinct(1) option.inject)
next
  case False
  then have "lam s k = 0" by (simp add: word_gt_0)
  with False assms show ?thesis by (simp add: refund_def)
qed

lemma refund_total:
  assumes "refund to k s = Inr s'"
  shows "total_lamports s' = total_lamports s + unat (lam s k)"
  using refund_ok [OF assms] total_set_lam [of to "lam s to + lam s k" s] by simp

context portal_runtime
begin

lemma sweep_cursor:
  assumes r: "(if lam u c > 0 then rbind (refund a c u) (\<lambda>s. Inr (close E c (fill_zero c (set_lam c 0 s))))
      else Inr u) = Inr r" and ne: "a \<noteq> c"
  shows "unat (lam r a) = unat (lam u a) + unat (lam u c)" "lam r c = 0" "total_lamports r = total_lamports u"
    and "k \<notin> {a, c} \<Longrightarrow> lam r k = lam u k" "k \<noteq> c \<Longrightarrow> dat r k = dat u k"
    and "k \<noteq> c \<Longrightarrow> own r k = own u k" "exe r k = exe u k"
proof -
  have "unat (lam r a) = unat (lam u a) + unat (lam u c) \<and> lam r c = 0 \<and> total_lamports r = total_lamports u
    \<and> (k \<notin> {a, c} \<longrightarrow> lam r k = lam u k) \<and> (k \<noteq> c \<longrightarrow> dat r k = dat u k)
    \<and> (k \<noteq> c \<longrightarrow> own r k = own u k) \<and> exe r k = exe u k"
  proof (cases "lam u c > 0")
    case True
    then obtain q where q: "refund a c u = Inr q" "r = close E c (fill_zero c (set_lam c 0 q))"
      using r by (auto simp: ok_simps)
    then have "total_lamports r = total_lamports u"
      using refund_total [OF q(1)] refund_ok [OF q(1)] total_set_lam [of c 0 q] ne
        total_close [of c "fill_zero c (set_lam c 0 q)"] by auto
    then show ?thesis using q(2) refund_ok [OF q(1)] ne by auto
  next
    case False
    then show ?thesis using r by (auto simp: word_gt_0)
  qed
  then show "unat (lam r a) = unat (lam u a) + unat (lam u c)" "lam r c = 0" "total_lamports r = total_lamports u"
    "k \<notin> {a, c} \<Longrightarrow> lam r k = lam u k" "k \<noteq> c \<Longrightarrow> dat r k = dat u k"
    "k \<noteq> c \<Longrightarrow> own r k = own u k" "exe r k = exe u k" by auto
qed

lemma close_session_effect:
  assumes run: "process_close_session E program (closer # session # fee_vault # sys # cursor # rest) s = Inr s'"
    and sep: "address closer \<noteq> address session" "address closer \<noteq> address fee_vault" "address closer \<noteq> address cursor"
  shows "unat (lam s' (address closer)) = unat (lam s (address closer)) + unat (lam s (address session))
           + unat (lam s (address fee_vault)) + unat (lam s (address cursor))"
    and "lam s' (address session) = 0" "lam s' (address fee_vault) = 0" "lam s' (address cursor) = 0"
    and "dat s' (address session) = []" "dat s' (address fee_vault) = []"
    and "own s' (address session) = system_id E" "own s' (address fee_vault) = system_id E"
    and "total_lamports s' = total_lamports s"
    and "k \<notin> {address closer, address session, address fee_vault, address cursor} \<Longrightarrow> accts s' k = accts s k"
    and "\<exists>x. try_from_slice (session_codec E) (dat s (address session)) = Some x
           \<and> s_authority x = address closer \<and> s_settlement_status x = Idle"
    and "is_signer closer"
proof -
  let ?a = "address closer" and ?b = "address session" and ?v = "address fee_vault" and ?c = "address cursor"
  obtain x w t u r where
    x: "try_from_slice (session_codec E) (dat s ?b) = Some x" "s_authority x = ?a" "s_settlement_status x \<noteq> InProgress"
    and sg: "is_signer closer"
    and w: "try_from_slice (fee_vault_codec E) (dat s ?v) = Some w"
    and cur: "check_closable_cursor E program ?b ?c s = Inr ()"
    and t: "refund ?a ?v s = Inr t"
    and u: "refund ?a ?b (set_lam ?v 0 t) = Inr u"
    and r: "(if lam u ?c > 0 then rbind (refund ?a ?c u) (\<lambda>s. Inr (close E ?c (fill_zero ?c (set_lam ?c 0 s)))) else Inr u) = Inr r"
    and s': "s' = close E ?b (close E ?v (fill_zero ?b (fill_zero ?v (set_lam ?b 0 r))))"
    using run by (auto simp: process_close_session_def Let_def ok_simps)
  have "length (dat s ?b) = 226" "length (dat s ?v) = 41"
    using x w session_c.try_from_sliceD(3) fee_vault_c.try_from_sliceD(3) by auto
  moreover have "dat s ?c = [] \<or> length (dat s ?c) = 153"
    using cur cursor_c.try_from_sliceD(3) by (auto simp: check_closable_cursor_def ok_simps split: if_splits)
  ultimately have ne: "?b \<noteq> ?v" "?c \<noteq> ?b" "?c \<noteq> ?v" by auto
  note t1 = refund_ok [OF t] and u1 = refund_ok [OF u]
  note r1 = sweep_cursor [OF r sep(3)]
  show "unat (lam s' ?a) = unat (lam s ?a) + unat (lam s ?b) + unat (lam s ?v) + unat (lam s ?c)"
    using sep ne t1 u1 r1 by (simp add: s')
  show "lam s' ?b = 0" "lam s' ?v = 0" "lam s' ?c = 0" "dat s' ?b = []" "dat s' ?v = []"
    "own s' ?b = system_id E" "own s' ?v = system_id E"
    using r1 ne by (simp_all add: s')
  have "total_lamports s' + unat (lam r ?b) + unat (lam r ?v) = total_lamports r"
    using total_close [of ?b "close E ?v (fill_zero ?b (fill_zero ?v (set_lam ?b 0 r)))"]
      total_close [of ?v "fill_zero ?b (fill_zero ?v (set_lam ?b 0 r))"] total_set_lam [of ?b 0 r] ne
    by (simp add: s')
  then show "total_lamports s' = total_lamports s"
    using refund_total [OF t] refund_total [OF u] total_set_lam [of ?v 0 t] t1 u1 r1 sep ne by simp
  show "k \<notin> {?a, ?b, ?v, ?c} \<Longrightarrow> accts s' k = accts s k"
    using r1 t1 u1 by (intro acct_eqI) (auto simp: s')
  show "\<exists>x. try_from_slice (session_codec E) (dat s ?b) = Some x \<and> s_authority x = ?a \<and> s_settlement_status x = Idle"
    using x by (metis settlement_status.exhaust)
  show "is_signer closer" by (rule sg)
qed
end

subsection \<open>Deposits: the receipt holds the escrow\<close>

context portal_codecs
begin

lemma create_or_check_receipt_ok:
  assumes "create_or_check_receipt E program accs depositor session receipt recipient rent s = Inr s'"
    and sep: "depositor \<noteq> receipt"
  defines "fresh \<equiv> new_receipt session recipient (snd (find_deposit_receipt_pda E program session recipient))"
  shows "dat s receipt = [] \<Longrightarrow> dat s' receipt = ser (deposit_receipt_codec E) fresh \<and> own s' receipt = program
      \<and> unat (lam s' receipt) = max (unat (lam s receipt)) (unat rent)"
    and "dat s receipt \<noteq> [] \<Longrightarrow> s' = s \<and> (\<exists>r. try_from_slice (deposit_receipt_codec E) (dat s receipt) = Some r
      \<and> deposit_receipt_is_valid r \<and> rc_session r = session \<and> rc_recipient r = recipient)"
    and "total_lamports s' = total_lamports s" "events s' = events s"
    and "k \<noteq> depositor \<Longrightarrow> k \<noteq> receipt \<Longrightarrow> accts s' k = accts s k"
proof -
  have split: "dat s receipt = [] \<Longrightarrow> \<exists>t seeds bs. initialize_pda_account E program accs depositor receipt rent 89 program seeds s = Inr t
      \<and> write_slice (deposit_receipt_codec E) fresh (dat t receipt) = Some bs \<and> s' = set_dat receipt bs t"
    using assms(1) by (auto simp: create_or_check_receipt_def Let_def ok_simps account_size_def
        deposit_receipt_c.ser_length fresh_def)
  { assume e: "dat s receipt = []"
    then obtain t seeds bs where
      t: "initialize_pda_account E program accs depositor receipt rent 89 program seeds s = Inr t"
      and bs: "write_slice (deposit_receipt_codec E) fresh (dat t receipt) = Some bs" "s' = set_dat receipt bs t"
      using split by blast
    note t1 = initialize_pda_account_ok [OF t]
    have "bs = ser (deposit_receipt_codec E) fresh"
      using bs by (simp add: t1(3) deposit_receipt_c.write_slice_exact)
    then have "dat s' receipt = ser (deposit_receipt_codec E) fresh \<and> own s' receipt = program
        \<and> unat (lam s' receipt) = max (unat (lam s receipt)) (unat rent)
        \<and> total_lamports s' = total_lamports s \<and> events s' = events s
        \<and> (k \<noteq> depositor \<longrightarrow> k \<noteq> receipt \<longrightarrow> accts s' k = accts s k)"
      using sep t1(4-9) by (auto simp: bs(2) t1(3) intro!: acct_eqI) }
  note fresh_case = this
  { assume "dat s receipt \<noteq> []"
    then have "s' = s \<and> (\<exists>r. try_from_slice (deposit_receipt_codec E) (dat s receipt) = Some r
        \<and> deposit_receipt_is_valid r \<and> rc_session r = session \<and> rc_recipient r = recipient)"
      using assms(1) by (auto simp: create_or_check_receipt_def Let_def ok_simps) }
  note old_case = this
  show "dat s receipt = [] \<Longrightarrow> dat s' receipt = ser (deposit_receipt_codec E) fresh \<and> own s' receipt = program
      \<and> unat (lam s' receipt) = max (unat (lam s receipt)) (unat rent)"
    "dat s receipt \<noteq> [] \<Longrightarrow> s' = s \<and> (\<exists>r. try_from_slice (deposit_receipt_codec E) (dat s receipt) = Some r
      \<and> deposit_receipt_is_valid r \<and> rc_session r = session \<and> rc_recipient r = recipient)"
    "total_lamports s' = total_lamports s" "events s' = events s"
    "k \<noteq> depositor \<Longrightarrow> k \<noteq> receipt \<Longrightarrow> accts s' k = accts s k"
    using fresh_case old_case by (cases "dat s receipt = []"; auto)+
qed

lemma deposit_fee_effect:
  assumes run: "process_deposit_fee E program (depositor # session # receipt # recipient # sys # rest) amount s = Inr s'"
    and amount: "amount \<noteq> 0" and sep: "address depositor \<noteq> address receipt"
  shows "\<exists>rent r. rent_minimum E 89 = Inr rent
     \<and> try_from_slice (deposit_receipt_codec E) (dat s' (address receipt)) = Some r
     \<and> deposit_receipt_is_valid r \<and> rc_session r = address session \<and> rc_recipient r = address recipient
     \<and> (if dat s (address receipt) = []
        then rc_balance r = 0 \<and> rc_withdrawn r = 0 \<and> own s' (address receipt) = program
          \<and> unat (lam s' (address receipt)) = max (unat (lam s (address receipt))) (unat rent) + unat amount
        else dat s' (address receipt) = dat s (address receipt) \<and> own s' (address receipt) = own s (address receipt)
          \<and> unat (lam s' (address receipt)) = unat (lam s (address receipt)) + unat amount)"
    and "total_lamports s' = total_lamports s"
    and "k \<noteq> address depositor \<Longrightarrow> k \<noteq> address receipt \<Longrightarrow> accts s' k = accts s k"
    and "\<exists>pre post. events s' = events s @ [deposit_event E (address depositor) (address recipient) amount pre post]
       \<and> unat post = unat pre + unat amount"
proof -
  let ?d = "address depositor" and ?r = "address receipt" and ?ss = "address session" and ?rp = "address recipient"
  let ?accs = "depositor # session # receipt # recipient # sys # rest"
  obtain rent pre post t where
    rent: "rent_minimum E 89 = Inr rent"
    and post: "checked_add pre amount = Some post"
    and t: "create_or_check_receipt E program ?accs ?d ?ss ?r ?rp rent
              (emit_transfer_event (deposit_event E ?d ?rp amount pre post) s) = Inr t"
    and fin: "invoke_transfer E ?accs ?d ?r amount t = Inr s'"
    using run amount
    by (auto simp: process_deposit_fee_def Let_def ok_simps account_size_def deposit_receipt_c.ser_length)
  note t1 = create_or_check_receipt_ok [OF t sep] and f1 = invoke_transfer_frame [OF fin]
  have new: "deposit_receipt_is_valid (new_receipt a b c)" "rc_session (new_receipt a b c) = a"
    "rc_recipient (new_receipt a b c) = b" "rc_balance (new_receipt a b c) = 0" "rc_withdrawn (new_receipt a b c) = 0" for a b c
    by (simp_all add: new_receipt_def deposit_receipt_is_valid_def)
  show "\<exists>rent r. rent_minimum E 89 = Inr rent
     \<and> try_from_slice (deposit_receipt_codec E) (dat s' ?r) = Some r
     \<and> deposit_receipt_is_valid r \<and> rc_session r = ?ss \<and> rc_recipient r = ?rp
     \<and> (if dat s ?r = [] then rc_balance r = 0 \<and> rc_withdrawn r = 0 \<and> own s' ?r = program
          \<and> unat (lam s' ?r) = max (unat (lam s ?r)) (unat rent) + unat amount
        else dat s' ?r = dat s ?r \<and> own s' ?r = own s ?r \<and> unat (lam s' ?r) = unat (lam s ?r) + unat amount)"
  proof (cases "dat s ?r = []")
    case True
    then show ?thesis using t1(1) f1 sep rent by (simp add: deposit_receipt_c.try_from_slice_ser new)
  next
    case False
    then show ?thesis using t1(2) f1 sep rent by (auto simp: deposit_receipt_c.try_from_slice_iff)
  qed
  show "total_lamports s' = total_lamports s" using t1(3) invoke_transfer_total [OF fin] by simp
  show "k \<noteq> ?d \<Longrightarrow> k \<noteq> ?r \<Longrightarrow> accts s' k = accts s k"
    using t1(5) [of k] f1(1-3,5) [of k] by (auto intro!: acct_eqI)
  show "\<exists>pre post. events s' = events s @ [deposit_event E ?d ?rp amount pre post] \<and> unat post = unat pre + unat amount"
    using t1(4) f1(4) post by (auto simp: checked_add_Some_iff)
qed
end

subsection \<open>Properties\<close>

text \<open>C30: a successful \<open>OpenSession\<close> was signed by the payer with a settlement interval between 1
  and 75 slots; it leaves, owned by the program, a session account that reads as the requested
  session with the payer as authority and no settlement in progress, and a fee vault of the same
  authority; it conserves lamports and changes no account but payer, session and vault.\<close>

theorem open_session_establishes:
  assumes "portal_codecs E"
    and "process_open_session E program (payer # session # fee_vault # rest) args s = Inr s'"
  shows "is_signer payer \<and> 0 < os_settlement_interval_slots args \<and> os_settlement_interval_slots args \<le> 75
    \<and> parse_session E (dat s' (address session)) =
        Inr (initial_session args 0 (clock_slot E) (address payer) (snd (find_session_pda E program)))
    \<and> try_from_slice (fee_vault_codec E) (dat s' (address fee_vault)) = Some (vault_of E program (address payer))
    \<and> own s' (address session) = program \<and> own s' (address fee_vault) = program
    \<and> total_lamports s' = total_lamports s
    \<and> (\<forall>k. k \<notin> {address payer, address session, address fee_vault} \<longrightarrow> accts s' k = accts s k)"
proof -
  note eff = portal_codecs.open_session_effect [OF assms]
  have "parse_session E (dat s' (address session)) =
      Inr (initial_session args 0 (clock_slot E) (address payer) (snd (find_session_pda E program)))"
    using eff(7) by (simp add: portal_codecs.parse_session_cases [OF assms(1)]
        portal_codecs.initial_session_valid [OF assms(1)])
  moreover have "try_from_slice (fee_vault_codec E) (dat s' (address fee_vault)) =
      Some (vault_of E program (address payer))"
    using eff(6,7) borsh_codec.try_from_slice_ser [OF portal_codecs.axioms(3) [OF assms(1)]] by auto
  ultimately show ?thesis
    using eff by (auto intro!: acct_eqI)
qed

definition open_args :: open_session where
  "open_args = \<lparr>os_grid_id = 3, os_ttl_slots = 100, os_fee_cap = 9, os_validator = 6,
     os_settlement_interval_slots = 5\<rparr>"

definition payer_st :: st where
  "payer_st = sample_st [(5, \<lparr>lamports = 1000000, data = [], owner = 0, executable = False\<rparr>)]"

lemma open_sample_run:
  "\<exists>s'. process_open_session (sample_env 10) 77 [signer 5, mutable 1007, mutable 1009, readonly 0] open_args payer_st = Inr s'"
  by (simp add: process_open_session_def process_open_session_initialized_def open_args_def payer_st_def
      MAX_CHECKPOINT_CADENCE_L1_SLOTS_def cpi_eval store_eval)

theorem open_session_establishes_witness:
  "\<exists>s'. process_open_session (sample_env 10) 77 [signer 5, mutable 1007, mutable 1009, readonly 0] open_args payer_st = Inr s'
     \<and> parse_session (sample_env 10) (dat s' 1007) = Inr (initial_session open_args 0 10 5 255)
     \<and> own s' 1007 = 77 \<and> total_lamports s' = total_lamports payer_st"
proof -
  obtain s' where run: "process_open_session (sample_env 10) 77 [signer 5, mutable 1007, mutable 1009, readonly 0]
      open_args payer_st = Inr s'"
    using open_sample_run by blast
  show ?thesis
    using open_session_establishes [OF smp.portal_codecs_axioms run] run by auto
qed

text \<open>While a session exists no second one can be opened, whoever pays, at any later slot.\<close>

theorem open_session_exclusive:
  assumes "portal_codecs E" "process_open_session E program accs args s = Inr s'"
    and "find_session_pda E' program = find_session_pda E program" "portal_codecs E'"
  shows "\<not> is_ok (process_open_session E' program accs' args' s')"
proof
  assume "is_ok (process_open_session E' program accs' args' s')"
  then obtain s'' where run': "process_open_session E' program accs' args' s' = Inr s''"
    by (cases "process_open_session E' program accs' args' s'") auto
  have shape: "\<exists>a b c r. xs = a # b # c # r \<and> address b = fst (find_session_pda F program)"
    if "process_open_session F program xs as t = Inr t'" for F xs as t t'
  proof -
    have "4 \<le> length xs" "address (xs ! 1) = fst (find_session_pda F program)"
      using that by (auto simp: process_open_session_def process_open_session_initialized_def Let_def ok_simps not_less)
    then show ?thesis
      by (cases xs; cases "tl xs"; cases "tl (tl xs)") auto
  qed
  obtain a b c r a' b' c' r' where sh: "accs = a # b # c # r" "address b = fst (find_session_pda E program)"
      "accs' = a' # b' # c' # r'" "address b' = fst (find_session_pda E' program)"
    using shape [OF assms(2)] shape [OF run'] by blast
  have "dat s' (address b) \<noteq> []"
    using portal_codecs.open_session_effect(7) [OF assms(1) assms(2) [unfolded sh(1)], of "address b"]
      borsh_codec.ser_length [OF portal_codecs.axioms(1) [OF assms(1)]] by (metis TrueI list.size(3) zero_neq_numeral)
  moreover have "dat s' (address b') = []"
    using portal_codecs.open_session_effect(4) [OF assms(4) run' [unfolded sh(3)]] .
  ultimately show False using sh assms(3) by simp
qed

theorem open_session_exclusive_witness:
  "\<exists>s'. process_open_session (sample_env 10) 77 [signer 5, mutable 1007, mutable 1009, readonly 0] open_args payer_st = Inr s'
     \<and> \<not> is_ok (process_open_session (sample_env 20) 77 [signer 8, mutable 1007, mutable 1009, readonly 0] open_args s')"
  using open_sample_run open_session_exclusive [OF smp.portal_codecs_axioms _ _ smp.portal_codecs_axioms]
  by (metis sample_find(1))

text \<open>C31: a successful \<open>CloseSession\<close> was signed by the session's authority while no settlement was in
  progress; the authority receives exactly the lamports of session, fee vault and checkpoint cursor,
  those three accounts hold nothing afterwards, session and vault are empty accounts of the system
  program, and no lamport is created or lost.\<close>

theorem close_session_refunds:
  assumes "portal_runtime E"
    and "process_close_session E program (closer # session # fee_vault # sys # cursor # rest) s = Inr s'"
    and "address closer \<notin> {address session, address fee_vault, address cursor}"
  shows "is_signer closer
    \<and> (\<exists>x. try_from_slice (session_codec E) (dat s (address session)) = Some x
          \<and> s_authority x = address closer \<and> s_settlement_status x = Idle)
    \<and> unat (lam s' (address closer)) = unat (lam s (address closer)) + unat (lam s (address session))
         + unat (lam s (address fee_vault)) + unat (lam s (address cursor))
    \<and> lam s' (address session) = 0 \<and> lam s' (address fee_vault) = 0 \<and> lam s' (address cursor) = 0
    \<and> dat s' (address session) = [] \<and> own s' (address session) = system_id E
    \<and> dat s' (address fee_vault) = [] \<and> own s' (address fee_vault) = system_id E
    \<and> total_lamports s' = total_lamports s"
  using portal_runtime.close_session_effect [OF assms(1,2)] assms(3) by auto

definition closable_st :: st where
  "closable_st = sample_st
     [(5, \<lparr>lamports = 700, data = [], owner = 0, executable = False\<rparr>),
      (1007, \<lparr>lamports = 3540, data = ser session_layout (initial_session open_args 0 10 5 255),
        owner = 77, executable = False\<rparr>),
      (1009, \<lparr>lamports = 2000, data = ser fee_vault_layout (vault_of (sample_env 10) 77 5),
        owner = 77, executable = False\<rparr>)]"

lemma closable_run:
  "\<exists>s'. process_close_session (sample_env 90) 77
     [signer 5, mutable 1007, mutable 1009, readonly 0, mutable 1049] closable_st = Inr s'"
  by (simp add: process_close_session_def closable_st_def initial_session_def vault_of_def open_args_def
      session_is_valid_def fee_vault_is_valid_def check_closable_cursor_def refund_def checked_add_def store_eval)

theorem close_session_refunds_witness:
  "\<exists>s'. process_close_session (sample_env 90) 77
     [signer 5, mutable 1007, mutable 1009, readonly 0, mutable 1049] closable_st = Inr s'
     \<and> unat (lam s' 5) = 6240 \<and> dat s' 1007 = [] \<and> total_lamports s' = total_lamports closable_st"
proof -
  obtain s' where run: "process_close_session (sample_env 90) 77
      [signer 5, mutable 1007, mutable 1009, readonly 0, mutable 1049] closable_st = Inr s'"
    using closable_run by blast
  show ?thesis
    using close_session_refunds [OF smp.portal_runtime_axioms run] run
    by (auto simp: closable_st_def empty_account_def)
qed

text \<open>A deposit of a positive amount moves exactly that amount into the recipient's receipt account
  (on top of the rent reserve when the receipt is created), leaves the receipt bound to session and
  recipient with its balance and withdrawal counters untouched, logs one deposit event whose escrow
  grows by the amount, conserves lamports and changes no other account.\<close>

theorem deposit_fee_escrows:
  assumes "portal_codecs E"
    and "process_deposit_fee E program (depositor # session # receipt # recipient # sys # rest) amount s = Inr s'"
    and "amount \<noteq> 0" "address depositor \<noteq> address receipt"
  shows "(\<exists>rent r. rent_minimum E 89 = Inr rent
      \<and> try_from_slice (deposit_receipt_codec E) (dat s' (address receipt)) = Some r
      \<and> deposit_receipt_is_valid r \<and> rc_session r = address session \<and> rc_recipient r = address recipient
      \<and> (if dat s (address receipt) = []
         then rc_balance r = 0 \<and> rc_withdrawn r = 0 \<and> own s' (address receipt) = program
           \<and> unat (lam s' (address receipt)) = max (unat (lam s (address receipt))) (unat rent) + unat amount
         else dat s' (address receipt) = dat s (address receipt) \<and> own s' (address receipt) = own s (address receipt)
           \<and> unat (lam s' (address receipt)) = unat (lam s (address receipt)) + unat amount))
    \<and> (\<exists>pre post. events s' = events s @ [deposit_event E (address depositor) (address recipient) amount pre post]
         \<and> unat post = unat pre + unat amount)
    \<and> total_lamports s' = total_lamports s
    \<and> (\<forall>k. k \<notin> {address depositor, address receipt} \<longrightarrow> accts s' k = accts s k)"
  using portal_codecs.deposit_fee_effect [OF assms] by simp

definition depositor_st :: st where
  "depositor_st = sample_st
     [(5, \<lparr>lamports = 100000, data = [], owner = 0, executable = False\<rparr>),
      (1007, \<lparr>lamports = 3540, data = ser session_layout (initial_session open_args 0 10 5 255),
        owner = 77, executable = False\<rparr>)]"

lemma deposit_run:
  "\<exists>s'. process_deposit_fee (sample_env 20) 77
     [signer 5, readonly 1007, mutable 1079, readonly 8, readonly 0] 400 depositor_st = Inr s'"
  by (simp add: process_deposit_fee_def create_or_check_receipt_def deposit_event_def new_receipt_def
      depositor_st_def initial_session_def open_args_def session_is_valid_def session_is_expired_def
      saturating_add_def cpi_eval store_eval)

theorem deposit_fee_escrows_witness:
  "\<exists>s'. process_deposit_fee (sample_env 20) 77
     [signer 5, readonly 1007, mutable 1079, readonly 8, readonly 0] 400 depositor_st = Inr s'
     \<and> unat (lam s' 1079) = 2570 \<and> own s' 1079 = 77 \<and> total_lamports s' = total_lamports depositor_st"
proof -
  obtain s' where run: "process_deposit_fee (sample_env 20) 77
      [signer 5, readonly 1007, mutable 1079, readonly 8, readonly 0] 400 depositor_st = Inr s'"
    using deposit_run by blast
  have "dat depositor_st 1079 = []" "lam depositor_st 1079 = 0"
    by (simp_all add: depositor_st_def empty_account_def)
  then show ?thesis
    using deposit_fee_escrows [OF smp.portal_codecs_axioms run] run by auto
qed

text \<open>Starting a withdrawal of a positive amount moves it from the signing source to the fixed
  withdrawal sink, logs one withdrawal event for the L1 recipient with the source's balances
  before and after, and conserves lamports.\<close>

theorem start_withdrawal_moves:
  assumes "process_start_withdrawal E (source # l1_recipient # sink # sys # clock # rest) amount s = Inr s'"
    and "amount \<noteq> 0" "address source \<noteq> WITHDRAWAL_SINK"
  shows "is_signer source \<and> address sink = WITHDRAWAL_SINK
    \<and> unat (lam s' (address source)) + unat amount = unat (lam s (address source))
    \<and> unat (lam s' WITHDRAWAL_SINK) = unat (lam s WITHDRAWAL_SINK) + unat amount
    \<and> (\<exists>ev. events s' = events s @ [ev] \<and> ev_kind ev = Withdrawal \<and> ev_to ev = address l1_recipient
         \<and> ev_pre_balance ev = lam s (address source) \<and> ev_post_balance ev = lam s' (address source))
    \<and> total_lamports s' = total_lamports s"
proof -
  let ?src = "address source"
  obtain ck post where g: "is_signer source" "address sink = WITHDRAWAL_SINK"
    and post: "checked_sub (lam s ?src) amount = Some post"
    and fin: "invoke_transfer E (source # l1_recipient # sink # sys # clock # rest) ?src WITHDRAWAL_SINK amount
       (emit_transfer_event \<lparr>ev_version = transfer_event_version, ev_kind = Withdrawal,
          ev_from = ?src, ev_to = address l1_recipient, ev_lamports = amount,
          ev_pre_balance = lam s ?src, ev_post_balance = post,
          ev_slot = fst ck, ev_timestamp = snd ck\<rparr> s) = Inr s'"
    using assms by (auto simp: process_start_withdrawal_def Let_def ok_simps)
  note f1 = invoke_transfer_frame [OF fin]
  have src: "unat (lam s' ?src) + unat amount = unat (lam s ?src)" using f1(6) assms(3) by simp
  moreover have "lam s' ?src = post"
    using src post by (simp add: checked_sub_Some_iff word_unat_eq_iff)
  ultimately show ?thesis
    using g f1(4,7) assms(3) invoke_transfer_total [OF fin] by simp
qed

theorem start_withdrawal_moves_witness:
  "\<exists>s'. process_start_withdrawal (sample_env 20)
      [signer 5, readonly 8, mutable WITHDRAWAL_SINK, readonly 0, readonly 9] 300 payer_st = Inr s'
     \<and> unat (lam s' 5) + 300 = 1000000 \<and> total_lamports s' = total_lamports payer_st"
proof -
  have ne: "(5 :: pubkey) \<noteq> WITHDRAWAL_SINK" "(8 :: pubkey) \<noteq> WITHDRAWAL_SINK" "(0 :: pubkey) \<noteq> WITHDRAWAL_SINK"
    "(9 :: pubkey) \<noteq> WITHDRAWAL_SINK"
    by (simp_all add: WITHDRAWAL_SINK_def)
  obtain s' where run: "process_start_withdrawal (sample_env 20)
      [signer 5, readonly 8, mutable WITHDRAWAL_SINK, readonly 0, readonly 9] 300 payer_st = Inr s'"
    using ne ne [symmetric] by (simp add: process_start_withdrawal_def payer_st_def cpi_eval store_eval)
  show ?thesis
    using start_withdrawal_moves [OF run] run ne by (auto simp: payer_st_def)
qed

end
