(* ===== verification/Portal_Delegation.thy ===== *)
theory Portal_Delegation
  imports Portal_Session
begin

text \<open>
  Delegating accounts to the rollup and taking them back: \<open>delegate.rs\<close>,
  \<open>request_undelegation.rs\<close> and \<open>undelegate.rs\<close>.  A delegated account is owned by the Portal and
  has a delegation record naming the program it came from; it goes back to that program only
  through a request of its authority that the session's validator approved.
\<close>

subsection \<open>Delegate\<close>

definition validate_session :: "portal_env \<Rightarrow> pubkey \<Rightarrow> pubkey \<Rightarrow> u64 \<Rightarrow> st \<Rightarrow> session res" where
  "validate_session E program session grid_id s =
     (if session \<noteq> fst (find_session_pda E program) then Inl (Portal InvalidPdaSeeds)
      else if own s session \<noteq> program then Inl (Portal SessionAccountOwnerMismatch)
      else rbind (load (session_codec E) SessionDeserializeFailed s session) (\<lambda>x.
      if \<not> session_is_valid x then Inl (Portal SessionStateInvalid)
      else if s_settlement_status x = InProgress then Inl (Portal SettlementInProgress)
      else if s_grid_id x \<noteq> grid_id then Inl (Portal Unauthorized)
      else Inr x))"

definition delegation_state :: "portal_env \<Rightarrow> pubkey \<Rightarrow> pubkey \<Rightarrow> pubkey \<Rightarrow> session \<Rightarrow> delegation_record" where
  "delegation_state E program delegated owner_program x =
     \<lparr>dr_discriminator = delegation_record_DISCRIMINATOR, dr_owner_program = owner_program,
      dr_grid_id = s_grid_id x, dr_bump = snd (find_delegation_record_pda E program delegated)\<rparr>"

definition process_delegate_account ::
  "portal_env \<Rightarrow> pubkey \<Rightarrow> account_info list \<Rightarrow> account_info \<Rightarrow> account_info \<Rightarrow> account_info \<Rightarrow> account_info
    \<Rightarrow> account_info \<Rightarrow> session \<Rightarrow> st \<Rightarrow> st res" where
  "process_delegate_account E program accs payer delegated owner_program rec buffer x s =
     (let d = address delegated; r = address rec; b = address buffer;
          bump = snd (find_delegation_record_pda E program d)
      in if \<not> is_signer payer then Inl (Portal Unauthorized)
      else if \<not> is_signer delegated then Inl (Portal Unauthorized)
      else if own s d \<noteq> program then Inl (Portal DelegatedAccountOwnerMismatch)
      else if r \<noteq> fst (find_delegation_record_pda E program d) then Inl (Portal InvalidPdaSeeds)
      else if dat s r \<noteq> [] \<or> own s r \<noteq> system_id E then Inl (Portal DelegationRecordAlreadyInitialized)
      else if own s b \<noteq> address owner_program then Inl (Portal DelegateBufferOwnerMismatch)
      else if length (dat s b) \<noteq> length (dat s d) then Inl (Portal DelegateBufferSizeMismatch)
      else
      let new_record = delegation_state E program d (address owner_program) x;
          size = account_size (delegation_record_codec E) new_record
      in rbind (rent_minimum E size) (\<lambda>amount.
         rbind (initialize_pda_account E program accs (address payer) r amount (of_nat size) program
                 [ascii ''delegation'', key_bytes d, [bump]] s) (\<lambda>s.
         rbind (store (delegation_record_codec E) new_record Panicked r s) (\<lambda>s.
         if b = d then Inl AccountBorrowFailed
         else if length (dat s b) \<noteq> length (dat s d) then Inl Panicked
         else Inr (set_dat d (dat s b) s)))))"

fun delegate_groups ::
  "portal_env \<Rightarrow> pubkey \<Rightarrow> account_info list \<Rightarrow> account_info \<Rightarrow> session \<Rightarrow> account_info list \<Rightarrow> st \<Rightarrow> st res" where
  "delegate_groups E program accs payer x (delegated # owner_program # rec # buffer # rest) s =
     rbind (process_delegate_account E program accs payer delegated owner_program rec buffer x s) (\<lambda>s.
     delegate_groups E program accs payer x rest s)"
| "delegate_groups E program accs payer x _ s = Inr s"

definition process_delegate :: "portal_env \<Rightarrow> pubkey \<Rightarrow> account_info list \<Rightarrow> u64 \<Rightarrow> st \<Rightarrow> st res" where
  "process_delegate E program accs grid_id s =
     (if length accs < 3 + 4 then Inl NotEnoughAccountKeys
      else if (length accs - 3) mod 4 \<noteq> 0 then Inl InvalidInstructionData
      else rbind (validate_session E program (address (accs ! 2)) grid_id s) (\<lambda>x.
      delegate_groups E program accs (accs ! 0) x (drop 3 accs) s))"

subsection \<open>Requesting and approving undelegation\<close>

definition process_request_undelegation :: "portal_env \<Rightarrow> pubkey \<Rightarrow> account_info list \<Rightarrow> st \<Rightarrow> st res" where
  "process_request_undelegation E program accs s =
     (if length accs < 8 then Inl NotEnoughAccountKeys else
      let payer = accs ! 0; authority = accs ! 1; delegated = accs ! 2;
          owner_program = address (accs ! 3); rec = address (accs ! 4); session = address (accs ! 5);
          request = address (accs ! 6); d = address delegated
      in if \<not> is_signer payer \<or> \<not> is_signer authority \<or> \<not> is_signer delegated then Inl (Portal Unauthorized)
      else if session \<noteq> fst (find_session_pda E program) \<or> own s session \<noteq> program then Inl (Portal InvalidPdaSeeds)
      else rbind (load (session_codec E) SessionDeserializeFailed s session) (\<lambda>x.
      if \<not> session_is_valid x then Inl (Portal SessionStateInvalid)
      else if session_is_expired x (clock_slot E) then Inl (Portal SessionExpired)
      else if own s d \<noteq> program then Inl (Portal DelegatedAccountOwnerMismatch)
      else if rec \<noteq> fst (find_delegation_record_pda E program d) \<or> own s rec \<noteq> program
      then Inl (Portal InvalidPdaSeeds)
      else rbind (load (delegation_record_codec E) DelegationRecordDeserializeFailed s rec) (\<lambda>dr.
      if \<not> delegation_record_is_valid dr \<or> dr_owner_program dr \<noteq> owner_program
      then Inl (Portal DelegationRecordStateInvalid)
      else if request \<noteq> fst (find_undelegation_request_pda E program d) then Inl (Portal InvalidPdaSeeds)
      else if dat s request \<noteq> [] then Inl (Portal UndelegationRequestAlreadyInitialized)
      else
      let bump = snd (find_undelegation_request_pda E program d);
          request_state = \<lparr>ur_discriminator = undelegation_request_DISCRIMINATOR, ur_session = session,
            ur_delegated_account = d, ur_owner_program = owner_program, ur_authority = address authority,
            ur_requested_at_l1_slot = clock_slot E, ur_approved = False, ur_bump = bump\<rparr>;
          request_size = account_size (undelegation_request_codec E) request_state
      in rbind (rent_minimum E request_size) (\<lambda>rent.
         rbind (initialize_pda_account E program accs (address payer) request rent (of_nat request_size)
                 program [ascii ''undelegation_request'', key_bytes d, [bump]] s) (\<lambda>s.
         store (undelegation_request_codec E) request_state (Portal InvalidAccountData) request s)))))"

definition process_approve_undelegation :: "portal_env \<Rightarrow> pubkey \<Rightarrow> account_info list \<Rightarrow> st \<Rightarrow> st res" where
  "process_approve_undelegation E program accs s =
     (if length accs < 3 then Inl NotEnoughAccountKeys else
      let validator = accs ! 0; session = address (accs ! 1); request = address (accs ! 2)
      in if \<not> is_signer validator then Inl (Portal Unauthorized)
      else if session \<noteq> fst (find_session_pda E program) \<or> own s session \<noteq> program then Inl (Portal InvalidPdaSeeds)
      else rbind (load (session_codec E) SessionDeserializeFailed s session) (\<lambda>x.
      if \<not> session_is_valid x \<or> s_validator x \<noteq> address validator then Inl (Portal Unauthorized)
      else if s_settlement_status x \<noteq> Idle then Inl (Portal SettlementInProgress)
      else rbind (load (undelegation_request_codec E) UndelegationRequestDeserializeFailed s request) (\<lambda>q.
      if own s request \<noteq> program
         \<or> request \<noteq> fst (find_undelegation_request_pda E program (ur_delegated_account q))
         \<or> \<not> undelegation_request_is_valid q
         \<or> ur_bump q \<noteq> snd (find_undelegation_request_pda E program (ur_delegated_account q))
         \<or> ur_session q \<noteq> session
      then Inl (Portal UndelegationRequestStateInvalid)
      else store (undelegation_request_codec E) (q\<lparr>ur_approved := True\<rparr>) (Portal InvalidAccountData) request s)))"

subsection \<open>Undelegate\<close>

text \<open>The lamports of record and request go to the authority, and both are zeroed.\<close>

definition undelegate_refund :: "pubkey \<Rightarrow> pubkey \<Rightarrow> pubkey \<Rightarrow> st \<Rightarrow> st res" where
  "undelegate_refund a rec request s =
     rbind (ok_or (checked_add (lam s rec) (lam s request)) (Portal ArithmeticOverflow)) (\<lambda>refund_lamports.
     rbind (if refund_lamports > 0 then
              rbind (ok_or (checked_add (lam s a) refund_lamports) (Portal ArithmeticOverflow)) (\<lambda>v.
              Inr (set_lam request 0 (set_lam rec 0 (set_lam a v s))))
            else Inr s) (\<lambda>s.
     Inr (fill_zero request (fill_zero rec s))))"

definition process_undelegate_inner :: "portal_env \<Rightarrow> pubkey \<Rightarrow> account_info list \<Rightarrow> bool \<Rightarrow> st \<Rightarrow> st res" where
  "process_undelegate_inner E program accs allow_non_empty_handoff s =
     (if length accs < 7 then Inl NotEnoughAccountKeys else
      let authority = accs ! 0; delegated = accs ! 1; owner_program = address (accs ! 2);
          rec = address (accs ! 3); session = address (accs ! 5); request = address (accs ! 6);
          a = address authority; d = address delegated
      in if \<not> is_signer authority then Inl (Portal Unauthorized)
      else if \<not> is_signer delegated then Inl (Portal Unauthorized)
      else if session \<noteq> fst (find_session_pda E program) then Inl (Portal InvalidPdaSeeds)
      else if own s session \<noteq> program then Inl (Portal SessionAccountOwnerMismatch)
      else rbind (load (session_codec E) SessionDeserializeFailed s session) (\<lambda>x.
      if \<not> session_is_valid x then Inl (Portal SessionStateInvalid)
      else if s_settlement_status x = InProgress then Inl (Portal SettlementInProgress)
      else if rec \<noteq> fst (find_delegation_record_pda E program d) then Inl (Portal InvalidPdaSeeds)
      else rbind (load (delegation_record_codec E) DelegationRecordDeserializeFailed s rec) (\<lambda>dr.
      if \<not> delegation_record_is_valid dr then Inl (Portal DelegationRecordStateInvalid)
      else if dr_owner_program dr \<noteq> owner_program then Inl (Portal Unauthorized)
      else if own s d \<noteq> program then Inl (Portal DelegatedAccountOwnerMismatch)
      else if request \<noteq> fst (find_undelegation_request_pda E program d) \<or> own s request \<noteq> program
      then Inl (Portal InvalidPdaSeeds)
      else rbind (load (undelegation_request_codec E) UndelegationRequestDeserializeFailed s request) (\<lambda>q.
      if \<not> undelegation_request_is_valid q
         \<or> ur_bump q \<noteq> snd (find_undelegation_request_pda E program d)
         \<or> ur_session q \<noteq> session
         \<or> ur_delegated_account q \<noteq> d
         \<or> ur_owner_program q \<noteq> owner_program
         \<or> ur_authority q \<noteq> a
      then Inl (Portal UndelegationRequestStateInvalid)
      else if \<not> ur_approved q then Inl (Portal UndelegationNotSettled)
      else
      let has_non_empty_data = list_ex (\<lambda>b. b \<noteq> 0) (dat s d)
      in if has_non_empty_data \<and> \<not> allow_non_empty_handoff then Inl (Portal DelegatedAccountDataNotEmpty)
      else
      let s = (if has_non_empty_data then fill_zero d s else s);
          s = set_own d owner_program s
      in undelegate_refund a rec request s))))"

definition process_undelegate :: "portal_env \<Rightarrow> pubkey \<Rightarrow> account_info list \<Rightarrow> st \<Rightarrow> st res" where
  "process_undelegate E program accs s = process_undelegate_inner E program accs False s"

definition process_undelegate_handoff :: "portal_env \<Rightarrow> pubkey \<Rightarrow> account_info list \<Rightarrow> st \<Rightarrow> st res" where
  "process_undelegate_handoff E program accs s = process_undelegate_inner E program accs True s"

subsection \<open>Effects\<close>

lemma induct_list4 [case_names Nil One Two Three Cons4]:
  assumes "P []" "\<And>a. P [a]" "\<And>a b. P [a, b]" "\<And>a b c. P [a, b, c]"
    "\<And>a b c d rest. P rest \<Longrightarrow> P (a # b # c # d # rest)"
  shows "P xs"
proof (induction xs rule: length_induct)
  case (1 xs)
  then show ?case
    using assms by (cases xs rule: list.exhaust; cases "tl xs"; cases "tl (tl xs)"; cases "tl (tl (tl xs))") auto
qed

lemma undelegate_refund_ok:
  assumes run: "undelegate_refund a r q t = Inr s'" and ne: "a \<noteq> r" "a \<noteq> q" "r \<noteq> q"
  shows "unat (lam s' a) = unat (lam t a) + unat (lam t r) + unat (lam t q)"
    and "lam s' r = 0" "lam s' q = 0" "k \<notin> {a, r, q} \<Longrightarrow> lam s' k = lam t k"
    and "dat s' k = (if k = r \<or> k = q then replicate (length (dat t k)) 0 else dat t k)"
    and "own s' k = own t k" "exe s' k = exe t k" "events s' = events t" "total_lamports s' = total_lamports t"
proof -
  obtain amount u where amount: "checked_add (lam t r) (lam t q) = Some amount"
    and u: "(if amount > 0 then rbind (ok_or (checked_add (lam t a) amount) (Portal ArithmeticOverflow)) (\<lambda>v.
              Inr (set_lam q 0 (set_lam r 0 (set_lam a v t)))) else Inr t) = Inr u"
    and s': "s' = fill_zero q (fill_zero r u)"
    using run by (auto simp: undelegate_refund_def ok_simps)
  have sum: "unat amount = unat (lam t r) + unat (lam t q)" using amount by (simp add: checked_add_Some_iff)
  show "unat (lam s' a) = unat (lam t a) + unat (lam t r) + unat (lam t q)"
    and "lam s' r = 0" "lam s' q = 0" "k \<notin> {a, r, q} \<Longrightarrow> lam s' k = lam t k"
    and "dat s' k = (if k = r \<or> k = q then replicate (length (dat t k)) 0 else dat t k)"
    and "own s' k = own t k" "exe s' k = exe t k" "events s' = events t"
    using u ne sum
    by (auto simp: s' ok_simps checked_add_Some_iff word_gt_0 unat_eq_0 split: if_splits)
  show "total_lamports s' = total_lamports t"
  proof (cases "amount > 0")
    case True
    then obtain v where v: "checked_add (lam t a) amount = Some v" "u = set_lam q 0 (set_lam r 0 (set_lam a v t))"
      using u by (auto simp: ok_simps)
    then show ?thesis
      using sum ne total_set_lam [of a v t] total_set_lam [of r 0 "set_lam a v t"]
        total_set_lam [of q 0 "set_lam r 0 (set_lam a v t)"]
      by (simp add: s' checked_add_Some_iff)
  next
    case False
    then show ?thesis using u by (simp add: s')
  qed
qed

context portal_codecs
begin

lemma delegate_account_effect:
  assumes run: "process_delegate_account E program accs payer delegated owner_program rec buffer x s = Inr s'"
  shows "is_signer payer" "is_signer delegated" "own s (address delegated) = program" "dat s (address rec) = []"
    and "address rec = fst (find_delegation_record_pda E program (address delegated))"
    and "own s (address buffer) = address owner_program"
    and "address delegated \<noteq> address rec" "address buffer \<noteq> address rec" "address buffer \<noteq> address delegated"
    and "dat s' k = (if k = address delegated then dat s (address buffer)
           else if k = address rec then ser (delegation_record_codec E)
             (delegation_state E program (address delegated) (address owner_program) x)
           else dat s k)"
    and "own s' k = (if k = address rec then program else own s k)"
    and "exe s' k = exe s k" "events s' = events s" "total_lamports s' = total_lamports s"
    and "k \<noteq> address payer \<Longrightarrow> k \<noteq> address rec \<Longrightarrow> lam s' k = lam s k"
proof -
  let ?d = "address delegated" and ?r = "address rec" and ?b = "address buffer"
  let ?new = "delegation_state E program ?d (address owner_program) x"
  obtain amount seeds t bs where
    g: "is_signer payer" "is_signer delegated" "own s ?d = program" "dat s ?r = []"
      "?r = fst (find_delegation_record_pda E program ?d)" "own s ?b = address owner_program" "?b \<noteq> ?d"
      "length (dat s ?b) = length (dat s ?d)"
    and t: "initialize_pda_account E program accs (address payer) ?r amount 49 program seeds s = Inr t"
    and bs: "write_slice (delegation_record_codec E) ?new (dat t ?r) = Some bs"
    and len: "length (dat (set_dat ?r bs t) ?b) = length (dat (set_dat ?r bs t) ?d)"
    and s': "s' = set_dat ?d (dat (set_dat ?r bs t) ?b) (set_dat ?r bs t)"
    using run by (auto simp: process_delegate_account_def Let_def ok_simps account_size_def
        delegation_record_c.ser_length simp del: set_dat_read)
  note t1 = initialize_pda_account_ok [OF t]
  have bs': "bs = ser (delegation_record_codec E) ?new"
    using bs by (simp add: t1(3) delegation_record_c.write_slice_exact)
  then have lbs: "length bs = 49" by (simp add: delegation_record_c.ser_length)
  have dr: "?d \<noteq> ?r" using len g lbs by (auto simp: t1(3))
  have br: "?b \<noteq> ?r" using len g lbs dr by (auto simp: t1(3))
  show "is_signer payer" "is_signer delegated" "own s ?d = program" "dat s ?r = []"
    "?r = fst (find_delegation_record_pda E program ?d)" "own s ?b = address owner_program"
    "?d \<noteq> ?r" "?b \<noteq> ?r" "?b \<noteq> ?d" using g dr br by auto
  show "dat s' k = (if k = ?d then dat s ?b else if k = ?r then ser (delegation_record_codec E) ?new else dat s k)"
    using dr br by (auto simp: s' bs' t1(3))
  show "own s' k = (if k = ?r then program else own s k)" "exe s' k = exe s k" "events s' = events s"
    "total_lamports s' = total_lamports s" "k \<noteq> address payer \<Longrightarrow> k \<noteq> ?r \<Longrightarrow> lam s' k = lam s k"
    by (auto simp: s' t1(4-8))
qed

lemma delegate_groups_total:
  "delegate_groups E program accs payer x groups s = Inr s' \<Longrightarrow> total_lamports s' = total_lamports s"
proof (induction groups arbitrary: s rule: induct_list4)
  case (Cons4 a b c d rest)
  then show ?case by (auto simp: ok_simps dest: delegate_account_effect(14))
qed auto

lemma request_undelegation_effect:
  assumes run: "process_request_undelegation E program
     (payer # authority # delegated # owner_program # rec # session # request # sys # rest) s = Inr s'"
  shows "is_signer authority" "is_signer delegated"
    and "\<exists>dr. try_from_slice (delegation_record_codec E) (dat s (address rec)) = Some dr
           \<and> dr_owner_program dr = address owner_program"
    and "dat s (address request) = []"
    and "dat s' k = (if k = address request then ser (undelegation_request_codec E)
           \<lparr>ur_discriminator = undelegation_request_DISCRIMINATOR, ur_session = address session,
            ur_delegated_account = address delegated, ur_owner_program = address owner_program,
            ur_authority = address authority, ur_requested_at_l1_slot = clock_slot E, ur_approved = False,
            ur_bump = snd (find_undelegation_request_pda E program (address delegated))\<rparr>
           else dat s k)"
    and "own s' k = (if k = address request then program else own s k)"
    and "total_lamports s' = total_lamports s"
proof -
  let ?q = "address request"
  let ?new = "\<lparr>ur_discriminator = undelegation_request_DISCRIMINATOR, ur_session = address session,
            ur_delegated_account = address delegated, ur_owner_program = address owner_program,
            ur_authority = address authority, ur_requested_at_l1_slot = clock_slot E, ur_approved = False,
            ur_bump = snd (find_undelegation_request_pda E program (address delegated))\<rparr>"
  obtain dr rent seeds t bs accs where g: "is_signer authority" "is_signer delegated"
      "try_from_slice (delegation_record_codec E) (dat s (address rec)) = Some dr" "dr_owner_program dr = address owner_program"
    and t: "initialize_pda_account E program accs (address payer) ?q rent 146 program seeds s = Inr t"
    and bs: "write_slice (undelegation_request_codec E) ?new (dat t ?q) = Some bs"
    and s': "s' = set_dat ?q bs t"
    using run by (auto simp: process_request_undelegation_def Let_def ok_simps account_size_def
        undelegation_request_c.ser_length)
  note t1 = initialize_pda_account_ok [OF t]
  have bs': "bs = ser (undelegation_request_codec E) ?new"
    using bs by (simp add: t1(3) undelegation_request_c.write_slice_exact)
  show "is_signer authority" "is_signer delegated" "dat s ?q = []" using g t1(1) by auto
  show "\<exists>dr. try_from_slice (delegation_record_codec E) (dat s (address rec)) = Some dr
      \<and> dr_owner_program dr = address owner_program" using g by auto
  show "dat s' k = (if k = ?q then ser (undelegation_request_codec E) ?new else dat s k)"
    by (auto simp: s' bs' t1(3))
  show "own s' k = (if k = ?q then program else own s k)" "total_lamports s' = total_lamports s"
    by (auto simp: s' t1(4,7))
qed

lemma approve_undelegation_effect:
  assumes run: "process_approve_undelegation E program (validator # session # request # rest) s = Inr s'"
  shows "is_signer validator"
    and "\<exists>x. try_from_slice (session_codec E) (dat s (address session)) = Some x
           \<and> s_validator x = address validator \<and> s_settlement_status x = Idle"
    and "\<exists>q. try_from_slice (undelegation_request_codec E) (dat s (address request)) = Some q
           \<and> ur_session q = address session
           \<and> s' = set_dat (address request) (ser (undelegation_request_codec E) (q\<lparr>ur_approved := True\<rparr>)) s"
  using run
  by (auto simp: process_approve_undelegation_def Let_def ok_simps undelegation_request_c.try_from_slice_iff
      undelegation_request_c.write_slice_exact undelegation_request_c.ser_length)

lemma undelegate_effect:
  assumes run: "process_undelegate_inner E program
      (authority # delegated # owner_program # rec # sys # session # request # rest) handoff s = Inr s'"
    and sep: "address authority \<notin> {address rec, address request}"
  shows "is_signer authority" "is_signer delegated" "own s (address delegated) = program"
    and "\<exists>q. try_from_slice (undelegation_request_codec E) (dat s (address request)) = Some q
           \<and> ur_approved q \<and> ur_session q = address session \<and> ur_delegated_account q = address delegated
           \<and> ur_owner_program q = address owner_program \<and> ur_authority q = address authority"
    and "\<exists>dr. try_from_slice (delegation_record_codec E) (dat s (address rec)) = Some dr
           \<and> dr_owner_program dr = address owner_program"
    and "\<not> handoff \<Longrightarrow> is_zeroed (dat s (address delegated))"
    and "own s' k = (if k = address delegated then address owner_program else own s k)"
    and "address delegated \<notin> {address rec, address request} \<Longrightarrow> dat s' (address delegated) = replicate (length (dat s (address delegated))) 0"
    and "is_zeroed (dat s' (address rec))" "is_zeroed (dat s' (address request))"
    and "lam s' (address rec) = 0" "lam s' (address request) = 0"
    and "unat (lam s' (address authority)) = unat (lam s (address authority)) + unat (lam s (address rec)) + unat (lam s (address request))"
    and "total_lamports s' = total_lamports s"
    and "k \<notin> {address authority, address delegated, address rec, address request} \<Longrightarrow> accts s' k = accts s k"
proof -
  let ?a = "address authority" and ?d = "address delegated" and ?r = "address rec" and ?q = "address request"
  define t where "t = set_own ?d (address owner_program) (if list_ex (\<lambda>b. b \<noteq> 0) (dat s ?d) then fill_zero ?d s else s)"
  obtain q dr where
    g: "is_signer authority" "is_signer delegated" "own s ?d = program" "list_ex (\<lambda>b. b \<noteq> 0) (dat s ?d) \<longrightarrow> handoff"
    and q: "try_from_slice (undelegation_request_codec E) (dat s ?q) = Some q"
      "ur_approved q" "ur_session q = address session" "ur_delegated_account q = ?d"
      "ur_owner_program q = address owner_program" "ur_authority q = ?a"
    and dr: "try_from_slice (delegation_record_codec E) (dat s ?r) = Some dr" "dr_owner_program dr = address owner_program"
    and fin: "undelegate_refund ?a ?r ?q t = Inr s'"
    using run
    by (simp add: process_undelegate_inner_def Let_def ok_simps t_def [symmetric] del: set_own_read fill_zero_read)
      (elim exE conjE, rule that, assumption+)
  have ne: "?a \<noteq> ?r" "?a \<noteq> ?q" "?r \<noteq> ?q"
    using sep q(1) dr(1) undelegation_request_c.try_from_sliceD(3) delegation_record_c.try_from_sliceD(3) by force+
  note f = undelegate_refund_ok [OF fin ne]
  have zero: "\<not> list_ex (\<lambda>b. b \<noteq> 0) bs \<longleftrightarrow> is_zeroed bs" for bs :: bytes
    by (induction bs) (auto simp: is_zeroed_def)
  have z': "is_zeroed bs \<Longrightarrow> bs = replicate (length bs) 0" for bs :: bytes
    by (auto simp: is_zeroed_def list_all_iff intro!: replicate_eqI)
  have lt: "lam t k = lam s k" "exe t k = exe s k" "total_lamports t = total_lamports s" "events t = events s"
    "own t k = (if k = ?d then address owner_program else own s k)"
    "dat t k = (if k = ?d then replicate (length (dat s ?d)) 0 else dat s k)" for k
    using z' [of "dat s ?d"] by (auto simp: t_def zero [symmetric])
  show "is_signer authority" "is_signer delegated" "own s ?d = program" using g by auto
  show "\<exists>q. try_from_slice (undelegation_request_codec E) (dat s ?q) = Some q
      \<and> ur_approved q \<and> ur_session q = address session \<and> ur_delegated_account q = ?d
      \<and> ur_owner_program q = address owner_program \<and> ur_authority q = ?a"
    using q by blast
  show "\<exists>dr. try_from_slice (delegation_record_codec E) (dat s ?r) = Some dr \<and> dr_owner_program dr = address owner_program"
    using dr by blast
  show "\<not> handoff \<Longrightarrow> is_zeroed (dat s ?d)" using g(4) by (simp add: zero)
  show "own s' k = (if k = ?d then address owner_program else own s k)" by (simp add: f(6) lt)
  show "?d \<notin> {?r, ?q} \<Longrightarrow> dat s' ?d = replicate (length (dat s ?d)) 0" by (simp add: f(5) lt)
  show "is_zeroed (dat s' ?r)" "is_zeroed (dat s' ?q)" by (simp_all add: f(5))
  show "lam s' ?r = 0" "lam s' ?q = 0"
    "unat (lam s' ?a) = unat (lam s ?a) + unat (lam s ?r) + unat (lam s ?q)"
    "total_lamports s' = total_lamports s" using f by (simp_all add: lt)
  show "k \<notin> {?a, ?d, ?r, ?q} \<Longrightarrow> accts s' k = accts s k"
    by (rule acct_eqI) (auto simp: f(4-7) lt)
qed

end

subsection \<open>Properties\<close>

text \<open>Delegating one account, signed by payer and account, fills the Portal-owned account with the
  bytes of the owner program's buffer and creates a Portal-owned delegation record that names the
  owner program and the session's grid; the record did not exist before, lamports are conserved and
  no other account changes.\<close>

theorem delegate_hands_over:
  assumes "portal_codecs E"
    and "process_delegate E program [payer, sys, session, delegated, owner_program, rec, buffer] grid_id s = Inr s'"
  shows "is_signer payer \<and> is_signer delegated
    \<and> dat s (address rec) = []
    \<and> own s (address buffer) = address owner_program
    \<and> own s' (address delegated) = program
    \<and> dat s' (address delegated) = dat s (address buffer)
    \<and> own s' (address rec) = program
    \<and> (\<exists>dr. try_from_slice (delegation_record_codec E) (dat s' (address rec)) = Some dr
         \<and> delegation_record_is_valid dr \<and> dr_owner_program dr = address owner_program \<and> dr_grid_id dr = grid_id)
    \<and> total_lamports s' = total_lamports s
    \<and> (\<forall>k. k \<notin> {address payer, address delegated, address rec} \<longrightarrow> accts s' k = accts s k)"
proof -
  obtain x where x: "s_grid_id x = grid_id"
    and run: "process_delegate_account E program [payer, sys, session, delegated, owner_program, rec, buffer]
       payer delegated owner_program rec buffer x s = Inr s'"
    using assms(2) by (auto simp: process_delegate_def validate_session_def ok_simps)
  note eff = portal_codecs.delegate_account_effect [OF assms(1) run]
  let ?dr = "delegation_state E program (address delegated) (address owner_program) x"
  have "try_from_slice (delegation_record_codec E) (dat s' (address rec)) = Some ?dr"
    using eff(7,10) borsh_codec.try_from_slice_ser [OF portal_codecs.axioms(8) [OF assms(1)]] by auto
  moreover have "delegation_record_is_valid ?dr" "dr_owner_program ?dr = address owner_program" "dr_grid_id ?dr = grid_id"
    by (simp_all add: delegation_state_def delegation_record_is_valid_def x)
  ultimately show ?thesis
    using eff by (auto intro!: acct_eqI)
qed

definition sample_session :: session where
  "sample_session = initial_session open_args 0 10 5 255"

definition delegable_st :: st where
  "delegable_st = sample_st
     [(5, \<lparr>lamports = 100000, data = [], owner = 0, executable = False\<rparr>),
      (1007, \<lparr>lamports = 3540, data = ser session_layout sample_session, owner = 77, executable = False\<rparr>),
      (20, \<lparr>lamports = 1400, data = [0, 0, 0, 0], owner = 77, executable = False\<rparr>),
      (21, \<lparr>lamports = 1400, data = [1, 2, 3, 4], owner = 30, executable = False\<rparr>)]"

lemmas session_eval =
  sample_session_def initial_session_def open_args_def session_is_valid_def session_is_expired_def saturating_add_def

theorem delegate_hands_over_witness:
  "\<exists>s'. process_delegate (sample_env 20) 77
      [signer 5, readonly 0, readonly 1007, signer 20, readonly 30, mutable 1042, readonly 21] 3 delegable_st = Inr s'
     \<and> dat s' 20 = [1, 2, 3, 4] \<and> own s' 1042 = 77"
proof -
  obtain s' where run: "process_delegate (sample_env 20) 77
      [signer 5, readonly 0, readonly 1007, signer 20, readonly 30, mutable 1042, readonly 21] 3 delegable_st = Inr s'"
    by (simp add: process_delegate_def validate_session_def process_delegate_account_def delegable_st_def
        session_eval cpi_eval store_eval)
  show ?thesis
    using delegate_hands_over [OF smp.portal_codecs_axioms run] run by (auto simp: delegable_st_def)
qed

text \<open>C34: an account leaves the rollup only signed by its authority and by itself, with a delegation
  record naming the program it goes to and a request for exactly this account, authority and
  program that has been approved; without hand-off its data must already be zero.  It is then owned
  by that program with zeroed data, record and request are zeroed and their lamports go to the
  authority, lamports are conserved and no other account changes.\<close>

theorem undelegate_returns:
  assumes "portal_codecs E"
    and "process_undelegate_inner E program
      (authority # delegated # owner_program # rec # sys # session # request # rest) handoff s = Inr s'"
    and "distinct [address authority, address delegated, address rec, address request]"
  shows "is_signer authority \<and> is_signer delegated \<and> own s (address delegated) = program
    \<and> (\<exists>q. try_from_slice (undelegation_request_codec E) (dat s (address request)) = Some q
         \<and> ur_approved q \<and> ur_delegated_account q = address delegated
         \<and> ur_owner_program q = address owner_program \<and> ur_authority q = address authority)
    \<and> (\<exists>dr. try_from_slice (delegation_record_codec E) (dat s (address rec)) = Some dr
         \<and> dr_owner_program dr = address owner_program)
    \<and> (handoff \<or> is_zeroed (dat s (address delegated)))
    \<and> own s' (address delegated) = address owner_program
    \<and> dat s' (address delegated) = replicate (length (dat s (address delegated))) 0
    \<and> is_zeroed (dat s' (address rec)) \<and> is_zeroed (dat s' (address request))
    \<and> unat (lam s' (address authority)) =
        unat (lam s (address authority)) + unat (lam s (address rec)) + unat (lam s (address request))
    \<and> total_lamports s' = total_lamports s
    \<and> (\<forall>k. k \<notin> {address authority, address delegated, address rec, address request} \<longrightarrow> accts s' k = accts s k)"
  using portal_codecs.undelegate_effect [OF assms(1,2)] assms(3) by auto

definition sample_request :: "bool \<Rightarrow> undelegation_request" where
  "sample_request approved =
     \<lparr>ur_discriminator = undelegation_request_DISCRIMINATOR, ur_session = 1007, ur_delegated_account = 20,
      ur_owner_program = 30, ur_authority = 5, ur_requested_at_l1_slot = 15, ur_approved = approved, ur_bump = 255\<rparr>"

definition sample_delegation :: delegation_record where
  "sample_delegation = \<lparr>dr_discriminator = delegation_record_DISCRIMINATOR, dr_owner_program = 30,
     dr_grid_id = 3, dr_bump = 255\<rparr>"

definition requested_st :: "bool \<Rightarrow> st" where
  "requested_st approved = sample_st
     [(5, \<lparr>lamports = 100000, data = [], owner = 0, executable = False\<rparr>),
      (1007, \<lparr>lamports = 3540, data = ser session_layout sample_session, owner = 77, executable = False\<rparr>),
      (20, \<lparr>lamports = 1400, data = [1, 2, 3, 4], owner = 77, executable = False\<rparr>),
      (1042, \<lparr>lamports = 1770, data = ser delegation_record_layout sample_delegation, owner = 77, executable = False\<rparr>),
      (1052, \<lparr>lamports = 2740, data = ser undelegation_request_layout (sample_request approved),
        owner = 77, executable = False\<rparr>)]"

lemmas request_eval =
  requested_st_def sample_request_def sample_delegation_def delegation_record_is_valid_def
  undelegation_request_is_valid_def session_eval

theorem undelegate_returns_witness:
  "\<exists>s'. process_undelegate_handoff (sample_env 30) 77
      [signer 5, signer 20, readonly 30, mutable 1042, readonly 0, readonly 1007, mutable 1052] (requested_st True) = Inr s'
     \<and> own s' 20 = 30 \<and> dat s' 20 = [0, 0, 0, 0] \<and> unat (lam s' 5) = 104510"
proof -
  obtain s' where run: "process_undelegate_inner (sample_env 30) 77
      [signer 5, signer 20, readonly 30, mutable 1042, readonly 0, readonly 1007, mutable 1052] True (requested_st True) = Inr s'"
    by (simp add: process_undelegate_inner_def undelegate_refund_def checked_add_def request_eval store_eval)
  show ?thesis
    using undelegate_returns [OF smp.portal_codecs_axioms run] run
    by (auto simp: process_undelegate_handoff_def requested_st_def)
qed

text \<open>C35: a freshly requested undelegation cannot be carried out: as long as the request stands as
  written, no \<open>Undelegate\<close> or \<open>UndelegateHandoff\<close> of that account succeeds, whatever accounts are
  passed and at whatever slot.\<close>

theorem request_is_not_approval:
  assumes "portal_codecs E"
    and "process_request_undelegation E program
      (payer # authority # delegated # owner_program # rec # session # request # sys # rest) s = Inr s'"
    and "undelegation_request_codec E' = undelegation_request_codec E"
    and "find_undelegation_request_pda E' program = find_undelegation_request_pda E program"
    and "length accs \<ge> 7" "address (accs ! 1) = address delegated"
  shows "\<not> is_ok (process_undelegate_inner E' program accs handoff s')"
proof
  assume "is_ok (process_undelegate_inner E' program accs handoff s')"
  then obtain s'' where run: "process_undelegate_inner E' program accs handoff s' = Inr s''"
    by (cases "process_undelegate_inner E' program accs handoff s'") auto
  then obtain q where q: "try_from_slice (undelegation_request_codec E) (dat s' (address (accs ! 6))) = Some q"
      "ur_approved q" "address (accs ! 6) = fst (find_undelegation_request_pda E program (address delegated))"
    using assms(3-6) by (auto simp: process_undelegate_inner_def Let_def ok_simps)
  have "address request = fst (find_undelegation_request_pda E program (address delegated))"
    using assms(2) by (auto simp: process_request_undelegation_def Let_def ok_simps)
  then show False
    using q portal_codecs.request_undelegation_effect(5) [OF assms(1,2), of "address request"]
      borsh_codec.try_from_slice_ser [OF portal_codecs.axioms(9) [OF assms(1)]] by auto
qed

theorem request_is_not_approval_witness:
  "\<exists>s'. process_request_undelegation (sample_env 15) 77
      [signer 5, signer 5, signer 20, readonly 30, readonly 1042, readonly 1007, mutable 1052, readonly 0]
      (set_dat 1052 [] (set_own 1052 0 (requested_st False))) = Inr s'
     \<and> \<not> is_ok (process_undelegate_inner (sample_env 90) 77
      [signer 5, signer 20, readonly 30, mutable 1042, readonly 0, readonly 1007, mutable 1052] True s')"
proof -
  obtain s' where run: "process_request_undelegation (sample_env 15) 77
      [signer 5, signer 5, signer 20, readonly 30, readonly 1042, readonly 1007, mutable 1052, readonly 0]
      (set_dat 1052 [] (set_own 1052 0 (requested_st False))) = Inr s'"
    by (simp add: process_request_undelegation_def request_eval cpi_eval store_eval)
  show ?thesis
    using request_is_not_approval [OF smp.portal_codecs_axioms run, of "sample_env 90"
        "[signer 5, signer 20, readonly 30, mutable 1042, readonly 0, readonly 1007, mutable 1052]" True]
      run by (auto simp: fun_eq_iff)
qed

text \<open>Only the session's validator, by signature and while no settlement is in progress, approves an
  undelegation request; the approval sets the request's flag and changes nothing else.\<close>

theorem approve_by_validator:
  assumes "portal_codecs E"
    and "process_approve_undelegation E program (validator # session # request # rest) s = Inr s'"
  shows "is_signer validator
    \<and> (\<exists>x. try_from_slice (session_codec E) (dat s (address session)) = Some x
         \<and> s_validator x = address validator \<and> s_settlement_status x = Idle)
    \<and> (\<exists>q. try_from_slice (undelegation_request_codec E) (dat s (address request)) = Some q
         \<and> ur_session q = address session
         \<and> try_from_slice (undelegation_request_codec E) (dat s' (address request)) = Some (q\<lparr>ur_approved := True\<rparr>)
         \<and> s' = set_dat (address request) (dat s' (address request)) s)"
  using portal_codecs.approve_undelegation_effect [OF assms]
    borsh_codec.try_from_slice_ser [OF portal_codecs.axioms(9) [OF assms(1)]]
  by (auto simp del: set_dat_read simp add: set_dat_read(2))

theorem approve_by_validator_witness:
  "\<exists>s'. process_approve_undelegation (sample_env 20) 77 [signer 6, readonly 1007, mutable 1052] (requested_st False) = Inr s'
     \<and> try_from_slice undelegation_request_layout (dat s' 1052) = Some (sample_request True)"
proof -
  obtain s' where run: "process_approve_undelegation (sample_env 20) 77 [signer 6, readonly 1007, mutable 1052]
      (requested_st False) = Inr s'"
    by (simp add: process_approve_undelegation_def request_eval store_eval)
  have "(sample_request False)\<lparr>ur_approved := True\<rparr> = sample_request True" by (simp add: sample_request_def)
  then show ?thesis
    using approve_by_validator [OF smp.portal_codecs_axioms run] run by (auto simp: requested_st_def)
qed

end
