(* ===== verification/Portal_Settlement.thy ===== *)
theory Portal_Settlement
  imports Portal_Delegation
begin

text \<open>
  Settlement of a committed checkpoint on L1: \<open>settlement.rs\<close> and \<open>settle_deposit_receipt.rs\<close>.  The
  validator begins a settlement by declaring a checksum; every effect it then applies to a
  delegated account or a deposit receipt is hashed into the session's accumulator; the settlement
  finishes only when the accumulator equals the declared checksum, and can be aborted only before
  any effect was applied.
\<close>

subsection \<open>Checksums\<close>

definition SETTLEMENT_CHECKSUM_DOMAIN :: bytes where
  "SETTLEMENT_CHECKSUM_DOMAIN = ascii ''northstar-settlement-v0''"

definition initial_settlement_checksum :: "hasher \<Rightarrow> u64 \<Rightarrow> hash32" where
  "initial_settlement_checksum hash er_slot = hash [SETTLEMENT_CHECKSUM_DOMAIN, u64_le er_slot]"

definition accumulate_data_chunk_checksum :: "hasher \<Rightarrow> hash32 \<Rightarrow> pubkey \<Rightarrow> u32 \<Rightarrow> bytes \<Rightarrow> hash32" where
  "accumulate_data_chunk_checksum hash acc account offset bs =
     hash [key_bytes acc, ascii ''data'', key_bytes account, u32_le offset, u32_le (of_nat (length bs)), bs]"

definition accumulate_owner_checksum :: "hasher \<Rightarrow> hash32 \<Rightarrow> pubkey \<Rightarrow> pubkey \<Rightarrow> hash32" where
  "accumulate_owner_checksum hash acc account p = hash [key_bytes acc, ascii ''owner'', key_bytes account, key_bytes p]"

definition accumulate_lamports_checksum :: "hasher \<Rightarrow> hash32 \<Rightarrow> pubkey \<Rightarrow> u64 \<Rightarrow> hash32" where
  "accumulate_lamports_checksum hash acc account amount =
     hash [key_bytes acc, ascii ''lamports'', key_bytes account, u64_le amount]"

definition accumulate_receipt_checksum ::
  "hasher \<Rightarrow> hash32 \<Rightarrow> pubkey \<Rightarrow> pubkey \<Rightarrow> u64 \<Rightarrow> u64 \<Rightarrow> u64 \<Rightarrow> hash32" where
  "accumulate_receipt_checksum hash acc er_source l1_recipient balance withdrawn payout =
     hash [key_bytes acc, ascii ''receipt'', key_bytes er_source, key_bytes l1_recipient,
       u64_le balance, u64_le withdrawn, u64_le payout]"

record token_withdrawal_checksum =
  twc_bridge_program :: pubkey
  twc_session_bridge :: pubkey
  twc_er_token_account :: pubkey
  twc_vault :: pubkey
  twc_vault_token_account :: pubkey
  twc_destination_token_account :: pubkey
  twc_mint :: pubkey
  twc_token_program :: pubkey
  twc_amount :: u64
  twc_withdrawn :: u64
  twc_decimals :: u8

definition accumulate_token_withdrawal_checksum :: "hasher \<Rightarrow> hash32 \<Rightarrow> token_withdrawal_checksum \<Rightarrow> hash32" where
  "accumulate_token_withdrawal_checksum hash acc w =
     hash [key_bytes acc, ascii ''token_withdrawal'', key_bytes (twc_bridge_program w),
       key_bytes (twc_session_bridge w), key_bytes (twc_er_token_account w), key_bytes (twc_vault w),
       key_bytes (twc_vault_token_account w), key_bytes (twc_destination_token_account w),
       key_bytes (twc_mint w), key_bytes (twc_token_program w), u64_le (twc_amount w),
       u64_le (twc_withdrawn w), [twc_decimals w]]"

subsection \<open>Shared checks\<close>

definition load_session :: "portal_env \<Rightarrow> pubkey \<Rightarrow> pubkey \<Rightarrow> st \<Rightarrow> session res" where
  "load_session E program session s =
     (if session \<noteq> fst (find_session_pda E program) then Inl (Portal InvalidPdaSeeds)
      else if own s session \<noteq> program then Inl (Portal SessionAccountOwnerMismatch)
      else rbind (parse_session E (dat s session)) (\<lambda>x.
      if \<not> session_is_valid x then Inl (Portal SessionStateInvalid) else Inr x))"

definition store_session :: "portal_env \<Rightarrow> pubkey \<Rightarrow> session \<Rightarrow> st \<Rightarrow> st res" where
  "store_session E session x s =
     rbind (write_session E (dat s session) x) (\<lambda>bs. Inr (set_dat session bs s))"

definition require_validator :: "account_info \<Rightarrow> session \<Rightarrow> unit res" where
  "require_validator validator x =
     (if \<not> is_signer validator \<or> address validator \<noteq> s_validator x then Inl (Portal Unauthorized) else Inr ())"

definition require_active_settlement :: "session \<Rightarrow> u64 \<Rightarrow> hash32 \<Rightarrow> unit res" where
  "require_active_settlement x er_slot checksum =
     (if s_settlement_status x \<noteq> InProgress then Inl (Portal SettlementNotInProgress)
      else if er_slot \<noteq> s_settlement_er_slot x then Inl (Portal SettlementErSlotMismatch)
      else if checksum \<noteq> s_settlement_checksum x then Inl (Portal SettlementChecksumMismatch)
      else Inr ())"

definition load_checkpoint_for_settlement ::
  "portal_env \<Rightarrow> pubkey \<Rightarrow> pubkey \<Rightarrow> u64 \<Rightarrow> pubkey \<Rightarrow> st \<Rightarrow> checkpoint res" where
  "load_checkpoint_for_settlement E program session er_slot k s =
     (if k \<noteq> fst (find_checkpoint_pda E program session er_slot) then Inl (Portal InvalidPdaSeeds)
      else if own s k \<noteq> program then Inl (Portal CheckpointStateInvalid)
      else rbind (load (checkpoint_codec E) CheckpointDeserializeFailed s k) (\<lambda>c.
      if \<not> checkpoint_is_valid c \<or> cp_session c \<noteq> session \<or> cp_er_slot c \<noteq> er_slot
      then Inl (Portal CheckpointStateInvalid)
      else if cp_status c = Challenged then Inl (Portal CheckpointChallenged)
      else if cp_status c = Invalid then Inl (Portal CheckpointStateInvalid)
      else if cp_status c \<noteq> Committed then Inl (Portal CheckpointStateInvalid)
      else Inr c))"

definition load_cursor :: "portal_env \<Rightarrow> pubkey \<Rightarrow> pubkey \<Rightarrow> pubkey \<Rightarrow> st \<Rightarrow> cursor res" where
  "load_cursor E program session k s =
     (if k \<noteq> fst (find_checkpoint_cursor_pda E program session) then Inl (Portal InvalidPdaSeeds)
      else if own s k \<noteq> program then Inl (Portal CheckpointCursorStateInvalid)
      else rbind (load (cursor_codec E) CheckpointCursorDeserializeFailed s k) (\<lambda>c.
      if \<not> cursor_is_valid c \<or> cc_session c \<noteq> session then Inl (Portal CheckpointCursorStateInvalid)
      else Inr c))"

definition require_active_checkpoint :: "cursor \<Rightarrow> pubkey \<Rightarrow> u64 \<Rightarrow> unit res" where
  "require_active_checkpoint c k er_slot =
     (if cc_active_checkpoint c \<noteq> k \<or> cc_active_er_slot c \<noteq> er_slot then Inl (Portal CheckpointStateInvalid)
      else Inr ())"

definition clear_active_checkpoint :: "cursor \<Rightarrow> cursor" where
  "clear_active_checkpoint c = c\<lparr>cc_active_checkpoint := 0, cc_active_er_slot := 0\<rparr>"

definition load_delegation_record ::
  "portal_env \<Rightarrow> pubkey \<Rightarrow> session \<Rightarrow> pubkey \<Rightarrow> pubkey \<Rightarrow> st \<Rightarrow> delegation_record res" where
  "load_delegation_record E program x d rec s =
     (if own s d \<noteq> program then Inl (Portal DelegatedAccountOwnerMismatch)
      else if rec \<noteq> fst (find_delegation_record_pda E program d) then Inl (Portal DelegationRecordAccountMismatch)
      else if own s rec \<noteq> program then Inl (Portal DelegationRecordStateInvalid)
      else rbind (load (delegation_record_codec E) DelegationRecordDeserializeFailed s rec) (\<lambda>dr.
      if \<not> delegation_record_is_valid dr \<or> dr_grid_id dr \<noteq> s_grid_id x
      then Inl (Portal DelegationRecordStateInvalid) else Inr dr))"

subsection \<open>Begin\<close>

record begin_settlement =
  bs_er_slot :: u64
  bs_checksum :: hash32
  bs_effect_commitment :: hash32

definition process_begin_settlement ::
  "portal_env \<Rightarrow> pubkey \<Rightarrow> account_info list \<Rightarrow> begin_settlement \<Rightarrow> st \<Rightarrow> st res" where
  "process_begin_settlement E program accs args s =
     (if length accs < 3 then Inl NotEnoughAccountKeys else
      let validator = accs ! 0; session = address (accs ! 1); checkpoint = address (accs ! 2)
      in rbind (load_session E program session s) (\<lambda>x.
         rbind (require_validator validator x) (\<lambda>_.
         if s_settlement_status x = InProgress then Inl (Portal SettlementInProgress)
         else
         let current_slot = clock_slot E;
             next_settlement_slot = saturating_add (s_last_settled_l1_slot x) (s_settlement_interval_slots x)
         in if current_slot < next_settlement_slot then Inl (Portal SettlementTooEarly)
         else if bs_er_slot args \<le> s_last_settled_er_slot x then Inl (Portal SettlementErSlotNotAdvanced)
         else rbind (load_checkpoint_for_settlement E program session (bs_er_slot args) checkpoint s) (\<lambda>c.
         if cp_effect_commitment c \<noteq> bs_effect_commitment args then Inl (Portal SettlementChecksumMismatch)
         else store_session E session
           (x\<lparr>s_settlement_status := InProgress, s_settlement_er_slot := bs_er_slot args,
              s_settlement_checksum := bs_checksum args,
              s_settlement_accumulator := initial_settlement_checksum (hashv E) (bs_er_slot args),
              s_settlement_started_l1_slot := current_slot\<rparr>) s))))"

subsection \<open>Account data\<close>

record write_settlement_chunk =
  wc_er_slot :: u64
  wc_checksum :: hash32
  wc_account_data_offset :: u32
  wc_chunk_len :: u16
  wc_chunk :: bytes

definition overwrite :: "bytes \<Rightarrow> nat \<Rightarrow> bytes \<Rightarrow> bytes" where
  "overwrite bs start chunk = take start bs @ chunk @ drop (start + length chunk) bs"

definition process_write_settlement_chunk ::
  "portal_env \<Rightarrow> pubkey \<Rightarrow> account_info list \<Rightarrow> write_settlement_chunk \<Rightarrow> st \<Rightarrow> st res" where
  "process_write_settlement_chunk E program accs args s =
     (if length accs < 4 then Inl NotEnoughAccountKeys else
      let validator = accs ! 0; session = address (accs ! 1); d = address (accs ! 2); rec = address (accs ! 3)
      in rbind (load_session E program session s) (\<lambda>x.
         rbind (require_validator validator x) (\<lambda>_.
         rbind (require_active_settlement x (wc_er_slot args) (wc_checksum args)) (\<lambda>_.
         rbind (load_delegation_record E program x d rec s) (\<lambda>_.
         let chunk_len = unat (wc_chunk_len args)
         in if chunk_len > MAX_SETTLEMENT_CHUNK then Inl (Portal SettlementChunkTooLarge)
         else
         let start = unat (wc_account_data_offset args); stop = start + chunk_len
         in if stop > length (dat s d) then Inl (Portal SettlementChunkOutOfBounds)
         else
         let chunk_data = take chunk_len (wc_chunk args)
         in if take chunk_len (drop start (dat s d)) = chunk_data then Inr s
         else
         let s = set_dat d (overwrite (dat s d) start chunk_data) s
         in store_session E session
              (x\<lparr>s_settlement_accumulator := accumulate_data_chunk_checksum (hashv E)
                  (s_settlement_accumulator x) d (wc_account_data_offset args) chunk_data\<rparr>) s)))))"

subsection \<open>Account owner\<close>

record settle_account_owner =
  so_er_slot :: u64
  so_checksum :: hash32
  so_owner :: pubkey

definition process_settle_account_owner ::
  "portal_env \<Rightarrow> pubkey \<Rightarrow> account_info list \<Rightarrow> settle_account_owner \<Rightarrow> st \<Rightarrow> st res" where
  "process_settle_account_owner E program accs args s =
     (if length accs < 4 then Inl NotEnoughAccountKeys else
      let validator = accs ! 0; session = address (accs ! 1); d = address (accs ! 2); rec = address (accs ! 3)
      in rbind (load_session E program session s) (\<lambda>x.
         rbind (require_validator validator x) (\<lambda>_.
         rbind (require_active_settlement x (so_er_slot args) (so_checksum args)) (\<lambda>_.
         rbind (load_delegation_record E program x d rec s) (\<lambda>dr.
         if dr_owner_program dr = so_owner args then Inr s
         else rbind (store (delegation_record_codec E) (dr\<lparr>dr_owner_program := so_owner args\<rparr>) Panicked rec s) (\<lambda>s.
         store_session E session
           (x\<lparr>s_settlement_accumulator := accumulate_owner_checksum (hashv E) (s_settlement_accumulator x)
               d (so_owner args)\<rparr>) s))))))"

subsection \<open>Account lamports\<close>

record settle_account_lamports =
  sl_er_slot :: u64
  sl_checksum :: hash32
  sl_account_count :: u8
  sl_lamports :: "u64 list"

fun pairs_of :: "'a list \<Rightarrow> ('a \<times> 'a) list" where
  "pairs_of (a # r # rest) = (a, r) # pairs_of rest"
| "pairs_of _ = []"

fun check_settlement_accounts ::
  "portal_env \<Rightarrow> pubkey \<Rightarrow> session \<Rightarrow> pubkey list \<Rightarrow> (account_info \<times> account_info) list \<Rightarrow> st \<Rightarrow> unit res" where
  "check_settlement_accounts E program x seen [] s = Inr ()"
| "check_settlement_accounts E program x seen ((a, r) # ps) s =
     rbind (load_delegation_record E program x (address a) (address r) s) (\<lambda>_.
     if address a \<in> set seen then Inl InvalidInstructionData
     else check_settlement_accounts E program x (address a # seen) ps s)"

fun lamports_accumulator :: "hasher \<Rightarrow> hash32 \<Rightarrow> (pubkey \<times> u64) list \<Rightarrow> hash32" where
  "lamports_accumulator hash acc [] = acc"
| "lamports_accumulator hash acc ((k, v) # ts) =
     lamports_accumulator hash (accumulate_lamports_checksum hash acc k v) ts"

fun lamport_totals ::
  "portal_env \<Rightarrow> (pubkey \<times> u64) list \<Rightarrow> u128 \<Rightarrow> u128 \<Rightarrow> bool \<Rightarrow> st \<Rightarrow> (u128 \<times> u128 \<times> bool) res" where
  "lamport_totals E [] current target settled s = Inr (current, target, settled)"
| "lamport_totals E ((k, v) # ts) current target settled s =
     rbind (ok_or (checked_add current (ucast (lam s k))) (Portal ArithmeticOverflow)) (\<lambda>current.
     rbind (ok_or (checked_add target (ucast v)) (Portal ArithmeticOverflow)) (\<lambda>target.
     rbind (if length (dat s k) > 0 then
              rbind (rent_minimum E (length (dat s k))) (\<lambda>rent.
              if v < rent then Inl (Portal SettlementLamportsBelowRentExempt) else Inr ())
            else Inr ()) (\<lambda>_.
     lamport_totals E ts current target (settled \<and> lam s k = v) s)))"

fun set_targets :: "(pubkey \<times> u64) list \<Rightarrow> st \<Rightarrow> st" where
  "set_targets [] s = s"
| "set_targets ((k, v) # ts) s = set_targets ts (set_lam k v s)"

text \<open>The guard of the surplus variant: the canonical vault, and the position of this operation in
  the settlement, from the accumulator before it.  \<open>None\<close>: already applied.\<close>

definition surplus_vault ::
  "portal_env \<Rightarrow> pubkey \<Rightarrow> session \<Rightarrow> (account_info \<times> account_info) list \<Rightarrow> (pubkey \<times> u64) list
    \<Rightarrow> account_info list \<Rightarrow> hash32 \<Rightarrow> st \<Rightarrow> pubkey option res" where
  "surplus_vault E program x pairs targets trailing previous s =
     (if trailing = [] then Inl NotEnoughAccountKeys else
      let vault = address (hd trailing)
      in if vault \<noteq> fst (find_fee_vault_pda E program) then Inl (Portal InvalidPdaSeeds)
      else if own s vault \<noteq> program then Inl (Portal InvalidAccountData)
      else rbind (load (fee_vault_codec E) InvalidAccountData s vault) (\<lambda>v.
      if \<not> fee_vault_is_valid v \<or> fv_bump v \<noteq> snd (find_fee_vault_pda E program)
         \<or> fv_authority v \<noteq> s_authority x
         \<or> list_ex (\<lambda>p. address (fst p) = vault) pairs
      then Inl (Portal InvalidAccountData)
      else if s_settlement_accumulator x = lamports_accumulator (hashv E) previous targets then Inr None
      else if s_settlement_accumulator x \<noteq> previous then Inl (Portal SettlementChecksumMismatch)
      else Inr (Some vault)))"

text \<open>Totals, rent floors and the balance of the vault, then the writes.\<close>

definition apply_lamports ::
  "portal_env \<Rightarrow> pubkey \<Rightarrow> session \<Rightarrow> (pubkey \<times> u64) list \<Rightarrow> pubkey option \<Rightarrow> st \<Rightarrow> st res" where
  "apply_lamports E session x targets vault s =
     rbind (lamport_totals E targets 0 0 True s) (\<lambda>(current_total, target_total, already_settled).
     if already_settled \<and> vault = None then Inr s
     else rbind (ok_or (checked_sub current_total target_total) (Portal SettlementLamportsNotConserved)) (\<lambda>surplus.
     rbind (case vault of
              Some v \<Rightarrow>
                if surplus \<ge> 2 ^ 64 then Inl (Portal ArithmeticOverflow)
                else rbind (ok_or (checked_add (lam s v) (ucast surplus)) (Portal ArithmeticOverflow)) (\<lambda>b.
                     Inr (Some (v, b)))
            | None \<Rightarrow> if surplus \<noteq> 0 then Inl (Portal SettlementLamportsNotConserved) else Inr None) (\<lambda>vault_balance.
     let s = set_targets targets s;
         x = x\<lparr>s_settlement_accumulator := lamports_accumulator (hashv E) (s_settlement_accumulator x) targets\<rparr>;
         s = (case vault_balance of Some (v, b) \<Rightarrow> set_lam v b s | None \<Rightarrow> s)
     in store_session E session x s)))"

definition process_settle_account_lamports_inner ::
  "portal_env \<Rightarrow> pubkey \<Rightarrow> account_info list \<Rightarrow> settle_account_lamports \<Rightarrow> hash32 option \<Rightarrow> st \<Rightarrow> st res" where
  "process_settle_account_lamports_inner E program accs args previous s =
     (let count = unat (sl_account_count args)
      in if count = 0 \<or> count > MAX_SETTLEMENT_LAMPORT_ACCOUNTS then Inl InvalidInstructionData
      else if length accs < 2 + count * 2 then Inl NotEnoughAccountKeys
      else
      let validator = accs ! 0; session = address (accs ! 1);
          pairs = pairs_of (take (count * 2) (drop 2 accs));
          trailing = drop (2 + count * 2) accs;
          targets = zip (map (\<lambda>p. address (fst p)) pairs) (take count (sl_lamports args))
      in rbind (load_session E program session s) (\<lambda>x.
         rbind (require_validator validator x) (\<lambda>_.
         rbind (require_active_settlement x (sl_er_slot args) (sl_checksum args)) (\<lambda>_.
         rbind (check_settlement_accounts E program x [] pairs s) (\<lambda>_.
         case previous of
           None \<Rightarrow> apply_lamports E session x targets None s
         | Some p \<Rightarrow> rbind (surplus_vault E program x pairs targets trailing p s) (\<lambda>vault.
             case vault of None \<Rightarrow> Inr s
             | Some v \<Rightarrow> apply_lamports E session x targets (Some v) s))))))"

definition process_settle_account_lamports ::
  "portal_env \<Rightarrow> pubkey \<Rightarrow> account_info list \<Rightarrow> settle_account_lamports \<Rightarrow> st \<Rightarrow> st res" where
  "process_settle_account_lamports E program accs args s =
     process_settle_account_lamports_inner E program accs args None s"

definition process_settle_account_lamports_with_surplus ::
  "portal_env \<Rightarrow> pubkey \<Rightarrow> account_info list \<Rightarrow> settle_account_lamports \<Rightarrow> hash32 \<Rightarrow> st \<Rightarrow> st res" where
  "process_settle_account_lamports_with_surplus E program accs args previous s =
     process_settle_account_lamports_inner E program accs args (Some previous) s"

subsection \<open>Deposit receipts\<close>

record settle_deposit_receipt =
  sr_er_slot :: u64
  sr_checksum :: hash32
  sr_balance :: u64
  sr_withdrawn :: u64
  sr_payout_lamports :: u64
  sr_l1_recipient :: pubkey

text \<open>The commitment to a version-2 session; a version-1 session has none.\<close>

definition session_context :: "portal_env \<Rightarrow> pubkey \<Rightarrow> pubkey \<Rightarrow> st \<Rightarrow> hash32 option res" where
  "session_context E program session s =
     (if starts_with (dat s session) session_v2_DISCRIMINATOR then
        rbind (ok_or (try_from_slice (session_v2_codec E) (dat s session)) (Portal SessionDeserializeFailed)) (\<lambda>f.
        case identity_commitment (session_identity_codec E) (session_v2_identity f program session) (hashv E) of
          Inl _ \<Rightarrow> Inl (Portal InvalidAccountData)
        | Inr context \<Rightarrow> Inr (Some context))
      else Inr None)"

definition check_receipt_frame :: "portal_env \<Rightarrow> hash32 option \<Rightarrow> pubkey \<Rightarrow> st \<Rightarrow> unit res" where
  "check_receipt_frame E context receipt s =
     (if (context \<noteq> None) \<noteq> starts_with (dat s receipt) deposit_receipt_v2_DISCRIMINATOR
      then Inl (Portal DepositReceiptStateInvalid)
      else case context of None \<Rightarrow> Inr ()
      | Some context \<Rightarrow>
          rbind (ok_or (try_from_slice (deposit_receipt_v2_codec E) (dat s receipt)) (Portal DepositReceiptDeserializeFailed)) (\<lambda>f.
          if r2_session_context f \<noteq> context then Inl (Portal InvalidAccountData) else Inr ()))"

text \<open>The payout out of the escrow, which keeps the rent reserve and the balance still owed.\<close>

definition pay_receipt :: "portal_env \<Rightarrow> settle_deposit_receipt \<Rightarrow> pubkey \<Rightarrow> pubkey \<Rightarrow> st \<Rightarrow> st res" where
  "pay_receipt E args receipt l1_recipient s =
     rbind (rent_minimum E (length (dat s receipt))) (\<lambda>rent_exempt.
     rbind (ok_or (checked_sub (lam s receipt) rent_exempt) (Portal InsufficientFees)) (\<lambda>escrow.
     rbind (ok_or (checked_sub escrow (sr_payout_lamports args)) (Portal InsufficientFees)) (\<lambda>escrow_after.
     if sr_balance args > escrow_after then Inl (Portal InsufficientFees)
     else if sr_payout_lamports args > 0 then
       rbind (ok_or (checked_add (lam s l1_recipient) (sr_payout_lamports args)) (Portal ArithmeticOverflow)) (\<lambda>post.
       let s = set_lam l1_recipient post s in
       rbind (ok_or (checked_sub (lam s receipt) (sr_payout_lamports args)) (Portal ArithmeticOverflow)) (\<lambda>left.
       Inr (set_lam receipt left s)))
     else Inr s)))"

text \<open>The update of a checked receipt \<open>r\<close>, or nothing when it is already settled.\<close>

definition settle_receipt ::
  "portal_env \<Rightarrow> settle_deposit_receipt \<Rightarrow> session \<Rightarrow> deposit_receipt \<Rightarrow> pubkey \<Rightarrow> pubkey \<Rightarrow> pubkey \<Rightarrow> pubkey
    \<Rightarrow> st \<Rightarrow> st res" where
  "settle_receipt E args x r session receipt er_source l1_recipient s =
     (if rc_balance r = sr_balance args \<and> rc_withdrawn r \<ge> sr_withdrawn args then Inr s
      else if sr_withdrawn args < rc_withdrawn r then Inl (Portal InvalidAccountData)
      else rbind (ok_or (checked_sub (sr_withdrawn args) (rc_withdrawn r)) (Portal ArithmeticOverflow)) (\<lambda>withdrawn_delta.
      if sr_payout_lamports args \<noteq> withdrawn_delta then Inl (Portal InvalidAccountData)
      else rbind (pay_receipt E args receipt l1_recipient s) (\<lambda>s'.
      rbind (write_deposit_receipt E (dat s' receipt)
              (r\<lparr>rc_balance := sr_balance args, rc_withdrawn := sr_withdrawn args\<rparr>)) (\<lambda>bs.
      rbind (store_session E session
              (x\<lparr>s_settlement_accumulator := accumulate_receipt_checksum (hashv E) (s_settlement_accumulator x)
                 er_source l1_recipient (sr_balance args) (sr_withdrawn args) (sr_payout_lamports args)\<rparr>)
              (set_dat receipt bs s')) (\<lambda>s''.
      if sr_payout_lamports args > 0 then
        Inr (emit_transfer_event \<lparr>ev_version = transfer_event_version, ev_kind = Withdrawal,
               ev_from = er_source, ev_to = l1_recipient, ev_lamports = sr_payout_lamports args,
               ev_pre_balance = lam s l1_recipient, ev_post_balance = lam s l1_recipient + sr_payout_lamports args,
               ev_slot = sr_er_slot args, ev_timestamp = clock_unix_timestamp E\<rparr> s'')
      else Inr s'')))))"

definition receipt_pda :: "portal_env \<Rightarrow> pubkey \<Rightarrow> pubkey \<Rightarrow> hash32 option \<Rightarrow> pubkey \<Rightarrow> pubkey \<times> u8" where
  "receipt_pda E program session context er_source = (case context of
       Some context \<Rightarrow> find_deposit_receipt_v2_pda E program context er_source
     | None \<Rightarrow> find_deposit_receipt_pda E program session er_source)"

definition process_settle_deposit_receipt ::
  "portal_env \<Rightarrow> pubkey \<Rightarrow> account_info list \<Rightarrow> settle_deposit_receipt \<Rightarrow> st \<Rightarrow> st res" where
  "process_settle_deposit_receipt E program accs args s =
     (if length accs < 5 then Inl NotEnoughAccountKeys else
      let validator = accs ! 0; session = address (accs ! 1); receipt = address (accs ! 2);
          er_source = address (accs ! 3); l1_recipient = address (accs ! 4)
      in rbind (load_session E program session s) (\<lambda>x.
         rbind (require_validator validator x) (\<lambda>_.
         rbind (require_active_settlement x (sr_er_slot args) (sr_checksum args)) (\<lambda>_.
         if l1_recipient \<noteq> sr_l1_recipient args then Inl (Portal InvalidAccountData)
         else rbind (session_context E program session s) (\<lambda>context.
         if receipt \<noteq> fst (receipt_pda E program session context er_source) then Inl (Portal InvalidPdaSeeds)
         else if own s receipt \<noteq> program then Inl (Portal InvalidAccountData)
         else rbind (check_receipt_frame E context receipt s) (\<lambda>_.
         rbind (parse_deposit_receipt E (dat s receipt)) (\<lambda>r.
         if \<not> deposit_receipt_is_valid r then Inl (Portal DepositReceiptStateInvalid)
         else if rc_session r \<noteq> session \<or> rc_recipient r \<noteq> er_source
              \<or> rc_bump r \<noteq> snd (receipt_pda E program session context er_source)
         then Inl (Portal InvalidPdaSeeds)
         else settle_receipt E args x r session receipt er_source l1_recipient s)))))))"

subsection \<open>Finish and abort\<close>

record finish_settlement =
  fs_er_slot :: u64
  fs_checksum :: hash32

definition clear_settlement :: "session \<Rightarrow> session" where
  "clear_settlement x = x\<lparr>s_settlement_status := Idle, s_settlement_er_slot := 0, s_settlement_checksum := 0,
     s_settlement_accumulator := 0, s_settlement_started_l1_slot := 0\<rparr>"

definition settle_checkpoint :: "portal_env \<Rightarrow> pubkey \<Rightarrow> checkpoint \<Rightarrow> pubkey \<Rightarrow> cursor \<Rightarrow> st \<Rightarrow> st res" where
  "settle_checkpoint E checkpoint c cursor cur s =
     rbind (store (checkpoint_codec E) (c\<lparr>cp_status := Settled\<rparr>) Panicked checkpoint s) (\<lambda>s.
     store (cursor_codec E) (clear_active_checkpoint cur) Panicked cursor s)"

definition process_finish_settlement ::
  "portal_env \<Rightarrow> pubkey \<Rightarrow> account_info list \<Rightarrow> finish_settlement \<Rightarrow> st \<Rightarrow> st res" where
  "process_finish_settlement E program accs args s =
     (if length accs < 4 then Inl NotEnoughAccountKeys else
      let validator = accs ! 0; session = address (accs ! 1); checkpoint = address (accs ! 2);
          cursor = address (accs ! 3)
      in rbind (load_session E program session s) (\<lambda>x.
         rbind (require_validator validator x) (\<lambda>_.
         if s_settlement_status x \<noteq> InProgress then Inl (Portal SettlementNotInProgress)
         else if fs_er_slot args \<noteq> s_settlement_er_slot x then Inl (Portal SettlementErSlotMismatch)
         else if fs_checksum args \<noteq> s_settlement_checksum x
                 \<or> fs_checksum args \<noteq> s_settlement_accumulator x
         then Inl (Portal SettlementChecksumMismatch)
         else rbind (load_checkpoint_for_settlement E program session (fs_er_slot args) checkpoint s) (\<lambda>c.
         rbind (load_cursor E program session cursor s) (\<lambda>cur.
         rbind (require_active_checkpoint cur checkpoint (fs_er_slot args)) (\<lambda>_.
         rbind (settle_checkpoint E checkpoint c cursor cur s) (\<lambda>s.
         store_session E session
           (clear_settlement x\<lparr>s_last_settled_l1_slot := clock_slot E, s_last_settled_er_slot := fs_er_slot args\<rparr>)
           s)))))))"

definition process_abort_settlement :: "portal_env \<Rightarrow> pubkey \<Rightarrow> account_info list \<Rightarrow> st \<Rightarrow> st res" where
  "process_abort_settlement E program accs s =
     (if length accs < 2 then Inl NotEnoughAccountKeys else
      let caller = accs ! 0; session = address (accs ! 1)
      in rbind (load_session E program session s) (\<lambda>x.
         if \<not> is_signer caller then Inl (Portal Unauthorized)
         else if s_settlement_status x \<noteq> InProgress then Inl (Portal SettlementNotInProgress)
         else
         let is_validator = (address caller = s_validator x);
             is_timed_out_authority = (address caller = s_authority x
               \<and> clock_slot E > saturating_add (s_settlement_started_l1_slot x) (s_settlement_interval_slots x))
         in if \<not> is_validator \<and> \<not> is_timed_out_authority then Inl (Portal SettlementUnauthorizedAbort)
         else if s_settlement_accumulator x \<noteq> initial_settlement_checksum (hashv E) (s_settlement_er_slot x)
         then Inl (Portal SettlementInProgress)
         else store_session E session (clear_settlement x) s))"

subsection \<open>Reading the checks\<close>

lemma require_validator_ok [ok_simps]:
  "require_validator v x = Inr u \<longleftrightarrow> is_signer v \<and> address v = s_validator x"
  by (auto simp: require_validator_def)

lemma require_active_settlement_ok [ok_simps]:
  "require_active_settlement x er_slot checksum = Inr u \<longleftrightarrow>
     s_settlement_status x = InProgress \<and> s_settlement_er_slot x = er_slot \<and> s_settlement_checksum x = checksum"
  by (auto simp: require_active_settlement_def)

lemma require_active_checkpoint_ok [ok_simps]:
  "require_active_checkpoint c k er_slot = Inr u \<longleftrightarrow> cc_active_checkpoint c = k \<and> cc_active_er_slot c = er_slot"
  by (auto simp: require_active_checkpoint_def)

lemma session_fixed_updates [simp]:
  "session_fixed_fields (x\<lparr>s_settlement_accumulator := a\<rparr>) = session_fixed_fields x"
  "session_fixed_fields (x\<lparr>s_settlement_status := st, s_settlement_er_slot := n, s_settlement_checksum := c,
     s_settlement_accumulator := a, s_settlement_started_l1_slot := t\<rparr>) = session_fixed_fields x"
  "session_fixed_fields (clear_settlement x) = session_fixed_fields x"
  "session_fixed_fields (x\<lparr>s_last_settled_l1_slot := m, s_last_settled_er_slot := n\<rparr>) = session_fixed_fields x"
  by (simp_all add: session_fixed_fields_def clear_settlement_def)

lemma session_valid_updates [simp]:
  "session_is_valid (x\<lparr>s_settlement_accumulator := a\<rparr>) = session_is_valid x"
  "session_is_valid (x\<lparr>s_settlement_status := st, s_settlement_er_slot := n, s_settlement_checksum := c,
     s_settlement_accumulator := a, s_settlement_started_l1_slot := t\<rparr>) = session_is_valid x"
  "session_is_valid (clear_settlement x) = session_is_valid x"
  "session_is_valid (x\<lparr>s_last_settled_l1_slot := m, s_last_settled_er_slot := n\<rparr>) = session_is_valid x"
  by (simp_all add: session_is_valid_def clear_settlement_def)

context portal_codecs
begin

lemma load_session_ok:
  "load_session E program k s = Inr x \<longleftrightarrow>
     k = fst (find_session_pda E program) \<and> own s k = program \<and> parse_session E (dat s k) = Inr x"
  using ses.parse_valid by (auto simp: load_session_def ok_simps)

lemma store_session_ok:
  assumes "parse_session E (dat s k) = Inr x" "session_is_valid y" "session_fixed_fields y = session_fixed_fields x"
  obtains bs where "store_session E k y s = Inr (set_dat k bs s)" "parse_session E bs = Inr y" "length bs = length (dat s k)"
  using write_session_read [OF assms] by (auto simp: store_session_def)

lemma store_session_run:
  assumes "store_session E k y s = Inr s'" "parse_session E (dat s k) = Inr x" "session_is_valid y"
  shows "\<exists>bs. s' = set_dat k bs s \<and> parse_session E bs = Inr y \<and> length bs = length (dat s k)"
proof -
  obtain bs where "write_session E (dat s k) y = Inr bs" "s' = set_dat k bs s"
    using assms(1) by (auto simp: store_session_def ok_simps)
  then show ?thesis using assms(2,3) ses.parse_put ses.put_length by blast
qed

lemma parse_session_length: "parse_session E bs = Inr x \<Longrightarrow> length bs = 226 \<or> length bs = 378"
  by (auto simp: parse_session_cases session_c.ser_length session_v2_c.ser_length)

lemma parse_receipt_length: "parse_deposit_receipt E bs = Inr x \<Longrightarrow> length bs = 89 \<or> length bs = 137"
  by (auto simp: parse_receipt_cases deposit_receipt_c.ser_length deposit_receipt_v2_c.ser_length)

lemma load_delegation_record_ok:
  "load_delegation_record E program x d r s = Inr dr \<longleftrightarrow>
     own s d = program \<and> r = fst (find_delegation_record_pda E program d) \<and> own s r = program
     \<and> try_from_slice (delegation_record_codec E) (dat s r) = Some dr
     \<and> delegation_record_is_valid dr \<and> dr_grid_id dr = s_grid_id x"
  by (auto simp: load_delegation_record_def ok_simps)

lemma load_checkpoint_for_settlement_ok:
  "load_checkpoint_for_settlement E program session er_slot k s = Inr c \<longleftrightarrow>
     k = fst (find_checkpoint_pda E program session er_slot) \<and> own s k = program
     \<and> try_from_slice (checkpoint_codec E) (dat s k) = Some c \<and> checkpoint_is_valid c
     \<and> cp_session c = session \<and> cp_er_slot c = er_slot \<and> cp_status c = Committed"
  by (auto simp: load_checkpoint_for_settlement_def ok_simps)

lemma load_cursor_ok:
  "load_cursor E program session k s = Inr c \<longleftrightarrow>
     k = fst (find_checkpoint_cursor_pda E program session) \<and> own s k = program
     \<and> try_from_slice (cursor_codec E) (dat s k) = Some c \<and> cursor_is_valid c \<and> cc_session c = session"
  by (auto simp: load_cursor_def ok_simps)

lemmas settlement_checks = load_session_ok load_delegation_record_ok load_checkpoint_for_settlement_ok load_cursor_ok

subsection \<open>Effects of the settlement instructions\<close>

lemma begin_effect:
  assumes "process_begin_settlement E program (validator # session # checkpoint # rest) args s = Inr s'"
  shows "\<exists>x c bs. address session = fst (find_session_pda E program) \<and> own s (address session) = program
     \<and> parse_session E (dat s (address session)) = Inr x
     \<and> is_signer validator \<and> address validator = s_validator x \<and> s_settlement_status x = Idle
     \<and> saturating_add (s_last_settled_l1_slot x) (s_settlement_interval_slots x) \<le> clock_slot E
     \<and> s_last_settled_er_slot x < bs_er_slot args
     \<and> try_from_slice (checkpoint_codec E) (dat s (address checkpoint)) = Some c
     \<and> cp_status c = Committed \<and> cp_er_slot c = bs_er_slot args \<and> cp_session c = address session
     \<and> cp_effect_commitment c = bs_effect_commitment args
     \<and> s' = set_dat (address session) bs s
     \<and> parse_session E bs = Inr (x\<lparr>s_settlement_status := InProgress, s_settlement_er_slot := bs_er_slot args,
              s_settlement_checksum := bs_checksum args,
              s_settlement_accumulator := initial_settlement_checksum (hashv E) (bs_er_slot args),
              s_settlement_started_l1_slot := clock_slot E\<rparr>)"
proof -
  obtain x c where x: "address session = fst (find_session_pda E program)" "own s (address session) = program"
      "parse_session E (dat s (address session)) = Inr x"
      "is_signer validator" "address validator = s_validator x" "s_settlement_status x \<noteq> InProgress"
      "saturating_add (s_last_settled_l1_slot x) (s_settlement_interval_slots x) \<le> clock_slot E"
      "s_last_settled_er_slot x < bs_er_slot args"
    and c: "try_from_slice (checkpoint_codec E) (dat s (address checkpoint)) = Some c"
      "cp_status c = Committed" "cp_er_slot c = bs_er_slot args" "cp_session c = address session"
      "cp_effect_commitment c = bs_effect_commitment args"
    and st: "store_session E (address session) (x\<lparr>s_settlement_status := InProgress, s_settlement_er_slot := bs_er_slot args,
              s_settlement_checksum := bs_checksum args,
              s_settlement_accumulator := initial_settlement_checksum (hashv E) (bs_er_slot args),
              s_settlement_started_l1_slot := clock_slot E\<rparr>) s = Inr s'"
    using assms [unfolded process_begin_settlement_def Let_def, simplified ok_simps settlement_checks not_less not_le, simplified]
    by (elim exE conjE) (rule that, assumption+)
  have "s_settlement_status x = Idle" using x(6) by (cases "s_settlement_status x") auto
  moreover obtain bs where "s' = set_dat (address session) bs s" "parse_session E bs = Inr (x\<lparr>s_settlement_status := InProgress,
      s_settlement_er_slot := bs_er_slot args, s_settlement_checksum := bs_checksum args,
      s_settlement_accumulator := initial_settlement_checksum (hashv E) (bs_er_slot args),
      s_settlement_started_l1_slot := clock_slot E\<rparr>)"
    using store_session_run [OF st x(3)] ses.parse_valid [OF x(3)] by auto
  ultimately show ?thesis using x(1-5,7,8) c by (intro exI conjI) assumption+
qed

lemma if_ok: "((if c then m else n) = Inr y) \<longleftrightarrow> (if c then m = Inr y else n = Inr y)"
  by simp

lemma chunk_effect:
  assumes "process_write_settlement_chunk E program (validator # session # delegated # rec # rest) args s = Inr s'"
    and "address delegated \<noteq> address session"
  defines "start \<equiv> unat (wc_account_data_offset args)" and "n \<equiv> unat (wc_chunk_len args)"
  shows "\<exists>x. address session = fst (find_session_pda E program) \<and> own s (address session) = program
     \<and> parse_session E (dat s (address session)) = Inr x \<and> s_settlement_status x = InProgress
     \<and> s_settlement_er_slot x = wc_er_slot args \<and> s_settlement_checksum x = wc_checksum args
     \<and> is_signer validator \<and> address validator = s_validator x \<and> own s (address delegated) = program
     \<and> n \<le> 700 \<and> start + n \<le> length (dat s (address delegated))
     \<and> (if take n (drop start (dat s (address delegated))) = take n (wc_chunk args) then s' = s
        else \<exists>bs. s' = set_dat (address session) bs
               (set_dat (address delegated) (overwrite (dat s (address delegated)) start (take n (wc_chunk args))) s)
          \<and> parse_session E bs = Inr (x\<lparr>s_settlement_accumulator := accumulate_data_chunk_checksum (hashv E)
               (s_settlement_accumulator x) (address delegated) (wc_account_data_offset args) (take n (wc_chunk args))\<rparr>))"
proof -
  let ?d = "address delegated" and ?k = "address session"
  let ?t = "set_dat ?d (overwrite (dat s ?d) start (take n (wc_chunk args))) s"
  obtain x where x: "?k = fst (find_session_pda E program)" "own s ?k = program"
      "parse_session E (dat s ?k) = Inr x" "s_settlement_status x = InProgress"
      "s_settlement_er_slot x = wc_er_slot args" "s_settlement_checksum x = wc_checksum args"
      "is_signer validator" "address validator = s_validator x" "own s ?d = program"
      "n \<le> 700" "start + n \<le> length (dat s ?d)"
    and fin: "if take n (drop start (dat s ?d)) = take n (wc_chunk args) then s = s'
        else store_session E ?k (x\<lparr>s_settlement_accumulator := accumulate_data_chunk_checksum (hashv E)
               (s_settlement_accumulator x) ?d (wc_account_data_offset args) (take n (wc_chunk args))\<rparr>) ?t = Inr s'"
    using assms(1) [unfolded process_write_settlement_chunk_def Let_def MAX_SETTLEMENT_CHUNK_def if_ok,
        simplified ok_simps settlement_checks not_less, simplified, folded n_def start_def]
    by (elim exE conjE) (rule that, assumption+, simp split: if_splits)
  have "parse_session E (dat ?t ?k) = Inr x" using x(3) assms(2) by simp
  from store_session_run [OF _ this] ses.parse_valid [OF x(3)]
  have "store_session E ?k (x\<lparr>s_settlement_accumulator := a\<rparr>) ?t = Inr s' \<Longrightarrow>
      \<exists>bs. s' = set_dat ?k bs ?t \<and> parse_session E bs = Inr (x\<lparr>s_settlement_accumulator := a\<rparr>)" for a
    by (metis session_valid_updates(1))
  with fin x show ?thesis by (intro exI [of _ x]) (auto simp del: set_dat_read)
qed

lemma owner_effect:
  assumes "process_settle_account_owner E program (validator # session # delegated # rec # rest) args s = Inr s'"
  shows "\<exists>x dr. address session = fst (find_session_pda E program) \<and> own s (address session) = program
     \<and> parse_session E (dat s (address session)) = Inr x \<and> s_settlement_status x = InProgress
     \<and> s_settlement_er_slot x = so_er_slot args \<and> s_settlement_checksum x = so_checksum args
     \<and> is_signer validator \<and> address validator = s_validator x
     \<and> try_from_slice (delegation_record_codec E) (dat s (address rec)) = Some dr
     \<and> (if dr_owner_program dr = so_owner args then s' = s
        else \<exists>bs. s' = set_dat (address session) bs
               (set_dat (address rec) (ser (delegation_record_codec E) (dr\<lparr>dr_owner_program := so_owner args\<rparr>)) s)
          \<and> parse_session E bs = Inr (x\<lparr>s_settlement_accumulator := accumulate_owner_checksum (hashv E)
               (s_settlement_accumulator x) (address delegated) (so_owner args)\<rparr>))"
proof -
  let ?k = "address session" and ?r = "address rec"
  obtain x dr where x: "?k = fst (find_session_pda E program)" "own s ?k = program"
      "parse_session E (dat s ?k) = Inr x" "s_settlement_status x = InProgress"
      "s_settlement_er_slot x = so_er_slot args" "s_settlement_checksum x = so_checksum args"
      "is_signer validator" "address validator = s_validator x"
    and dr: "try_from_slice (delegation_record_codec E) (dat s ?r) = Some dr"
    and fin: "(if dr_owner_program dr = so_owner args then Inr s
        else rbind (store (delegation_record_codec E) (dr\<lparr>dr_owner_program := so_owner args\<rparr>) Panicked ?r s) (\<lambda>s.
         store_session E ?k (x\<lparr>s_settlement_accumulator := accumulate_owner_checksum (hashv E)
           (s_settlement_accumulator x) (address delegated) (so_owner args)\<rparr>) s)) = Inr s'"
    using assms [unfolded process_settle_account_owner_def Let_def, simplified ok_simps settlement_checks, simplified]
    by (elim exE conjE) (rule that, assumption+, simp split: if_splits)
  let ?t = "set_dat ?r (ser (delegation_record_codec E) (dr\<lparr>dr_owner_program := so_owner args\<rparr>)) s"
  have ne: "?r \<noteq> ?k"
    using parse_session_length [OF x(3)] delegation_record_c.try_from_sliceD(3) [OF dr] by auto
  have st: "store (delegation_record_codec E) (dr\<lparr>dr_owner_program := so_owner args\<rparr>) Panicked ?r s = Inr ?t"
    by (rule delegation_record_c.store_over [OF dr]) simp
  have "parse_session E (dat ?t ?k) = Inr x" using x(3) ne by simp
  from store_session_run [OF _ this] ses.parse_valid [OF x(3)]
  have "store_session E ?k (x\<lparr>s_settlement_accumulator := a\<rparr>) ?t = Inr s' \<Longrightarrow>
      \<exists>bs. s' = set_dat ?k bs ?t \<and> parse_session E bs = Inr (x\<lparr>s_settlement_accumulator := a\<rparr>)" for a
    by (metis session_valid_updates(1))
  with fin x dr st show ?thesis
    by (intro exI [of _ x] exI [of _ dr]) (auto simp del: set_dat_read)
qed

end

subsection \<open>Lamport totals\<close>

definition current_sum :: "st \<Rightarrow> (pubkey \<times> u64) list \<Rightarrow> nat" where
  "current_sum s ts = (\<Sum>p\<leftarrow>ts. unat (lam s (fst p)))"

definition target_sum :: "(pubkey \<times> u64) list \<Rightarrow> nat" where
  "target_sum ts = (\<Sum>p\<leftarrow>ts. unat (snd p))"

lemma sum_simps [simp]:
  "current_sum s [] = 0" "current_sum s ((k, v) # ts) = unat (lam s k) + current_sum s ts"
  "target_sum [] = 0" "target_sum ((k, v) # ts) = unat v + target_sum ts"
  by (simp_all add: current_sum_def target_sum_def)

definition rent_floors :: "portal_env \<Rightarrow> st \<Rightarrow> (pubkey \<times> u64) list \<Rightarrow> bool" where
  "rent_floors E s ts = list_all (\<lambda>(k, v). dat s k = [] \<or>
     (case rent_minimum E (length (dat s k)) of Inl _ \<Rightarrow> False | Inr rent \<Rightarrow> rent \<le> v)) ts"

lemma unat_u64_u128 [simp]: "unat (ucast (x :: u64) :: u128) = unat x"
  using unsigned_less [of x, where 'a = nat] by (simp add: unsigned_ucast_eq take_bit_nat_eq_self_iff)

lemma lamport_totals_ok:
  assumes "lamport_totals E ts c t b s = Inr (c', t', b')"
  shows "unat c' = unat c + current_sum s ts" "unat t' = unat t + target_sum ts"
    and "b' \<longleftrightarrow> b \<and> list_all (\<lambda>(k, v). lam s k = v) ts" "rent_floors E s ts"
proof -
  have "unat c' = unat c + current_sum s ts \<and> unat t' = unat t + target_sum ts
      \<and> (b' \<longleftrightarrow> b \<and> list_all (\<lambda>(k, v). lam s k = v) ts) \<and> rent_floors E s ts"
    using assms
  proof (induction ts arbitrary: c t b)
    case Nil
    then show ?case by (simp add: rent_floors_def)
  next
    case (Cons p ts)
    obtain k v where p: "p = (k, v)" by (cases p)
    obtain c1 t1 where c1: "checked_add c (ucast (lam s k)) = Some c1" and t1: "checked_add t (ucast v) = Some t1"
      and fl: "rent_floors E s [(k, v)]" and rest: "lamport_totals E ts c1 t1 (b \<and> lam s k = v) s = Inr (c', t', b')"
      using Cons.prems by (auto simp: p ok_simps rent_floors_def not_less split: if_splits)
    from Cons.IH [OF rest] c1 t1 fl show ?case
      by (auto simp: p checked_add_Some_iff rent_floors_def)
  qed
  then show "unat c' = unat c + current_sum s ts" "unat t' = unat t + target_sum ts"
    "b' \<longleftrightarrow> b \<and> list_all (\<lambda>(k, v). lam s k = v) ts" "rent_floors E s ts" by auto
qed

lemma set_targets_read [simp]:
  "dat (set_targets ts s) k = dat s k" "own (set_targets ts s) k = own s k"
  "exe (set_targets ts s) k = exe s k" "events (set_targets ts s) = events s"
  by (induction ts arbitrary: s) auto

lemma set_targets_other: "k \<notin> fst ` set ts \<Longrightarrow> lam (set_targets ts s) k = lam s k"
  by (induction ts arbitrary: s) auto

lemma set_targets_hit: "distinct (map fst ts) \<Longrightarrow> (k, v) \<in> set ts \<Longrightarrow> lam (set_targets ts s) k = v"
proof (induction ts arbitrary: s)
  case (Cons p ts)
  then show ?case by (cases p) (auto simp: set_targets_other rev_image_eqI)
qed simp

lemma current_sum_cong [simp]: "k \<notin> fst ` set ts \<Longrightarrow> current_sum (set_lam k v s) ts = current_sum s ts"
  by (induction ts) auto

lemma current_sum_set_dat [simp]: "current_sum (set_dat k v s) ts = current_sum s ts"
  by (simp add: current_sum_def)

lemma set_targets_total:
  "distinct (map fst ts) \<Longrightarrow>
   total_lamports (set_targets ts s) + current_sum s ts = total_lamports s + target_sum ts"
proof (induction ts arbitrary: s)
  case (Cons p ts)
  obtain k v where p: "p = (k, v)" by (cases p)
  with Cons show ?case
    using total_set_lam [of k v s] Cons.IH [of "set_lam k v s"] by simp
qed simp

lemma check_settlement_accounts_ok:
  "check_settlement_accounts E program x seen ps s = Inr u \<Longrightarrow>
     distinct (map (\<lambda>p. address (fst p)) ps) \<and> set (map (\<lambda>p. address (fst p)) ps) \<inter> set seen = {}
     \<and> list_all (\<lambda>p. own s (address (fst p)) = program) ps"
proof (induction ps arbitrary: seen)
  case (Cons p ps)
  obtain a r where p: "p = (a, r)" by (cases p)
  with Cons.prems have o: "own s (address a) = program" "address a \<notin> set seen"
      "check_settlement_accounts E program x (address a # seen) ps s = Inr u"
    by (auto simp: ok_simps load_delegation_record_def)
  with Cons.IH [OF o(3)] show ?case by (auto simp: p)
qed simp

context portal_codecs
begin

lemma apply_lamports_fold:
  assumes "parse_session E (dat t k) = Inr x" "store_session E k (x\<lparr>s_settlement_accumulator := a\<rparr>) t = Inr s'"
  shows "\<exists>bs. s' = set_dat k bs t \<and> parse_session E bs = Inr (x\<lparr>s_settlement_accumulator := a\<rparr>)"
  using store_session_run [OF assms(2,1)] ses.parse_valid [OF assms(1)] by auto

lemma apply_lamports_plain:
  assumes run: "apply_lamports E k x ts None s = Inr s'" and d: "distinct (map fst ts)"
    and ses: "parse_session E (dat s k) = Inr x"
  shows "s' = s \<and> list_all (\<lambda>(k, v). lam s k = v) ts \<or>
     (\<exists>bs. parse_session E bs = Inr (x\<lparr>s_settlement_accumulator := lamports_accumulator (hashv E) (s_settlement_accumulator x) ts\<rparr>)
        \<and> s' = set_dat k bs (set_targets ts s) \<and> current_sum s ts = target_sum ts)"
    and "rent_floors E s ts" "total_lamports s' = total_lamports s"
proof -
  obtain ct tt al where tot: "lamport_totals E ts 0 0 True s = Inr (ct, tt, al)"
    and fin: "al \<and> s' = s \<or> ct = tt \<and>
      store_session E k (x\<lparr>s_settlement_accumulator := lamports_accumulator (hashv E) (s_settlement_accumulator x) ts\<rparr>)
        (set_targets ts s) = Inr s'"
    using run unfolding apply_lamports_def Let_def
    by (auto simp: ok_simps checked_sub_Some_iff word_unat_eq_iff split: if_splits)
  note tots = lamport_totals_ok [OF tot, simplified]
  show "rent_floors E s ts" by (rule tots(4))
  show *: "s' = s \<and> list_all (\<lambda>(k, v). lam s k = v) ts \<or>
     (\<exists>bs. parse_session E bs = Inr (x\<lparr>s_settlement_accumulator := lamports_accumulator (hashv E) (s_settlement_accumulator x) ts\<rparr>)
        \<and> s' = set_dat k bs (set_targets ts s) \<and> current_sum s ts = target_sum ts)"
    using fin
  proof (elim disjE conjE)
    assume eq: "ct = tt" and st: "store_session E k (x\<lparr>s_settlement_accumulator :=
        lamports_accumulator (hashv E) (s_settlement_accumulator x) ts\<rparr>) (set_targets ts s) = Inr s'"
    obtain bs where "s' = set_dat k bs (set_targets ts s)" "parse_session E bs =
        Inr (x\<lparr>s_settlement_accumulator := lamports_accumulator (hashv E) (s_settlement_accumulator x) ts\<rparr>)"
      using apply_lamports_fold [OF _ st] ses by auto
    with eq tots show ?thesis by auto
  qed (use tots in auto)
  then show "total_lamports s' = total_lamports s"
    using set_targets_total [OF d, of s] by auto
qed

lemma apply_lamports_surplus:
  assumes run: "apply_lamports E k x ts (Some v) s = Inr s'" and d: "distinct (map fst ts)"
    and ses: "parse_session E (dat s k) = Inr x" and v: "v \<notin> fst ` set ts"
  shows "\<exists>bs b. parse_session E bs = Inr (x\<lparr>s_settlement_accumulator := lamports_accumulator (hashv E) (s_settlement_accumulator x) ts\<rparr>)
        \<and> s' = set_dat k bs (set_lam v b (set_targets ts s))
        \<and> unat b + target_sum ts = unat (lam s v) + current_sum s ts \<and> target_sum ts \<le> current_sum s ts"
    and "rent_floors E s ts" "total_lamports s' = total_lamports s"
proof -
  obtain ct tt al sp b where tot: "lamport_totals E ts 0 0 True s = Inr (ct, tt, al)"
    and sp: "checked_sub ct tt = Some sp" "sp < 2 ^ 64" "checked_add (lam s v) (ucast sp) = Some b"
    and fin: "store_session E k (x\<lparr>s_settlement_accumulator := lamports_accumulator (hashv E) (s_settlement_accumulator x) ts\<rparr>)
        (set_lam v b (set_targets ts s)) = Inr s'"
    using run unfolding apply_lamports_def Let_def
    by (auto simp: ok_simps not_le)
  note tots = lamport_totals_ok [OF tot, simplified]
  show "rent_floors E s ts" by (rule tots(4))
  have "unat sp < 2 ^ 64" using sp(2) by (simp add: word_less_nat_alt)
  then have "unat (ucast sp :: u64) = unat sp" by (simp add: unsigned_ucast_eq take_bit_nat_eq_self_iff)
  then have b: "unat b + target_sum ts = unat (lam s v) + current_sum s ts" "target_sum ts \<le> current_sum s ts"
    using sp(1,3) tots(1,2) by (simp_all add: checked_sub_Some_iff checked_add_Some_iff)
  obtain bs where bs: "s' = set_dat k bs (set_lam v b (set_targets ts s))"
      "parse_session E bs = Inr (x\<lparr>s_settlement_accumulator := lamports_accumulator (hashv E) (s_settlement_accumulator x) ts\<rparr>)"
    using apply_lamports_fold [OF _ fin] ses by auto
  with b show "\<exists>bs b. parse_session E bs = Inr (x\<lparr>s_settlement_accumulator := lamports_accumulator (hashv E) (s_settlement_accumulator x) ts\<rparr>)
        \<and> s' = set_dat k bs (set_lam v b (set_targets ts s))
        \<and> unat b + target_sum ts = unat (lam s v) + current_sum s ts \<and> target_sum ts \<le> current_sum s ts"
    by blast
  have "lam (set_targets ts s) v = lam s v" using v by (rule set_targets_other)
  then show "total_lamports s' = total_lamports s"
    using bs(1) b set_targets_total [OF d, of s] total_set_lam [of v b "set_targets ts s"] by simp
qed

lemma surplus_vault_ok:
  assumes "surplus_vault E program x pairs ts trailing p s = Inr (Some v)"
  shows "v = fst (find_fee_vault_pda E program)" "v \<notin> (\<lambda>q. address (fst q)) ` set pairs"
    "s_settlement_accumulator x = p"
  using assms [unfolded surplus_vault_def Let_def, simplified ok_simps, simplified]
  by (auto simp: list_ex_iff split: if_splits)

lemma lamports_effect:
  assumes run: "process_settle_account_lamports_inner E program (validator # session # rest) args previous s = Inr s'"
  defines "n \<equiv> unat (sl_account_count args)"
  defines "ts \<equiv> zip (map (\<lambda>p. address (fst p)) (pairs_of (take (n * 2) rest))) (take n (sl_lamports args))"
  shows "\<exists>x. address session = fst (find_session_pda E program) \<and> own s (address session) = program
     \<and> parse_session E (dat s (address session)) = Inr x \<and> s_settlement_status x = InProgress
     \<and> s_settlement_er_slot x = sl_er_slot args \<and> s_settlement_checksum x = sl_checksum args
     \<and> is_signer validator \<and> address validator = s_validator x
     \<and> distinct (map fst ts) \<and> list_all (\<lambda>p. own s (fst p) = program) ts
     \<and> (s' = s \<or> (\<exists>bs t. parse_session E bs =
              Inr (x\<lparr>s_settlement_accumulator := lamports_accumulator (hashv E) (s_settlement_accumulator x) ts\<rparr>)
            \<and> s' = set_dat (address session) bs t \<and> rent_floors E s ts
            \<and> (if previous = None then t = set_targets ts s \<and> current_sum s ts = target_sum ts
               else \<exists>v b. v = fst (find_fee_vault_pda E program) \<and> v \<notin> fst ` set ts \<and> t = set_lam v b (set_targets ts s)
                 \<and> unat b + target_sum ts = unat (lam s v) + current_sum s ts \<and> target_sum ts \<le> current_sum s ts)))
     \<and> total_lamports s' = total_lamports s"
proof -
  let ?k = "address session" and ?pairs = "pairs_of (take (n * 2) rest)"
  obtain x where x: "?k = fst (find_session_pda E program)" "own s ?k = program" "parse_session E (dat s ?k) = Inr x"
      "s_settlement_status x = InProgress" "s_settlement_er_slot x = sl_er_slot args"
      "s_settlement_checksum x = sl_checksum args" "is_signer validator" "address validator = s_validator x"
    and chk: "check_settlement_accounts E program x [] ?pairs s = Inr ()"
    and fin: "(case previous of None \<Rightarrow> apply_lamports E ?k x ts None s
        | Some p \<Rightarrow> rbind (surplus_vault E program x ?pairs ts (drop (n * 2) rest) p s) (\<lambda>vault.
             case vault of None \<Rightarrow> Inr s | Some v \<Rightarrow> apply_lamports E ?k x ts (Some v) s)) = Inr s'"
    using run [unfolded process_settle_account_lamports_inner_def Let_def, simplified ok_simps settlement_checks,
        simplified, folded n_def ts_def]
    by (elim exE conjE) (rule that, assumption+, simp add: n_def ts_def cong: option.case_cong)
  note c = check_settlement_accounts_ok [OF chk]
  have keys: "map fst ts = take (length ts) (map (\<lambda>p. address (fst p)) ?pairs)"
    by (simp add: ts_def map_fst_zip_take)
  then have sub: "fst ` set ts \<subseteq> (\<lambda>p. address (fst p)) ` set ?pairs"
    by (metis list.set_map set_take_subset)
  have d: "distinct (map fst ts)" using c by (simp add: keys)
  have o: "list_all (\<lambda>p. own s (fst p) = program) ts"
    using c sub by (fastforce simp: list_all_iff)
  show ?thesis
  proof (cases previous)
    case None
    then have "apply_lamports E ?k x ts None s = Inr s'" using fin by simp
    note l = apply_lamports_plain [OF this d x(3)]
    show ?thesis using x d o l None by (intro exI [of _ x]) (simp, blast)
  next
    case (Some p)
    then obtain v where "surplus_vault E program x ?pairs ts (drop (n * 2) rest) p s = Inr v"
        "(case v of None \<Rightarrow> Inr s | Some v \<Rightarrow> apply_lamports E ?k x ts (Some v) s) = Inr s'"
      using fin by (auto simp: ok_simps)
    note v = this
    show ?thesis
    proof (cases v)
      case None
      then show ?thesis using v(2) x d o by auto
    next
      case (Some w)
      then have w: "surplus_vault E program x ?pairs ts (drop (n * 2) rest) p s = Inr (Some w)"
          "apply_lamports E ?k x ts (Some w) s = Inr s'" using v by auto
      note vault = surplus_vault_ok [OF w(1)]
      have nin: "w \<notin> fst ` set ts" using vault(2) sub by blast
      note l = apply_lamports_surplus [OF w(2) d x(3) nin]
      show ?thesis using x d o l vault(1) nin \<open>previous = Some p\<close> by (intro exI [of _ x]) auto
    qed
  qed
qed

end

subsection \<open>Receipts\<close>

lemma receipt_valid_updates [simp]:
  "deposit_receipt_is_valid (r\<lparr>rc_balance := b, rc_withdrawn := w\<rparr>) = deposit_receipt_is_valid r"
  by (simp add: deposit_receipt_is_valid_def)

lemma pay_receipt_ok:
  assumes "pay_receipt E args receipt l1 s = Inr s'"
  shows "\<exists>rent. rent_minimum E (length (dat s receipt)) = Inr rent
     \<and> unat rent + unat (sr_payout_lamports args) + unat (sr_balance args) \<le> unat (lam s receipt)
     \<and> s' = (if l1 = receipt then s else set_lam receipt (lam s receipt - sr_payout_lamports args)
          (set_lam l1 (lam s l1 + sr_payout_lamports args) s))
     \<and> (l1 \<noteq> receipt \<longrightarrow> unat (lam s l1 + sr_payout_lamports args) = unat (lam s l1) + unat (sr_payout_lamports args))
     \<and> total_lamports s' = total_lamports s"
proof -
  let ?p = "sr_payout_lamports args"
  obtain rent e1 e2 where r: "rent_minimum E (length (dat s receipt)) = Inr rent"
      "checked_sub (lam s receipt) rent = Some e1" "checked_sub e1 ?p = Some e2" "sr_balance args \<le> e2"
    and fin: "(if ?p > 0 then
       rbind (ok_or (checked_add (lam s l1) ?p) (Portal ArithmeticOverflow)) (\<lambda>post.
       rbind (ok_or (checked_sub (lam (set_lam l1 post s) receipt) ?p) (Portal ArithmeticOverflow)) (\<lambda>left.
       Inr (set_lam receipt left (set_lam l1 post s)))) else Inr s) = Inr s'"
    using assms [unfolded pay_receipt_def Let_def, simplified ok_simps not_less, simplified]
    by (elim exE conjE) (rule that, assumption+)
  have b: "unat rent + unat ?p + unat (sr_balance args) \<le> unat (lam s receipt)"
    using r(2-4) by (simp add: checked_sub_Some_iff word_le_nat_alt)
  then have le: "?p \<le> lam s receipt" by (simp add: word_le_nat_alt)
  have s': "s' = (if l1 = receipt then s else set_lam receipt (lam s receipt - ?p) (set_lam l1 (lam s l1 + ?p) s))
      \<and> (l1 \<noteq> receipt \<longrightarrow> unat (lam s l1 + ?p) = unat (lam s l1) + unat ?p)"
  proof (cases "?p = 0")
    case True
    then show ?thesis using fin by (auto intro!: st_eqI)
  next
    case False
    then show ?thesis
      using fin le by (auto simp: ok_simps word_neq_0_conv checked_add_Some_iff checked_sub_def checked_add_def
          unat_add_exact split: if_splits intro!: st_eqI)
  qed
  moreover have "total_lamports s' = total_lamports s"
  proof (cases "l1 = receipt")
    case False
    then show ?thesis using s' le total_set_lam [of l1 "lam s l1 + ?p" s]
        total_set_lam [of receipt "lam s receipt - ?p" "set_lam l1 (lam s l1 + ?p) s"]
      by (simp add: unat_sub word_le_nat_alt)
  qed (use s' in simp)
  ultimately show ?thesis using r(1) b by blast
qed

context portal_codecs
begin

lemma receipt_effect:
  assumes "process_settle_deposit_receipt E program (validator # session # receipt # er_source # l1 # rest) args s = Inr s'"
  shows "\<exists>x r. address session = fst (find_session_pda E program) \<and> own s (address session) = program
     \<and> parse_session E (dat s (address session)) = Inr x \<and> s_settlement_status x = InProgress
     \<and> s_settlement_er_slot x = sr_er_slot args \<and> s_settlement_checksum x = sr_checksum args
     \<and> is_signer validator \<and> address validator = s_validator x \<and> address l1 = sr_l1_recipient args
     \<and> address receipt \<noteq> address session
     \<and> own s (address receipt) = program \<and> parse_deposit_receipt E (dat s (address receipt)) = Inr r
     \<and> rc_session r = address session \<and> rc_recipient r = address er_source
     \<and> (if rc_balance r = sr_balance args \<and> sr_withdrawn args \<le> rc_withdrawn r then s' = s
        else unat (rc_withdrawn r) + unat (sr_payout_lamports args) = unat (sr_withdrawn args)
          \<and> (\<exists>t rb bs. pay_receipt E args (address receipt) (address l1) s = Inr t
            \<and> parse_deposit_receipt E rb = Inr (r\<lparr>rc_balance := sr_balance args, rc_withdrawn := sr_withdrawn args\<rparr>)
            \<and> parse_session E bs = Inr (x\<lparr>s_settlement_accumulator := accumulate_receipt_checksum (hashv E)
                (s_settlement_accumulator x) (address er_source) (address l1) (sr_balance args) (sr_withdrawn args)
                (sr_payout_lamports args)\<rparr>)
            \<and> accts s' = accts (set_dat (address session) bs (set_dat (address receipt) rb t))))"
proof -
  let ?k = "address session" and ?r = "address receipt"
  obtain x r where x: "?k = fst (find_session_pda E program)" "own s ?k = program" "parse_session E (dat s ?k) = Inr x"
      "s_settlement_status x = InProgress" "s_settlement_er_slot x = sr_er_slot args"
      "s_settlement_checksum x = sr_checksum args" "is_signer validator" "address validator = s_validator x"
      "address l1 = sr_l1_recipient args"
    and r: "own s ?r = program" "parse_deposit_receipt E (dat s ?r) = Inr r" "rc_session r = ?k"
      "rc_recipient r = address er_source"
    and fin: "settle_receipt E args x r ?k ?r (address er_source) (address l1) s = Inr s'"
    using assms [unfolded process_settle_deposit_receipt_def Let_def de_Morgan_disj not_not, simplified ok_simps settlement_checks, simplified]
    by (elim exE conjE) (rule that, (simp; fail)+)
  have ne: "?r \<noteq> ?k" using parse_session_length [OF x(3)] parse_receipt_length [OF r(2)] by auto
  show ?thesis
  proof (cases "rc_balance r = sr_balance args \<and> sr_withdrawn args \<le> rc_withdrawn r")
    case True
    then have eq: "s' = s" using fin by (simp add: settle_receipt_def)
    show ?thesis
      by (intro exI [of _ x] exI [of _ r], simp only: if_P [OF True], intro conjI) (rule x r ne eq)+
  next
    case False
    then obtain t rb u where t: "checked_sub (sr_withdrawn args) (rc_withdrawn r) = Some (sr_payout_lamports args)"
        "pay_receipt E args ?r (address l1) s = Inr t"
        "write_deposit_receipt E (dat t ?r) (r\<lparr>rc_balance := sr_balance args, rc_withdrawn := sr_withdrawn args\<rparr>) = Inr rb"
        "store_session E ?k
                 (x\<lparr>s_settlement_accumulator := accumulate_receipt_checksum (hashv E) (s_settlement_accumulator x)
                    (address er_source) (address l1) (sr_balance args) (sr_withdrawn args) (sr_payout_lamports args)\<rparr>)
                 (set_dat ?r rb t) = Inr u" "accts s' = accts u"
      using fin unfolding settle_receipt_def by (auto simp: ok_simps emit_transfer_event_def split: if_splits)
    have dt: "dat t k = dat s k" for k using pay_receipt_ok [OF t(2)] by (auto split: if_splits)
    have rb: "parse_deposit_receipt E rb = Inr (r\<lparr>rc_balance := sr_balance args, rc_withdrawn := sr_withdrawn args\<rparr>)"
      using rcp.parse_put [OF r(2) t(3) [unfolded dt]] rcp.parse_valid [OF r(2)] by simp
    have "parse_session E (dat (set_dat ?r rb t) ?k) = Inr x" using ne dt x(3) by simp
    from apply_lamports_fold [OF this t(4)] obtain bs where
      bs: "u = set_dat ?k bs (set_dat ?r rb t)" "parse_session E bs =
        Inr (x\<lparr>s_settlement_accumulator := accumulate_receipt_checksum (hashv E) (s_settlement_accumulator x)
           (address er_source) (address l1) (sr_balance args) (sr_withdrawn args) (sr_payout_lamports args)\<rparr>)"
      by blast
    have w: "unat (rc_withdrawn r) + unat (sr_payout_lamports args) = unat (sr_withdrawn args)"
      using t(1) by (simp add: checked_sub_Some_iff)
    have ac: "accts s' = accts (set_dat ?k bs (set_dat ?r rb t))" using t(5) bs(1) by simp
    show ?thesis
      by (rule exI [of _ x], rule exI [of _ r], simp only: if_not_P [OF False], intro conjI exI)
        (rule x r ne w t(2) rb bs(2) ac)+
  qed
qed

lemma finish_effect:
  assumes "process_finish_settlement E program (validator # session # checkpoint # cursor # rest) args s = Inr s'"
  shows "\<exists>x c cur bs. address session = fst (find_session_pda E program) \<and> own s (address session) = program
     \<and> parse_session E (dat s (address session)) = Inr x \<and> s_settlement_status x = InProgress
     \<and> s_settlement_er_slot x = fs_er_slot args \<and> s_settlement_checksum x = fs_checksum args
     \<and> s_settlement_accumulator x = fs_checksum args
     \<and> is_signer validator \<and> address validator = s_validator x
     \<and> try_from_slice (checkpoint_codec E) (dat s (address checkpoint)) = Some c
     \<and> cp_status c = Committed \<and> cp_er_slot c = fs_er_slot args \<and> cp_session c = address session
     \<and> try_from_slice (cursor_codec E) (dat s (address cursor)) = Some cur
     \<and> cc_active_checkpoint cur = address checkpoint \<and> cc_active_er_slot cur = fs_er_slot args
     \<and> distinct [address session, address checkpoint, address cursor]
     \<and> parse_session E bs = Inr (clear_settlement x\<lparr>s_last_settled_l1_slot := clock_slot E,
          s_last_settled_er_slot := fs_er_slot args\<rparr>)
     \<and> s' = set_dat (address session) bs
          (set_dat (address cursor) (ser (cursor_codec E) (clear_active_checkpoint cur))
          (set_dat (address checkpoint) (ser (checkpoint_codec E) (c\<lparr>cp_status := Settled\<rparr>)) s))"
proof -
  let ?k = "address session" and ?c = "address checkpoint" and ?u = "address cursor"
  obtain x c cur t where x: "?k = fst (find_session_pda E program)" "own s ?k = program"
      "parse_session E (dat s ?k) = Inr x" "s_settlement_status x = InProgress"
      "is_signer validator" "address validator = s_validator x"
    and eqs: "fs_er_slot args = s_settlement_er_slot x" "fs_checksum args = s_settlement_checksum x"
      "s_settlement_checksum x = s_settlement_accumulator x"
    and c: "try_from_slice (checkpoint_codec E) (dat s ?c) = Some c"
      "cp_status c = Committed" "cp_er_slot c = fs_er_slot args" "cp_session c = ?k"
    and cur: "try_from_slice (cursor_codec E) (dat s ?u) = Some cur"
       "cc_active_checkpoint cur = ?c" "cc_active_er_slot cur = fs_er_slot args"
    and fin: "settle_checkpoint E ?c c ?u cur s = Inr t"
         "store_session E ?k (clear_settlement x\<lparr>s_last_settled_l1_slot := clock_slot E,
            s_last_settled_er_slot := fs_er_slot args\<rparr>) t = Inr s'"
    using assms [unfolded process_finish_settlement_def Let_def de_Morgan_disj not_not, simplified ok_simps settlement_checks, simplified]
    by (elim exE conjE) (rule that, assumption+)
  have eqs': "s_settlement_er_slot x = fs_er_slot args" "s_settlement_checksum x = fs_checksum args"
      "s_settlement_accumulator x = fs_checksum args" using eqs by auto
  have d: "distinct [?k, ?c, ?u]"
    using parse_session_length [OF x(3)] checkpoint_c.try_from_sliceD(3) [OF c(1)] cursor_c.try_from_sliceD(3) [OF cur(1)]
    by auto
  let ?t = "set_dat ?u (ser (cursor_codec E) (clear_active_checkpoint cur))
          (set_dat ?c (ser (checkpoint_codec E) (c\<lparr>cp_status := Settled\<rparr>)) s)"
  have "store (checkpoint_codec E) (c\<lparr>cp_status := Settled\<rparr>) Panicked ?c s =
      Inr (set_dat ?c (ser (checkpoint_codec E) (c\<lparr>cp_status := Settled\<rparr>)) s)"
    by (rule checkpoint_c.store_over [OF c(1)]) simp
  moreover have "store (cursor_codec E) (clear_active_checkpoint cur) Panicked ?u
      (set_dat ?c (ser (checkpoint_codec E) (c\<lparr>cp_status := Settled\<rparr>)) s) = Inr ?t"
    by (rule cursor_c.store_over) (use cur d in auto)
  ultimately have "store_session E ?k (clear_settlement x\<lparr>s_last_settled_l1_slot := clock_slot E,
            s_last_settled_er_slot := fs_er_slot args\<rparr>) ?t = Inr s'" using fin by (auto simp: settle_checkpoint_def)
  from store_session_run [OF this, of x] obtain bs where "s' = set_dat ?k bs ?t"
      "parse_session E bs = Inr (clear_settlement x\<lparr>s_last_settled_l1_slot := clock_slot E,
          s_last_settled_er_slot := fs_er_slot args\<rparr>)"
    using x(3) d ses.parse_valid [OF x(3)] by auto
  then show ?thesis using x eqs' c cur d by (intro exI conjI) assumption+
qed

lemma abort_effect:
  assumes "process_abort_settlement E program (caller # session # rest) s = Inr s'"
  shows "\<exists>x bs. address session = fst (find_session_pda E program) \<and> own s (address session) = program
     \<and> parse_session E (dat s (address session)) = Inr x \<and> s_settlement_status x = InProgress
     \<and> is_signer caller
     \<and> (address caller = s_validator x \<or> address caller = s_authority x
        \<and> clock_slot E > saturating_add (s_settlement_started_l1_slot x) (s_settlement_interval_slots x))
     \<and> s_settlement_accumulator x = initial_settlement_checksum (hashv E) (s_settlement_er_slot x)
     \<and> s' = set_dat (address session) bs s \<and> parse_session E bs = Inr (clear_settlement x)"
proof -
  let ?k = "address session"
  obtain x where x: "?k = fst (find_session_pda E program)" "own s ?k = program" "parse_session E (dat s ?k) = Inr x"
      "s_settlement_status x = InProgress" "is_signer caller"
      "address caller = s_validator x \<or> address caller = s_authority x
        \<and> clock_slot E > saturating_add (s_settlement_started_l1_slot x) (s_settlement_interval_slots x)"
      "s_settlement_accumulator x = initial_settlement_checksum (hashv E) (s_settlement_er_slot x)"
    and fin: "store_session E ?k (clear_settlement x) s = Inr s'"
    using assms [unfolded process_abort_settlement_def Let_def, simplified ok_simps settlement_checks, simplified]
    by (elim exE conjE) (rule that, assumption+)
  obtain bs where "s' = set_dat ?k bs s" "parse_session E bs = Inr (clear_settlement x)"
    using store_session_run [OF fin x(3)] ses.parse_valid [OF x(3)] by auto
  with x show ?thesis by (intro exI conjI) assumption+
qed

end

end
