(* ===== verification/Portal_Token.thy ===== *)
theory Portal_Token
  imports Portal_Settlement
begin

text \<open>
  Token bridges of a session: \<open>register_session_bridge.rs\<close> and \<open>accumulate_token_withdrawal.rs\<close>, for
  the build without \<open>checkpoint-continuity-v2\<close>.  The Portal registers one vault per session and
  mint; during a settlement a token withdrawal is hashed into the session's accumulator together
  with an authorization account, and after the checkpoint is settled the bridge consumes that
  authorization, once.
\<close>

subsection \<open>Registering a bridge\<close>

record register_session_bridge =
  rb_mint :: pubkey
  rb_bridge_program :: pubkey
  rb_vault :: pubkey
  rb_token_program :: pubkey

definition TOKEN_VAULT_SEED_PREFIX :: bytes where
  "TOKEN_VAULT_SEED_PREFIX = ascii ''token_vault''"

definition registered_bridge ::
  "portal_env \<Rightarrow> pubkey \<Rightarrow> pubkey \<Rightarrow> register_session_bridge \<Rightarrow> session_bridge" where
  "registered_bridge E program session args =
     \<lparr>sb_discriminator = session_bridge_DISCRIMINATOR, sb_session = session, sb_mint = rb_mint args,
      sb_bridge_program = rb_bridge_program args, sb_vault = rb_vault args,
      sb_token_program = rb_token_program args,
      sb_bump = snd (find_session_bridge_pda E program session (rb_mint args))\<rparr>"

text \<open>The account is created, or an existing one is compared: \<open>None\<close> when nothing is left to write.\<close>

definition claim_bridge ::
  "portal_env \<Rightarrow> pubkey \<Rightarrow> account_info list \<Rightarrow> pubkey \<Rightarrow> pubkey \<Rightarrow> session_bridge \<Rightarrow> st \<Rightarrow> st option res" where
  "claim_bridge E program accs payer bridge new_bridge s =
     (if dat s bridge = [] then
        let size = account_size (session_bridge_codec E) new_bridge
        in rbind (rent_minimum E size) (\<lambda>amount.
           rbind (initialize_pda_account E program accs payer bridge amount (of_nat size) program
                   [ascii ''session_bridge'', key_bytes (sb_session new_bridge), key_bytes (sb_mint new_bridge),
                    [sb_bump new_bridge]] s) (\<lambda>s. Inr (Some s)))
      else if own s bridge \<noteq> program then Inl (Portal InvalidAccountData)
      else rbind (load (session_bridge_codec E) InvalidAccountData s bridge) (\<lambda>existing.
      if session_bridge_is_valid existing \<and> existing = new_bridge then Inr None
      else if session_bridge_is_valid existing then Inl (Portal InvalidAccountData)
      else Inr (Some s)))"

definition process_register_session_bridge ::
  "portal_env \<Rightarrow> pubkey \<Rightarrow> account_info list \<Rightarrow> register_session_bridge \<Rightarrow> st \<Rightarrow> st res" where
  "process_register_session_bridge E program accs args s =
     (if length accs < 7 then Inl NotEnoughAccountKeys else
      let payer = accs ! 0; session = address (accs ! 1); bridge = address (accs ! 2);
          mint_account = address (accs ! 3); bridge_program_account = address (accs ! 4);
          token_program_account = address (accs ! 5); system_program = address (accs ! 6)
      in if \<not> is_signer payer then Inl (Portal Unauthorized)
      else if system_program \<noteq> system_id E then Inl IncorrectProgramId
      else if session \<noteq> fst (find_session_pda E program) then Inl (Portal InvalidPdaSeeds)
      else if own s session \<noteq> program then Inl (Portal SessionAccountOwnerMismatch)
      else rbind (load (session_codec E) SessionDeserializeFailed s session) (\<lambda>x.
      if \<not> session_is_valid x then Inl (Portal SessionStateInvalid)
      else if bridge \<noteq> fst (find_session_bridge_pda E program session (rb_mint args))
      then Inl (Portal InvalidPdaSeeds)
      else if mint_account \<noteq> rb_mint args \<or> bridge_program_account \<noteq> rb_bridge_program args
              \<or> token_program_account \<noteq> rb_token_program args
      then Inl (Portal InvalidAccountData)
      else if rb_token_program args \<noteq> token_id E \<or> \<not> exe s token_program_account
              \<or> \<not> exe s bridge_program_account
      then Inl IncorrectProgramId
      else rbind (mint_initialized E mint_account (accts s mint_account)) (\<lambda>initialized.
      if \<not> initialized then Inl (Portal InvalidAccountData)
      else if rb_vault args \<noteq> fst (find_program_address E [TOKEN_VAULT_SEED_PREFIX, key_bytes bridge]
                (rb_bridge_program args))
      then Inl (Portal InvalidPdaSeeds)
      else rbind (claim_bridge E program accs (address payer) bridge (registered_bridge E program session args) s) (\<lambda>claimed.
      case claimed of
        None \<Rightarrow> Inr s
      | Some s \<Rightarrow> store (session_bridge_codec E) (registered_bridge E program session args) Panicked bridge s))))"

subsection \<open>Authorizing a withdrawal\<close>

record token_withdrawal_args =
  ta_er_slot :: u64
  ta_checksum :: hash32
  ta_amount :: u64
  ta_withdrawn :: u64
  ta_decimals :: u8

definition load_bridge ::
  "portal_env \<Rightarrow> pubkey \<Rightarrow> pubkey \<Rightarrow> pubkey \<Rightarrow> pubkey \<Rightarrow> pubkey \<Rightarrow> pubkey \<Rightarrow> st \<Rightarrow> session_bridge res" where
  "load_bridge E program session bridge vault mint token_program s =
     (if own s bridge \<noteq> program then Inl (Portal InvalidAccountData)
      else rbind (load (session_bridge_codec E) InvalidAccountData s bridge) (\<lambda>b.
      if \<not> session_bridge_is_valid b
         \<or> sb_session b \<noteq> session
         \<or> bridge \<noteq> fst (find_session_bridge_pda E program session (sb_mint b))
         \<or> sb_bridge_program b \<noteq> own s vault
         \<or> sb_vault b \<noteq> vault
         \<or> sb_mint b \<noteq> mint
         \<or> sb_token_program b \<noteq> token_program
      then Inl (Portal InvalidAccountData)
      else Inr b))"

definition token_withdrawal_tuple_hash :: "hasher \<Rightarrow> token_withdrawal_checksum \<Rightarrow> hash32" where
  "token_withdrawal_tuple_hash hash w =
     hash [ascii ''northstar-token-withdrawal-authorization-v0'', key_bytes (twc_bridge_program w),
       key_bytes (twc_session_bridge w), key_bytes (twc_er_token_account w), key_bytes (twc_vault w),
       key_bytes (twc_vault_token_account w), key_bytes (twc_destination_token_account w),
       key_bytes (twc_mint w), key_bytes (twc_token_program w), u64_le (twc_amount w),
       u64_le (twc_withdrawn w), [twc_decimals w]]"

definition withdrawal_tuple ::
  "token_withdrawal_args \<Rightarrow> session_bridge \<Rightarrow> pubkey \<Rightarrow> pubkey \<Rightarrow> pubkey \<Rightarrow> pubkey \<Rightarrow> pubkey \<Rightarrow> pubkey \<Rightarrow> pubkey
    \<Rightarrow> token_withdrawal_checksum" where
  "withdrawal_tuple args b bridge er_token_account vault vault_token_account destination mint token_program =
     \<lparr>twc_bridge_program = sb_bridge_program b, twc_session_bridge = bridge, twc_er_token_account = er_token_account,
      twc_vault = vault, twc_vault_token_account = vault_token_account,
      twc_destination_token_account = destination, twc_mint = mint, twc_token_program = token_program,
      twc_amount = ta_amount args, twc_withdrawn = ta_withdrawn args, twc_decimals = ta_decimals args\<rparr>"

definition authorization_state :: "portal_env \<Rightarrow> pubkey \<Rightarrow> token_withdrawal_checksum \<Rightarrow> u8 \<Rightarrow> token_withdrawal_authorization" where
  "authorization_state E checkpoint w bump =
     \<lparr>tw_discriminator = token_withdrawal_authorization_DISCRIMINATOR, tw_checkpoint = checkpoint,
      tw_tuple_hash = token_withdrawal_tuple_hash (hashv E) w, tw_consumed = False, tw_bump = bump\<rparr>"

text \<open>Creates the authorization; \<open>None\<close> when the same one exists already.\<close>

definition claim_authorization ::
  "portal_env \<Rightarrow> pubkey \<Rightarrow> account_info list \<Rightarrow> pubkey \<Rightarrow> pubkey \<Rightarrow> token_withdrawal_checksum
    \<Rightarrow> token_withdrawal_authorization \<Rightarrow> st \<Rightarrow> st option res" where
  "claim_authorization E program accs payer authorization w new_authorization s =
     (if dat s authorization = [] then
        let size = account_size (token_withdrawal_authorization_codec E) new_authorization
        in rbind (rent_minimum E size) (\<lambda>amount.
           rbind (initialize_pda_account E program accs payer authorization amount (of_nat size) program
                   [ascii ''token_withdrawal_auth'', key_bytes (tw_checkpoint new_authorization),
                    key_bytes (twc_vault w), u64_le (twc_withdrawn w), [tw_bump new_authorization]] s) (\<lambda>s.
           rbind (store (token_withdrawal_authorization_codec E) new_authorization Panicked authorization s) (\<lambda>s.
           Inr (Some s))))
      else if own s authorization \<noteq> program then Inl (Portal InvalidAccountData)
      else rbind (load (token_withdrawal_authorization_codec E) InvalidAccountData s authorization) (\<lambda>existing.
      if existing \<noteq> new_authorization then Inl (Portal InvalidAccountData) else Inr None))"

definition process_accumulate_token_withdrawal ::
  "portal_env \<Rightarrow> pubkey \<Rightarrow> account_info list \<Rightarrow> token_withdrawal_args \<Rightarrow> st \<Rightarrow> st res" where
  "process_accumulate_token_withdrawal E program accs args s =
     (if length accs < 11 then Inl NotEnoughAccountKeys else
      let validator = accs ! 0; session = address (accs ! 1); bridge = address (accs ! 2); vault = address (accs ! 3);
          er_token_account = address (accs ! 4); vault_token_account = address (accs ! 5);
          destination = address (accs ! 6); mint = address (accs ! 7); token_program = address (accs ! 8);
          authorization = address (accs ! 9)
      in if session \<noteq> fst (find_session_pda E program) then Inl (Portal InvalidPdaSeeds)
      else rbind (load (session_codec E) SessionDeserializeFailed s session) (\<lambda>x.
      if \<not> session_is_valid x \<or> own s session \<noteq> program then Inl (Portal SessionStateInvalid)
      else rbind (require_validator validator x) (\<lambda>_.
      rbind (require_active_settlement x (ta_er_slot args) (ta_checksum args)) (\<lambda>_.
      rbind (load_bridge E program session bridge vault mint token_program s) (\<lambda>b.
      let checkpoint = fst (find_checkpoint_pda E program session (ta_er_slot args));
          pda = find_token_withdrawal_authorization_pda E program checkpoint vault (ta_withdrawn args);
          w = withdrawal_tuple args b bridge er_token_account vault vault_token_account destination mint token_program
      in if authorization \<noteq> fst pda then Inl (Portal InvalidPdaSeeds)
      else rbind (claim_authorization E program accs (address validator) authorization w
                   (authorization_state E checkpoint w (snd pda)) s) (\<lambda>claimed.
      case claimed of
        None \<Rightarrow> Inr s
      | Some s \<Rightarrow> store (session_codec E)
          (x\<lparr>s_settlement_accumulator := accumulate_token_withdrawal_checksum (hashv E) (s_settlement_accumulator x) w\<rparr>)
          Panicked session s))))))"

subsection \<open>Consuming an authorization\<close>

definition process_consume_token_withdrawal ::
  "portal_env \<Rightarrow> pubkey \<Rightarrow> account_info list \<Rightarrow> token_withdrawal_args \<Rightarrow> st \<Rightarrow> st res" where
  "process_consume_token_withdrawal E program accs args s =
     (if length accs < 11 then Inl NotEnoughAccountKeys else
      let validator = accs ! 0; session = address (accs ! 1); checkpoint = address (accs ! 2);
          authorization = address (accs ! 3); bridge = address (accs ! 4); vault = accs ! 5;
          er_token_account = address (accs ! 6); vault_token_account = address (accs ! 7);
          destination = address (accs ! 8); mint = address (accs ! 9); token_program = address (accs ! 10)
      in if session \<noteq> fst (find_session_pda E program) \<or> own s session \<noteq> program then Inl (Portal InvalidPdaSeeds)
      else rbind (load (session_codec E) SessionDeserializeFailed s session) (\<lambda>x.
      if \<not> session_is_valid x \<or> \<not> is_signer validator \<or> address validator \<noteq> s_validator x
      then Inl (Portal Unauthorized)
      else if checkpoint \<noteq> fst (find_checkpoint_pda E program session (ta_er_slot args)) \<or> own s checkpoint \<noteq> program
      then Inl (Portal InvalidPdaSeeds)
      else rbind (load (checkpoint_codec E) InvalidAccountData s checkpoint) (\<lambda>c.
      if \<not> checkpoint_is_valid c \<or> cp_session c \<noteq> session \<or> cp_er_slot c \<noteq> ta_er_slot args
         \<or> cp_effect_commitment c \<noteq> ta_checksum args \<or> cp_status c \<noteq> Settled
      then Inl (Portal InvalidAccountData)
      else rbind (load_bridge E program session bridge (address vault) mint token_program s) (\<lambda>b.
      if \<not> is_signer vault then Inl (Portal Unauthorized)
      else
      let pda = find_token_withdrawal_authorization_pda E program checkpoint (address vault) (ta_withdrawn args);
          w = withdrawal_tuple args b bridge er_token_account (address vault) vault_token_account destination mint token_program
      in if authorization \<noteq> fst pda \<or> own s authorization \<noteq> program then Inl (Portal InvalidPdaSeeds)
      else rbind (load (token_withdrawal_authorization_codec E) InvalidAccountData s authorization) (\<lambda>a.
      if \<not> token_withdrawal_authorization_is_valid a
         \<or> tw_checkpoint a \<noteq> checkpoint
         \<or> tw_tuple_hash a \<noteq> token_withdrawal_tuple_hash (hashv E) w
         \<or> tw_bump a \<noteq> snd pda
         \<or> tw_consumed a
      then Inl (Portal InvalidAccountData)
      else store (token_withdrawal_authorization_codec E) (a\<lparr>tw_consumed := True\<rparr>) Panicked authorization s)))))"

subsection \<open>Effects of the token instructions\<close>

lemma registered_bridge_valid [simp]: "session_bridge_is_valid (registered_bridge E program session args)"
  by (simp add: registered_bridge_def session_bridge_is_valid_def)

lemma registered_bridge_sel [simp]:
  "sb_session (registered_bridge E program session args) = session"
  "sb_mint (registered_bridge E program session args) = rb_mint args"
  "sb_vault (registered_bridge E program session args) = rb_vault args"
  by (simp_all add: registered_bridge_def)

context portal_codecs
begin

lemma claim_bridge_store:
  assumes "claim_bridge E program accs payer k b s = Inr claimed"
  shows "case claimed of None \<Rightarrow> try_from_slice (session_bridge_codec E) (dat s k) = Some b
     | Some t \<Rightarrow> store (session_bridge_codec E) b Panicked k t = Inr s' \<longrightarrow>
         created_at program k (ser (session_bridge_codec E) b) s s'
         \<or> (\<exists>old. try_from_slice (session_bridge_codec E) (dat s k) = Some old \<and> \<not> session_bridge_is_valid old
              \<and> s' = set_dat k (ser (session_bridge_codec E) b) s)"
proof (cases "dat s k = []")
  case True
  then obtain t amount seeds where t: "claimed = Some t"
      "initialize_pda_account E program accs payer k amount (of_nat (account_size (session_bridge_codec E) b))
         program seeds s = Inr t"
    using assms by (auto simp: claim_bridge_def Let_def ok_simps)
  then show ?thesis using session_bridge_c.create_store [OF t(2)] by auto
next
  case False
  then obtain old where old: "try_from_slice (session_bridge_codec E) (dat s k) = Some old"
      "if session_bridge_is_valid old then old = b \<and> claimed = None else claimed = Some s"
    using assms by (auto simp: claim_bridge_def ok_simps split: if_splits)
  then show ?thesis using session_bridge_c.store_over [OF old(1)] by (auto split: if_splits)
qed

lemma register_bridge_effect:
  assumes "process_register_session_bridge E program
     (payer # session # bridge # mint # bridge_program # token_program # sys # rest) args s = Inr s'"
  defines "b \<equiv> registered_bridge E program (address session) args"
  shows "is_signer payer \<and> address session = fst (find_session_pda E program)
     \<and> address bridge = fst (find_session_bridge_pda E program (address session) (rb_mint args))
     \<and> rb_token_program args = token_id E \<and> exe s (rb_bridge_program args)
     \<and> rb_vault args = fst (find_program_address E [TOKEN_VAULT_SEED_PREFIX, key_bytes (address bridge)] (rb_bridge_program args))
     \<and> (s' = s \<and> try_from_slice (session_bridge_codec E) (dat s (address bridge)) = Some b
        \<or> created_at program (address bridge) (ser (session_bridge_codec E) b) s s'
        \<or> (\<exists>old. try_from_slice (session_bridge_codec E) (dat s (address bridge)) = Some old \<and> \<not> session_bridge_is_valid old
              \<and> s' = set_dat (address bridge) (ser (session_bridge_codec E) b) s))"
proof -
  let ?k = "address bridge"
  obtain claimed where g: "is_signer payer" "address session = fst (find_session_pda E program)"
      "?k = fst (find_session_bridge_pda E program (address session) (rb_mint args))"
      "rb_token_program args = token_id E" "exe s (address bridge_program)" "address bridge_program = rb_bridge_program args"
      "rb_vault args = fst (find_program_address E [TOKEN_VAULT_SEED_PREFIX, key_bytes ?k] (rb_bridge_program args))"
    and c: "claim_bridge E program (payer # session # bridge # mint # bridge_program # token_program # sys # rest)
        (address payer) ?k b s = Inr claimed"
      "(case claimed of None \<Rightarrow> Inr s | Some t \<Rightarrow> store (session_bridge_codec E) b Panicked ?k t) = Inr s'"
    using assms(1) [unfolded process_register_session_bridge_def Let_def de_Morgan_disj not_not, simplified ok_simps,
        simplified, folded b_def]
    by (elim exE conjE) (rule that, (assumption | (simp; fail))+, simp add: b_def cong: option.case_cong)
  show ?thesis
    using g claim_bridge_store [OF c(1), of s'] c(2) by (cases claimed) auto
qed

end

context portal_codecs
begin

lemma load_bridge_ok [ok_simps]:
  "load_bridge E program session bridge vault mint token_program s = Inr b \<longleftrightarrow>
     own s bridge = program \<and> try_from_slice (session_bridge_codec E) (dat s bridge) = Some b
     \<and> session_bridge_is_valid b \<and> sb_session b = session
     \<and> bridge = fst (find_session_bridge_pda E program session (sb_mint b))
     \<and> sb_bridge_program b = own s vault \<and> sb_vault b = vault \<and> sb_mint b = mint \<and> sb_token_program b = token_program"
  by (auto simp: load_bridge_def ok_simps)

lemma claim_authorization_ok:
  assumes "claim_authorization E program accs payer k w a s = Inr claimed"
  shows "case claimed of None \<Rightarrow> try_from_slice (token_withdrawal_authorization_codec E) (dat s k) = Some a
     | Some t \<Rightarrow> created_at program k (ser (token_withdrawal_authorization_codec E) a) s t"
proof (cases "dat s k = []")
  case True
  then obtain t u amount seeds where t: "claimed = Some t"
      "initialize_pda_account E program accs payer k amount (of_nat (account_size (token_withdrawal_authorization_codec E) a))
         program seeds s = Inr u" "store (token_withdrawal_authorization_codec E) a Panicked k u = Inr t"
    using assms unfolding claim_authorization_def Let_def by (auto simp: ok_simps)
  then show ?thesis using token_auth_c.create_store [OF t(2,3)] by auto
next
  case False
  then show ?thesis using assms by (auto simp: claim_authorization_def ok_simps split: if_splits)
qed

lemma accumulate_effect:
  assumes "process_accumulate_token_withdrawal E program (validator # session # bridge # vault # er_token # vault_token
     # destination # mint # token_program # authorization # sys # rest) args s = Inr s'"
  shows "\<exists>x b. address session = fst (find_session_pda E program) \<and> own s (address session) = program
     \<and> try_from_slice (session_codec E) (dat s (address session)) = Some x \<and> session_is_valid x
     \<and> s_settlement_status x = InProgress
     \<and> s_settlement_er_slot x = ta_er_slot args \<and> s_settlement_checksum x = ta_checksum args
     \<and> is_signer validator \<and> address validator = s_validator x
     \<and> load_bridge E program (address session) (address bridge) (address vault) (address mint) (address token_program) s = Inr b
     \<and> (let checkpoint = fst (find_checkpoint_pda E program (address session) (ta_er_slot args));
            pda = find_token_withdrawal_authorization_pda E program checkpoint (address vault) (ta_withdrawn args);
            w = withdrawal_tuple args b (address bridge) (address er_token) (address vault) (address vault_token)
              (address destination) (address mint) (address token_program);
            a = authorization_state E checkpoint w (snd pda)
        in address authorization = fst pda
         \<and> (s' = s \<and> try_from_slice (token_withdrawal_authorization_codec E) (dat s (address authorization)) = Some a
            \<or> (\<exists>t. created_at program (address authorization) (ser (token_withdrawal_authorization_codec E) a) s t
              \<and> s' = set_dat (address session) (ser (session_codec E) (x\<lparr>s_settlement_accumulator :=
                  accumulate_token_withdrawal_checksum (hashv E) (s_settlement_accumulator x) w\<rparr>)) t)))"
proof -
  let ?k = "address session" and ?a = "address authorization"
  let ?accs = "validator # session # bridge # vault # er_token # vault_token # destination # mint # token_program
     # authorization # sys # rest"
  let ?cp = "fst (find_checkpoint_pda E program ?k (ta_er_slot args))"
  let ?pda = "find_token_withdrawal_authorization_pda E program ?cp (address vault) (ta_withdrawn args)"
  let ?w = "\<lambda>b. withdrawal_tuple args b (address bridge) (address er_token) (address vault) (address vault_token)
              (address destination) (address mint) (address token_program)"
  obtain x b claimed where x: "?k = fst (find_session_pda E program)" "own s ?k = program"
      "try_from_slice (session_codec E) (dat s ?k) = Some x" "session_is_valid x" "s_settlement_status x = InProgress"
      "s_settlement_er_slot x = ta_er_slot args" "s_settlement_checksum x = ta_checksum args"
      "is_signer validator" "address validator = s_validator x"
    and b: "load_bridge E program ?k (address bridge) (address vault) (address mint) (address token_program) s = Inr b"
    and a: "?a = fst ?pda"
      "claim_authorization E program ?accs (address validator) ?a (?w b) (authorization_state E ?cp (?w b) (snd ?pda)) s = Inr claimed"
      "(case claimed of None \<Rightarrow> Inr s | Some t \<Rightarrow> store (session_codec E) (x\<lparr>s_settlement_accumulator :=
          accumulate_token_withdrawal_checksum (hashv E) (s_settlement_accumulator x) (?w b)\<rparr>) Panicked ?k t) = Inr s'"
    using assms [unfolded process_accumulate_token_withdrawal_def Let_def de_Morgan_disj not_not,
        simplified rbind_ok guard_ok load_ok require_validator_ok require_active_settlement_ok, simplified]
    by (elim exE conjE) (rule that, (assumption | (simp; fail))+, simp cong: option.case_cong)
  show ?thesis
  proof (cases claimed)
    case None
    then have "s' = s" "try_from_slice (token_withdrawal_authorization_codec E) (dat s ?a)
        = Some (authorization_state E ?cp (?w b) (snd ?pda))"
      using a(3) claim_authorization_ok [OF a(2)] by auto
    then show ?thesis using x b a(1) unfolding Let_def by (intro exI conjI) (assumption | rule disjI1 conjI)+
  next
    case (Some t)
    then have t: "created_at program ?a (ser (token_withdrawal_authorization_codec E) (authorization_state E ?cp (?w b) (snd ?pda))) s t"
      using claim_authorization_ok [OF a(2)] by simp
    have "?a \<noteq> ?k" using created_atD(1) [OF t] session_c.try_from_sliceD(3) [OF x(3)] by auto
    then have "try_from_slice (session_codec E) (dat t ?k) = Some x" using x(3) created_atD(2) [OF t] by simp
    then have "s' = set_dat ?k (ser (session_codec E) (x\<lparr>s_settlement_accumulator :=
          accumulate_token_withdrawal_checksum (hashv E) (s_settlement_accumulator x) (?w b)\<rparr>)) t"
      using a(3) Some session_c.store_over by simp
    then show ?thesis using x b a(1) t unfolding Let_def by (intro exI conjI) (assumption | rule disjI2 exI conjI)+
  qed
qed

lemma consume_effect:
  assumes "process_consume_token_withdrawal E program (validator # session # checkpoint # authorization # bridge # vault
     # er_token # vault_token # destination # mint # token_program # rest) args s = Inr s'"
  shows "\<exists>x c b a. try_from_slice (session_codec E) (dat s (address session)) = Some x
     \<and> is_signer validator \<and> address validator = s_validator x \<and> is_signer vault
     \<and> try_from_slice (checkpoint_codec E) (dat s (address checkpoint)) = Some c \<and> cp_status c = Settled
     \<and> cp_session c = address session \<and> cp_er_slot c = ta_er_slot args \<and> cp_effect_commitment c = ta_checksum args
     \<and> load_bridge E program (address session) (address bridge) (address vault) (address mint) (address token_program) s = Inr b
     \<and> address authorization = fst (find_token_withdrawal_authorization_pda E program (address checkpoint)
         (address vault) (ta_withdrawn args))
     \<and> try_from_slice (token_withdrawal_authorization_codec E) (dat s (address authorization)) = Some a
     \<and> \<not> tw_consumed a \<and> tw_checkpoint a = address checkpoint
     \<and> tw_tuple_hash a = token_withdrawal_tuple_hash (hashv E) (withdrawal_tuple args b (address bridge) (address er_token)
          (address vault) (address vault_token) (address destination) (address mint) (address token_program))
     \<and> s' = set_dat (address authorization)
          (ser (token_withdrawal_authorization_codec E) (a\<lparr>tw_consumed := True\<rparr>)) s"
proof -
  let ?w = "\<lambda>b. withdrawal_tuple args b (address bridge) (address er_token) (address vault) (address vault_token)
              (address destination) (address mint) (address token_program)"
  obtain x c b a where *: "try_from_slice (session_codec E) (dat s (address session)) = Some x"
      "is_signer validator" "address validator = s_validator x" "is_signer vault"
      "try_from_slice (checkpoint_codec E) (dat s (address checkpoint)) = Some c" "cp_status c = Settled"
      "cp_session c = address session" "cp_er_slot c = ta_er_slot args" "cp_effect_commitment c = ta_checksum args"
      "load_bridge E program (address session) (address bridge) (address vault) (address mint) (address token_program) s = Inr b"
      "address authorization = fst (find_token_withdrawal_authorization_pda E program (address checkpoint)
         (address vault) (ta_withdrawn args))"
      "try_from_slice (token_withdrawal_authorization_codec E) (dat s (address authorization)) = Some a"
      "\<not> tw_consumed a" "tw_checkpoint a = address checkpoint"
      "tw_tuple_hash a = token_withdrawal_tuple_hash (hashv E) (?w b)"
    and st: "store (token_withdrawal_authorization_codec E) (a\<lparr>tw_consumed := True\<rparr>) Panicked (address authorization) s = Inr s'"
    using assms [unfolded process_consume_token_withdrawal_def Let_def de_Morgan_disj not_not,
        simplified rbind_ok guard_ok load_ok, simplified]
    by (elim exE conjE) (rule that, (assumption | (simp; fail))+)
  have "s' = set_dat (address authorization) (ser (token_withdrawal_authorization_codec E) (a\<lparr>tw_consumed := True\<rparr>)) s"
    using st token_auth_c.store_over [OF *(12)] by simp
  with * show ?thesis by (intro exI conjI) assumption+
qed

end

end
