(* ===== verification/Settlement_Run.thy ===== *)
theory Settlement_Run
  imports Portal_Token
begin

text \<open>
  A settlement as a whole: what the sequence of instructions between \<open>BeginSettlement\<close> and
  \<open>FinishSettlement\<close> amounts to.  The abstract view of a settlement is a list of effects folded into
  a checksum; every settlement instruction extends that list by the effects it carries out, so a
  finished settlement carried out exactly the effects its checksum was declared for.
\<close>

subsection \<open>Effects and their checksum\<close>

datatype effect =
    Data_chunk pubkey u32 bytes
  | Owner_set pubkey pubkey
  | Lamports_set pubkey u64
  | Receipt_set pubkey pubkey u64 u64 u64
  | Token_withdrawal token_withdrawal_checksum

fun acc_effect :: "hasher \<Rightarrow> hash32 \<Rightarrow> effect \<Rightarrow> hash32" where
  "acc_effect hash acc (Data_chunk k offset bs) = accumulate_data_chunk_checksum hash acc k offset bs"
| "acc_effect hash acc (Owner_set k p) = accumulate_owner_checksum hash acc k p"
| "acc_effect hash acc (Lamports_set k v) = accumulate_lamports_checksum hash acc k v"
| "acc_effect hash acc (Receipt_set er_source l1_recipient balance withdrawn payout) =
     accumulate_receipt_checksum hash acc er_source l1_recipient balance withdrawn payout"
| "acc_effect hash acc (Token_withdrawal w) = accumulate_token_withdrawal_checksum hash acc w"

definition settlement_checksum :: "hasher \<Rightarrow> u64 \<Rightarrow> effect list \<Rightarrow> hash32" where
  "settlement_checksum hash er_slot es = foldl (acc_effect hash) (initial_settlement_checksum hash er_slot) es"

text \<open>The inputs hashed for a list of effects: the checksums are hashes of their concatenations.\<close>

fun effect_parts :: "hash32 \<Rightarrow> effect \<Rightarrow> bytes list" where
  "effect_parts acc (Data_chunk k offset bs) =
     [key_bytes acc, ascii ''data'', key_bytes k, u32_le offset, u32_le (of_nat (length bs)), bs]"
| "effect_parts acc (Owner_set k p) = [key_bytes acc, ascii ''owner'', key_bytes k, key_bytes p]"
| "effect_parts acc (Lamports_set k v) = [key_bytes acc, ascii ''lamports'', key_bytes k, u64_le v]"
| "effect_parts acc (Receipt_set er_source l1_recipient balance withdrawn payout) =
     [key_bytes acc, ascii ''receipt'', key_bytes er_source, key_bytes l1_recipient, u64_le balance,
      u64_le withdrawn, u64_le payout]"
| "effect_parts acc (Token_withdrawal w) =
     [key_bytes acc, ascii ''token_withdrawal'', key_bytes (twc_bridge_program w), key_bytes (twc_session_bridge w),
      key_bytes (twc_er_token_account w), key_bytes (twc_vault w), key_bytes (twc_vault_token_account w),
      key_bytes (twc_destination_token_account w), key_bytes (twc_mint w), key_bytes (twc_token_program w),
      u64_le (twc_amount w), u64_le (twc_withdrawn w), [twc_decimals w]]"

fun hashed_from :: "hasher \<Rightarrow> hash32 \<Rightarrow> effect list \<Rightarrow> bytes list list" where
  "hashed_from hash acc [] = []"
| "hashed_from hash acc (e # es) = effect_parts acc e # hashed_from hash (acc_effect hash acc e) es"

definition hashed_inputs :: "hasher \<Rightarrow> u64 \<Rightarrow> effect list \<Rightarrow> bytes list list" where
  "hashed_inputs hash er_slot es = [SETTLEMENT_CHECKSUM_DOMAIN, u64_le er_slot]
     # hashed_from hash (initial_settlement_checksum hash er_slot) es"

lemma acc_effect_hash: "acc_effect hash acc e = hash (effect_parts acc e)"
  by (cases e) (simp_all add: accumulate_data_chunk_checksum_def accumulate_owner_checksum_def
      accumulate_lamports_checksum_def accumulate_receipt_checksum_def accumulate_token_withdrawal_checksum_def)

lemma byte_codes_inject [simp]:
  "(key_bytes a @ xs = key_bytes b @ ys) = (a = b \<and> xs = ys)"
  "(u64_le m @ xs = u64_le n @ ys) = (m = n \<and> xs = ys)"
  "(u32_le i @ xs = u32_le j @ ys) = (i = j \<and> xs = ys)"
  by (auto simp: le_bytes_inject)

lemma ascii_tags [simp]:
  "ascii ''data'' = [100, 97, 116, 97]" "ascii ''owner'' = [111, 119, 110, 101, 114]"
  "ascii ''lamports'' = [108, 97, 109, 112, 111, 114, 116, 115]"
  "ascii ''receipt'' = [114, 101, 99, 101, 105, 112, 116]"
  "ascii ''token_withdrawal'' = [116, 111, 107, 101, 110, 95, 119, 105, 116, 104, 100, 114, 97, 119, 97, 108]"
  by (simp_all add: ascii_def)

lemma effect_parts_inject:
  assumes "concat (effect_parts acc e) = concat (effect_parts acc' e')"
  shows "acc = acc' \<and> e = e'"
proof (cases e)
  case (Data_chunk k off bs)
  then show ?thesis using assms by (cases e') simp_all
next
  case (Owner_set k p)
  then show ?thesis using assms by (cases e') (simp_all add: le_bytes_inject)
next
  case (Lamports_set k p)
  then show ?thesis using assms by (cases e') (simp_all add: le_bytes_inject)
next
  case (Receipt_set a b c d f)
  then show ?thesis using assms by (cases e') (simp_all add: le_bytes_inject)
next
  case (Token_withdrawal w)
  then show ?thesis using assms by (cases e') (simp_all add: le_bytes_inject token_withdrawal_checksum.equality)
qed

lemma effect_parts_length: "32 \<le> length (concat (effect_parts acc e))"
  by (cases e) simp_all

lemma domain_length: "length (concat [SETTLEMENT_CHECKSUM_DOMAIN, u64_le er_slot]) = 31"
  by (simp add: SETTLEMENT_CHECKSUM_DOMAIN_def ascii_def)

lemma hashed_from_snoc:
  "hashed_from hash acc (es @ [e]) = hashed_from hash acc es @ [effect_parts (foldl (acc_effect hash) acc es) e]"
  by (induction es arbitrary: acc) auto

lemma hashed_inputs_snoc:
  "hashed_inputs hash er_slot (es @ [e]) =
     hashed_inputs hash er_slot es @ [effect_parts (settlement_checksum hash er_slot es) e]"
  by (simp add: hashed_inputs_def hashed_from_snoc settlement_checksum_def)

lemma settlement_checksum_snoc:
  "settlement_checksum hash er_slot (es @ [e]) = hash (effect_parts (settlement_checksum hash er_slot es) e)"
  by (simp add: settlement_checksum_def acc_effect_hash)

lemma settlement_checksum_nil: "settlement_checksum hash er_slot [] = hash [SETTLEMENT_CHECKSUM_DOMAIN, u64_le er_slot]"
  by (simp add: settlement_checksum_def initial_settlement_checksum_def)

definition collision_free :: "hasher \<Rightarrow> bytes list list \<Rightarrow> bytes list list \<Rightarrow> bool" where
  "collision_free hash ps qs = list_all (\<lambda>p. list_all (\<lambda>q. hash p = hash q \<longrightarrow> concat p = concat q) qs) ps"

lemma collision_freeD:
  "collision_free hash ps qs \<Longrightarrow> p \<in> set ps \<Longrightarrow> q \<in> set qs \<Longrightarrow> hash p = hash q \<Longrightarrow> concat p = concat q"
  by (simp add: collision_free_def list_all_iff)

lemma collision_free_append:
  "collision_free hash (ps @ ps') (qs @ qs') \<Longrightarrow> collision_free hash ps qs"
  by (auto simp: collision_free_def list_all_iff)

lemma checksum_injective:
  assumes "settlement_checksum hash er_slot es = settlement_checksum hash er_slot' es'"
    and "collision_free hash (hashed_inputs hash er_slot es) (hashed_inputs hash er_slot' es')"
  shows "er_slot = er_slot' \<and> es = es'"
  using assms
proof (induction es arbitrary: es' rule: rev_induct)
  case Nil
  note nil = Nil
  show ?case
  proof (cases es' rule: rev_cases)
    case Nil
    then have "concat [SETTLEMENT_CHECKSUM_DOMAIN, u64_le er_slot] = concat [SETTLEMENT_CHECKSUM_DOMAIN, u64_le er_slot']"
      using nil by (intro collision_freeD [OF nil(2)]) (simp_all add: settlement_checksum_nil hashed_inputs_def)
    then show ?thesis using Nil by (simp add: le_bytes_inject)
  next
    case (snoc ds d)
    then have "concat [SETTLEMENT_CHECKSUM_DOMAIN, u64_le er_slot] =
        concat (effect_parts (settlement_checksum hash er_slot' ds) d)"
      using nil by (intro collision_freeD [OF nil(2)])
        (simp_all add: settlement_checksum_nil settlement_checksum_snoc hashed_inputs_snoc, simp add: hashed_inputs_def)
    then show ?thesis using domain_length [of er_slot] effect_parts_length [of "settlement_checksum hash er_slot' ds" d] by simp
  qed
next
  case (snoc e es)
  note step = snoc
  show ?case
  proof (cases es' rule: rev_cases)
    case Nil
    then have "concat (effect_parts (settlement_checksum hash er_slot es) e) =
        concat [SETTLEMENT_CHECKSUM_DOMAIN, u64_le er_slot']"
      using step by (intro collision_freeD [OF step(3)])
        (simp_all add: settlement_checksum_nil settlement_checksum_snoc hashed_inputs_snoc, simp add: hashed_inputs_def)
    then show ?thesis using domain_length [of er_slot'] effect_parts_length [of "settlement_checksum hash er_slot es" e] by simp
  next
    case (snoc ds d)
    then have "concat (effect_parts (settlement_checksum hash er_slot es) e) =
        concat (effect_parts (settlement_checksum hash er_slot' ds) d)"
      using step by (intro collision_freeD [OF step(3)])
        (simp_all add: settlement_checksum_snoc hashed_inputs_snoc)
    then have "settlement_checksum hash er_slot es = settlement_checksum hash er_slot' ds \<and> e = d"
      by (rule effect_parts_inject)
    moreover have "collision_free hash (hashed_inputs hash er_slot es) (hashed_inputs hash er_slot' ds)"
      using step(3) unfolding snoc hashed_inputs_snoc by (rule collision_free_append)
    ultimately show ?thesis using step(1) [of ds] snoc by simp
  qed
qed



subsection \<open>Settlement instructions as steps\<close>

definition at_slot :: "u64 \<Rightarrow> portal_env \<Rightarrow> portal_env" where
  "at_slot n E = E\<lparr>clock_slot := n\<rparr>"

datatype settlement_ix =
    Write_chunk write_settlement_chunk
  | Settle_owner settle_account_owner
  | Settle_lamports settle_account_lamports "hash32 option"
  | Settle_receipt settle_deposit_receipt
  | Accumulate_withdrawal token_withdrawal_args

fun settle_exec :: "portal_env \<Rightarrow> pubkey \<Rightarrow> account_info list \<Rightarrow> settlement_ix \<Rightarrow> st \<Rightarrow> st res" where
  "settle_exec E program accs (Write_chunk args) s = process_write_settlement_chunk E program accs args s"
| "settle_exec E program accs (Settle_owner args) s = process_settle_account_owner E program accs args s"
| "settle_exec E program accs (Settle_lamports args previous) s =
     process_settle_account_lamports_inner E program accs args previous s"
| "settle_exec E program accs (Settle_receipt args) s = process_settle_deposit_receipt E program accs args s"
| "settle_exec E program accs (Accumulate_withdrawal args) s = process_accumulate_token_withdrawal E program accs args s"

text \<open>The effects an instruction stands for.\<close>

fun settle_effects :: "portal_env \<Rightarrow> account_info list \<Rightarrow> settlement_ix \<Rightarrow> st \<Rightarrow> effect list" where
  "settle_effects E accs (Write_chunk args) s =
     [Data_chunk (address (accs ! 2)) (wc_account_data_offset args) (take (unat (wc_chunk_len args)) (wc_chunk args))]"
| "settle_effects E accs (Settle_owner args) s = [Owner_set (address (accs ! 2)) (so_owner args)]"
| "settle_effects E accs (Settle_lamports args previous) s =
     map (\<lambda>(k, v). Lamports_set k v)
       (zip (map (\<lambda>p. address (fst p)) (pairs_of (take (unat (sl_account_count args) * 2) (drop 2 accs))))
         (take (unat (sl_account_count args)) (sl_lamports args)))"
| "settle_effects E accs (Settle_receipt args) s =
     [Receipt_set (address (accs ! 3)) (address (accs ! 4)) (sr_balance args) (sr_withdrawn args) (sr_payout_lamports args)]"
| "settle_effects E accs (Accumulate_withdrawal args) s =
     (case try_from_slice (session_bridge_codec E) (dat s (address (accs ! 2))) of
        None \<Rightarrow> []
      | Some b \<Rightarrow> [Token_withdrawal (withdrawal_tuple args b (address (accs ! 2)) (address (accs ! 4)) (address (accs ! 3))
          (address (accs ! 5)) (address (accs ! 6)) (address (accs ! 7)) (address (accs ! 8)))])"

text \<open>
  A run between begin and finish: settlement instructions, each at its own slot, interleaved with
  any other change of the ledger that leaves the session account alone (an instruction repeated
  without effect among them).  A chunk is never written to
  the session account itself: it would need a delegation record, which only an account that signed
  a \<open>Delegate\<close> has, and the session address has no key.
\<close>

inductive settle_run :: "portal_env \<Rightarrow> pubkey \<Rightarrow> st \<Rightarrow> effect list \<Rightarrow> st \<Rightarrow> bool"
  for E program s
where
  start: "settle_run E program s [] s"
| applied: "settle_run E program s es t \<Longrightarrow> settle_exec (at_slot n E) program accs ix t = Inr u \<Longrightarrow> u \<noteq> t \<Longrightarrow>
    address (accs ! 2) \<noteq> fst (find_session_pda E program) \<or> (\<forall>args. ix \<noteq> Write_chunk args) \<Longrightarrow>
    settle_run E program s (es @ settle_effects E accs ix t) u"
| elsewhere: "settle_run E program s es t \<Longrightarrow>
    accts u (fst (find_session_pda E program)) = accts t (fst (find_session_pda E program)) \<Longrightarrow>
    settle_run E program s es u"

subsection \<open>What a run accumulates\<close>

lemma lamports_accumulator_fold:
  "lamports_accumulator hash acc ts = foldl (acc_effect hash) acc (map (\<lambda>(k, v). Lamports_set k v) ts)"
  by (induction ts arbitrary: acc) auto

context portal_codecs
begin

lemma chunk_accumulates:
  assumes run: "process_write_settlement_chunk E program accs args s = Inr s'" and ne: "s' \<noteq> s"
    and k: "k = fst (find_session_pda E program)" "address (accs ! 2) \<noteq> k" and x: "parse_session E (dat s k) = Inr x"
  shows "s_settlement_status x = InProgress \<and> own s' k = own s k \<and> parse_session E (dat s' k) =
     Inr (x\<lparr>s_settlement_accumulator := foldl (acc_effect (hashv E)) (s_settlement_accumulator x)
            (settle_effects E accs (Write_chunk args) s)\<rparr>)"
proof -
  have "\<not> length accs < 4" using run by (rule contrapos_pn) (simp add: process_write_settlement_chunk_def)
  then obtain a b c d ys where accs: "accs = a # b # c # d # ys" using conses4 by blast
  have "address b = k" using run
    by (auto simp: accs process_write_settlement_chunk_def Let_def ok_simps load_session_ok k)
  with chunk_effect [OF run [unfolded accs]] k(2) x ne show ?thesis
    by (auto simp: accs split: if_splits)
qed

lemma owner_accumulates:
  assumes run: "process_settle_account_owner E program accs args s = Inr s'" and ne: "s' \<noteq> s"
    and k: "k = fst (find_session_pda E program)" and x: "parse_session E (dat s k) = Inr x"
  shows "s_settlement_status x = InProgress \<and> own s' k = own s k \<and> parse_session E (dat s' k) =
     Inr (x\<lparr>s_settlement_accumulator := foldl (acc_effect (hashv E)) (s_settlement_accumulator x)
            (settle_effects E accs (Settle_owner args) s)\<rparr>)"
proof -
  have "\<not> length accs < 4" using run by (rule contrapos_pn) (simp add: process_settle_account_owner_def)
  then obtain a b c d ys where accs: "accs = a # b # c # d # ys" using conses4 by blast
  from owner_effect [OF run [unfolded accs]] x ne k show ?thesis
    by (auto simp: accs split: if_splits)
qed

lemma lamports_accumulates:
  assumes run: "process_settle_account_lamports_inner E program accs args previous s = Inr s'" and ne: "s' \<noteq> s"
    and k: "k = fst (find_session_pda E program)" and x: "parse_session E (dat s k) = Inr x"
  shows "s_settlement_status x = InProgress \<and> own s' k = own s k \<and> parse_session E (dat s' k) =
     Inr (x\<lparr>s_settlement_accumulator := foldl (acc_effect (hashv E)) (s_settlement_accumulator x)
            (settle_effects E accs (Settle_lamports args previous) s)\<rparr>)"
proof -
  have "\<not> length accs < 2"
  proof
    assume "length accs < 2"
    then have "length accs < 2 + unat (sl_account_count args) * 2" by simp
    then show False using run by (simp add: process_settle_account_lamports_inner_def Let_def split: if_splits)
  qed
  then obtain a b ys where accs: "accs = a # b # ys" using conses2 by blast
  from lamports_effect [OF run [unfolded accs]] x ne k show ?thesis
    by (auto simp: accs lamports_accumulator_fold split: if_splits)
qed

lemma receipt_accumulates:
  assumes run: "process_settle_deposit_receipt E program accs args s = Inr s'" and ne: "s' \<noteq> s"
    and k: "k = fst (find_session_pda E program)" and x: "parse_session E (dat s k) = Inr x"
  shows "s_settlement_status x = InProgress \<and> own s' k = own s k \<and> parse_session E (dat s' k) =
     Inr (x\<lparr>s_settlement_accumulator := foldl (acc_effect (hashv E)) (s_settlement_accumulator x)
            (settle_effects E accs (Settle_receipt args) s)\<rparr>)"
proof -
  have "\<not> length accs < 5" using run by (rule contrapos_pn) (simp add: process_settle_deposit_receipt_def)
  then obtain a b c d e ys where accs: "accs = a # b # c # d # e # ys" using conses5 by blast
  obtain y r t rb bs where e: "address b = k" "parse_session E (dat s k) = Inr y" "s_settlement_status y = InProgress"
      "pay_receipt E args (address c) (address e) s = Inr t"
      "parse_session E bs = Inr (y\<lparr>s_settlement_accumulator := accumulate_receipt_checksum (hashv E)
                (s_settlement_accumulator y) (address d) (address e) (sr_balance args) (sr_withdrawn args)
                (sr_payout_lamports args)\<rparr>)"
      "accts s' = accts (set_dat k bs (set_dat (address c) rb t))"
    using receipt_effect [OF run [unfolded accs]] ne k by (auto split: if_splits)
  have "own t k = own s k" using pay_receipt_ok [OF e(4)] by (auto split: if_splits)
  then show ?thesis using e x by (simp add: accs)
qed

lemma withdrawal_accumulates:
  assumes run: "process_accumulate_token_withdrawal E program accs args s = Inr s'" and ne: "s' \<noteq> s"
    and k: "k = fst (find_session_pda E program)" and x: "parse_session E (dat s k) = Inr x"
  shows "s_settlement_status x = InProgress \<and> own s' k = own s k \<and> parse_session E (dat s' k) =
     Inr (x\<lparr>s_settlement_accumulator := foldl (acc_effect (hashv E)) (s_settlement_accumulator x)
            (settle_effects E accs (Accumulate_withdrawal args) s)\<rparr>)"
proof -
  have "\<not> length accs < 11" using run by (rule contrapos_pn) (simp add: process_accumulate_token_withdrawal_def)
  from conses11 [OF this] obtain a b c d e f g h i j l ys
    where accs: "accs = a # b # c # d # e # f # g # h # i # j # l # ys" by (elim exE)
  let ?w = "\<lambda>br. withdrawal_tuple args br (address c) (address e) (address d) (address f) (address g) (address h) (address i)"
  obtain y br bs t where y: "address b = k" "own s k = program" "try_from_slice (session_codec E) (dat s k) = Some y"
      "session_is_valid y" "s_settlement_status y = InProgress"
      "load_bridge E program (address b) (address c) (address d) (address h) (address i) s = Inr br"
      "created_at program (address j) bs s t"
      "s' = set_dat k (ser (session_codec E) (y\<lparr>s_settlement_accumulator :=
          accumulate_token_withdrawal_checksum (hashv E) (s_settlement_accumulator y) (?w br)\<rparr>)) t"
    using accumulate_effect [OF run [unfolded accs]] ne k by (auto simp: Let_def)
  have "parse_session E (dat s k) = Inr y" using y(3,4) by (auto simp: parse_session_cases dest: session_c.try_from_sliceD)
  then have xy: "x = y" using x by simp
  have "try_from_slice (session_bridge_codec E) (dat s (address c)) = Some br"
    using y(6) [unfolded load_bridge_ok] by blast
  moreover have "own t k = own s k" using created_atD(3) [OF y(7), of k] y(2) by (simp split: if_splits)
  ultimately show ?thesis using y(4,5,8) xy by (auto simp: accs parse_session_cases)
qed

lemma settle_step_accumulates:
  assumes "settle_exec E program accs ix s = Inr s'" "s' \<noteq> s"
    and "k = fst (find_session_pda E program)" "parse_session E (dat s k) = Inr x"
    and "address (accs ! 2) \<noteq> k \<or> (\<forall>args. ix \<noteq> Write_chunk args)"
  shows "s_settlement_status x = InProgress \<and> own s' k = own s k \<and> parse_session E (dat s' k) =
     Inr (x\<lparr>s_settlement_accumulator := foldl (acc_effect (hashv E)) (s_settlement_accumulator x)
            (settle_effects E accs ix s)\<rparr>)"
proof (cases ix)
  case (Write_chunk args)
  with assms(1,5) have "process_write_settlement_chunk E program accs args s = Inr s'" "address (accs ! 2) \<noteq> k" by auto
  from chunk_accumulates [OF this(1) assms(2,3) this(2) assms(4)] Write_chunk show ?thesis by simp
next
  case (Settle_owner args)
  with assms(1) have "process_settle_account_owner E program accs args s = Inr s'" by simp
  from owner_accumulates [OF this assms(2-4)] Settle_owner show ?thesis by simp
next
  case (Settle_lamports args previous)
  with assms(1) have "process_settle_account_lamports_inner E program accs args previous s = Inr s'" by simp
  from lamports_accumulates [OF this assms(2-4)] Settle_lamports show ?thesis by simp
next
  case (Settle_receipt args)
  with assms(1) have "process_settle_deposit_receipt E program accs args s = Inr s'" by simp
  from receipt_accumulates [OF this assms(2-4)] Settle_receipt show ?thesis by simp
next
  case (Accumulate_withdrawal args)
  with assms(1) have "process_accumulate_token_withdrawal E program accs args s = Inr s'" by simp
  from withdrawal_accumulates [OF this assms(2-4)] Accumulate_withdrawal show ?thesis by simp
qed

end

lemma at_slot_simps [simp]:
  "hashv (at_slot n E) = hashv E" "clock_slot (at_slot n E) = n"
  "session_codec (at_slot n E) = session_codec E" "checkpoint_codec (at_slot n E) = checkpoint_codec E"
  "cursor_codec (at_slot n E) = cursor_codec E" "session_bridge_codec (at_slot n E) = session_bridge_codec E"
  "parse_session (at_slot n E) = parse_session E" "find_session_pda (at_slot n E) = find_session_pda E"
  "settle_effects (at_slot n E) accs ix s = settle_effects E accs ix s"
  by (cases ix; simp add: at_slot_def fun_eq_iff parse_session_def find_session_pda_def)+

lemma at_slot_codecs: "portal_codecs E \<Longrightarrow> portal_codecs (at_slot n E)"
  by (simp add: portal_codecs_def portal_codecs_axioms_def at_slot_def)

lemma settle_run_accumulates:
  assumes "settle_run E program s es t" "portal_codecs E"
    and "k = fst (find_session_pda E program)" "parse_session E (dat s k) = Inr x" "own s k = program"
  shows "own t k = program \<and> parse_session E (dat t k) =
     Inr (x\<lparr>s_settlement_accumulator := foldl (acc_effect (hashv E)) (s_settlement_accumulator x) es\<rparr>)"
  using assms
proof (induction rule: settle_run.induct)
  case start
  then show ?case by simp
next
  case (applied es t n accs ix u)
  let ?x = "x\<lparr>s_settlement_accumulator := foldl (acc_effect (hashv E)) (s_settlement_accumulator x) es\<rparr>"
  have "own t k = program" and x: "parse_session E (dat t k) = Inr ?x" using applied by auto
  moreover have "own u k = own t k \<and> parse_session E (dat u k) = Inr (?x\<lparr>s_settlement_accumulator :=
      foldl (acc_effect (hashv E)) (s_settlement_accumulator ?x) (settle_effects E accs ix t)\<rparr>)"
    using portal_codecs.settle_step_accumulates [OF at_slot_codecs [OF applied.prems(1)] applied.hyps(2,3), of k ?x]
      x applied.prems(2) applied.hyps(4) by simp
  ultimately show ?case by simp
next
  case (elsewhere es t u)
  then show ?case by simp
qed

text \<open>C1: a settlement does what it declared.  If \<open>BeginSettlement\<close> succeeds, then settlement instructions
  apply the effects \<open>es\<close>, interleaved with anything that leaves the session account alone, and then
  \<open>FinishSettlement\<close> succeeds, the checksum declared at the beginning is the checksum of exactly \<open>es\<close>;
  the session is idle again and its settled rollup slot is the declared one, beyond the previous.\<close>

theorem settlement_binds_effects:
  assumes "portal_codecs E"
    and "process_begin_settlement (at_slot m E) program (v # session # c # rest) bargs s0 = Inr s1"
    and "settle_run E program s1 es s2"
    and "process_finish_settlement (at_slot n E) program (v' # session' # c' # cur # rest') fargs s2 = Inr s3"
  shows "bs_checksum bargs = settlement_checksum (hashv E) (bs_er_slot bargs) es
     \<and> fs_er_slot fargs = bs_er_slot bargs \<and> fs_checksum fargs = bs_checksum bargs
     \<and> (\<exists>x y. parse_session E (dat s0 (address session)) = Inr x \<and> parse_session E (dat s3 (address session)) = Inr y
        \<and> s_settlement_status y = Idle \<and> s_last_settled_er_slot y = bs_er_slot bargs \<and> s_last_settled_l1_slot y = n
        \<and> s_last_settled_er_slot x < s_last_settled_er_slot y)"
proof -
  let ?k = "fst (find_session_pda E program)"
  obtain x bs where b: "address session = ?k" "own s0 ?k = program" "parse_session E (dat s0 ?k) = Inr x"
      "s_last_settled_er_slot x < bs_er_slot bargs" "s1 = set_dat ?k bs s0"
      "parse_session E bs = Inr (x\<lparr>s_settlement_status := InProgress, s_settlement_er_slot := bs_er_slot bargs,
              s_settlement_checksum := bs_checksum bargs,
              s_settlement_accumulator := initial_settlement_checksum (hashv E) (bs_er_slot bargs),
              s_settlement_started_l1_slot := m\<rparr>)"
    using portal_codecs.begin_effect [OF at_slot_codecs [OF assms(1)] assms(2)] by auto
  let ?x = "x\<lparr>s_settlement_status := InProgress, s_settlement_er_slot := bs_er_slot bargs,
              s_settlement_checksum := bs_checksum bargs,
              s_settlement_accumulator := initial_settlement_checksum (hashv E) (bs_er_slot bargs),
              s_settlement_started_l1_slot := m\<rparr>"
  have mid: "parse_session E (dat s2 ?k) = Inr (?x\<lparr>s_settlement_accumulator :=
      settlement_checksum (hashv E) (bs_er_slot bargs) es\<rparr>)"
    using settle_run_accumulates [OF assms(3,1) refl, of ?x] b by (simp add: settlement_checksum_def)
  obtain z c bs' t where f: "address session' = ?k" "parse_session E (dat s2 ?k) = Inr z"
      "s_settlement_er_slot z = fs_er_slot fargs" "s_settlement_checksum z = fs_checksum fargs"
      "s_settlement_accumulator z = fs_checksum fargs" "s3 = set_dat ?k bs' t"
      "parse_session E bs' = Inr (clear_settlement z\<lparr>s_last_settled_l1_slot := n, s_last_settled_er_slot := fs_er_slot fargs\<rparr>)"
    using portal_codecs.finish_effect [OF at_slot_codecs [OF assms(1)] assms(4)] by auto
  let ?y = "clear_settlement z\<lparr>s_last_settled_l1_slot := n, s_last_settled_er_slot := fs_er_slot fargs\<rparr>"
  have "fs_er_slot fargs = bs_er_slot bargs \<and> fs_checksum fargs = bs_checksum bargs
      \<and> bs_checksum bargs = settlement_checksum (hashv E) (bs_er_slot bargs) es" using mid f by auto
  moreover have "parse_session E (dat s3 (address session)) = Inr ?y" using f b by simp
  ultimately show ?thesis
    using b by (intro conjI exI [of _ x] exI [of _ ?y]) (auto simp: clear_settlement_def)
qed

text \<open>A ledger in the middle of a settlement, for the evaluations.\<close>

definition sample_checkpoint :: "checkpoint_status \<Rightarrow> checkpoint" where
  "sample_checkpoint status =
     \<lparr>cp_discriminator = checkpoint_DISCRIMINATOR, cp_session = 1007, cp_er_slot = 7, cp_step_count = 4,
      cp_previous_state_root = 11, cp_new_state_root = 12, cp_trace_root = 13, cp_tx_effect_root = 14,
      cp_readonly_l1_root = 15, cp_da_commitment = 16, cp_effect_commitment = 88, cp_proposer = 6,
      cp_proposed_at_l1_slot = 20, cp_challenge_deadline_l1_slot = 60, cp_status = status, cp_bond_lamports = 1000000,
      cp_bond_status = Released, cp_challenger = 0, cp_challenged_at_l1_slot = 0, cp_challenge_resolved = False,
      cp_bump = 255\<rparr>"

definition sample_cursor :: cursor where
  "sample_cursor = \<lparr>cc_discriminator = cursor_DISCRIMINATOR, cc_session = 1007, cc_latest_finalized_checkpoint = 1050,
     cc_latest_finalized_er_slot = 7, cc_latest_finalized_state_root = 12, cc_active_checkpoint = 1050,
     cc_active_er_slot = 7, cc_bump = 255\<rparr>"

definition settling_session :: "hash32 \<Rightarrow> hash32 \<Rightarrow> session" where
  "settling_session checksum acc = sample_session\<lparr>s_settlement_status := InProgress, s_settlement_er_slot := 7,
     s_settlement_checksum := checksum, s_settlement_accumulator := acc, s_settlement_started_l1_slot := 90\<rparr>"

definition settling_st :: "session \<Rightarrow> st" where
  "settling_st x = sample_st
     [(1007, \<lparr>lamports = 3540, data = ser session_layout x, owner = 77, executable = False\<rparr>),
      (1050, \<lparr>lamports = 5080, data = ser checkpoint_layout (sample_checkpoint Committed), owner = 77, executable = False\<rparr>),
      (1049, \<lparr>lamports = 2810, data = ser cursor_layout sample_cursor, owner = 77, executable = False\<rparr>),
      (20, \<lparr>lamports = 1400, data = [1, 2, 3, 4], owner = 77, executable = False\<rparr>),
      (1042, \<lparr>lamports = 1770, data = ser delegation_record_layout sample_delegation, owner = 77, executable = False\<rparr>)]"

lemma sample_session_rw [simp]:
  "session_is_valid x \<Longrightarrow> parse_session (sample_env n) (ser session_layout x) = Inr x"
  "session_is_valid x \<Longrightarrow> write_session (sample_env n) (ser session_layout x) y = Inr (ser session_layout y)"
proof -
  assume v: "session_is_valid x"
  then show "parse_session (sample_env n) (ser session_layout x) = Inr x"
    by (simp add: smp.parse_session_cases)
  show "write_session (sample_env n) (ser session_layout x) y = Inr (ser session_layout y)"
    using v smp.starts_with_session
    by (simp add: write_session_def session_is_valid_def write_slice_def)
qed

lemma settling_session_valid [simp]: "session_is_valid (settling_session checksum acc)" "session_is_valid sample_session"
  by (simp_all add: settling_session_def sample_session_def initial_session_def session_is_valid_def)

lemma settling_session_sel [simp]:
  "s_validator (settling_session c a) = 6" "s_authority (settling_session c a) = 5" "s_grid_id (settling_session c a) = 3"
  "s_settlement_status (settling_session c a) = InProgress" "s_settlement_er_slot (settling_session c a) = 7"
  "s_settlement_checksum (settling_session c a) = c" "s_settlement_accumulator (settling_session c a) = a"
  "(settling_session c a)\<lparr>s_settlement_accumulator := b\<rparr> = settling_session c b"
  by (simp_all add: settling_session_def sample_session_def initial_session_def open_args_def)

lemmas settle_eval = load_session_def store_session_def require_validator_def require_active_settlement_def
  load_checkpoint_for_settlement_def load_cursor_def require_active_checkpoint_def clear_active_checkpoint_def
  load_delegation_record_def checkpoint_is_valid_def cursor_is_valid_def delegation_record_is_valid_def
  sample_checkpoint_def sample_cursor_def sample_delegation_def settling_st_def

lemma at_slot_sample [simp]: "at_slot n (sample_env m) = sample_env n"
  by (simp add: at_slot_def sample_env_def sample_runtime_def with_layouts_def runtime.defs)

lemma begin_sample_run:
  "process_begin_settlement (sample_env 90) 77 [signer 6, mutable 1007, readonly 1050]
     \<lparr>bs_er_slot = 7, bs_checksum = c, bs_effect_commitment = 88\<rparr> (settling_st sample_session)
   = Inr (set_dat 1007 (ser session_layout (settling_session c 32)) (settling_st sample_session))"
  by (simp add: process_begin_settlement_def settle_eval store_eval initial_settlement_checksum_def parts_length_def
      SETTLEMENT_CHECKSUM_DOMAIN_def ascii_def) 
     (simp add: settling_session_def sample_session_def initial_session_def open_args_def saturating_add_def)

definition settled_chunk :: write_settlement_chunk where
  "settled_chunk = \<lparr>wc_er_slot = 7, wc_checksum = 78, wc_account_data_offset = 1, wc_chunk_len = 1, wc_chunk = [9]\<rparr>"

lemma chunk_sample_run:
  "process_write_settlement_chunk (sample_env 91) 77 [signer 6, mutable 1007, mutable 20, readonly 1042] settled_chunk
     (settling_st (settling_session 78 32))
   = Inr (set_dat 1007 (ser session_layout (settling_session 78 78)) (set_dat 20 [1, 9, 3, 4]
       (settling_st (settling_session 78 32))))"
  by (simp add: process_write_settlement_chunk_def settled_chunk_def settle_eval store_eval MAX_SETTLEMENT_CHUNK_def
      accumulate_data_chunk_checksum_def parts_length_def overwrite_def)

lemma settling_again: "set_dat 1007 (ser session_layout y) (settling_st x) = settling_st y"
  by (rule st_eqI) (auto simp: settling_st_def)

lemma settling_sample:
  "process_begin_settlement (at_slot 90 (sample_env 0)) 77 [signer 6, mutable 1007, readonly 1050]
     \<lparr>bs_er_slot = 7, bs_checksum = 78, bs_effect_commitment = 88\<rparr> (settling_st sample_session)
   = Inr (settling_st (settling_session 78 32))"
  "settle_run (sample_env 0) 77 (settling_st (settling_session 78 32)) [Data_chunk 20 1 [9]]
     (set_dat 20 [1, 9, 3, 4] (settling_st (settling_session 78 78)))"
proof -
  let ?s1 = "settling_st (settling_session 78 32)"
  let ?s2 = "set_dat 20 [1, 9, 3, 4] (settling_st (settling_session 78 78))"
  let ?ix = "Write_chunk settled_chunk" and ?accs = "[signer 6, mutable 1007, mutable 20, readonly 1042]"
  show "process_begin_settlement (at_slot 90 (sample_env 0)) 77 [signer 6, mutable 1007, readonly 1050]
       \<lparr>bs_er_slot = 7, bs_checksum = 78, bs_effect_commitment = 88\<rparr> (settling_st sample_session) = Inr ?s1"
    by (simp add: begin_sample_run settling_again)
  have two: "set_dat 1007 (ser session_layout (settling_session 78 78)) (set_dat 20 [1, 9, 3, 4] ?s1) = ?s2"
    by (rule st_eqI) (auto simp: settling_st_def)
  have c: "settle_exec (at_slot 91 (sample_env 0)) 77 ?accs ?ix ?s1 = Inr ?s2"
    using chunk_sample_run two by simp
  have "dat ?s2 20 \<noteq> dat ?s1 20" by (simp add: settling_st_def)
  then have ne: "?s2 \<noteq> ?s1" by metis
  have "settle_run (sample_env 0) 77 ?s1 ([] @ settle_effects (sample_env 0) ?accs ?ix ?s1) ?s2"
    by (rule settle_run.applied [OF settle_run.start c ne]) simp
  then show "settle_run (sample_env 0) 77 ?s1 [Data_chunk 20 1 [9]] ?s2" by (simp add: settled_chunk_def)
qed

theorem settlement_binds_effects_witness:
  "\<exists>s1 s2 s3. process_begin_settlement (at_slot 90 (sample_env 0)) 77 [signer 6, mutable 1007, readonly 1050]
       \<lparr>bs_er_slot = 7, bs_checksum = 78, bs_effect_commitment = 88\<rparr> (settling_st sample_session) = Inr s1
     \<and> settle_run (sample_env 0) 77 s1 [Data_chunk 20 1 [9]] s2
     \<and> process_finish_settlement (at_slot 92 (sample_env 0)) 77 [signer 6, mutable 1007, mutable 1050, mutable 1049]
         \<lparr>fs_er_slot = 7, fs_checksum = 78\<rparr> s2 = Inr s3
     \<and> (78 :: hash32) = settlement_checksum (hashv (sample_env 0)) 7 [Data_chunk 20 1 [9]]"
proof -
  let ?s2 = "set_dat 20 [1, 9, 3, 4] (settling_st (settling_session 78 78))"
  obtain s3 where f: "process_finish_settlement (at_slot 92 (sample_env 0)) 77
      [signer 6, mutable 1007, mutable 1050, mutable 1049] \<lparr>fs_er_slot = 7, fs_checksum = 78\<rparr> ?s2 = Inr s3"
    by (simp add: process_finish_settlement_def settle_checkpoint_def settle_eval store_eval)
  show ?thesis
    using settlement_binds_effects [OF smp.portal_codecs_axioms settling_sample f] settling_sample f by auto
qed

end
