(* ===== verification/Token_Props.thy ===== *)
theory Token_Props
  imports Settlement_Run
begin

text \<open>
  What the token bridge of a session guarantees: the first registration of a mint stands, and an
  authorized withdrawal is consumed at most once.
\<close>

lemma at_slot_token [simp]:
  "token_withdrawal_authorization_codec (at_slot n E) = token_withdrawal_authorization_codec E"
  "registered_bridge (at_slot n E) = registered_bridge E"
  by (simp_all add: at_slot_def registered_bridge_def find_session_bridge_pda_def fun_eq_iff)

text \<open>The first registration of a session and mint stands: after a successful \<open>RegisterSessionBridge\<close>, any
  later registration at the same address succeeds only with the same mint, bridge program, vault and
  token program, and then changes nothing.\<close>

theorem bridge_registered_once:
  assumes "portal_codecs E"
    and "process_register_session_bridge E program
      (payer # session # bridge # mint # bridge_program # token_program # sys # rest) args s = Inr s'"
    and "process_register_session_bridge (at_slot n E) program
      (payer' # session' # bridge' # mint' # bridge_program' # token_program' # sys' # rest') args' s' = Inr s''"
    and "address bridge' = address bridge"
  shows "s'' = s' \<and> args' = args"
proof -
  let ?b = "registered_bridge E program (address session) args"
  let ?b' = "registered_bridge E program (address session') args'"
  have b: "try_from_slice (session_bridge_codec E) (dat s' (address bridge)) = Some ?b"
    using portal_codecs.register_bridge_effect [OF assms(1,2)] created_atD(2)
      borsh_codec.try_from_slice_ser [OF portal_codecs.axioms(12) [OF assms(1)]]
    by fastforce
  moreover have "dat s' (address bridge) \<noteq> []"
    using borsh_codec.try_from_sliceD(3) [OF portal_codecs.axioms(12) [OF assms(1)] b] by auto
  ultimately have "s'' = s' \<and> ?b' = ?b"
    using portal_codecs.register_bridge_effect [OF at_slot_codecs [OF assms(1)] assms(3)] assms(4) created_atD(1)
    by fastforce
  then show ?thesis by (auto simp: registered_bridge_def intro: register_session_bridge.equality)
qed

definition bridge_args :: register_session_bridge where
  "bridge_args = \<lparr>rb_mint = 500, rb_bridge_program = 510, rb_vault = 1043, rb_token_program = 600\<rparr>"

definition bridge_st :: st where
  "bridge_st = sample_st
     [(5, \<lparr>lamports = 100000, data = [], owner = 0, executable = False\<rparr>),
      (1007, \<lparr>lamports = 3540, data = ser session_layout sample_session, owner = 77, executable = False\<rparr>),
      (500, \<lparr>lamports = 1400, data = [1], owner = 600, executable = False\<rparr>),
      (510, \<lparr>lamports = 1, data = [], owner = 2, executable = True\<rparr>),
      (600, \<lparr>lamports = 1, data = [], owner = 2, executable = True\<rparr>)]"

lemma bridge_sample_run:
  "\<exists>s'. process_register_session_bridge (sample_env 20) 77
      [signer 5, readonly 1007, mutable 1078, readonly 500, readonly 510, readonly 600, readonly 0] bridge_args bridge_st = Inr s'
    \<and> dat s' 1078 = ser session_bridge_layout (registered_bridge (sample_env 20) 77 1007 bridge_args)
    \<and> own s' 1078 = 77 \<and> (\<forall>k\<in>{1007, 500, 510, 600}. accts s' k = accts bridge_st k)"
  by (simp add: process_register_session_bridge_def claim_bridge_def bridge_args_def bridge_st_def session_eval cpi_eval store_eval
      TOKEN_VAULT_SEED_PREFIX_def)

lemma bridge_sample_again:
  assumes "dat s 1078 = ser session_bridge_layout (registered_bridge (sample_env 20) 77 1007 bridge_args)"
    "own s 1078 = 77" "\<forall>k\<in>{1007, 500, 510, 600}. accts s k = accts bridge_st k"
  shows "process_register_session_bridge (sample_env 30) 77
      [signer 5, readonly 1007, mutable 1078, readonly 500, readonly 510, readonly 600, readonly 0] bridge_args s = Inr s"
proof -
  have "registered_bridge (sample_env 30) = registered_bridge (sample_env 20)"
    by (simp add: registered_bridge_def fun_eq_iff)
  moreover have "ser session_bridge_layout b \<noteq> []" for b
    using smp.session_bridge_c.ser_length [of undefined b] by (simp del: length_0_conv add: length_0_conv [symmetric])
  ultimately show ?thesis using assms
    by (simp add: process_register_session_bridge_def claim_bridge_def bridge_args_def bridge_st_def session_eval store_eval
      TOKEN_VAULT_SEED_PREFIX_def parts_length_def ascii_def)
qed

theorem bridge_registered_once_witness:
  "\<exists>s' s''. process_register_session_bridge (sample_env 20) 77
      [signer 5, readonly 1007, mutable 1078, readonly 500, readonly 510, readonly 600, readonly 0] bridge_args bridge_st = Inr s'
    \<and> process_register_session_bridge (sample_env 30) 77
      [signer 5, readonly 1007, mutable 1078, readonly 500, readonly 510, readonly 600, readonly 0] bridge_args s' = Inr s''
    \<and> s'' = s'"
proof -
  let ?accs = "[signer 5, readonly 1007, mutable 1078, readonly 500, readonly 510, readonly 600, readonly 0]"
  obtain s' where run: "process_register_session_bridge (sample_env 20) 77 ?accs bridge_args bridge_st = Inr s'"
    and again: "process_register_session_bridge (at_slot 30 (sample_env 20)) 77 ?accs bridge_args s' = Inr s'"
    using bridge_sample_run bridge_sample_again by fastforce
  from bridge_registered_once [OF smp.portal_codecs_axioms run again] run again show ?thesis by auto
qed

text \<open>C40: an authorized token withdrawal is consumed at most once: after a successful \<open>ConsumeTokenWithdrawal\<close>, which
  marks the authorization account consumed and changes nothing else, every further
  consumption naming that account fails, for every caller, every arguments and at every slot.\<close>

theorem token_withdrawal_once:
  assumes "portal_codecs E"
    and "process_consume_token_withdrawal E program (validator # session # checkpoint # authorization # bridge # vault
       # er_token # vault_token # destination # mint # token_program # rest) args s = Inr s'"
    and "address (accs ! 3) = address authorization"
  shows "(\<forall>k. k \<noteq> address authorization \<longrightarrow> accts s' k = accts s k)
     \<and> \<not> is_ok (process_consume_token_withdrawal (at_slot n E) program accs args' s')"
proof -
  let ?k = "address authorization"
  obtain a where s': "s' = set_dat ?k (ser (token_withdrawal_authorization_codec E) (a\<lparr>tw_consumed := True\<rparr>)) s"
    using portal_codecs.consume_effect [OF assms(1,2)] by blast
  then have parsed: "try_from_slice (token_withdrawal_authorization_codec E) (dat s' ?k) = Some (a\<lparr>tw_consumed := True\<rparr>)"
    by (simp add: borsh_codec.try_from_slice_ser [OF portal_codecs.axioms(13) [OF assms(1)]])
  have "process_consume_token_withdrawal (at_slot n E) program accs args' s' \<noteq> Inr s2" for s2
  proof
    assume run: "process_consume_token_withdrawal (at_slot n E) program accs args' s' = Inr s2"
    then have "\<not> length accs < 11" by (rule contrapos_pn) (simp add: process_consume_token_withdrawal_def)
    from conses11 [OF this] obtain v ss c au b va e vt d m t ys where
      "accs = v # ss # c # au # b # va # e # vt # d # m # t # ys" by (elim exE)
    with portal_codecs.consume_effect [OF at_slot_codecs [OF assms(1)], of _ program v ss c au b va e vt d m t ys args' s' s2]
      run assms(3) parsed show False by auto
  qed
  moreover have "k \<noteq> ?k \<Longrightarrow> accts s' k = accts s k" for k by (simp add: s' set_dat_def)
  ultimately show ?thesis by (cases "process_consume_token_withdrawal (at_slot n E) program accs args' s'") auto
qed

definition withdrawal_args :: token_withdrawal_args where
  "withdrawal_args = \<lparr>ta_er_slot = 7, ta_checksum = 88, ta_amount = 30, ta_withdrawn = 0, ta_decimals = 6\<rparr>"

definition withdrawal_authorization :: token_withdrawal_authorization where
  "withdrawal_authorization = authorization_state (sample_env 0) 1050
     (withdrawal_tuple withdrawal_args (registered_bridge (sample_env 0) 77 1007 bridge_args) 1078 530 1043 540 550 500 600) 255"

definition withdrawal_st :: st where
  "withdrawal_st = sample_st
     [(1007, \<lparr>lamports = 3540, data = ser session_layout sample_session, owner = 77, executable = False\<rparr>),
      (1050, \<lparr>lamports = 5080, data = ser checkpoint_layout (sample_checkpoint Settled), owner = 77, executable = False\<rparr>),
      (1078, \<lparr>lamports = 2970, data = ser session_bridge_layout (registered_bridge (sample_env 0) 77 1007 bridge_args),
         owner = 77, executable = False\<rparr>),
      (1043, \<lparr>lamports = 1, data = [], owner = 510, executable = False\<rparr>),
      (1093, \<lparr>lamports = 2020, data = ser token_withdrawal_authorization_layout withdrawal_authorization,
         owner = 77, executable = False\<rparr>)]"

lemma withdrawal_sample_run:
  "\<exists>s'. process_consume_token_withdrawal (sample_env 95) 77 [signer 6, readonly 1007, readonly 1050, mutable 1093,
       readonly 1078, signer 1043, readonly 530, readonly 540, readonly 550, readonly 500, readonly 600]
     withdrawal_args withdrawal_st = Inr s'"
  by (simp add: process_consume_token_withdrawal_def load_bridge_def withdrawal_st_def withdrawal_authorization_def
      authorization_state_def withdrawal_tuple_def withdrawal_args_def bridge_args_def registered_bridge_def
      session_bridge_is_valid_def token_withdrawal_authorization_is_valid_def token_withdrawal_tuple_hash_def
      settle_eval session_eval store_eval)

theorem token_withdrawal_once_witness:
  "\<exists>s'. process_consume_token_withdrawal (sample_env 95) 77 [signer 6, readonly 1007, readonly 1050, mutable 1093,
       readonly 1078, signer 1043, readonly 530, readonly 540, readonly 550, readonly 500, readonly 600]
     withdrawal_args withdrawal_st = Inr s'
   \<and> \<not> is_ok (process_consume_token_withdrawal (sample_env 96) 77 [signer 6, readonly 1007, readonly 1050, mutable 1093,
       readonly 1078, signer 1043, readonly 530, readonly 540, readonly 550, readonly 500, readonly 600] withdrawal_args s')"
proof -
  let ?accs = "[signer 6, readonly 1007, readonly 1050, mutable 1093,
       readonly 1078, signer 1043, readonly 530, readonly 540, readonly 550, readonly 500, readonly 600]"
  obtain s' where run: "process_consume_token_withdrawal (sample_env 95) 77 ?accs withdrawal_args withdrawal_st = Inr s'"
    using withdrawal_sample_run by blast
  from token_withdrawal_once [OF smp.portal_codecs_axioms run, of ?accs 96 withdrawal_args] run show ?thesis by simp
qed

end
