(* ===== verification/Portal_Checkpoint.thy ===== *)
theory Portal_Checkpoint
  imports Portal_Settlement
begin

text \<open>
  Checkpoints of a session, from \<open>checkpoint.rs\<close>: the loads and bond movements its instructions
  share, and \<open>ProposeCheckpoint\<close>, \<open>CommitCheckpoint\<close> and \<open>CancelCheckpoint\<close>.  The validator proposes
  one checkpoint at a time and locks a bond in its account; after the challenge window anybody
  commits it, which returns the bond and advances the session's cursor.
\<close>

subsection \<open>Loads and guards\<close>

definition load_checkpoint :: "portal_env \<Rightarrow> pubkey \<Rightarrow> pubkey \<Rightarrow> u64 \<Rightarrow> pubkey \<Rightarrow> st \<Rightarrow> checkpoint res" where
  "load_checkpoint E program session er_slot k s =
     (if k \<noteq> fst (find_checkpoint_pda E program session er_slot) then Inl (Portal InvalidPdaSeeds)
      else if own s k \<noteq> program then Inl (Portal CheckpointStateInvalid)
      else rbind (load (checkpoint_codec E) CheckpointDeserializeFailed s k) (\<lambda>c.
      if \<not> checkpoint_is_valid c \<or> cp_session c \<noteq> session \<or> cp_er_slot c \<noteq> er_slot
      then Inl (Portal CheckpointStateInvalid)
      else Inr c))"

definition store_checkpoint :: "portal_env \<Rightarrow> pubkey \<Rightarrow> checkpoint \<Rightarrow> st \<Rightarrow> st res" where
  "store_checkpoint E k c s = store (checkpoint_codec E) c Panicked k s"

definition store_cursor :: "portal_env \<Rightarrow> pubkey \<Rightarrow> cursor \<Rightarrow> st \<Rightarrow> st res" where
  "store_cursor E k u s = store (cursor_codec E) u Panicked k s"

definition new_cursor :: "pubkey \<Rightarrow> u8 \<Rightarrow> cursor" where
  "new_cursor session bump =
     \<lparr>cc_discriminator = cursor_DISCRIMINATOR, cc_session = session, cc_latest_finalized_checkpoint = 0,
      cc_latest_finalized_er_slot = 0, cc_latest_finalized_state_root = 0, cc_active_checkpoint = 0,
      cc_active_er_slot = 0, cc_bump = bump\<rparr>"

definition create_cursor ::
  "portal_env \<Rightarrow> pubkey \<Rightarrow> account_info list \<Rightarrow> pubkey \<Rightarrow> pubkey \<Rightarrow> pubkey \<Rightarrow> st \<Rightarrow> (cursor \<times> st) res" where
  "create_cursor E program accs payer session k s =
     (let (expected, bump) = find_checkpoint_cursor_pda E program session
      in if k \<noteq> expected then Inl (Portal InvalidPdaSeeds)
      else
      let u = new_cursor session bump; size = account_size (cursor_codec E) u
      in rbind (rent_minimum E size) (\<lambda>amount.
         rbind (initialize_pda_account E program accs payer k amount (of_nat size) program
                 [ascii ''checkpoint_cursor'', key_bytes session, [bump]] s) (\<lambda>s.
         rbind (store_cursor E k u s) (\<lambda>s. Inr (u, s)))))"

definition load_or_create_cursor ::
  "portal_env \<Rightarrow> pubkey \<Rightarrow> account_info list \<Rightarrow> pubkey \<Rightarrow> pubkey \<Rightarrow> pubkey \<Rightarrow> st \<Rightarrow> (cursor \<times> st) res" where
  "load_or_create_cursor E program accs payer session k s =
     (if dat s k = [] then create_cursor E program accs payer session k s
      else rbind (load_cursor E program session k s) (\<lambda>u. Inr (u, s)))"

definition require_advancing_checkpoint :: "session \<Rightarrow> cursor \<Rightarrow> u64 \<Rightarrow> unit res" where
  "require_advancing_checkpoint x u er_slot =
     (if er_slot \<le> s_last_settled_er_slot x \<or> er_slot \<le> cc_latest_finalized_er_slot u
      then Inl (Portal CheckpointErSlotNotAdvanced) else Inr ())"

definition require_no_active_checkpoint :: "cursor \<Rightarrow> unit res" where
  "require_no_active_checkpoint u =
     (if cc_active_checkpoint u \<noteq> 0 then Inl (Portal CheckpointActiveExists) else Inr ())"

text \<open>The proposed or committed state must continue the last finalized one.\<close>

definition continues_root :: "cursor \<Rightarrow> hash32 \<Rightarrow> bool" where
  "continues_root u root \<longleftrightarrow> cc_latest_finalized_checkpoint u = 0 \<or> root = cc_latest_finalized_state_root u"

subsection \<open>Bonds\<close>

definition resolve_checkpoint_bond ::
  "portal_env \<Rightarrow> pubkey \<Rightarrow> pubkey \<Rightarrow> checkpoint \<Rightarrow> bond_status \<Rightarrow> st \<Rightarrow> (checkpoint \<times> st) res" where
  "resolve_checkpoint_bond E k recipient c next_status s =
     (if cp_bond_status c \<noteq> Locked then Inl (Portal CheckpointBondAlreadyResolved)
      else
      let bond = cp_bond_lamports c
      in if bond = 0 then Inl (Portal CheckpointBondInsufficient)
      else rbind (rent_minimum E (account_size (checkpoint_codec E) c)) (\<lambda>rent.
      rbind (ok_or (checked_add rent bond) (Portal ArithmeticOverflow)) (\<lambda>minimum.
      if lam s k < minimum then Inl (Portal CheckpointBondInsufficient)
      else rbind (ok_or (checked_add (lam s recipient) bond) (Portal ArithmeticOverflow)) (\<lambda>recipient_lamports.
      let s = set_lam recipient recipient_lamports s
      in rbind (ok_or (checked_sub (lam s k) bond) (Portal ArithmeticOverflow)) (\<lambda>checkpoint_lamports.
      Inr (c\<lparr>cp_bond_status := next_status\<rparr>, set_lam k checkpoint_lamports s))))))"

definition release_checkpoint_bond ::
  "portal_env \<Rightarrow> pubkey \<Rightarrow> pubkey \<Rightarrow> checkpoint \<Rightarrow> st \<Rightarrow> (checkpoint \<times> st) res" where
  "release_checkpoint_bond E k proposer c s =
     (if proposer \<noteq> cp_proposer c then Inl (Portal CheckpointStateInvalid)
      else resolve_checkpoint_bond E k proposer c Released s)"

definition slash_checkpoint_bond ::
  "portal_env \<Rightarrow> pubkey \<Rightarrow> pubkey \<Rightarrow> checkpoint \<Rightarrow> st \<Rightarrow> (checkpoint \<times> st) res" where
  "slash_checkpoint_bond E k recipient c s = resolve_checkpoint_bond E k recipient c Slashed s"

subsection \<open>Propose\<close>

record propose_checkpoint =
  pc_er_slot :: u64
  pc_step_count :: u64
  pc_previous_state_root :: hash32
  pc_new_state_root :: hash32
  pc_trace_root :: hash32
  pc_tx_effect_root :: hash32
  pc_readonly_l1_root :: hash32
  pc_da_commitment :: hash32
  pc_effect_commitment :: hash32
  pc_challenge_window_slots :: u64

definition proposed_checkpoint :: "propose_checkpoint \<Rightarrow> pubkey \<Rightarrow> pubkey \<Rightarrow> u64 \<Rightarrow> u64 \<Rightarrow> u8 \<Rightarrow> checkpoint" where
  "proposed_checkpoint args session proposer current_slot deadline bump =
     \<lparr>cp_discriminator = checkpoint_DISCRIMINATOR, cp_session = session, cp_er_slot = pc_er_slot args,
      cp_step_count = pc_step_count args, cp_previous_state_root = pc_previous_state_root args,
      cp_new_state_root = pc_new_state_root args, cp_trace_root = pc_trace_root args,
      cp_tx_effect_root = pc_tx_effect_root args, cp_readonly_l1_root = pc_readonly_l1_root args,
      cp_da_commitment = pc_da_commitment args, cp_effect_commitment = pc_effect_commitment args,
      cp_proposer = proposer, cp_proposed_at_l1_slot = current_slot, cp_challenge_deadline_l1_slot = deadline,
      cp_status = Pending, cp_bond_lamports = CHECKPOINT_PROPOSER_BOND_LAMPORTS, cp_bond_status = Locked,
      cp_challenger = 0, cp_challenged_at_l1_slot = 0, cp_challenge_resolved = False, cp_bump = bump\<rparr>"

definition reusable_terminal :: "checkpoint \<Rightarrow> cursor \<Rightarrow> bool" where
  "reusable_terminal c u \<longleftrightarrow>
     cp_status c = Cancelled \<or> cp_status c = Invalid
     \<or> cp_status c = Settled \<and> cc_latest_finalized_checkpoint u = 0 \<and> cc_latest_finalized_er_slot u = 0
        \<and> cc_latest_finalized_state_root u = 0"

text \<open>The account of the proposal: created with rent and bond, or a finished one funded again.\<close>

definition fund_checkpoint ::
  "portal_env \<Rightarrow> pubkey \<Rightarrow> account_info list \<Rightarrow> pubkey \<Rightarrow> pubkey \<Rightarrow> pubkey \<Rightarrow> checkpoint \<Rightarrow> cursor \<Rightarrow> st \<Rightarrow> st res" where
  "fund_checkpoint E program accs proposer session k c u s =
     (let size = account_size (checkpoint_codec E) c
      in rbind (rent_minimum E size) (\<lambda>rent.
      if dat s k = [] then
        rbind (ok_or (checked_add rent CHECKPOINT_PROPOSER_BOND_LAMPORTS) (Portal ArithmeticOverflow)) (\<lambda>amount.
        initialize_pda_account E program accs proposer k amount (of_nat size) program
          [ascii ''checkpoint'', key_bytes session, u64_le (cp_er_slot c), [cp_bump c]] s)
      else
        rbind (load_checkpoint E program session (cp_er_slot c) k s) (\<lambda>previous.
        if \<not> reusable_terminal previous u then Inl (Portal CheckpointStateInvalid)
        else if lam s k < rent then Inl (Portal CheckpointBondInsufficient)
        else invoke_transfer E accs proposer k CHECKPOINT_PROPOSER_BOND_LAMPORTS s)))"

definition process_propose_checkpoint_versioned ::
  "portal_env \<Rightarrow> pubkey \<Rightarrow> account_info list \<Rightarrow> propose_checkpoint \<Rightarrow> bool \<Rightarrow> st \<Rightarrow> st res" where
  "process_propose_checkpoint_versioned E program accs args version2 s =
     (if pc_challenge_window_slots args = 0 \<or> pc_step_count args = 0
         \<or> pc_step_count args > CANONICAL_CHECKPOINT_STEPS
      then Inl InvalidInstructionData
      else if pc_challenge_window_slots args > MAX_CHALLENGE_WINDOW_SLOTS
      then Inl (Portal CheckpointChallengeWindowTooLong)
      else if length accs < 5 then Inl NotEnoughAccountKeys else
      let proposer = accs ! 0; session = address (accs ! 1); checkpoint = address (accs ! 2); cursor = address (accs ! 3)
      in if \<not> is_signer proposer then Inl (Portal Unauthorized)
      else if starts_with (dat s session) session_v2_DISCRIMINATOR \<noteq> version2 then Inl InvalidInstructionData
      else rbind (load_session E program session s) (\<lambda>x.
      if address proposer \<noteq> s_validator x then Inl (Portal Unauthorized)
      else if session_is_expired x (clock_slot E) then Inl (Portal SessionExpired)
      else rbind (load_or_create_cursor E program accs (address proposer) session cursor s) (\<lambda>(u, s).
      rbind (require_no_active_checkpoint u) (\<lambda>_.
      rbind (require_advancing_checkpoint x u (pc_er_slot args)) (\<lambda>_.
      if \<not> continues_root u (pc_previous_state_root args) then Inl (Portal CheckpointPreviousRootMismatch)
      else if checkpoint \<noteq> fst (find_checkpoint_pda E program session (pc_er_slot args))
      then Inl (Portal InvalidPdaSeeds)
      else rbind (ok_or (checked_add (clock_slot E) (pc_challenge_window_slots args)) (Portal ArithmeticOverflow))
        (\<lambda>deadline.
      let c = proposed_checkpoint args session (address proposer) (clock_slot E) deadline
                (snd (find_checkpoint_pda E program session (pc_er_slot args)))
      in rbind (fund_checkpoint E program accs (address proposer) session checkpoint c u s) (\<lambda>s.
         rbind (store_checkpoint E checkpoint c s) (\<lambda>s.
         store_cursor E cursor (u\<lparr>cc_active_checkpoint := checkpoint, cc_active_er_slot := pc_er_slot args\<rparr>) s))))))))"

definition process_propose_checkpoint ::
  "portal_env \<Rightarrow> pubkey \<Rightarrow> account_info list \<Rightarrow> propose_checkpoint \<Rightarrow> st \<Rightarrow> st res" where
  "process_propose_checkpoint E program accs args s = process_propose_checkpoint_versioned E program accs args False s"

subsection \<open>Commit\<close>

definition process_commit_checkpoint_versioned ::
  "portal_env \<Rightarrow> pubkey \<Rightarrow> account_info list \<Rightarrow> u64 \<Rightarrow> bool \<Rightarrow> st \<Rightarrow> st res" where
  "process_commit_checkpoint_versioned E program accs er_slot version2 s =
     (if length accs < 5 then Inl NotEnoughAccountKeys else
      let committer = accs ! 0; session = address (accs ! 1); checkpoint = address (accs ! 2); cursor = address (accs ! 3);
          proposer = address (accs ! 4)
      in if \<not> is_signer committer then Inl (Portal Unauthorized)
      else if starts_with (dat s session) session_v2_DISCRIMINATOR \<noteq> version2 then Inl InvalidInstructionData
      else rbind (load_session E program session s) (\<lambda>x.
      rbind (load_checkpoint E program session er_slot checkpoint s) (\<lambda>c.
      rbind (load_cursor E program session cursor s) (\<lambda>u.
      if cp_status c = Challenged then Inl (Portal CheckpointChallenged)
      else if cp_status c \<noteq> Pending then Inl (Portal CheckpointStateInvalid)
      else if clock_slot E < cp_challenge_deadline_l1_slot c then Inl (Portal CheckpointCommitTooEarly)
      else rbind (require_advancing_checkpoint x u er_slot) (\<lambda>_.
      rbind (require_active_checkpoint u checkpoint er_slot) (\<lambda>_.
      if \<not> continues_root u (cp_previous_state_root c) then Inl (Portal CheckpointPreviousRootMismatch)
      else rbind (release_checkpoint_bond E checkpoint proposer (c\<lparr>cp_status := Committed\<rparr>) s) (\<lambda>(c, s).
      rbind (store_checkpoint E checkpoint c s) (\<lambda>s.
      store_cursor E cursor (u\<lparr>cc_latest_finalized_checkpoint := checkpoint, cc_latest_finalized_er_slot := er_slot,
          cc_latest_finalized_state_root := cp_new_state_root c\<rparr>) s))))))))"

definition process_commit_checkpoint :: "portal_env \<Rightarrow> pubkey \<Rightarrow> account_info list \<Rightarrow> u64 \<Rightarrow> st \<Rightarrow> st res" where
  "process_commit_checkpoint E program accs er_slot s = process_commit_checkpoint_versioned E program accs er_slot False s"

subsection \<open>Cancel\<close>

definition process_cancel_checkpoint :: "portal_env \<Rightarrow> pubkey \<Rightarrow> account_info list \<Rightarrow> u64 \<Rightarrow> st \<Rightarrow> st res" where
  "process_cancel_checkpoint E program accs er_slot s =
     (if length accs < 4 then Inl NotEnoughAccountKeys else
      let proposer = accs ! 0; session = address (accs ! 1); checkpoint = address (accs ! 2); cursor = address (accs ! 3)
      in if \<not> is_signer proposer then Inl (Portal Unauthorized)
      else rbind (load_session E program session s) (\<lambda>_.
      rbind (load_checkpoint E program session er_slot checkpoint s) (\<lambda>c.
      rbind (load_cursor E program session cursor s) (\<lambda>u.
      if cp_status c = Challenged then Inl (Portal CheckpointChallenged)
      else if cp_status c \<noteq> Pending then Inl (Portal CheckpointStateInvalid)
      else if address proposer \<noteq> cp_proposer c then Inl (Portal CheckpointUnauthorizedCancel)
      else if clock_slot E \<ge> cp_challenge_deadline_l1_slot c then Inl (Portal CheckpointCancelWindowClosed)
      else rbind (require_active_checkpoint u checkpoint er_slot) (\<lambda>_.
      rbind (release_checkpoint_bond E checkpoint (address proposer) (c\<lparr>cp_status := Cancelled\<rparr>) s) (\<lambda>(c, s).
      rbind (store_checkpoint E checkpoint c s) (\<lambda>s.
      store_cursor E cursor (clear_active_checkpoint u) s)))))))"

subsection \<open>What the shared steps do\<close>

context portal_codecs
begin

lemma load_checkpoint_ok [ok_simps]:
  "load_checkpoint E program session er_slot k s = Inr c \<longleftrightarrow>
     k = fst (find_checkpoint_pda E program session er_slot) \<and> own s k = program
     \<and> try_from_slice (checkpoint_codec E) (dat s k) = Some c \<and> checkpoint_is_valid c
     \<and> cp_session c = session \<and> cp_er_slot c = er_slot"
  by (auto simp: load_checkpoint_def ok_simps)

lemma require_advancing_ok [ok_simps]:
  "require_advancing_checkpoint x u er_slot = Inr z \<longleftrightarrow>
     s_last_settled_er_slot x < er_slot \<and> cc_latest_finalized_er_slot u < er_slot"
  by (auto simp: require_advancing_checkpoint_def)

lemma require_no_active_ok [ok_simps]: "require_no_active_checkpoint u = Inr z \<longleftrightarrow> cc_active_checkpoint u = 0"
  by (auto simp: require_no_active_checkpoint_def)

lemma store_checkpoint_over:
  "try_from_slice (checkpoint_codec E) (dat s k) = Some c \<Longrightarrow>
   store_checkpoint E k c' s = Inr (set_dat k (ser (checkpoint_codec E) c') s)"
  unfolding store_checkpoint_def by (rule checkpoint_c.store_over) simp_all

lemma store_cursor_over:
  "try_from_slice (cursor_codec E) (dat s k) = Some u \<Longrightarrow>
   store_cursor E k u' s = Inr (set_dat k (ser (cursor_codec E) u') s)"
  unfolding store_cursor_def by (rule cursor_c.store_over) simp_all

lemma load_parsed:
  "load_session E program session s = Inr x \<Longrightarrow> parse_session E (dat s session) = Inr x"
  "load_checkpoint E program session er_slot k s = Inr c \<Longrightarrow> try_from_slice (checkpoint_codec E) (dat s k) = Some c"
  "load_cursor E program session k s = Inr u \<Longrightarrow> try_from_slice (cursor_codec E) (dat s k) = Some u"
  unfolding load_session_ok load_checkpoint_ok load_cursor_ok by blast+

lemma store_checkpoint_sized:
  "length (dat s k) = 380 \<Longrightarrow> store_checkpoint E k c s = Inr (set_dat k (ser (checkpoint_codec E) c) s)"
  by (simp add: store_checkpoint_def store_def checkpoint_c.write_slice_exact)

lemma stored_distinct:
  assumes "parse_session E (dat s i) = Inr x" "try_from_slice (checkpoint_codec E) (dat s j) = Some c"
    "try_from_slice (cursor_codec E) (dat s k) = Some u"
  shows "distinct [i, j, k]"
  using parse_session_length [OF assms(1)] checkpoint_c.try_from_sliceD(3) [OF assms(2)]
    cursor_c.try_from_sliceD(3) [OF assms(3)] by auto

end

text \<open>A bond movement changes only the lamports of the checkpoint and of the recipient, by the bond.\<close>

definition bond_moved :: "pubkey \<Rightarrow> pubkey \<Rightarrow> u64 \<Rightarrow> st \<Rightarrow> st \<Rightarrow> bool" where
  "bond_moved k recipient bond s t \<longleftrightarrow>
     (\<forall>j. dat t j = dat s j \<and> own t j = own s j \<and> exe t j = exe s j) \<and> events t = events s
     \<and> total_lamports t = total_lamports s
     \<and> (\<forall>j. j \<noteq> k \<longrightarrow> j \<noteq> recipient \<longrightarrow> lam t j = lam s j)
     \<and> (recipient \<noteq> k \<longrightarrow> unat (lam t recipient) = unat (lam s recipient) + unat bond
          \<and> unat (lam s k) = unat (lam t k) + unat bond)"

lemma bond_movedD:
  assumes "bond_moved k recipient bond s t"
  shows "dat t j = dat s j" "own t j = own s j" "exe t j = exe s j" "events t = events s"
    "total_lamports t = total_lamports s"
  using assms by (auto simp: bond_moved_def)

lemma resolve_bond_effect:
  assumes "resolve_checkpoint_bond E k recipient c next_status s = Inr (c', t)"
  shows "cp_bond_status c = Locked \<and> cp_bond_lamports c \<noteq> 0 \<and> c' = c\<lparr>cp_bond_status := next_status\<rparr>
     \<and> bond_moved k recipient (cp_bond_lamports c) s t
     \<and> (\<exists>rent. rent_minimum E (account_size (checkpoint_codec E) c) = Inr rent \<and> rent \<le> lam t k)"
proof -
  let ?b = "cp_bond_lamports c"
  obtain rent m r q where g: "cp_bond_status c = Locked" "?b \<noteq> 0" "c' = c\<lparr>cp_bond_status := next_status\<rparr>"
      "rent_minimum E (account_size (checkpoint_codec E) c) = Inr rent"
    and m: "checked_add rent ?b = Some m" "m \<le> lam s k"
    and r: "checked_add (lam s recipient) ?b = Some r"
    and q: "checked_sub (lam (set_lam recipient r s) k) ?b = Some q"
    and t: "t = set_lam k q (set_lam recipient r s)"
    using assms by (auto simp: resolve_checkpoint_bond_def ok_simps Let_def)
  let ?m = "set_lam recipient r s"
  have "unat r = unat (lam s recipient) + unat ?b" using r by (simp add: checked_add_Some_iff)
  moreover have q': "unat (lam ?m k) = unat q + unat ?b" using q by (simp add: checked_sub_Some_iff)
  ultimately have "total_lamports t = total_lamports s"
    using total_set_lam [of recipient r s] total_set_lam [of k q ?m] unfolding t by linarith
  moreover have "rent \<le> lam t k"
    using m r q' by (auto simp: t checked_add_Some_iff word_le_nat_alt split: if_splits)
  ultimately show ?thesis
    using g q' r by (auto simp: bond_moved_def t checked_add_Some_iff)
qed

subsection \<open>What the instructions do\<close>

lemma new_cursor_sel [simp]:
  "cursor_is_valid (new_cursor session bump)" "cc_session (new_cursor session bump) = session"
  "cc_active_checkpoint (new_cursor session bump) = 0" "cc_latest_finalized_er_slot (new_cursor session bump) = 0"
  "cc_latest_finalized_checkpoint (new_cursor session bump) = 0"
  by (simp_all add: new_cursor_def cursor_is_valid_def)

lemma proposed_checkpoint_sel [simp]:
  "checkpoint_is_valid (proposed_checkpoint args session proposer slot deadline bump)"
  "cp_session (proposed_checkpoint args session proposer slot deadline bump) = session"
  "cp_er_slot (proposed_checkpoint args session proposer slot deadline bump) = pc_er_slot args"
  "cp_status (proposed_checkpoint args session proposer slot deadline bump) = Pending"
  "cp_bond_status (proposed_checkpoint args session proposer slot deadline bump) = Locked"
  "cp_bond_lamports (proposed_checkpoint args session proposer slot deadline bump) = CHECKPOINT_PROPOSER_BOND_LAMPORTS"
  "cp_proposer (proposed_checkpoint args session proposer slot deadline bump) = proposer"
  "cp_challenge_deadline_l1_slot (proposed_checkpoint args session proposer slot deadline bump) = deadline"
  "cp_challenge_resolved (proposed_checkpoint args session proposer slot deadline bump) = False"
  "cp_previous_state_root (proposed_checkpoint args session proposer slot deadline bump) = pc_previous_state_root args"
  "cp_new_state_root (proposed_checkpoint args session proposer slot deadline bump) = pc_new_state_root args"
  "cp_step_count (proposed_checkpoint args session proposer slot deadline bump) = pc_step_count args"
  "cp_bump (proposed_checkpoint args session proposer slot deadline bump) = bump"
  by (simp_all add: proposed_checkpoint_def checkpoint_is_valid_def)

text \<open>A ledger that differs from another one only in lamports and at the accounts of \<open>K\<close>, where no account with data
  loses it or pays.\<close>

definition same_but :: "pubkey set \<Rightarrow> st \<Rightarrow> st \<Rightarrow> bool" where
  "same_but K s t \<longleftrightarrow> (\<forall>j. j \<notin> K \<longrightarrow> dat t j = dat s j \<and> own t j = own s j) \<and> (\<forall>j. exe t j = exe s j)
     \<and> events t = events s \<and> total_lamports t = total_lamports s
     \<and> (\<forall>j. dat s j \<noteq> [] \<longrightarrow> dat t j \<noteq> [] \<and> lam s j \<le> lam t j)"

lemma same_butD:
  assumes "same_but K s t"
  shows "j \<notin> K \<Longrightarrow> dat t j = dat s j" "j \<notin> K \<Longrightarrow> own t j = own s j" "exe t j = exe s j" "events t = events s"
    "total_lamports t = total_lamports s" "dat s j \<noteq> [] \<Longrightarrow> lam s j \<le> lam t j"
  using assms by (auto simp: same_but_def)

lemma same_but_refl [simp]: "same_but K s s"
  by (simp add: same_but_def)

lemma same_but_trans:
  assumes a: "same_but K s t" and b: "same_but L t u" and "K \<union> L \<subseteq> M"
  shows "same_but M s u"
proof -
  have "dat u j = dat s j \<and> own u j = own s j" if "j \<notin> M" for j
  proof -
    have "j \<notin> K" "j \<notin> L" using that assms(3) by auto
    then show ?thesis using same_butD(1,2) [OF a] same_butD(1,2) [OF b] by simp
  qed
  moreover have "dat u j \<noteq> [] \<and> lam s j \<le> lam u j" if "dat s j \<noteq> []" for j
  proof -
    have t: "dat t j \<noteq> []" "lam s j \<le> lam t j" using that a by (simp_all add: same_but_def)
    moreover have "dat u j \<noteq> []" "lam t j \<le> lam u j" using t(1) b by (simp_all add: same_but_def)
    ultimately show ?thesis by simp
  qed
  ultimately show ?thesis using same_butD(3-5) [OF a] same_butD(3-5) [OF b] by (simp add: same_but_def)
qed

lemma same_but_set_dat: "k \<in> K \<Longrightarrow> bs \<noteq> [] \<Longrightarrow> same_but K s t \<Longrightarrow> same_but K s (set_dat k bs t)"
  by (auto simp: same_but_def)

lemma transfer_same_but:
  assumes "invoke_transfer E accs f k amount s = Inr t"
  shows "same_but K s t"
proof -
  have "lam s j \<le> lam t j" if "dat s j \<noteq> []" for j
  proof -
    have "j \<noteq> f" using that invoke_transfer_ok(1) [OF assms] by auto
    then show ?thesis
      using invoke_transfer_frame(5) [OF assms, of j] invoke_transfer_frame(7) [OF assms]
      by (cases "j = k") (auto simp: word_le_nat_alt)
  qed
  then show ?thesis by (simp add: same_but_def invoke_transfer_frame(1-4) [OF assms] invoke_transfer_total [OF assms])
qed

lemma initialize_same_but:
  assumes "initialize_pda_account E program accs payer pda amount space p seeds s = Inr t"
  shows "same_but {pda} s t"
proof -
  obtain v u where t: "if lam s pda < amount then (\<exists>d. invoke_transfer E accs payer pda d s = Inr v) else v = s"
    and u: "invoke_allocate E program accs pda space seeds v = Inr u" and w: "invoke_assign E program accs pda p seeds u = Inr t"
    using assms by (auto simp: initialize_pda_account_def ok_simps split: if_splits)
  have v: "t = set_own pda p (set_dat pda (replicate (unat space) 0) v)"
    using invoke_allocate_ok(3) [OF u] invoke_assign_ok [OF w] by simp
  have "same_but {pda} s v" using t transfer_same_but by (cases "lam s pda < amount") auto
  moreover have "dat s pda = []" by (rule initialize_pda_account_ok(1) [OF assms])
  ultimately show ?thesis using v by (auto simp: same_but_def)
qed

context portal_codecs
begin

lemma ser_nonempty [simp]:
  "ser (checkpoint_codec E) c \<noteq> []" "ser (cursor_codec E) u \<noteq> []" "ser (challenge_codec E) g \<noteq> []" "ser (da_proof_codec E) d \<noteq> []"
  using checkpoint_c.ser_length [of c] cursor_c.ser_length [of u] challenge_c.ser_length [of g] da_proof_c.ser_length [of d] by auto

lemma load_or_create_cursor_effect:
  assumes "load_or_create_cursor E program accs payer session k s = Inr (u, t)"
  shows "k = fst (find_checkpoint_cursor_pda E program session) \<and> own t k = program
     \<and> try_from_slice (cursor_codec E) (dat t k) = Some u \<and> cursor_is_valid u \<and> cc_session u = session
     \<and> same_but {k} s t \<and> (dat s k = [] \<and> u = new_cursor session (snd (find_checkpoint_cursor_pda E program session))
          \<or> t = s)"
proof (cases "dat s k = []")
  case True
  let ?u = "new_cursor session (snd (find_checkpoint_cursor_pda E program session))"
  obtain v amount seeds where *: "k = fst (find_checkpoint_cursor_pda E program session)" "u = ?u"
      "initialize_pda_account E program accs payer k amount (of_nat (account_size (cursor_codec E) ?u)) program seeds s = Inr v"
      "store (cursor_codec E) ?u Panicked k v = Inr t"
    using assms True
    by (auto simp: load_or_create_cursor_def create_cursor_def store_cursor_def ok_simps Let_def case_prod_unfold)
  have "t = set_dat k (ser (cursor_codec E) ?u) v"
    using *(4) initialize_pda_account_ok(3) [OF *(3), of k]
    by (auto simp: store_ok write_slice_def cursor_c.account_size_eq cursor_c.ser_length)
  then have frame: "same_but {k} s t" using initialize_same_but [OF *(3)] by (auto intro: same_but_set_dat)
  have cr: "created_at program k (ser (cursor_codec E) ?u) s t"
    using cursor_c.create_store [OF *(3,4)] by simp
  show ?thesis
    using *(1,2) True frame created_atD(2,3) [OF cr, of k] by (simp add: cursor_c.try_from_slice_ser)
next
  case False
  then show ?thesis using assms by (auto simp: load_or_create_cursor_def ok_simps settlement_checks)
qed

lemma fund_checkpoint_effect:
  assumes "fund_checkpoint E program accs proposer session k c u s = Inr t"
  shows "same_but {k} s t \<and> own t k = program \<and> length (dat t k) = 380
     \<and> (dat s k = [] \<or> (\<exists>old. try_from_slice (checkpoint_codec E) (dat s k) = Some old \<and> reusable_terminal old u
          \<and> cp_er_slot old = cp_er_slot c \<and> cp_session old = session))
     \<and> (proposer \<noteq> k \<longrightarrow> (\<exists>rent. rent_minimum E 380 = Inr rent
          \<and> unat rent + unat CHECKPOINT_PROPOSER_BOND_LAMPORTS \<le> unat (lam t k)))"
proof (cases "dat s k = []")
  case True
  obtain rent amount seeds where *: "rent_minimum E 380 = Inr rent"
      "checked_add rent CHECKPOINT_PROPOSER_BOND_LAMPORTS = Some amount"
      "initialize_pda_account E program accs proposer k amount (of_nat 380) program seeds s = Inr t"
    using assms True by (auto simp: fund_checkpoint_def ok_simps Let_def checkpoint_c.account_size_eq)
  from initialize_created [OF *(3)] have cr: "created_at program k (replicate 380 0) s t" by simp
  have "proposer \<noteq> k \<Longrightarrow> unat amount \<le> unat (lam t k)"
    using initialize_pda_account_ok(9) [OF *(3)] by simp
  then show ?thesis
    using *(1,2) True initialize_same_but [OF *(3)] created_atD(2,3) [OF cr, of k] by (auto simp: checked_add_Some_iff)
next
  case False
  then obtain rent old where *: "rent_minimum E 380 = Inr rent" "own s k = program"
      "try_from_slice (checkpoint_codec E) (dat s k) = Some old" "reusable_terminal old u" "rent \<le> lam s k"
      "invoke_transfer E accs proposer k CHECKPOINT_PROPOSER_BOND_LAMPORTS s = Inr t"
      "cp_er_slot old = cp_er_slot c" "cp_session old = session"
    using assms unfolding fund_checkpoint_def Let_def
    by (simp add: rbind_ok guard_ok not_less checkpoint_c.account_size_eq load_checkpoint_ok)
       (elim exE conjE, rule that, (assumption | (simp; fail))+)
  have "proposer \<noteq> k \<Longrightarrow> unat (lam t k) = unat (lam s k) + unat CHECKPOINT_PROPOSER_BOND_LAMPORTS"
    by (rule invoke_transfer_frame(7) [OF *(6)])
  then have "proposer \<noteq> k \<longrightarrow> (\<exists>rent. rent_minimum E 380 = Inr rent
      \<and> unat rent + unat CHECKPOINT_PROPOSER_BOND_LAMPORTS \<le> unat (lam t k))"
    using *(1,5) by (simp add: word_le_nat_alt)
  moreover have "own t k = program" "length (dat t k) = 380"
    using invoke_transfer_frame(1,2) [OF *(6), of k] *(2) checkpoint_c.try_from_sliceD(3) [OF *(3)] by simp_all
  ultimately show ?thesis using transfer_same_but [OF *(6)] *(3,4,7,8) by blast
qed

lemma propose_effect:
  assumes "process_propose_checkpoint_versioned E program (proposer # session # checkpoint # cursor # sys # rest) args v2 s
     = Inr s'"
  shows "\<exists>x u deadline c.
     is_signer proposer \<and> load_session E program (address session) s = Inr x \<and> address proposer = s_validator x
     \<and> \<not> session_is_expired x (clock_slot E)
     \<and> 0 < pc_step_count args \<and> pc_step_count args \<le> CANONICAL_CHECKPOINT_STEPS
     \<and> 0 < pc_challenge_window_slots args \<and> pc_challenge_window_slots args \<le> MAX_CHALLENGE_WINDOW_SLOTS
     \<and> address cursor = fst (find_checkpoint_cursor_pda E program (address session))
     \<and> (dat s (address cursor) = [] \<and> u = new_cursor (address session) (snd (find_checkpoint_cursor_pda E program (address session)))
        \<or> try_from_slice (cursor_codec E) (dat s (address cursor)) = Some u \<and> own s (address cursor) = program)
     \<and> cc_active_checkpoint u = 0 \<and> s_last_settled_er_slot x < pc_er_slot args
     \<and> cc_latest_finalized_er_slot u < pc_er_slot args \<and> continues_root u (pc_previous_state_root args)
     \<and> address checkpoint = fst (find_checkpoint_pda E program (address session) (pc_er_slot args))
     \<and> (dat s (address checkpoint) = []
        \<or> (\<exists>old. try_from_slice (checkpoint_codec E) (dat s (address checkpoint)) = Some old \<and> reusable_terminal old u
             \<and> cp_er_slot old = pc_er_slot args \<and> cp_session old = address session))
     \<and> checked_add (clock_slot E) (pc_challenge_window_slots args) = Some deadline
     \<and> c = proposed_checkpoint args (address session) (address proposer) (clock_slot E) deadline
         (snd (find_checkpoint_pda E program (address session) (pc_er_slot args)))
     \<and> distinct [address session, address checkpoint, address cursor]
     \<and> try_from_slice (checkpoint_codec E) (dat s' (address checkpoint)) = Some c \<and> own s' (address checkpoint) = program
     \<and> try_from_slice (cursor_codec E) (dat s' (address cursor))
         = Some (u\<lparr>cc_active_checkpoint := address checkpoint, cc_active_er_slot := pc_er_slot args\<rparr>)
     \<and> own s' (address cursor) = program
     \<and> same_but {address checkpoint, address cursor} s s'
     \<and> (address proposer \<noteq> address checkpoint \<longrightarrow> (\<exists>rent. rent_minimum E 380 = Inr rent
          \<and> unat rent + unat CHECKPOINT_PROPOSER_BOND_LAMPORTS \<le> unat (lam s' (address checkpoint))))"
proof -
  let ?accs = "proposer # session # checkpoint # cursor # sys # rest"
  let ?k = "address checkpoint" and ?u = "address cursor" and ?s = "address session"
  let ?c = "\<lambda>deadline. proposed_checkpoint args ?s (address proposer) (clock_slot E) deadline
         (snd (find_checkpoint_pda E program ?s (pc_er_slot args)))"
  obtain x u t deadline v w where g: "is_signer proposer" "load_session E program ?s s = Inr x" "address proposer = s_validator x"
      "\<not> session_is_expired x (clock_slot E)" "0 < pc_step_count args" "pc_step_count args \<le> CANONICAL_CHECKPOINT_STEPS"
      "0 < pc_challenge_window_slots args" "pc_challenge_window_slots args \<le> MAX_CHALLENGE_WINDOW_SLOTS"
    and t: "load_or_create_cursor E program ?accs (address proposer) ?s ?u s = Inr (u, t)"
    and h: "cc_active_checkpoint u = 0" "s_last_settled_er_slot x < pc_er_slot args"
      "cc_latest_finalized_er_slot u < pc_er_slot args" "continues_root u (pc_previous_state_root args)"
      "?k = fst (find_checkpoint_pda E program ?s (pc_er_slot args))"
      "checked_add (clock_slot E) (pc_challenge_window_slots args) = Some deadline"
    and v: "fund_checkpoint E program ?accs (address proposer) ?s ?k (?c deadline) u t = Inr v"
    and w: "store_checkpoint E ?k (?c deadline) v = Inr w"
      "store_cursor E ?u (u\<lparr>cc_active_checkpoint := ?k, cc_active_er_slot := pc_er_slot args\<rparr>) w = Inr s'"
    using assms unfolding process_propose_checkpoint_versioned_def Let_def
    by (auto simp: ok_simps not_less word_neq_0_conv simp del: split_paired_Ex)
  note t' = load_or_create_cursor_effect [OF t] and v' = fund_checkpoint_effect [OF v]
  have tu: "try_from_slice (cursor_codec E) (dat t ?u) = Some u" "same_but {?u} s t" "own t ?u = program" using t' by blast+
  have vk: "same_but {?k} t v" "length (dat v ?k) = 380" using v' by blast+
  have parsed: "parse_session E (dat s ?s) = Inr x" by (rule load_parsed(1) [OF g(2)])
  have su: "?s \<noteq> ?u"
    using parse_session_length [OF parsed] t' cursor_c.try_from_sliceD(3) [of "dat t ?u" u] by auto
  have ku: "?k \<noteq> ?u"
    using t' v' cursor_c.try_from_sliceD(3) [of "dat t ?u" u] checkpoint_c.try_from_sliceD(3) [of "dat t ?k"] by auto
  have ks: "?k \<noteq> ?s"
    using parse_session_length [OF parsed] v' su same_butD(1) [of "{?u}" s t ?s] t'
      checkpoint_c.try_from_sliceD(3) [of "dat t ?k"] by auto
  have w': "w = set_dat ?k (ser (checkpoint_codec E) (?c deadline)) v"
    using w(1) store_checkpoint_sized [OF vk(2)] by simp
  moreover have "try_from_slice (cursor_codec E) (dat w ?u) = Some u"
    using tu(1) same_butD(1) [OF vk(1), of ?u] ku by (auto simp: w')
  ultimately have s': "s' = set_dat ?u (ser (cursor_codec E) (u\<lparr>cc_active_checkpoint := ?k, cc_active_er_slot := pc_er_slot args\<rparr>))
       (set_dat ?k (ser (checkpoint_codec E) (?c deadline)) v)"
    using w(2) store_cursor_over by simp
  have "same_but {?k, ?u} s v" by (rule same_but_trans [OF tu(2) vk(1)]) auto
  then have frame: "same_but {?k, ?u} s s'" unfolding s' by (intro same_but_set_dat) auto
  have dk: "dat t ?k = dat s ?k" using same_butD(1) [OF tu(2), of ?k] ku by simp
  have ou: "own s' ?u = program" using same_butD(2) [OF vk(1), of ?u] tu(3) ku by (simp add: s')
  have cu: "dat s ?u = [] \<and> u = new_cursor ?s (snd (find_checkpoint_cursor_pda E program ?s))
        \<or> try_from_slice (cursor_codec E) (dat s ?u) = Some u \<and> own s ?u = program" using t' by blast
  have old: "dat s ?k = [] \<or> (\<exists>old. try_from_slice (checkpoint_codec E) (dat s ?k) = Some old \<and> reusable_terminal old u
       \<and> cp_er_slot old = pc_er_slot args \<and> cp_session old = ?s)"
    using v' [unfolded dk proposed_checkpoint_sel] by blast
  have fund: "address proposer \<noteq> ?k \<longrightarrow> (\<exists>rent. rent_minimum E 380 = Inr rent
          \<and> unat rent + unat CHECKPOINT_PROPOSER_BOND_LAMPORTS \<le> unat (lam s' ?k))" using v' by (simp add: s')
  have out: "try_from_slice (checkpoint_codec E) (dat s' ?k) = Some (?c deadline)" "own s' ?k = program"
      "try_from_slice (cursor_codec E) (dat s' ?u) = Some (u\<lparr>cc_active_checkpoint := ?k, cc_active_er_slot := pc_er_slot args\<rparr>)"
    using ku v' by (simp_all add: s' cursor_c.try_from_slice_ser checkpoint_c.try_from_slice_ser)
  have "?u = fst (find_checkpoint_cursor_pda E program ?s)" "distinct [?s, ?k, ?u]" using t' su ku ks by auto
  with g h cu old fund out ou frame show ?thesis
    by (intro exI [of _ x] exI [of _ u] exI [of _ deadline] exI [of _ "?c deadline"] conjI) (assumption | rule refl)+
qed

lemma release_effect:
  assumes "release_checkpoint_bond E k proposer c s = Inr (c', t)"
  shows "proposer = cp_proposer c \<and> cp_bond_status c = Locked \<and> c' = c\<lparr>cp_bond_status := Released\<rparr>
     \<and> bond_moved k proposer (cp_bond_lamports c) s t"
proof -
  have "proposer = cp_proposer c" "resolve_checkpoint_bond E k proposer c Released s = Inr (c', t)"
    using assms unfolding release_checkpoint_bond_def guard_ok by auto
  with resolve_bond_effect [OF this(2)] show ?thesis by blast
qed

lemma commit_effect:
  assumes "process_commit_checkpoint_versioned E program (committer # session # checkpoint # cursor # proposer # rest) er_slot v2 s
     = Inr s'"
  shows "\<exists>x c u t. is_signer committer
     \<and> load_session E program (address session) s = Inr x
     \<and> load_checkpoint E program (address session) er_slot (address checkpoint) s = Inr c
     \<and> load_cursor E program (address session) (address cursor) s = Inr u
     \<and> cp_status c = Pending \<and> cp_challenge_deadline_l1_slot c \<le> clock_slot E
     \<and> s_last_settled_er_slot x < er_slot \<and> cc_latest_finalized_er_slot u < er_slot
     \<and> cc_active_checkpoint u = address checkpoint \<and> cc_active_er_slot u = er_slot
     \<and> continues_root u (cp_previous_state_root c)
     \<and> address proposer = cp_proposer c \<and> cp_bond_status c = Locked
     \<and> bond_moved (address checkpoint) (address proposer) (cp_bond_lamports c) s t
     \<and> s' = set_dat (address cursor) (ser (cursor_codec E) (u\<lparr>cc_latest_finalized_checkpoint := address checkpoint,
              cc_latest_finalized_er_slot := er_slot, cc_latest_finalized_state_root := cp_new_state_root c\<rparr>))
          (set_dat (address checkpoint) (ser (checkpoint_codec E) (c\<lparr>cp_status := Committed, cp_bond_status := Released\<rparr>)) t)"
proof -
  let ?k = "address checkpoint" and ?u = "address cursor" and ?s = "address session"
  obtain x c u c' t w where g: "is_signer committer" "load_session E program ?s s = Inr x"
      "load_checkpoint E program ?s er_slot ?k s = Inr c" "load_cursor E program ?s ?u s = Inr u"
      "cp_status c = Pending" "cp_challenge_deadline_l1_slot c \<le> clock_slot E"
      "s_last_settled_er_slot x < er_slot" "cc_latest_finalized_er_slot u < er_slot"
      "cc_active_checkpoint u = ?k" "cc_active_er_slot u = er_slot" "continues_root u (cp_previous_state_root c)"
    and t: "release_checkpoint_bond E ?k (address proposer) (c\<lparr>cp_status := Committed\<rparr>) s = Inr (c', t)"
    and w: "store_checkpoint E ?k c' t = Inr w"
      "store_cursor E ?u (u\<lparr>cc_latest_finalized_checkpoint := ?k, cc_latest_finalized_er_slot := er_slot,
          cc_latest_finalized_state_root := cp_new_state_root c'\<rparr>) w = Inr s'"
    using assms [unfolded process_commit_checkpoint_versioned_def Let_def de_Morgan_disj not_not,
        simplified rbind_ok guard_ok require_advancing_ok require_active_checkpoint_ok not_less, simplified, simplified rbind_ok]
    by (elim exE conjE) (rule that, assumption+)
  note t' = release_effect [OF t]
  have dt: "dat t j = dat s j" for j using t' bond_movedD(1) by blast
  have parsed: "parse_session E (dat s ?s) = Inr x" "try_from_slice (checkpoint_codec E) (dat s ?k) = Some c"
      "try_from_slice (cursor_codec E) (dat s ?u) = Some u"
    using load_parsed g(2-4) by blast+
  have w': "w = set_dat ?k (ser (checkpoint_codec E) c') t"
    using w(1) store_checkpoint_over [of t ?k c c'] parsed(2) dt by simp
  have "try_from_slice (cursor_codec E) (dat w ?u) = Some u"
    using stored_distinct [OF parsed] parsed(3) by (auto simp: w' dt)
  with w(2) store_cursor_over have "s' = set_dat ?u (ser (cursor_codec E) (u\<lparr>cc_latest_finalized_checkpoint := ?k,
      cc_latest_finalized_er_slot := er_slot, cc_latest_finalized_state_root := cp_new_state_root c'\<rparr>)) w" by simp
  then show ?thesis using g t' w'
    by (intro exI [of _ x] exI [of _ c] exI [of _ u] exI [of _ t] conjI) auto
qed

lemma cancel_effect:
  assumes "process_cancel_checkpoint E program (proposer # session # checkpoint # cursor # rest) er_slot s = Inr s'"
  shows "\<exists>x c u t. is_signer proposer
     \<and> load_session E program (address session) s = Inr x
     \<and> load_checkpoint E program (address session) er_slot (address checkpoint) s = Inr c
     \<and> load_cursor E program (address session) (address cursor) s = Inr u
     \<and> cp_status c = Pending \<and> clock_slot E < cp_challenge_deadline_l1_slot c
     \<and> cc_active_checkpoint u = address checkpoint \<and> cc_active_er_slot u = er_slot
     \<and> address proposer = cp_proposer c \<and> cp_bond_status c = Locked
     \<and> bond_moved (address checkpoint) (address proposer) (cp_bond_lamports c) s t
     \<and> s' = set_dat (address cursor) (ser (cursor_codec E) (clear_active_checkpoint u))
          (set_dat (address checkpoint) (ser (checkpoint_codec E) (c\<lparr>cp_status := Cancelled, cp_bond_status := Released\<rparr>)) t)"
proof -
  let ?k = "address checkpoint" and ?u = "address cursor" and ?s = "address session"
  obtain x c u c' t w where g: "is_signer proposer" "load_session E program ?s s = Inr x"
      "load_checkpoint E program ?s er_slot ?k s = Inr c" "load_cursor E program ?s ?u s = Inr u"
      "cp_status c = Pending" "clock_slot E < cp_challenge_deadline_l1_slot c"
      "cc_active_checkpoint u = ?k" "cc_active_er_slot u = er_slot"
    and t: "release_checkpoint_bond E ?k (address proposer) (c\<lparr>cp_status := Cancelled\<rparr>) s = Inr (c', t)"
    and w: "store_checkpoint E ?k c' t = Inr w" "store_cursor E ?u (clear_active_checkpoint u) w = Inr s'"
    using assms unfolding process_cancel_checkpoint_def Let_def
    by (auto simp: rbind_ok guard_ok require_active_checkpoint_ok not_le)
  note t' = release_effect [OF t]
  have dt: "dat t j = dat s j" for j using t' bond_movedD(1) by blast
  have parsed: "parse_session E (dat s ?s) = Inr x" "try_from_slice (checkpoint_codec E) (dat s ?k) = Some c"
      "try_from_slice (cursor_codec E) (dat s ?u) = Some u"
    using load_parsed g(2-4) by blast+
  have w': "w = set_dat ?k (ser (checkpoint_codec E) c') t"
    using w(1) store_checkpoint_over [of t ?k c c'] parsed(2) dt by simp
  have "try_from_slice (cursor_codec E) (dat w ?u) = Some u"
    using stored_distinct [OF parsed] parsed(3) by (auto simp: w' dt)
  with w(2) store_cursor_over have "s' = set_dat ?u (ser (cursor_codec E) (clear_active_checkpoint u)) w" by simp
  then show ?thesis using g t' w'
    by (intro exI [of _ x] exI [of _ c] exI [of _ u] exI [of _ t] conjI) auto
qed

end

end
