(* ===== verification/Portal_Challenge.thy ===== *)
theory Portal_Challenge
  imports Portal_Checkpoint
begin

text \<open>
  The challenge game of \<open>checkpoint.rs\<close>: \<open>OpenChallenge\<close>, \<open>RespondChallenge\<close>, \<open>BisectChallenge\<close> and
  \<open>TimeoutChallenge\<close>, with the Merkle authentication of the states the validator claims.  Validator
  and challenger halve the disputed interval of steps in turns until one step is left to prove;
  who misses a deadline loses.
\<close>

subsection \<open>Loads and deadlines\<close>

definition load_challenge :: "portal_env \<Rightarrow> pubkey \<Rightarrow> pubkey \<Rightarrow> pubkey \<Rightarrow> st \<Rightarrow> challenge res" where
  "load_challenge E program checkpoint k s =
     (if k \<noteq> fst (find_challenge_pda E program checkpoint) then Inl (Portal InvalidPdaSeeds)
      else if own s k \<noteq> program then Inl (Portal ChallengeStateInvalid)
      else rbind (load (challenge_codec E) ChallengeDeserializeFailed s k) (\<lambda>g.
      if \<not> challenge_is_valid g \<or> ch_checkpoint g \<noteq> checkpoint then Inl (Portal ChallengeStateInvalid) else Inr g))"

definition store_challenge :: "portal_env \<Rightarrow> pubkey \<Rightarrow> challenge \<Rightarrow> st \<Rightarrow> st res" where
  "store_challenge E k g s = store (challenge_codec E) g Panicked k s"

definition load_da_proof :: "portal_env \<Rightarrow> pubkey \<Rightarrow> pubkey \<Rightarrow> pubkey \<Rightarrow> pubkey \<Rightarrow> st \<Rightarrow> da_proof res" where
  "load_da_proof E program challenge checkpoint k s =
     (if k \<noteq> fst (find_da_proof_pda E program challenge) then Inl (Portal InvalidPdaSeeds)
      else if own s k \<noteq> program then Inl (Portal DataAvailabilityStateInvalid)
      else rbind (load (da_proof_codec E) DataAvailabilityDeserializeFailed s k) (\<lambda>d.
      if \<not> da_proof_is_valid d \<or> da_challenge d \<noteq> challenge \<or> da_checkpoint d \<noteq> checkpoint
      then Inl (Portal DataAvailabilityStateInvalid) else Inr d))"

definition store_da_proof :: "portal_env \<Rightarrow> pubkey \<Rightarrow> da_proof \<Rightarrow> st \<Rightarrow> st res" where
  "store_da_proof E k d s = store (da_proof_codec E) d Panicked k s"

definition next_turn_deadline :: "u64 \<Rightarrow> u64 \<Rightarrow> u64 res" where
  "next_turn_deadline current_slot hard_deadline =
     rbind (ok_or (checked_add current_slot CHALLENGE_TURN_WINDOW_SLOTS) (Portal ArithmeticOverflow)) (\<lambda>d.
     Inr (min d hard_deadline))"

definition require_live_turn :: "challenge \<Rightarrow> u64 \<Rightarrow> unit res" where
  "require_live_turn g current_slot =
     (if ch_status g \<noteq> Active then Inl (Portal ChallengeStateInvalid)
      else if current_slot \<ge> ch_turn_deadline_l1_slot g \<or> current_slot \<ge> ch_hard_deadline_l1_slot g
      then Inl (Portal CheckpointChallengeWindowClosed)
      else Inr ())"

subsection \<open>Authentication paths\<close>

text \<open>\<open>u32::next_power_of_two\<close> (0 when the power does not fit, as compiled without overflow checks) and
  \<open>u32::trailing_zeros\<close> (32 for 0).\<close>

definition next_power_of_two :: "u32 \<Rightarrow> u32" where
  "next_power_of_two w = of_nat (power_from 1 (unat w))"

definition trailing_zeros :: "u32 \<Rightarrow> nat" where
  "trailing_zeros w = (if w = 0 then 32 else zeros_below (unat w))"

definition checkpoint_domain :: bytes where "checkpoint_domain = ascii ''northstar-checkpoint-v1''"

definition checkpoint_node :: "hasher \<Rightarrow> bytes \<Rightarrow> nat \<Rightarrow> hash32 \<Rightarrow> hash32 \<Rightarrow> hash32" where
  "checkpoint_node hash kind level l r =
     hash [checkpoint_domain, kind, ascii ''node'', u32_le (of_nat level), key_bytes l, key_bytes r]"

definition checkpoint_root :: "hasher \<Rightarrow> bytes \<Rightarrow> u32 \<Rightarrow> hash32 \<Rightarrow> hash32" where
  "checkpoint_root hash kind leaf_count current =
     hash [checkpoint_domain, kind, ascii ''root'', u32_le leaf_count, key_bytes current]"

text \<open>The loop over the siblings, from the leaf up.\<close>

fun climb :: "hasher \<Rightarrow> bytes \<Rightarrow> nat \<Rightarrow> nat \<Rightarrow> hash32 list \<Rightarrow> hash32 \<Rightarrow> hash32" where
  "climb hash kind level index [] current = current"
| "climb hash kind level index (sibling # path) current =
     climb hash kind (Suc level) (index div 2) path
       (if even index then checkpoint_node hash kind level current sibling
        else checkpoint_node hash kind level sibling current)"

definition verify_trace_authentication_path ::
  "hasher \<Rightarrow> checkpoint \<Rightarrow> u64 \<Rightarrow> hash32 \<Rightarrow> u8 \<Rightarrow> hash32 list \<Rightarrow> bool res" where
  "verify_trace_authentication_path hash c state_index state_root path_len path =
     (let leaves = saturating_add (cp_step_count c) 1
      in if unat state_index \<ge> 2 ^ 32 \<or> unat leaves \<ge> 2 ^ 32 then Inr False
      else
      let leaf_count = ucast leaves :: u32;
          expected_depth = trailing_zeros (next_power_of_two (max leaf_count 1))
      in if state_index \<ge> leaves \<or> unat path_len \<noteq> expected_depth then Inr False
      else if expected_depth > length path then Inl Panicked
      else if list_ex (\<lambda>node. node \<noteq> 0) (drop expected_depth path) then Inr False
      else
      let leaf = hash [checkpoint_domain, ascii ''trace'', ascii ''leaf'', u64_le 36, u32_le (ucast state_index),
                   key_bytes state_root]
      in Inr (checkpoint_root hash (ascii ''trace'') leaf_count
               (climb hash (ascii ''trace'') 0 (unat state_index) (take expected_depth path) leaf) = cp_trace_root c))"

definition verify_tx_effect_authentication_path ::
  "hasher \<Rightarrow> checkpoint \<Rightarrow> u64 \<Rightarrow> hash32 \<Rightarrow> u8 \<Rightarrow> hash32 list \<Rightarrow> bool res" where
  "verify_tx_effect_authentication_path hash c step_index leaf path_len path =
     (if step_index \<ge> cp_step_count c \<or> unat (cp_step_count c) \<ge> 2 ^ 32 then Inr False
      else
      let leaf_count = ucast (cp_step_count c) :: u32;
          expected_depth = trailing_zeros (next_power_of_two (max leaf_count 1))
      in if unat path_len \<noteq> expected_depth then Inr False
      else if expected_depth > length path then Inl Panicked
      else if list_ex (\<lambda>node. node \<noteq> 0) (drop expected_depth path) then Inr False
      else Inr (checkpoint_root hash (ascii ''transaction-effect'') leaf_count
             (climb hash (ascii ''transaction-effect'') 0 (unat step_index) (take expected_depth path) leaf)
             = cp_tx_effect_root c))"

text \<open>The build without \<open>zk-verifier-bounded-vrf\<close>: every proof kind uses the authentication path.\<close>

definition verify_step_tx_effect_binding ::
  "hasher \<Rightarrow> checkpoint \<Rightarrow> u64 \<Rightarrow> u8 \<times> u8 \<Rightarrow> hash32 \<Rightarrow> u8 \<Rightarrow> hash32 list \<Rightarrow> bool res" where
  "verify_step_tx_effect_binding hash c step_index proof_selector leaf path_len path =
     verify_tx_effect_authentication_path hash c step_index leaf path_len path"

subsection \<open>Open\<close>

definition opened_challenge ::
  "pubkey \<Rightarrow> checkpoint \<Rightarrow> pubkey \<Rightarrow> pubkey \<Rightarrow> u64 \<Rightarrow> u64 \<Rightarrow> u8 \<Rightarrow> challenge" where
  "opened_challenge checkpoint c challenger respondent current_slot turn_deadline bump =
     \<lparr>ch_discriminator = challenge_DISCRIMINATOR, ch_checkpoint = checkpoint, ch_challenger = challenger,
      ch_respondent = respondent, ch_opened_at_l1_slot = current_slot,
      ch_hard_deadline_l1_slot = cp_challenge_deadline_l1_slot c, ch_turn_deadline_l1_slot = turn_deadline,
      ch_start_step = 0, ch_end_step = cp_step_count c, ch_midpoint_step = 0,
      ch_start_state_root = cp_previous_state_root c, ch_end_state_root = cp_new_state_root c,
      ch_midpoint_state_root = 0, ch_status = Active, ch_turn = Respondent, ch_rounds = 0, ch_bump = bump\<rparr>"

definition missing_da_proof :: "pubkey \<Rightarrow> pubkey \<Rightarrow> hash32 \<Rightarrow> u8 \<Rightarrow> da_proof" where
  "missing_da_proof challenge checkpoint da_root bump =
     \<lparr>da_discriminator = da_proof_DISCRIMINATOR, da_challenge = challenge, da_checkpoint = checkpoint,
      da_commitment = da_root, da_payload_root = 0, da_inclusion_proof_hash = 0, da_revealed_at_l1_slot = 0,
      da_status = Missing, da_bump = bump\<rparr>"

text \<open>The accounts of a new challenge are created, or finished ones are reused.\<close>

definition ensure_challenge ::
  "portal_env \<Rightarrow> pubkey \<Rightarrow> account_info list \<Rightarrow> pubkey \<Rightarrow> pubkey \<Rightarrow> pubkey \<Rightarrow> challenge \<Rightarrow> st \<Rightarrow> st res" where
  "ensure_challenge E program accs challenger checkpoint k g s =
     (let size = account_size (challenge_codec E) g
      in if dat s k = [] then
        rbind (rent_minimum E size) (\<lambda>amount.
        initialize_pda_account E program accs challenger k amount (of_nat size) program
          [ascii ''challenge'', key_bytes checkpoint, [ch_bump g]] s)
      else rbind (load_challenge E program checkpoint k s) (\<lambda>old.
        if ch_status old = Active then Inl (Portal CheckpointChallenged) else Inr s))"

definition ensure_da_proof ::
  "portal_env \<Rightarrow> pubkey \<Rightarrow> account_info list \<Rightarrow> pubkey \<Rightarrow> pubkey \<Rightarrow> da_proof \<Rightarrow> st \<Rightarrow> st res" where
  "ensure_da_proof E program accs challenger k d s =
     (let size = account_size (da_proof_codec E) d
      in if dat s k = [] then
        rbind (rent_minimum E size) (\<lambda>amount.
        initialize_pda_account E program accs challenger k amount (of_nat size) program
          [ascii ''da_proof'', key_bytes (da_challenge d), [da_bump d]] s)
      else rbind (load_da_proof E program (da_challenge d) (da_checkpoint d) k s) (\<lambda>_. Inr s))"

definition process_open_challenge :: "portal_env \<Rightarrow> pubkey \<Rightarrow> account_info list \<Rightarrow> u64 \<Rightarrow> st \<Rightarrow> st res" where
  "process_open_challenge E program accs er_slot s =
     (if length accs < 6 then Inl NotEnoughAccountKeys else
      let challenger = accs ! 0; session = address (accs ! 1); checkpoint = address (accs ! 2);
          challenge = address (accs ! 3); da_proof = address (accs ! 4); current_slot = clock_slot E
      in if \<not> is_signer challenger then Inl (Portal Unauthorized)
      else rbind (load_session E program session s) (\<lambda>x.
      rbind (load_checkpoint E program session er_slot checkpoint s) (\<lambda>c.
      if cp_status c \<noteq> Pending \<or> cp_challenge_resolved c then Inl (Portal CheckpointStateInvalid)
      else if current_slot \<ge> cp_challenge_deadline_l1_slot c then Inl (Portal CheckpointChallengeWindowClosed)
      else if challenge \<noteq> fst (find_challenge_pda E program checkpoint) then Inl (Portal InvalidPdaSeeds)
      else rbind (next_turn_deadline current_slot (cp_challenge_deadline_l1_slot c)) (\<lambda>turn_deadline.
      let g = opened_challenge checkpoint c (address challenger) (s_validator x) current_slot turn_deadline
                (snd (find_challenge_pda E program checkpoint))
      in rbind (ensure_challenge E program accs (address challenger) checkpoint challenge g s) (\<lambda>s.
      if da_proof \<noteq> fst (find_da_proof_pda E program challenge) then Inl (Portal InvalidPdaSeeds)
      else
      let d = missing_da_proof challenge checkpoint (cp_da_commitment c) (snd (find_da_proof_pda E program challenge))
      in rbind (ensure_da_proof E program accs (address challenger) da_proof d s) (\<lambda>s.
      rbind (store_challenge E challenge g s) (\<lambda>s.
      rbind (store_da_proof E da_proof d s) (\<lambda>s.
      store_checkpoint E checkpoint (c\<lparr>cp_status := Challenged, cp_challenger := address challenger,
        cp_challenged_at_l1_slot := current_slot\<rparr>) s))))))))"

subsection \<open>Respond\<close>

record respond_challenge =
  rp_er_slot :: u64
  rp_claimed_step :: u64
  rp_claimed_state_root :: hash32
  rp_trace_path_len :: u8
  rp_trace_path :: "hash32 list"
  rp_da_payload_root :: hash32
  rp_da_inclusion_proof_hash :: hash32

text \<open>The first response reveals the data; later ones repeat it.\<close>

definition reveal_da ::
  "portal_env \<Rightarrow> pubkey \<Rightarrow> da_proof \<Rightarrow> hash32 \<Rightarrow> hash32 \<Rightarrow> st \<Rightarrow> st res" where
  "reveal_da E k d payload_root inclusion_proof_hash s =
     (if da_status d = Missing then
        if payload_root \<noteq> da_commitment d \<or> inclusion_proof_hash = 0
        then Inl (Portal DataAvailabilityCommitmentMismatch)
        else store_da_proof E k (d\<lparr>da_payload_root := payload_root, da_inclusion_proof_hash := inclusion_proof_hash,
               da_revealed_at_l1_slot := clock_slot E, da_status := Revealed\<rparr>) s
      else if da_status d \<noteq> Revealed then Inl (Portal DataAvailabilityStateInvalid)
      else if payload_root \<noteq> da_payload_root d \<or> inclusion_proof_hash \<noteq> da_inclusion_proof_hash d
      then Inl (Portal DataAvailabilityCommitmentMismatch)
      else Inr s)"

text \<open>The claim of a response: the disputed step itself, or the state at the midpoint.\<close>

definition claim_step :: "hasher \<Rightarrow> checkpoint \<Rightarrow> challenge \<Rightarrow> respond_challenge \<Rightarrow> challenge res" where
  "claim_step hash c g args =
     rbind (ok_or (checked_sub (ch_end_step g) (ch_start_step g)) (Portal ChallengeResponseInvalid)) (\<lambda>width.
     if width = 0 then Inl (Portal ChallengeResponseInvalid)
     else if width = 1 then
       if rp_claimed_step args \<noteq> ch_start_step g \<or> rp_claimed_state_root args \<noteq> ch_end_state_root g
       then Inl (Portal ChallengeResponseInvalid)
       else Inr (g\<lparr>ch_turn := Prove\<rparr>)
     else
       rbind (ok_or (checked_add (ch_start_step g) (width div 2)) (Portal ArithmeticOverflow)) (\<lambda>midpoint.
       if rp_claimed_step args \<noteq> midpoint then Inl (Portal ChallengeResponseInvalid)
       else rbind (verify_trace_authentication_path hash c (rp_claimed_step args) (rp_claimed_state_root args)
              (rp_trace_path_len args) (rp_trace_path args)) (\<lambda>verified.
       if \<not> verified then Inl (Portal ChallengeResponseInvalid)
       else Inr (g\<lparr>ch_midpoint_step := midpoint, ch_midpoint_state_root := rp_claimed_state_root args,
              ch_turn := Challenger\<rparr>))))"

definition process_respond_challenge ::
  "portal_env \<Rightarrow> pubkey \<Rightarrow> account_info list \<Rightarrow> respond_challenge \<Rightarrow> st \<Rightarrow> st res" where
  "process_respond_challenge E program accs args s =
     (if length accs < 5 then Inl NotEnoughAccountKeys else
      let validator = accs ! 0; session = address (accs ! 1); checkpoint = address (accs ! 2);
          challenge = address (accs ! 3); da_proof = address (accs ! 4)
      in if \<not> is_signer validator then Inl (Portal Unauthorized)
      else rbind (load_session E program session s) (\<lambda>x.
      if address validator \<noteq> s_validator x then Inl (Portal Unauthorized)
      else rbind (load_checkpoint E program session (rp_er_slot args) checkpoint s) (\<lambda>c.
      if cp_status c \<noteq> Challenged then Inl (Portal CheckpointStateInvalid)
      else rbind (load_challenge E program checkpoint challenge s) (\<lambda>g.
      rbind (require_live_turn g (clock_slot E)) (\<lambda>_.
      if ch_turn g \<noteq> Respondent \<or> address validator \<noteq> ch_respondent g then Inl (Portal ChallengeTurnInvalid)
      else rbind (load_da_proof E program challenge checkpoint da_proof s) (\<lambda>d.
      rbind (reveal_da E da_proof d (rp_da_payload_root args) (rp_da_inclusion_proof_hash args) s) (\<lambda>s.
      rbind (claim_step (hashv E) c g args) (\<lambda>g.
      rbind (next_turn_deadline (clock_slot E) (ch_hard_deadline_l1_slot g)) (\<lambda>deadline.
      store_challenge E challenge (g\<lparr>ch_turn_deadline_l1_slot := deadline\<rparr>) s)))))))))"

subsection \<open>Bisect\<close>

definition bisect_interval :: "challenge \<Rightarrow> bool \<Rightarrow> challenge" where
  "bisect_interval g dispute_upper =
     (if dispute_upper then g\<lparr>ch_start_step := ch_midpoint_step g, ch_start_state_root := ch_midpoint_state_root g\<rparr>
      else g\<lparr>ch_end_step := ch_midpoint_step g, ch_end_state_root := ch_midpoint_state_root g\<rparr>)
     \<lparr>ch_midpoint_step := 0, ch_midpoint_state_root := 0, ch_turn := Respondent\<rparr>"

definition process_bisect_challenge ::
  "portal_env \<Rightarrow> pubkey \<Rightarrow> account_info list \<Rightarrow> u64 \<Rightarrow> bool \<Rightarrow> st \<Rightarrow> st res" where
  "process_bisect_challenge E program accs er_slot dispute_upper s =
     (if length accs < 4 then Inl NotEnoughAccountKeys else
      let challenger = accs ! 0; session = address (accs ! 1); checkpoint = address (accs ! 2); challenge = address (accs ! 3)
      in if \<not> is_signer challenger then Inl (Portal Unauthorized)
      else rbind (load_session E program session s) (\<lambda>_.
      rbind (load_checkpoint E program session er_slot checkpoint s) (\<lambda>c.
      if cp_status c \<noteq> Challenged then Inl (Portal CheckpointStateInvalid)
      else rbind (load_challenge E program checkpoint challenge s) (\<lambda>g.
      rbind (require_live_turn g (clock_slot E)) (\<lambda>_.
      if ch_turn g \<noteq> Challenger \<or> address challenger \<noteq> ch_challenger g then Inl (Portal ChallengeTurnInvalid)
      else if ch_midpoint_step g \<le> ch_start_step g \<or> ch_midpoint_step g \<ge> ch_end_step g
      then Inl (Portal ChallengeResponseInvalid)
      else rbind (ok_or (checked_add (ch_rounds g) 1) (Portal ArithmeticOverflow)) (\<lambda>rounds.
      rbind (next_turn_deadline (clock_slot E) (ch_hard_deadline_l1_slot g)) (\<lambda>deadline.
      store_challenge E challenge
        ((bisect_interval g dispute_upper)\<lparr>ch_rounds := rounds, ch_turn_deadline_l1_slot := deadline\<rparr>) s)))))))"

subsection \<open>Timeout\<close>

text \<open>The respondent missed its turn: the bond goes to the challenger.\<close>

definition default_respondent ::
  "portal_env \<Rightarrow> pubkey \<Rightarrow> pubkey \<Rightarrow> pubkey \<Rightarrow> pubkey \<Rightarrow> pubkey \<Rightarrow> checkpoint \<Rightarrow> challenge \<Rightarrow> da_proof \<Rightarrow> cursor \<Rightarrow> st \<Rightarrow> st res" where
  "default_respondent E checkpoint challenge da_proof bond_recipient cursor c g d u s =
     rbind (if da_status d = Missing then store_da_proof E da_proof (d\<lparr>da_status := Defaulted\<rparr>) s else Inr s) (\<lambda>s.
     rbind (slash_checkpoint_bond E checkpoint bond_recipient c s) (\<lambda>(c, s).
     rbind (store_cursor E cursor (clear_active_checkpoint u) s) (\<lambda>s.
     rbind (store_checkpoint E checkpoint (c\<lparr>cp_status := Invalid, cp_challenge_resolved := True\<rparr>) s) (\<lambda>s.
     store_challenge E challenge (g\<lparr>ch_status := ChallengerWon\<rparr>) s))))"

text \<open>The challenger lost: the checkpoint is pending again and cannot be challenged a second time.\<close>

definition default_challenger ::
  "portal_env \<Rightarrow> pubkey \<Rightarrow> pubkey \<Rightarrow> checkpoint \<Rightarrow> challenge \<Rightarrow> st \<Rightarrow> st res" where
  "default_challenger E checkpoint challenge c g s =
     rbind (store_checkpoint E checkpoint (c\<lparr>cp_status := Pending, cp_challenge_resolved := True\<rparr>) s) (\<lambda>s.
     store_challenge E challenge (g\<lparr>ch_status := ValidatorWon\<rparr>) s)"

definition process_timeout_challenge :: "portal_env \<Rightarrow> pubkey \<Rightarrow> account_info list \<Rightarrow> u64 \<Rightarrow> st \<Rightarrow> st res" where
  "process_timeout_challenge E program accs er_slot s =
     (if length accs < 7 then Inl NotEnoughAccountKeys else
      let caller = accs ! 0; session = address (accs ! 1); checkpoint = address (accs ! 2); challenge = address (accs ! 3);
          da_proof = address (accs ! 4); bond_recipient = address (accs ! 5); cursor = address (accs ! 6)
      in if \<not> is_signer caller then Inl (Portal Unauthorized)
      else rbind (load_session E program session s) (\<lambda>_.
      rbind (load_checkpoint E program session er_slot checkpoint s) (\<lambda>c.
      if cp_status c \<noteq> Challenged then Inl (Portal CheckpointStateInvalid)
      else rbind (load_challenge E program checkpoint challenge s) (\<lambda>g.
      if ch_status g \<noteq> Active then Inl (Portal ChallengeStateInvalid)
      else if clock_slot E < ch_turn_deadline_l1_slot g \<and> clock_slot E < ch_hard_deadline_l1_slot g
      then Inl (Portal ChallengeDeadlineNotReached)
      else if bond_recipient \<noteq> ch_challenger g then Inl (Portal Unauthorized)
      else rbind (load_cursor E program session cursor s) (\<lambda>u.
      rbind (require_active_checkpoint u checkpoint er_slot) (\<lambda>_.
      rbind (load_da_proof E program challenge checkpoint da_proof s) (\<lambda>d.
      if ch_turn g = Respondent
      then default_respondent E checkpoint challenge da_proof bond_recipient cursor c g d u s
      else default_challenger E checkpoint challenge c g s)))))))"

subsection \<open>What the shared steps do\<close>

lemma next_turn_deadline_ok [ok_simps]:
  "next_turn_deadline current hard = Inr d \<longleftrightarrow>
     (\<exists>e. checked_add current CHALLENGE_TURN_WINDOW_SLOTS = Some e \<and> d = min e hard)"
  by (auto simp: next_turn_deadline_def ok_simps)

lemma require_live_turn_ok [ok_simps]:
  "require_live_turn g slot = Inr z \<longleftrightarrow>
     ch_status g = Active \<and> slot < ch_turn_deadline_l1_slot g \<and> slot < ch_hard_deadline_l1_slot g"
  by (auto simp: require_live_turn_def)

context portal_codecs
begin

lemma load_challenge_ok [ok_simps]:
  "load_challenge E program checkpoint k s = Inr g \<longleftrightarrow>
     k = fst (find_challenge_pda E program checkpoint) \<and> own s k = program
     \<and> try_from_slice (challenge_codec E) (dat s k) = Some g \<and> challenge_is_valid g \<and> ch_checkpoint g = checkpoint"
  by (auto simp: load_challenge_def ok_simps)

lemma load_da_proof_ok [ok_simps]:
  "load_da_proof E program challenge checkpoint k s = Inr d \<longleftrightarrow>
     k = fst (find_da_proof_pda E program challenge) \<and> own s k = program
     \<and> try_from_slice (da_proof_codec E) (dat s k) = Some d \<and> da_proof_is_valid d
     \<and> da_challenge d = challenge \<and> da_checkpoint d = checkpoint"
  by (auto simp: load_da_proof_def ok_simps)

lemma load_game_parsed:
  "load_challenge E program checkpoint k s = Inr g \<Longrightarrow> try_from_slice (challenge_codec E) (dat s k) = Some g"
  "load_da_proof E program challenge checkpoint j s = Inr d \<Longrightarrow> try_from_slice (da_proof_codec E) (dat s j) = Some d"
  unfolding load_challenge_ok load_da_proof_ok by blast+

lemma store_challenge_sized:
  "length (dat s k) = 255 \<Longrightarrow> store_challenge E k g s = Inr (set_dat k (ser (challenge_codec E) g) s)"
  by (simp add: store_challenge_def store_def challenge_c.write_slice_exact)

lemma store_da_proof_sized:
  "length (dat s k) = 178 \<Longrightarrow> store_da_proof E k d s = Inr (set_dat k (ser (da_proof_codec E) d) s)"
  by (simp add: store_da_proof_def store_def da_proof_c.write_slice_exact)

lemma store_cursor_sized:
  "length (dat s k) = 153 \<Longrightarrow> store_cursor E k u s = Inr (set_dat k (ser (cursor_codec E) u) s)"
  by (simp add: store_cursor_def store_def cursor_c.write_slice_exact)

lemmas stores_sized = store_checkpoint_sized store_challenge_sized store_da_proof_sized store_cursor_sized

lemmas parsed_length = checkpoint_c.try_from_sliceD(3) cursor_c.try_from_sliceD(3)
  challenge_c.try_from_sliceD(3) da_proof_c.try_from_sliceD(3)

lemmas ser_lengths = checkpoint_c.ser_length cursor_c.ser_length challenge_c.ser_length da_proof_c.ser_length

lemmas ser_parsed = checkpoint_c.try_from_slice_ser cursor_c.try_from_slice_ser
  challenge_c.try_from_slice_ser da_proof_c.try_from_slice_ser

lemma ensure_challenge_effect:
  assumes "ensure_challenge E program accs challenger checkpoint k g s = Inr t"
  shows "same_but {k} s t \<and> own t k = program \<and> length (dat t k) = 255
     \<and> (dat s k = [] \<or> (\<exists>old. load_challenge E program checkpoint k s = Inr old \<and> ch_status old \<noteq> Active))"
proof (cases "dat s k = []")
  case True
  then obtain amount seeds where init:
      "initialize_pda_account E program accs challenger k amount (of_nat 255) program seeds s = Inr t"
    using assms by (auto simp: ensure_challenge_def ok_simps Let_def challenge_c.account_size_eq)
  from initialize_created [OF init] have cr: "created_at program k (replicate 255 0) s t" by simp
  show ?thesis using True initialize_same_but [OF init] created_atD(2,3) [OF cr, of k] by simp
next
  case False
  then obtain old where "load_challenge E program checkpoint k s = Inr old" "ch_status old \<noteq> Active" "t = s"
    using assms by (auto simp: ensure_challenge_def rbind_ok guard_ok Let_def)
  then show ?thesis using parsed_length(3) by (auto simp: load_challenge_ok)
qed

lemma ensure_da_proof_effect:
  assumes "ensure_da_proof E program accs challenger k d s = Inr t"
  shows "same_but {k} s t \<and> own t k = program \<and> length (dat t k) = 178 \<and> (dat s k = [] \<or> length (dat s k) = 178)"
proof (cases "dat s k = []")
  case True
  then obtain amount seeds where init:
      "initialize_pda_account E program accs challenger k amount (of_nat 178) program seeds s = Inr t"
    using assms by (auto simp: ensure_da_proof_def ok_simps Let_def da_proof_c.account_size_eq)
  from initialize_created [OF init] have cr: "created_at program k (replicate 178 0) s t" by simp
  show ?thesis using True initialize_same_but [OF init] created_atD(2,3) [OF cr, of k] by simp
next
  case False
  then show ?thesis using assms parsed_length(4) by (auto simp: ensure_da_proof_def ok_simps Let_def)
qed

lemma open_challenge_effect:
  assumes "process_open_challenge E program (challenger # session # checkpoint # challenge # da # sys # rest) er_slot s = Inr s'"
  shows "\<exists>x c turn_deadline. is_signer challenger
     \<and> load_session E program (address session) s = Inr x
     \<and> load_checkpoint E program (address session) er_slot (address checkpoint) s = Inr c
     \<and> cp_status c = Pending \<and> \<not> cp_challenge_resolved c \<and> clock_slot E < cp_challenge_deadline_l1_slot c
     \<and> next_turn_deadline (clock_slot E) (cp_challenge_deadline_l1_slot c) = Inr turn_deadline
     \<and> address challenge = fst (find_challenge_pda E program (address checkpoint))
     \<and> address da = fst (find_da_proof_pda E program (address challenge))
     \<and> distinct [address session, address checkpoint, address challenge, address da]
     \<and> try_from_slice (challenge_codec E) (dat s' (address challenge)) = Some (opened_challenge (address checkpoint) c
         (address challenger) (s_validator x) (clock_slot E) turn_deadline (snd (find_challenge_pda E program (address checkpoint))))
     \<and> try_from_slice (da_proof_codec E) (dat s' (address da)) = Some (missing_da_proof (address challenge) (address checkpoint)
         (cp_da_commitment c) (snd (find_da_proof_pda E program (address challenge))))
     \<and> try_from_slice (checkpoint_codec E) (dat s' (address checkpoint)) = Some (c\<lparr>cp_status := Challenged,
         cp_challenger := address challenger, cp_challenged_at_l1_slot := clock_slot E\<rparr>)
     \<and> own s' (address challenge) = program \<and> own s' (address da) = program \<and> own s' (address checkpoint) = program
     \<and> (dat s (address challenge) = [] \<or> (\<exists>old. load_challenge E program (address checkpoint) (address challenge) s = Inr old
          \<and> ch_status old \<noteq> Active))
     \<and> (dat s (address da) = [] \<or> length (dat s (address da)) = 178)
     \<and> same_but {address checkpoint, address challenge, address da} s s'"
proof -
  let ?accs = "challenger # session # checkpoint # challenge # da # sys # rest"
  let ?s = "address session" and ?k = "address checkpoint" and ?g = "address challenge" and ?d = "address da"
  let ?G = "\<lambda>x c turn. opened_challenge ?k c (address challenger) (s_validator x) (clock_slot E) turn
      (snd (find_challenge_pda E program ?k))"
  let ?D = "\<lambda>c. missing_da_proof ?g ?k (cp_da_commitment c) (snd (find_da_proof_pda E program ?g))"
  obtain x c turn t v w y where g: "is_signer challenger" "load_session E program ?s s = Inr x"
      "load_checkpoint E program ?s er_slot ?k s = Inr c" "cp_status c = Pending" "\<not> cp_challenge_resolved c"
      "clock_slot E < cp_challenge_deadline_l1_slot c" "?g = fst (find_challenge_pda E program ?k)"
      "next_turn_deadline (clock_slot E) (cp_challenge_deadline_l1_slot c) = Inr turn"
      "?d = fst (find_da_proof_pda E program ?g)"
    and t: "ensure_challenge E program ?accs (address challenger) ?k ?g (?G x c turn) s = Inr t"
    and v: "ensure_da_proof E program ?accs (address challenger) ?d (?D c) t = Inr v"
    and w: "store_challenge E ?g (?G x c turn) v = Inr w" and y: "store_da_proof E ?d (?D c) w = Inr y"
    and z: "store_checkpoint E ?k (c\<lparr>cp_status := Challenged, cp_challenger := address challenger,
        cp_challenged_at_l1_slot := clock_slot E\<rparr>) y = Inr s'"
    using assms [unfolded process_open_challenge_def Let_def de_Morgan_disj not_not,
        simplified rbind_ok guard_ok not_le, simplified, simplified rbind_ok]
    by (elim exE conjE) (rule that, assumption+)
  have t': "same_but {?g} s t" "own t ?g = program" "length (dat t ?g) = 255" "dat s ?g = [] \<or> length (dat s ?g) = 255"
    and old: "dat s ?g = [] \<or> (\<exists>old. load_challenge E program ?k ?g s = Inr old \<and> ch_status old \<noteq> Active)"
    using ensure_challenge_effect [OF t] load_game_parsed(1) parsed_length(3) by blast+
  have v': "same_but {?d} t v" "own v ?d = program" "length (dat v ?d) = 178" "dat t ?d = [] \<or> length (dat t ?d) = 178"
    using ensure_da_proof_effect [OF v] by blast+
  have ls: "length (dat s ?s) = 226 \<or> length (dat s ?s) = 378" by (rule parse_session_length [OF load_parsed(1) [OF g(2)]])
  have lk: "length (dat s ?k) = 380" by (rule parsed_length(1) [OF load_parsed(2) [OF g(3)]])
  have n1: "?s \<noteq> ?k" "?s \<noteq> ?g" "?k \<noteq> ?g" using ls lk t'(4) by auto
  have lt: "dat t ?s = dat s ?s" "dat t ?k = dat s ?k" using same_butD(1) [OF t'(1)] n1 by auto
  have n2: "?d \<noteq> ?s" "?d \<noteq> ?k" "?d \<noteq> ?g" using lt ls lk t'(3) v'(4) by auto
  have lv: "length (dat v ?g) = 255" "length (dat v ?k) = 380" "own v ?g = program" "own v ?k = own s ?k"
    using same_butD(1,2) [OF v'(1)] same_butD(2) [OF t'(1)] n1 n2 t' lt lk by auto
  have s': "s' = set_dat ?k (ser (checkpoint_codec E) (c\<lparr>cp_status := Challenged, cp_challenger := address challenger,
        cp_challenged_at_l1_slot := clock_slot E\<rparr>)) (set_dat ?d (ser (da_proof_codec E) (?D c))
        (set_dat ?g (ser (challenge_codec E) (?G x c turn)) v))"
    using w y z n1 n2 lv v'(3) by (auto simp: stores_sized)
  have "same_but {?k, ?g, ?d} s v" by (rule same_but_trans [OF t'(1) v'(1)]) auto
  then have frame: "same_but {?k, ?g, ?d} s s'" unfolding s' by (intro same_but_set_dat) auto
  have "own s ?k = program" using g(3) unfolding load_checkpoint_ok by blast
  moreover have "dat t ?d = dat s ?d" using same_butD(1) [OF t'(1)] n2 by auto
  with v'(4) have "dat s ?d = [] \<or> length (dat s ?d) = 178" by simp
  ultimately show ?thesis
    using g old frame n1 n2 lv(3,4) v'(2)
    by (intro exI [of _ x] exI [of _ c] exI [of _ turn] conjI) (auto simp: s' ser_parsed)
qed

lemma reveal_da_effect:
  assumes "reveal_da E k d payload inclusion s = Inr t" "try_from_slice (da_proof_codec E) (dat s k) = Some d"
  shows "\<exists>d'. t = set_dat k (ser (da_proof_codec E) d') s \<and> da_status d' = Revealed
     \<and> da_payload_root d' = payload \<and> da_inclusion_proof_hash d' = inclusion
     \<and> (da_status d = Missing \<and> payload = da_commitment d \<or> da_status d = Revealed \<and> d' = d)
     \<and> da_commitment d' = da_commitment d \<and> da_challenge d' = da_challenge d \<and> da_checkpoint d' = da_checkpoint d"
proof (cases "da_status d = Missing")
  case True
  then show ?thesis
    using assms parsed_length(4) [OF assms(2)] by (auto simp: reveal_da_def ok_simps stores_sized)
next
  case False
  then have "t = s" "da_status d = Revealed" "payload = da_payload_root d" "inclusion = da_inclusion_proof_hash d"
    using assms(1) by (auto simp: reveal_da_def guard_ok)
  moreover have "set_dat k (ser (da_proof_codec E) d) s = s"
    using assms(2) by (intro st_eqI acct_eqI) (auto simp: da_proof_c.try_from_slice_iff)
  ultimately show ?thesis by (intro exI [of _ d]) auto
qed

text \<open>What an accepted claim is: the isolated step, or the midpoint with the state that the checkpoint's trace
  root authenticates there.\<close>

lemma claim_step_cases:
  assumes "claim_step hash c g args = Inr g'"
  shows "ch_start_step g < ch_end_step g \<and>
     (ch_end_step g - ch_start_step g = 1 \<and> g' = g\<lparr>ch_turn := Prove\<rparr> \<and> rp_claimed_step args = ch_start_step g
        \<and> rp_claimed_state_root args = ch_end_state_root g
      \<or> (let m = ch_start_step g + (ch_end_step g - ch_start_step g) div 2
         in ch_start_step g < m \<and> m < ch_end_step g \<and> rp_claimed_step args = m
          \<and> verify_trace_authentication_path hash c m (rp_claimed_state_root args) (rp_trace_path_len args) (rp_trace_path args)
              = Inr True
          \<and> g' = g\<lparr>ch_midpoint_step := m, ch_midpoint_state_root := rp_claimed_state_root args, ch_turn := Challenger\<rparr>))"
proof -
  obtain w where w: "checked_sub (ch_end_step g) (ch_start_step g) = Some w" "w \<noteq> 0"
    and k: "(if w = 1 then if rp_claimed_step args \<noteq> ch_start_step g \<or> rp_claimed_state_root args \<noteq> ch_end_state_root g
       then Inl (Portal ChallengeResponseInvalid) else Inr (g\<lparr>ch_turn := Prove\<rparr>)
     else rbind (ok_or (checked_add (ch_start_step g) (w div 2)) (Portal ArithmeticOverflow)) (\<lambda>midpoint.
       if rp_claimed_step args \<noteq> midpoint then Inl (Portal ChallengeResponseInvalid)
       else rbind (verify_trace_authentication_path hash c (rp_claimed_step args) (rp_claimed_state_root args)
              (rp_trace_path_len args) (rp_trace_path args)) (\<lambda>verified.
       if \<not> verified then Inl (Portal ChallengeResponseInvalid)
       else Inr (g\<lparr>ch_midpoint_step := midpoint, ch_midpoint_state_root := rp_claimed_state_root args,
              ch_turn := Challenger\<rparr>)))) = Inr g'"
    using assms unfolding claim_step_def by (auto simp: rbind_ok ok_or_ok guard_ok)
  have n: "unat (ch_end_step g) = unat (ch_start_step g) + unat w" using w(1) by (simp add: checked_sub_Some_iff)
  have w': "w = ch_end_step g - ch_start_step g" using w(1) by (auto simp: checked_sub_def split: if_splits)
  have pos: "0 < unat w" using w(2) by (simp add: unat_gt_0)
  then have lt: "ch_start_step g < ch_end_step g" using n by (simp add: word_less_nat_alt)
  show ?thesis
  proof (cases "w = 1")
    case True
    then show ?thesis using k lt w' by (auto simp: guard_ok)
  next
    case False
    then have "unat w \<noteq> 1" by (simp add: word_unat_eq_iff)
    with pos have half: "0 < unat w div 2" "unat w div 2 < unat w" by auto
    obtain m where m: "checked_add (ch_start_step g) (w div 2) = Some m" "rp_claimed_step args = m"
        "verify_trace_authentication_path hash c m (rp_claimed_state_root args) (rp_trace_path_len args) (rp_trace_path args) = Inr True"
        "g' = g\<lparr>ch_midpoint_step := m, ch_midpoint_state_root := rp_claimed_state_root args, ch_turn := Challenger\<rparr>"
      using k False by (auto simp: rbind_ok ok_or_ok guard_ok)
    have um: "unat m = unat (ch_start_step g) + unat w div 2" using m(1) by (simp add: checked_add_Some_iff unat_div)
    have "m = ch_start_step g + w div 2" using m(1) by (auto simp: checked_add_def split: if_splits)
    moreover have "ch_start_step g < m" "m < ch_end_step g" using um half n by (auto simp: word_less_nat_alt)
    ultimately show ?thesis using m(2-4) lt w' by (simp add: Let_def)
  qed
qed

lemma respond_effect:
  assumes "process_respond_challenge E program (validator # session # checkpoint # challenge # da # rest) args s = Inr s'"
  shows "\<exists>x c g d d' g' deadline. is_signer validator \<and> load_session E program (address session) s = Inr x
     \<and> address validator = s_validator x
     \<and> load_checkpoint E program (address session) (rp_er_slot args) (address checkpoint) s = Inr c \<and> cp_status c = Challenged
     \<and> load_challenge E program (address checkpoint) (address challenge) s = Inr g \<and> ch_status g = Active
     \<and> clock_slot E < ch_turn_deadline_l1_slot g \<and> clock_slot E < ch_hard_deadline_l1_slot g
     \<and> ch_turn g = Respondent \<and> address validator = ch_respondent g
     \<and> load_da_proof E program (address challenge) (address checkpoint) (address da) s = Inr d
     \<and> (da_status d = Missing \<and> rp_da_payload_root args = da_commitment d \<or> da_status d = Revealed \<and> d' = d)
     \<and> da_status d' = Revealed \<and> da_payload_root d' = rp_da_payload_root args
     \<and> claim_step (hashv E) c g args = Inr g'
     \<and> next_turn_deadline (clock_slot E) (ch_hard_deadline_l1_slot g) = Inr deadline
     \<and> distinct [address session, address checkpoint, address challenge, address da]
     \<and> s' = set_dat (address challenge) (ser (challenge_codec E) (g'\<lparr>ch_turn_deadline_l1_slot := deadline\<rparr>))
              (set_dat (address da) (ser (da_proof_codec E) d') s)"
proof -
  let ?s = "address session" and ?k = "address checkpoint" and ?g = "address challenge" and ?d = "address da"
  obtain x c g d t g' deadline where h: "is_signer validator" "load_session E program ?s s = Inr x" "address validator = s_validator x"
      "load_checkpoint E program ?s (rp_er_slot args) ?k s = Inr c" "cp_status c = Challenged"
      "load_challenge E program ?k ?g s = Inr g" "ch_status g = Active" "clock_slot E < ch_turn_deadline_l1_slot g"
      "clock_slot E < ch_hard_deadline_l1_slot g" "ch_turn g = Respondent" "address validator = ch_respondent g"
      "load_da_proof E program ?g ?k ?d s = Inr d"
    and t: "reveal_da E ?d d (rp_da_payload_root args) (rp_da_inclusion_proof_hash args) s = Inr t"
    and g': "claim_step (hashv E) c g args = Inr g'"
      "next_turn_deadline (clock_slot E) (ch_hard_deadline_l1_slot g') = Inr deadline"
    and fin: "store_challenge E ?g (g'\<lparr>ch_turn_deadline_l1_slot := deadline\<rparr>) t = Inr s'"
    using assms [unfolded process_respond_challenge_def Let_def de_Morgan_disj not_not,
        simplified rbind_ok guard_ok require_live_turn_ok not_le, simplified, simplified rbind_ok]
    by (elim exE conjE) (rule that, assumption+)
  obtain d' where d': "t = set_dat ?d (ser (da_proof_codec E) d') s" "da_status d' = Revealed" "da_payload_root d' = rp_da_payload_root args"
      "da_status d = Missing \<and> rp_da_payload_root args = da_commitment d \<or> da_status d = Revealed \<and> d' = d"
    using reveal_da_effect [OF t load_game_parsed(2) [OF h(12)]] by blast
  have l: "length (dat s ?s) = 226 \<or> length (dat s ?s) = 378" "length (dat s ?k) = 380" "length (dat s ?g) = 255"
      "length (dat s ?d) = 178"
    using parse_session_length [OF load_parsed(1) [OF h(2)]] parsed_length(1) [OF load_parsed(2) [OF h(4)]]
      parsed_length(3) [OF load_game_parsed(1) [OF h(6)]] parsed_length(4) [OF load_game_parsed(2) [OF h(12)]] by blast+
  then have dist: "distinct [?s, ?k, ?g, ?d]" by auto
  then have "s' = set_dat ?g (ser (challenge_codec E) (g'\<lparr>ch_turn_deadline_l1_slot := deadline\<rparr>))
              (set_dat ?d (ser (da_proof_codec E) d') s)"
    using fin l by (auto simp: d'(1) store_challenge_sized)
  moreover have "ch_hard_deadline_l1_slot g' = ch_hard_deadline_l1_slot g"
    using claim_step_cases [OF g'(1)] by (auto simp: Let_def)
  ultimately show ?thesis using h d' g' dist by (intro exI conjI) (assumption | simp)+
qed

lemma bisect_effect:
  assumes "process_bisect_challenge E program (challenger # session # checkpoint # challenge # rest) er_slot upper s = Inr s'"
  shows "\<exists>x c g rounds deadline. is_signer challenger \<and> load_session E program (address session) s = Inr x
     \<and> load_checkpoint E program (address session) er_slot (address checkpoint) s = Inr c \<and> cp_status c = Challenged
     \<and> load_challenge E program (address checkpoint) (address challenge) s = Inr g \<and> ch_status g = Active
     \<and> clock_slot E < ch_turn_deadline_l1_slot g \<and> clock_slot E < ch_hard_deadline_l1_slot g
     \<and> ch_turn g = Challenger \<and> address challenger = ch_challenger g
     \<and> ch_start_step g < ch_midpoint_step g \<and> ch_midpoint_step g < ch_end_step g
     \<and> checked_add (ch_rounds g) 1 = Some rounds
     \<and> next_turn_deadline (clock_slot E) (ch_hard_deadline_l1_slot g) = Inr deadline
     \<and> s' = set_dat (address challenge) (ser (challenge_codec E)
         ((bisect_interval g upper)\<lparr>ch_rounds := rounds, ch_turn_deadline_l1_slot := deadline\<rparr>)) s"
proof -
  let ?s = "address session" and ?k = "address checkpoint" and ?g = "address challenge"
  obtain x c g rounds deadline where h: "is_signer challenger" "load_session E program ?s s = Inr x"
      "load_checkpoint E program ?s er_slot ?k s = Inr c" "cp_status c = Challenged"
      "load_challenge E program ?k ?g s = Inr g" "ch_status g = Active" "clock_slot E < ch_turn_deadline_l1_slot g"
      "clock_slot E < ch_hard_deadline_l1_slot g" "ch_turn g = Challenger" "address challenger = ch_challenger g"
      "ch_start_step g < ch_midpoint_step g" "ch_midpoint_step g < ch_end_step g"
      "checked_add (ch_rounds g) 1 = Some rounds" "next_turn_deadline (clock_slot E) (ch_hard_deadline_l1_slot g) = Inr deadline"
    and fin: "store_challenge E ?g ((bisect_interval g upper)\<lparr>ch_rounds := rounds, ch_turn_deadline_l1_slot := deadline\<rparr>) s = Inr s'"
    using assms [unfolded process_bisect_challenge_def Let_def de_Morgan_disj not_not,
        simplified rbind_ok guard_ok ok_or_ok require_live_turn_ok not_le, simplified, simplified not_le]
    by (elim exE conjE) (rule that, assumption+)
  have "s' = set_dat ?g (ser (challenge_codec E)
         ((bisect_interval g upper)\<lparr>ch_rounds := rounds, ch_turn_deadline_l1_slot := deadline\<rparr>)) s"
    using fin parsed_length(3) [OF load_game_parsed(1) [OF h(5)]] by (simp add: store_challenge_sized)
  with h show ?thesis by (intro exI conjI) assumption+
qed

lemma default_challenger_effect:
  assumes "default_challenger E k g c ch s = Inr s'" "length (dat s k) = 380" "length (dat s g) = 255"
  shows "s' = set_dat g (ser (challenge_codec E) (ch\<lparr>ch_status := ValidatorWon\<rparr>))
     (set_dat k (ser (checkpoint_codec E) (c\<lparr>cp_status := Pending, cp_challenge_resolved := True\<rparr>)) s)"
proof -
  have "g \<noteq> k" using assms(2,3) by auto
  then show ?thesis using assms by (auto simp: default_challenger_def rbind_ok stores_sized)
qed

lemma default_respondent_effect:
  assumes run: "default_respondent E k g da recipient u c ch d cur s = Inr s'"
    and l: "length (dat s k) = 380" "length (dat s g) = 255" "length (dat s u) = 153" "length (dat s da) = 178"
    and d: "try_from_slice (da_proof_codec E) (dat s da) = Some d"
  shows "\<exists>d' t. cp_bond_status c = Locked \<and> bond_moved k recipient (cp_bond_lamports c) s t
     \<and> d' = (if da_status d = Missing then d\<lparr>da_status := Defaulted\<rparr> else d)
     \<and> s' = set_dat g (ser (challenge_codec E) (ch\<lparr>ch_status := ChallengerWon\<rparr>))
        (set_dat k (ser (checkpoint_codec E) (c\<lparr>cp_bond_status := Slashed, cp_status := Invalid, cp_challenge_resolved := True\<rparr>))
        (set_dat u (ser (cursor_codec E) (clear_active_checkpoint cur))
        (set_dat da (ser (da_proof_codec E) d') t)))"
proof -
  let ?d = "if da_status d = Missing then d\<lparr>da_status := Defaulted\<rparr> else d"
  have self: "set_dat da (ser (da_proof_codec E) d) s = s"
    using d by (intro st_eqI acct_eqI) (auto simp: da_proof_c.try_from_slice_iff)
  obtain c' t v w where t: "slash_checkpoint_bond E k recipient c (set_dat da (ser (da_proof_codec E) ?d) s) = Inr (c', t)"
    and v: "store_cursor E u (clear_active_checkpoint cur) t = Inr v"
    and w: "store_checkpoint E k (c'\<lparr>cp_status := Invalid, cp_challenge_resolved := True\<rparr>) v = Inr w"
      "store_challenge E g (ch\<lparr>ch_status := ChallengerWon\<rparr>) w = Inr s'"
    using run self l(4) unfolding default_respondent_def
    by (cases "da_status d = Missing") (auto simp: rbind_ok store_da_proof_sized)
  have c': "cp_bond_status c = Locked" "c' = c\<lparr>cp_bond_status := Slashed\<rparr>"
      and m: "bond_moved k recipient (cp_bond_lamports c) (set_dat da (ser (da_proof_codec E) ?d) s) t"
    using resolve_bond_effect t unfolding slash_checkpoint_bond_def by blast+
  define r where "r = set_dat da (dat s da) t"
  have bm: "bond_moved k recipient (cp_bond_lamports c) s r"
    using m by (auto simp: bond_moved_def r_def)
  have rt: "set_dat da (ser (da_proof_codec E) ?d) r = t"
    using bond_movedD(1) [OF m, of da] by (intro st_eqI acct_eqI) (auto simp: r_def)
  have dt: "length (dat t j) = length (dat s j)" for j
    using bond_movedD(1) [OF m, of j] l(4) by (simp add: ser_lengths)
  have v': "v = set_dat u (ser (cursor_codec E) (clear_active_checkpoint cur)) t"
    using v dt l by (simp add: stores_sized)
  have ne: "u \<noteq> k" "u \<noteq> g" "k \<noteq> g" "k \<noteq> u" "g \<noteq> u" "g \<noteq> k" using l by auto
  have "w = set_dat k (ser (checkpoint_codec E) (c'\<lparr>cp_status := Invalid, cp_challenge_resolved := True\<rparr>)) v"
    using w(1) dt l ne by (simp add: v' stores_sized)
  with ne have "s' = set_dat g (ser (challenge_codec E) (ch\<lparr>ch_status := ChallengerWon\<rparr>))
        (set_dat k (ser (checkpoint_codec E) (c'\<lparr>cp_status := Invalid, cp_challenge_resolved := True\<rparr>)) v)"
    using w(2) dt l by (simp add: v' store_challenge_sized)
  then show ?thesis using c' bm rt v' by (intro exI [of _ ?d] exI [of _ r]) simp
qed

lemma timeout_effect:
  assumes "process_timeout_challenge E program (caller # session # checkpoint # challenge # da # recipient # cursor # rest) er_slot s
     = Inr s'"
  shows "\<exists>x c g u d. is_signer caller \<and> load_session E program (address session) s = Inr x
     \<and> load_checkpoint E program (address session) er_slot (address checkpoint) s = Inr c \<and> cp_status c = Challenged
     \<and> load_challenge E program (address checkpoint) (address challenge) s = Inr g \<and> ch_status g = Active
     \<and> (ch_turn_deadline_l1_slot g \<le> clock_slot E \<or> ch_hard_deadline_l1_slot g \<le> clock_slot E)
     \<and> address recipient = ch_challenger g
     \<and> load_cursor E program (address session) (address cursor) s = Inr u
     \<and> cc_active_checkpoint u = address checkpoint \<and> cc_active_er_slot u = er_slot
     \<and> load_da_proof E program (address challenge) (address checkpoint) (address da) s = Inr d
     \<and> distinct [address session, address checkpoint, address challenge, address da, address cursor]
     \<and> (if ch_turn g = Respondent then
          \<exists>d' t. cp_bond_status c = Locked \<and> bond_moved (address checkpoint) (ch_challenger g) (cp_bond_lamports c) s t
           \<and> d' = (if da_status d = Missing then d\<lparr>da_status := Defaulted\<rparr> else d)
           \<and> s' = set_dat (address challenge) (ser (challenge_codec E) (g\<lparr>ch_status := ChallengerWon\<rparr>))
              (set_dat (address checkpoint) (ser (checkpoint_codec E) (c\<lparr>cp_bond_status := Slashed, cp_status := Invalid, cp_challenge_resolved := True\<rparr>))
              (set_dat (address cursor) (ser (cursor_codec E) (clear_active_checkpoint u))
              (set_dat (address da) (ser (da_proof_codec E) d') t)))
        else s' = set_dat (address challenge) (ser (challenge_codec E) (g\<lparr>ch_status := ValidatorWon\<rparr>))
              (set_dat (address checkpoint) (ser (checkpoint_codec E) (c\<lparr>cp_status := Pending, cp_challenge_resolved := True\<rparr>)) s))"
proof -
  let ?s = "address session" and ?k = "address checkpoint" and ?g = "address challenge" and ?d = "address da" and ?u = "address cursor"
  obtain x c g u d where h: "is_signer caller" "load_session E program ?s s = Inr x" "load_checkpoint E program ?s er_slot ?k s = Inr c"
      "cp_status c = Challenged" "load_challenge E program ?k ?g s = Inr g" "ch_status g = Active"
      "clock_slot E < ch_turn_deadline_l1_slot g \<longrightarrow> ch_hard_deadline_l1_slot g \<le> clock_slot E"
      "address recipient = ch_challenger g" "load_cursor E program ?s ?u s = Inr u" "cc_active_checkpoint u = ?k"
      "cc_active_er_slot u = er_slot" "load_da_proof E program ?g ?k ?d s = Inr d"
    and fin: "ch_turn g = Respondent \<Longrightarrow> default_respondent E ?k ?g ?d (address recipient) ?u c g d u s = Inr s'"
      "ch_turn g \<noteq> Respondent \<Longrightarrow> default_challenger E ?k ?g c g s = Inr s'"
    using assms [unfolded process_timeout_challenge_def Let_def,
        simplified rbind_ok guard_ok require_active_checkpoint_ok, simplified]
    by (elim exE conjE) (rule that, (assumption | (simp; fail) | (auto; fail))+)
  have l: "length (dat s ?s) = 226 \<or> length (dat s ?s) = 378" "length (dat s ?k) = 380" "length (dat s ?g) = 255"
      "length (dat s ?d) = 178" "length (dat s ?u) = 153"
    using parse_session_length [OF load_parsed(1) [OF h(2)]] parsed_length(1) [OF load_parsed(2) [OF h(3)]]
      parsed_length(3) [OF load_game_parsed(1) [OF h(5)]] parsed_length(4) [OF load_game_parsed(2) [OF h(12)]]
      parsed_length(2) [OF load_parsed(3) [OF h(9)]] by blast+
  then have dist: "distinct [?s, ?k, ?g, ?d, ?u]" by auto
  have dl: "ch_turn_deadline_l1_slot g \<le> clock_slot E \<or> ch_hard_deadline_l1_slot g \<le> clock_slot E" using h(7) by auto
  show ?thesis
  proof (cases "ch_turn g = Respondent")
    case True
    from default_respondent_effect [OF fin(1) [OF True] l(2,3,5,4) load_game_parsed(2) [OF h(12)]] h dl dist True
    show ?thesis by (intro exI [of _ x] exI [of _ c] exI [of _ g] exI [of _ u] exI [of _ d] conjI) simp_all
  next
    case False
    from default_challenger_effect [OF fin(2) [OF False] l(2,3)] h dl dist False
    show ?thesis by (intro exI [of _ x] exI [of _ c] exI [of _ g] exI [of _ u] exI [of _ d] conjI) simp_all
  qed
qed

end

end
