(* ===== verification/Zk_Types.thy ===== *)
theory Zk_Types
  imports Zk_Continuity
begin

text \<open>
  The proof types the Portal shares with the provers (\<open>zk-types/src/lib.rs\<close>): BN254 field elements
  as canonical big-endian bytes, the Groth16 proof and its SP1 envelope, and the public inputs of
  an ephemeral-rollup step.  Arrays of bytes are byte lists of the array's length.
\<close>

datatype zk_type_error =
  NonCanonicalFieldElement | InvalidProofLength | InvalidProofDomain | MissingPublicCommitment
  | InvalidProofVerifyingKey | InvalidProofExitCode | InvalidProofVerifierRoot

subsection \<open>Field elements\<close>

definition BN254_FR_MODULUS_BE :: bytes where
  "BN254_FR_MODULUS_BE =
     [48, 100, 78, 114, 225, 49, 160, 41, 184, 80, 69, 182, 129, 129, 88, 93,
      40, 51, 232, 72, 121, 185, 112, 145, 67, 225, 245, 147, 240, 0, 0, 1]"

text \<open>The order of byte arrays in Rust is lexicographic.\<close>

fun bytes_less :: "bytes \<Rightarrow> bytes \<Rightarrow> bool" where
  "bytes_less (a # as) (b # bs) = (a < b \<or> a = b \<and> bytes_less as bs)"
| "bytes_less [] (b # bs) = True"
| "bytes_less as [] = False"

type_synonym fr_bytes = bytes

definition FrBytes_new :: "bytes \<Rightarrow> zk_type_error + fr_bytes" where
  "FrBytes_new bs = (if \<not> bytes_less bs BN254_FR_MODULUS_BE then Inl NonCanonicalFieldElement else Inr bs)"

definition FrBytes_ZERO :: fr_bytes where "FrBytes_ZERO = replicate 32 0"

abbreviation u64_be :: "u64 \<Rightarrow> bytes" where "u64_be v \<equiv> rev (u64_le v)"

definition FrBytes_from_u64 :: "u64 \<Rightarrow> fr_bytes" where
  "FrBytes_from_u64 v = replicate 24 0 @ u64_be v"

definition FrBytes_from_u64_pair :: "u64 \<Rightarrow> u64 \<Rightarrow> fr_bytes" where
  "FrBytes_from_u64_pair high low = replicate 16 0 @ u64_be high @ u64_be low"

definition FrBytes_er_step_domain_v1 :: "u8 \<Rightarrow> u8 \<Rightarrow> fr_bytes" where
  "FrBytes_er_step_domain_v1 proof_kind proof_version =
     replicate 8 0 @ ascii ''northstar-er-step-v1'' @ [0, 0, proof_kind, proof_version]"

subsection \<open>Proofs\<close>

definition GROTH16_PROOF_RAW_LEN :: nat where "GROTH16_PROOF_RAW_LEN = 256"
definition SP1_GROTH16_PROOF_V1_LEN :: nat where "SP1_GROTH16_PROOF_V1_LEN = 356"
definition SP1_GROTH16_VK_HASH_PREFIX :: bytes where "SP1_GROTH16_VK_HASH_PREFIX = [67, 136, 162, 28]"
definition SP1_GROTH16_VK_ROOT :: bytes where
  "SP1_GROTH16_VK_ROOT =
     [0, 47, 133, 14, 233, 152, 151, 77, 108, 192, 14, 80, 205, 8, 20, 176,
      152, 192, 91, 250, 222, 70, 109, 40, 87, 50, 64, 208, 87, 242, 83, 82]"
definition ER_STEP_PROOF_KIND_FULL_TRANSACTION :: u8 where "ER_STEP_PROOF_KIND_FULL_TRANSACTION = 2"
definition ER_STEP_PROOF_VERSION_V1 :: u8 where "ER_STEP_PROOF_VERSION_V1 = 1"

record groth16_proof_raw =
  g16_a :: bytes
  g16_b :: bytes
  g16_c :: bytes

definition Groth16ProofRaw_from_bytes :: "bytes \<Rightarrow> zk_type_error + groth16_proof_raw" where
  "Groth16ProofRaw_from_bytes bs =
     (if length bs \<noteq> GROTH16_PROOF_RAW_LEN then Inl InvalidProofLength
      else Inr \<lparr>g16_a = take 64 bs, g16_b = take 128 (drop 64 bs), g16_c = drop 192 bs\<rparr>)"

definition Groth16ProofRaw_to_bytes :: "groth16_proof_raw \<Rightarrow> bytes" where
  "Groth16ProofRaw_to_bytes p = g16_a p @ g16_b p @ g16_c p"

record sp1_groth16_proof =
  sp1_proof_nonce :: fr_bytes
  sp1_proof :: groth16_proof_raw

definition Sp1Groth16ProofV1_from_bytes :: "bytes \<Rightarrow> zk_type_error + sp1_groth16_proof" where
  "Sp1Groth16ProofV1_from_bytes bs =
     (if length bs \<noteq> SP1_GROTH16_PROOF_V1_LEN then Inl InvalidProofLength
      else if take 4 bs \<noteq> SP1_GROTH16_VK_HASH_PREFIX then Inl InvalidProofVerifyingKey
      else if take 32 (drop 4 bs) \<noteq> replicate 32 0 then Inl InvalidProofExitCode
      else if take 32 (drop 36 bs) \<noteq> SP1_GROTH16_VK_ROOT then Inl InvalidProofVerifierRoot
      else rbind (FrBytes_new (take 32 (drop 68 bs))) (\<lambda>nonce.
           rbind (Groth16ProofRaw_from_bytes (drop 100 bs)) (\<lambda>proof.
           Inr \<lparr>sp1_proof_nonce = nonce, sp1_proof = proof\<rparr>)))"

subsection \<open>Public inputs of a step\<close>

record er_step_public_inputs =
  pi_domain :: fr_bytes
  pi_session_context :: fr_bytes
  pi_slot_step :: fr_bytes
  pi_pre_state_root :: fr_bytes
  pi_post_state_root :: fr_bytes
  pi_tx_effect_root :: fr_bytes
  pi_readonly_l1_root :: fr_bytes
  pi_settlement_effect_root :: fr_bytes

definition ErStepPublicInputsV1_to_array :: "er_step_public_inputs \<Rightarrow> bytes list" where
  "ErStepPublicInputsV1_to_array p =
     [pi_domain p, pi_session_context p, pi_slot_step p, pi_pre_state_root p, pi_post_state_root p,
      pi_tx_effect_root p, pi_readonly_l1_root p, pi_settlement_effect_root p]"

definition ErStepPublicInputsV1_from_array :: "bytes list \<Rightarrow> zk_type_error + er_step_public_inputs" where
  "ErStepPublicInputsV1_from_array inputs =
     rbind (FrBytes_new (inputs ! 0)) (\<lambda>domain.
     rbind (FrBytes_new (inputs ! 1)) (\<lambda>session_context.
     rbind (FrBytes_new (inputs ! 2)) (\<lambda>slot_step.
     rbind (FrBytes_new (inputs ! 3)) (\<lambda>pre_state_root.
     rbind (FrBytes_new (inputs ! 4)) (\<lambda>post_state_root.
     rbind (FrBytes_new (inputs ! 5)) (\<lambda>tx_effect_root.
     rbind (FrBytes_new (inputs ! 6)) (\<lambda>readonly_l1_root.
     rbind (FrBytes_new (inputs ! 7)) (\<lambda>settlement_effect_root.
     Inr \<lparr>pi_domain = domain, pi_session_context = session_context, pi_slot_step = slot_step,
       pi_pre_state_root = pre_state_root, pi_post_state_root = post_state_root,
       pi_tx_effect_root = tx_effect_root, pi_readonly_l1_root = readonly_l1_root,
       pi_settlement_effect_root = settlement_effect_root\<rparr>))))))))"

definition FullTransactionPublicInputsV1_try_from ::
  "er_step_public_inputs \<Rightarrow> zk_type_error + er_step_public_inputs" where
  "FullTransactionPublicInputsV1_try_from p =
     (if pi_domain p \<noteq> FrBytes_er_step_domain_v1 ER_STEP_PROOF_KIND_FULL_TRANSACTION ER_STEP_PROOF_VERSION_V1
      then Inl InvalidProofDomain
      else if list_ex (\<lambda>commitment. commitment = FrBytes_ZERO)
                [pi_session_context p, pi_pre_state_root p, pi_post_state_root p, pi_tx_effect_root p,
                 pi_readonly_l1_root p, pi_settlement_effect_root p]
      then Inl MissingPublicCommitment
      else Inr p)"

subsection \<open>What the types guarantee\<close>

text \<open>The number a big-endian byte string denotes.\<close>

fun be_nat :: "bytes \<Rightarrow> nat" where
  "be_nat [] = 0"
| "be_nat (b # bs) = unat b * 256 ^ length bs + be_nat bs"

lemma be_nat_zeros [simp]: "be_nat (replicate n 0) = 0"
  by (induction n) simp_all

lemma be_nat_bound: "be_nat bs < 256 ^ length bs"
proof (induction bs)
  case (Cons b bs)
  have "unat b < 256" using unsigned_less [of b] by simp
  then have "Suc (unat b) * 256 ^ length bs \<le> 256 * 256 ^ length bs" by (intro mult_right_mono) simp_all
  then have "unat b * 256 ^ length bs + be_nat bs < 256 * 256 ^ length bs" using Cons.IH unfolding mult_Suc by linarith
  then show ?case by simp
qed simp

lemma bytes_less_iff: "length as = length bs \<Longrightarrow> bytes_less as bs \<longleftrightarrow> be_nat as < be_nat bs"
proof (induction as bs rule: bytes_less.induct)
  case (1 a as b bs)
  let ?m = "256 ^ length bs :: nat"
  have bound: "be_nat as < ?m" "be_nat bs < ?m" using be_nat_bound [of as] be_nat_bound [of bs] 1 by auto
  consider "a < b" | "a = b" | "b < a" by (rule linorder_cases)
  then show ?case
  proof cases
    case 1
    then have "Suc (unat a) * ?m \<le> unat b * ?m" by (intro mult_right_mono) (auto simp: word_less_nat_alt)
    then show ?thesis using 1 bound \<open>length (a # as) = length (b # bs)\<close> by auto
  next
    case 3
    then have "Suc (unat b) * ?m \<le> unat a * ?m" by (intro mult_right_mono) (auto simp: word_less_nat_alt)
    then show ?thesis using 3 bound \<open>length (a # as) = length (b # bs)\<close> by auto
  qed (use 1 in auto)
qed auto

text \<open>A field element is accepted exactly when the number its 32 bytes denote is below the order of the BN254
  scalar field, so every residue has one accepted encoding.\<close>

theorem fr_canonical:
  assumes "length bs = 32"
  shows "FrBytes_new bs = (if be_nat bs < 21888242871839275222246405745257275088548364400416034343698204186575808495617
     then Inr bs else Inl NonCanonicalFieldElement)"
proof -
  have "length bs = length BN254_FR_MODULUS_BE" using assms by (simp add: BN254_FR_MODULUS_BE_def)
  moreover have "be_nat BN254_FR_MODULUS_BE = 21888242871839275222246405745257275088548364400416034343698204186575808495617"
    by (simp add: BN254_FR_MODULUS_BE_def)
  ultimately show ?thesis by (simp add: FrBytes_new_def bytes_less_iff)
qed

theorem fr_canonical_witness:
  "FrBytes_new FrBytes_ZERO = Inr FrBytes_ZERO \<and> FrBytes_new BN254_FR_MODULUS_BE = Inl NonCanonicalFieldElement"
  using fr_canonical [of FrBytes_ZERO] fr_canonical [of BN254_FR_MODULUS_BE]
  by (simp add: BN254_FR_MODULUS_BE_def FrBytes_ZERO_def)

lemma take_drop_append: "take m xs @ take n (drop m xs) @ drop (m + n) xs = xs"
  by (metis append_take_drop_id drop_drop add.commute)

text \<open>An SP1 proof envelope is accepted only in its one canonical form: the verifier-key prefix, a zero exit
  code, the recursion root, a canonical nonce and the three proof points, so two accepted byte
  strings with the same nonce and proof are equal.\<close>

theorem sp1_envelope_canonical:
  assumes "Sp1Groth16ProofV1_from_bytes bs = Inr p"
  shows "bs = SP1_GROTH16_VK_HASH_PREFIX @ replicate 32 0 @ SP1_GROTH16_VK_ROOT @ sp1_proof_nonce p
            @ Groth16ProofRaw_to_bytes (sp1_proof p)
     \<and> length bs = 356 \<and> bytes_less (sp1_proof_nonce p) BN254_FR_MODULUS_BE"
proof -
  have a: "take 4 bs = SP1_GROTH16_VK_HASH_PREFIX" "take 32 (drop 4 bs) = replicate 32 0"
      "take 32 (drop 36 bs) = SP1_GROTH16_VK_ROOT" "take 32 (drop 68 bs) = sp1_proof_nonce p" "length bs = 356"
      "bytes_less (sp1_proof_nonce p) BN254_FR_MODULUS_BE"
      "Groth16ProofRaw_from_bytes (drop 100 bs) = Inr (sp1_proof p)"
    using assms by (auto simp: Sp1Groth16ProofV1_from_bytes_def ok_simps FrBytes_new_def SP1_GROTH16_PROOF_V1_LEN_def)
  have "Groth16ProofRaw_to_bytes (sp1_proof p) = drop 100 bs"
    using a(7) take_drop_append [of 64 "drop 100 bs" 128]
    by (auto simp: Groth16ProofRaw_from_bytes_def Groth16ProofRaw_to_bytes_def ok_simps dest: sym)
  moreover have "bs = take 4 bs @ take 32 (drop 4 bs) @ take 32 (drop 36 bs) @ take 32 (drop 68 bs) @ drop 100 bs"
    using take_drop_append [of 4 bs 32] take_drop_append [of 32 "drop 36 bs" 32] by simp
  ultimately show ?thesis using a by simp
qed

definition sample_envelope :: bytes where
  "sample_envelope = SP1_GROTH16_VK_HASH_PREFIX @ replicate 32 0 @ SP1_GROTH16_VK_ROOT @ replicate 31 0 @ [1] @ replicate 256 7"

theorem sp1_envelope_canonical_witness:
  "\<exists>p. Sp1Groth16ProofV1_from_bytes sample_envelope = Inr p
     \<and> sample_envelope = SP1_GROTH16_VK_HASH_PREFIX @ replicate 32 0 @ SP1_GROTH16_VK_ROOT @ sp1_proof_nonce p
            @ Groth16ProofRaw_to_bytes (sp1_proof p)"
proof -
  have "is_ok (Sp1Groth16ProofV1_from_bytes sample_envelope)" by code_simp
  then obtain p where "Sp1Groth16ProofV1_from_bytes sample_envelope = Inr p"
    by (cases "Sp1Groth16ProofV1_from_bytes sample_envelope") auto
  with sp1_envelope_canonical [OF this] show ?thesis by auto
qed

text \<open>The packed fields determine what they pack.\<close>

lemma FrBytes_pack_inject:
  "FrBytes_from_u64_pair h l = FrBytes_from_u64_pair h' l' \<longleftrightarrow> h = h' \<and> l = l'"
  "FrBytes_er_step_domain_v1 k v = FrBytes_er_step_domain_v1 k' v' \<longleftrightarrow> k = k' \<and> v = v'"
  by (auto simp: FrBytes_from_u64_pair_def FrBytes_er_step_domain_v1_def append_eq_append_conv le_bytes_inject)

end
