(* ===== verification/Portal_Step_Proof.thy ===== *)
theory Portal_Step_Proof
  imports Portal_Challenge Zk_Types
begin

text \<open>
  The one-step proof that ends a challenge: the verifier of \<open>verifier.rs\<close> and the instructions
  \<open>CreateStepProof\<close>, \<open>WriteStepProof\<close>, \<open>SealStepProof\<close> and \<open>ResolveChallenge\<close> of \<open>checkpoint.rs\<close>.  The pairing
  check of the Groth16 library under the key of \<open>verifier_key.rs\<close>, its point negation and the
  Poseidon hash are services of the environment; \<open>zk-verifier-prototype\<close> and \<open>test-verifier\<close> are
  features of the build.
\<close>

subsection \<open>The Groth16 verifier\<close>

definition SP1_REPLAY_PROGRAM_VKEY_HASH :: bytes where
  "SP1_REPLAY_PROGRAM_VKEY_HASH =
     [0, 99, 161, 14, 49, 233, 6, 37, 183, 109, 6, 191, 162, 44, 191, 10,
      74, 143, 160, 133, 12, 207, 113, 224, 99, 210, 67, 189, 26, 122, 163, 27]"

text \<open>Any error of the proof types is reported as one Portal error.\<close>

definition proof_failed :: "zk_type_error + 'a \<Rightarrow> 'a res" where
  "proof_failed r = (case r of Inl _ \<Rightarrow> Inl (Portal StepProofVerificationFailed) | Inr v \<Rightarrow> Inr v)"

definition chunks_of_32 :: "bytes \<Rightarrow> nat \<Rightarrow> bytes list" where
  "chunks_of_32 bs n = map (\<lambda>i. take 32 (drop (32 * i) bs)) [0..<n]"

definition sp1_public_inputs :: "portal_env \<Rightarrow> bytes \<Rightarrow> fr_bytes \<Rightarrow> bytes list res" where
  "sp1_public_inputs E public_input_bytes proof_nonce =
     rbind (proof_failed (ErStepPublicInputsV1_from_array (chunks_of_32 public_input_bytes 8))) (\<lambda>inputs.
     rbind (proof_failed (FullTransactionPublicInputsV1_try_from inputs)) (\<lambda>_.
     Inr [SP1_REPLAY_PROGRAM_VKEY_HASH, key_bytes (mask_root (hashv E [public_input_bytes])), replicate 32 0,
          SP1_GROTH16_VK_ROOT, proof_nonce]))"

definition verify_er_step_proof_v1 :: "portal_env \<Rightarrow> bytes \<Rightarrow> bytes \<Rightarrow> unit res" where
  "verify_er_step_proof_v1 E proof public_inputs =
     rbind (proof_failed (Sp1Groth16ProofV1_from_bytes proof)) (\<lambda>p.
     rbind (sp1_public_inputs E public_inputs (sp1_proof_nonce p)) (\<lambda>groth16_inputs.
     if groth16_inputs ! 0 \<noteq> SP1_REPLAY_PROGRAM_VKEY_HASH then Inl (Portal StepProofVerificationFailed)
     else if groth16_verify E (negate_g1_be E (g16_a (sp1_proof p))) (g16_b (sp1_proof p)) (g16_c (sp1_proof p))
               [groth16_inputs ! 1, groth16_inputs ! 4]
     then Inr () else Inl (Portal StepProofVerificationFailed)))"

definition process_verify_er_step_proof_v1 :: "portal_env \<Rightarrow> account_info list \<Rightarrow> bytes \<Rightarrow> bytes \<Rightarrow> st \<Rightarrow> st res" where
  "process_verify_er_step_proof_v1 E accs proof public_inputs s =
     rbind (verify_er_step_proof_v1 E proof public_inputs) (\<lambda>_. Inr s)"

subsection \<open>What a step proof is bound to\<close>

definition load_step_proof :: "portal_env \<Rightarrow> pubkey \<Rightarrow> pubkey \<Rightarrow> pubkey \<Rightarrow> st \<Rightarrow> step_proof res" where
  "load_step_proof E program checkpoint k s =
     (if k \<noteq> fst (find_step_proof_pda E program checkpoint) then Inl (Portal InvalidPdaSeeds)
      else if own s k \<noteq> program then Inl (Portal StepProofStateInvalid)
      else rbind (load (step_proof_codec E) StepProofDeserializeFailed s k) (\<lambda>p.
      if \<not> step_proof_is_valid p \<or> sp_checkpoint p \<noteq> checkpoint then Inl (Portal StepProofStateInvalid) else Inr p))"

definition store_step_proof :: "portal_env \<Rightarrow> pubkey \<Rightarrow> step_proof \<Rightarrow> st \<Rightarrow> st res" where
  "store_step_proof E k p s = store (step_proof_codec E) p Panicked k s"

definition step_proof_public_input_parts ::
  "pubkey \<Rightarrow> pubkey \<Rightarrow> pubkey \<Rightarrow> checkpoint \<Rightarrow> challenge \<Rightarrow> step_proof \<Rightarrow> bytes list" where
  "step_proof_public_input_parts program session checkpoint c g p =
     [ascii ''northstar-er-step-v1'', key_bytes program, key_bytes session, key_bytes checkpoint,
      [sp_proof_kind p], [sp_proof_version p], u64_le (cp_er_slot c), u64_le (ch_start_step g),
      key_bytes (sp_session_context p), key_bytes (ch_start_state_root g), key_bytes (ch_end_state_root g),
      key_bytes (sp_tx_effect_root p), key_bytes (sp_readonly_l1_root p), key_bytes (sp_settlement_effect_root p)]"

definition step_proof_public_input_hash ::
  "hasher \<Rightarrow> pubkey \<Rightarrow> pubkey \<Rightarrow> pubkey \<Rightarrow> checkpoint \<Rightarrow> challenge \<Rightarrow> step_proof \<Rightarrow> hash32" where
  "step_proof_public_input_hash hash program session checkpoint c g p =
     hash (step_proof_public_input_parts program session checkpoint c g p)"

definition context_bytes :: "pubkey \<Rightarrow> pubkey \<Rightarrow> session \<Rightarrow> bytes" where
  "context_bytes program session x =
     ascii ''northstar-session-context-v1'' @ key_bytes program @ key_bytes session @ u64_le (s_grid_id x)
     @ u128_le (s_nonce x) @ key_bytes (s_validator x) @ [1]"

text \<open>A chunk of at most 31 bytes, right-aligned in a 32-byte field.\<close>

definition right_aligned :: "bytes \<Rightarrow> bytes" where
  "right_aligned chunk = replicate (32 - length chunk) 0 @ chunk"

definition session_context_v1 :: "portal_env \<Rightarrow> pubkey \<Rightarrow> pubkey \<Rightarrow> session \<Rightarrow> hash32 option" where
  "session_context_v1 E program session x =
     (let ctx = context_bytes program session x
      in poseidon E ([right_aligned (u64_be 256), right_aligned (u64_be 266), right_aligned (u64_be (of_nat (length ctx)))]
           @ map (\<lambda>i. right_aligned (take 31 (drop (31 * i) ctx))) [0..<5]))"

subsection \<open>Create\<close>

record create_step_proof =
  cs_er_slot :: u64
  cs_proof_kind :: u8
  cs_proof_version :: u8
  cs_step_index :: u64
  cs_session_context :: hash32
  cs_tx_effect_root :: hash32
  cs_tx_effect_path_len :: u8
  cs_tx_effect_path :: "hash32 list"
  cs_readonly_l1_root :: hash32
  cs_settlement_effect_root :: hash32

definition empty_step_proof :: "create_step_proof \<Rightarrow> pubkey \<Rightarrow> pubkey \<Rightarrow> pubkey \<Rightarrow> u8 \<Rightarrow> step_proof" where
  "empty_step_proof args checkpoint challenge authority bump =
     \<lparr>sp_discriminator = step_proof_DISCRIMINATOR, sp_checkpoint = checkpoint, sp_challenge = challenge,
      sp_authority = authority, sp_proof_kind = cs_proof_kind args, sp_proof_version = cs_proof_version args,
      sp_step_index = cs_step_index args, sp_session_context = cs_session_context args,
      sp_tx_effect_root = cs_tx_effect_root args, sp_readonly_l1_root = cs_readonly_l1_root args,
      sp_settlement_effect_root = cs_settlement_effect_root args, sp_public_input_hash = 0, sp_written_len = 0,
      sp_sealed = False, sp_proof_hash = 0, sp_bump = bump, sp_data = replicate MAX_STEP_PROOF_BYTES 0\<rparr>"

definition ensure_step_proof ::
  "portal_env \<Rightarrow> pubkey \<Rightarrow> account_info list \<Rightarrow> pubkey \<Rightarrow> pubkey \<Rightarrow> step_proof \<Rightarrow> st \<Rightarrow> st res" where
  "ensure_step_proof E program accs authority k p s =
     (let size = account_size (step_proof_codec E) p
      in rbind (rent_minimum E size) (\<lambda>amount.
      if dat s k = [] then
        initialize_pda_account E program accs authority k amount (of_nat size) program
          [ascii ''step_proof'', key_bytes (sp_checkpoint p), [sp_bump p]] s
      else if own s k \<noteq> program \<or> lam s k < amount then Inl (Portal StepProofStateInvalid)
      else Inr s))"

definition process_create_step_proof ::
  "portal_env \<Rightarrow> pubkey \<Rightarrow> account_info list \<Rightarrow> create_step_proof \<Rightarrow> st \<Rightarrow> st res" where
  "process_create_step_proof E program accs args s =
     (if length accs < 6 then Inl NotEnoughAccountKeys else
      let authority = accs ! 0; session = address (accs ! 1); checkpoint = address (accs ! 2);
          challenge = address (accs ! 3); proof = address (accs ! 4)
      in if \<not> is_signer authority then Inl (Portal Unauthorized)
      else if starts_with (dat s session) session_v2_DISCRIMINATOR then Inl (Portal StepProofVerifierUnavailable)
      else rbind (load_session E program session s) (\<lambda>x.
      rbind (load_checkpoint E program session (cs_er_slot args) checkpoint s) (\<lambda>c.
      if cp_status c \<noteq> Challenged then Inl (Portal CheckpointStateInvalid)
      else rbind (load_challenge E program checkpoint challenge s) (\<lambda>g.
      rbind (require_live_turn g (clock_slot E)) (\<lambda>_.
      if ch_turn g \<noteq> Prove \<or> ch_end_step g \<noteq> saturating_add (ch_start_step g) 1 \<or> cs_step_index args \<noteq> ch_start_step g
      then Inl (Portal ChallengeTurnInvalid)
      else if cs_proof_kind args = 0 \<or> cs_proof_version args = 0 then Inl InvalidInstructionData
      else if session_context_v1 E program session x \<noteq> Some (cs_session_context args)
      then Inl (Portal StepProofPublicInputMismatch)
      else if address authority \<noteq> ch_challenger g \<or> cs_readonly_l1_root args \<noteq> cp_readonly_l1_root c
              \<or> cs_settlement_effect_root args \<noteq> cp_effect_commitment c
      then Inl (Portal Unauthorized)
      else rbind (verify_step_tx_effect_binding (hashv E) c (cs_step_index args) (cs_proof_kind args, cs_proof_version args)
             (cs_tx_effect_root args) (cs_tx_effect_path_len args) (cs_tx_effect_path args)) (\<lambda>bound.
      if \<not> bound then Inl (Portal StepProofPublicInputMismatch)
      else if proof \<noteq> fst (find_step_proof_pda E program checkpoint) then Inl (Portal InvalidPdaSeeds)
      else
      let p = empty_step_proof args checkpoint challenge (address authority) (snd (find_step_proof_pda E program checkpoint));
          p = p\<lparr>sp_public_input_hash := step_proof_public_input_hash (hashv E) program session checkpoint c g p\<rparr>
      in rbind (ensure_step_proof E program accs (address authority) proof p s) (\<lambda>s.
         store_step_proof E proof p s)))))))"

subsection \<open>Write and seal\<close>

text \<open>The checks that writing and sealing share.\<close>

definition open_proof ::
  "portal_env \<Rightarrow> pubkey \<Rightarrow> account_info \<Rightarrow> pubkey \<Rightarrow> u64 \<Rightarrow> pubkey \<Rightarrow> pubkey \<Rightarrow> pubkey \<Rightarrow> st \<Rightarrow> step_proof res" where
  "open_proof E program authority session er_slot checkpoint challenge proof s =
     (if \<not> is_signer authority then Inl (Portal Unauthorized)
      else rbind (load_session E program session s) (\<lambda>_.
      rbind (load_checkpoint E program session er_slot checkpoint s) (\<lambda>c.
      if cp_status c \<noteq> Challenged then Inl (Portal CheckpointStateInvalid)
      else rbind (load_challenge E program checkpoint challenge s) (\<lambda>g.
      rbind (require_live_turn g (clock_slot E)) (\<lambda>_.
      if ch_turn g \<noteq> Prove then Inl (Portal ChallengeTurnInvalid)
      else rbind (load_step_proof E program checkpoint proof s) (\<lambda>p.
      if sp_challenge p \<noteq> challenge then Inl (Portal StepProofCheckpointMismatch)
      else if sp_authority p \<noteq> address authority then Inl (Portal Unauthorized)
      else if sp_sealed p then Inl (Portal StepProofAlreadySealed)
      else Inr p))))))"

record write_step_proof =
  ws_er_slot :: u64
  ws_offset :: u32
  ws_chunk_len :: u16
  ws_chunk :: bytes

definition process_write_step_proof ::
  "portal_env \<Rightarrow> pubkey \<Rightarrow> account_info list \<Rightarrow> write_step_proof \<Rightarrow> st \<Rightarrow> st res" where
  "process_write_step_proof E program accs args s =
     (if length accs < 5 then Inl NotEnoughAccountKeys else
      let proof = address (accs ! 4)
      in rbind (open_proof E program (accs ! 0) (address (accs ! 1)) (ws_er_slot args) (address (accs ! 2))
                 (address (accs ! 3)) proof s) (\<lambda>p.
      let chunk_len = unat (ws_chunk_len args); offset = unat (ws_offset args); end_pos = offset + chunk_len
      in if end_pos > MAX_STEP_PROOF_BYTES \<or> chunk_len > length (ws_chunk args)
      then Inl (Portal StepProofChunkOutOfBounds)
      else store_step_proof E proof
             (p\<lparr>sp_data := overwrite (sp_data p) offset (take chunk_len (ws_chunk args)),
                sp_written_len := max (sp_written_len p) (of_nat end_pos)\<rparr>) s))"

definition process_seal_step_proof :: "portal_env \<Rightarrow> pubkey \<Rightarrow> account_info list \<Rightarrow> u64 \<Rightarrow> u32 \<Rightarrow> st \<Rightarrow> st res" where
  "process_seal_step_proof E program accs er_slot proof_len s =
     (if length accs < 5 then Inl NotEnoughAccountKeys else
      let proof = address (accs ! 4)
      in rbind (open_proof E program (accs ! 0) (address (accs ! 1)) er_slot (address (accs ! 2)) (address (accs ! 3)) proof s) (\<lambda>p.
      if proof_len = 0 \<or> proof_len > sp_written_len p then Inl (Portal StepProofChunkOutOfBounds)
      else if unat proof_len > length (sp_data p) then Inl Panicked
      else store_step_proof E proof (p\<lparr>sp_written_len := proof_len, sp_sealed := True,
             sp_proof_hash := hashv E [take (unat proof_len) (sp_data p)]\<rparr>) s))"

subsection \<open>Verify and resolve\<close>

datatype step_proof_verifier_mode = Production | TestOnly
datatype step_proof_verification = Proof_Valid | Proof_Invalid | Proof_Unavailable

definition step_public_inputs :: "checkpoint \<Rightarrow> challenge \<Rightarrow> step_proof \<Rightarrow> zk_type_error + er_step_public_inputs" where
  "step_public_inputs c g p =
     rbind (FrBytes_new (key_bytes (sp_session_context p))) (\<lambda>session_context.
     rbind (FrBytes_new (key_bytes (ch_start_state_root g))) (\<lambda>pre_state_root.
     rbind (FrBytes_new (key_bytes (ch_end_state_root g))) (\<lambda>post_state_root.
     rbind (FrBytes_new (key_bytes (sp_tx_effect_root p))) (\<lambda>tx_effect_root.
     rbind (FrBytes_new (key_bytes (sp_readonly_l1_root p))) (\<lambda>readonly_l1_root.
     rbind (FrBytes_new (key_bytes (sp_settlement_effect_root p))) (\<lambda>settlement_effect_root.
     Inr \<lparr>pi_domain = FrBytes_er_step_domain_v1 (sp_proof_kind p) (sp_proof_version p),
       pi_session_context = session_context,
       pi_slot_step = FrBytes_from_u64_pair (cp_er_slot c) (sp_step_index p),
       pi_pre_state_root = pre_state_root, pi_post_state_root = post_state_root,
       pi_tx_effect_root = tx_effect_root, pi_readonly_l1_root = readonly_l1_root,
       pi_settlement_effect_root = settlement_effect_root\<rparr>))))))"

definition verify_step_proof_production ::
  "portal_env \<Rightarrow> checkpoint \<Rightarrow> challenge \<Rightarrow> step_proof \<Rightarrow> step_proof_verification" where
  "verify_step_proof_production E c g p =
     (if \<not> zk_verifier_prototype E then Proof_Unavailable
      else case step_public_inputs c g p of
        Inl _ \<Rightarrow> Proof_Invalid
      | Inr inputs \<Rightarrow>
          if unat (sp_written_len p) \<noteq> MAX_STEP_PROOF_BYTES then Proof_Invalid
          else if is_ok (verify_er_step_proof_v1 E (sp_data p) (concat (ErStepPublicInputsV1_to_array inputs)))
          then Proof_Valid else Proof_Invalid)"

definition verify_step_proof_test_only :: "portal_env \<Rightarrow> step_proof \<Rightarrow> step_proof_verification" where
  "verify_step_proof_test_only E p =
     (if \<not> test_verifier E then Proof_Unavailable
      else case sp_data p of
        [] \<Rightarrow> Proof_Unavailable
      | b # _ \<Rightarrow> if b = 2 then Proof_Valid else if b = 1 then Proof_Invalid else Proof_Unavailable)"

definition verify_step_proof ::
  "portal_env \<Rightarrow> step_proof_verifier_mode \<Rightarrow> checkpoint \<Rightarrow> challenge \<Rightarrow> step_proof \<Rightarrow> step_proof_verification" where
  "verify_step_proof E verifier_mode c g p =
     (case verifier_mode of Production \<Rightarrow> verify_step_proof_production E c g p
      | TestOnly \<Rightarrow> verify_step_proof_test_only E p)"

definition uphold_challenge ::
  "portal_env \<Rightarrow> pubkey \<Rightarrow> pubkey \<Rightarrow> pubkey \<Rightarrow> pubkey \<Rightarrow> checkpoint \<Rightarrow> challenge \<Rightarrow> cursor \<Rightarrow> st \<Rightarrow> st res" where
  "uphold_challenge E checkpoint challenge bond_recipient cursor c g u s =
     (if bond_recipient \<noteq> ch_challenger g then Inl (Portal Unauthorized)
      else rbind (slash_checkpoint_bond E checkpoint bond_recipient c s) (\<lambda>(c, s).
      rbind (store_checkpoint E checkpoint (c\<lparr>cp_status := Invalid, cp_challenge_resolved := True\<rparr>) s) (\<lambda>s.
      rbind (store_challenge E challenge (g\<lparr>ch_status := ChallengerWon\<rparr>) s) (\<lambda>s.
      store_cursor E cursor (clear_active_checkpoint u) s))))"

definition process_resolve_challenge ::
  "portal_env \<Rightarrow> pubkey \<Rightarrow> account_info list \<Rightarrow> u64 \<Rightarrow> step_proof_verifier_mode \<Rightarrow> st \<Rightarrow> st res" where
  "process_resolve_challenge E program accs er_slot verifier_mode s =
     (if length accs < 8 then Inl NotEnoughAccountKeys else
      let submitter = accs ! 0; session = address (accs ! 1); checkpoint = address (accs ! 2); challenge = address (accs ! 3);
          da_proof = address (accs ! 4); proof = address (accs ! 5); bond_recipient = address (accs ! 6);
          cursor = address (accs ! 7)
      in if \<not> is_signer submitter then Inl (Portal Unauthorized)
      else rbind (load_session E program session s) (\<lambda>_.
      rbind (load_checkpoint E program session er_slot checkpoint s) (\<lambda>c.
      if cp_status c \<noteq> Challenged then Inl (Portal CheckpointStateInvalid)
      else rbind (load_challenge E program checkpoint challenge s) (\<lambda>g.
      rbind (require_live_turn g (clock_slot E)) (\<lambda>_.
      if ch_turn g \<noteq> Prove \<or> ch_end_step g \<noteq> saturating_add (ch_start_step g) 1 then Inl (Portal ChallengeTurnInvalid)
      else rbind (load_da_proof E program challenge checkpoint da_proof s) (\<lambda>d.
      if da_status d \<noteq> Revealed then Inl (Portal DataAvailabilityStateInvalid)
      else rbind (load_cursor E program session cursor s) (\<lambda>u.
      rbind (require_active_checkpoint u checkpoint er_slot) (\<lambda>_.
      rbind (load_step_proof E program checkpoint proof s) (\<lambda>p.
      if sp_checkpoint p \<noteq> checkpoint \<or> sp_challenge p \<noteq> challenge then Inl (Portal StepProofCheckpointMismatch)
      else if sp_authority p \<noteq> ch_challenger g then Inl (Portal Unauthorized)
      else if \<not> sp_sealed p then Inl (Portal StepProofNotSealed)
      else if sp_written_len p = 0 \<or> unat (sp_written_len p) > MAX_STEP_PROOF_BYTES
      then Inl (Portal StepProofChunkOutOfBounds)
      else if hashv E [take (unat (sp_written_len p)) (sp_data p)] \<noteq> sp_proof_hash p
      then Inl (Portal StepProofHashMismatch)
      else if sp_public_input_hash p \<noteq> step_proof_public_input_hash (hashv E) program session checkpoint c g p
      then Inl (Portal StepProofPublicInputMismatch)
      else case verify_step_proof E verifier_mode c g p of
        Proof_Unavailable \<Rightarrow> Inl (Portal StepProofVerifierUnavailable)
      | Proof_Invalid \<Rightarrow> uphold_challenge E checkpoint challenge bond_recipient cursor c g u s
      | Proof_Valid \<Rightarrow> default_challenger E checkpoint challenge c g s)))))))))"

subsection \<open>What the instructions do\<close>

lemma length_overwrite: "start + length chunk \<le> length bs \<Longrightarrow> length (overwrite bs start chunk) = length bs"
  by (simp add: overwrite_def)

context portal_codecs
begin

lemma load_step_proof_ok [ok_simps]:
  "load_step_proof E program checkpoint k s = Inr p \<longleftrightarrow>
     k = fst (find_step_proof_pda E program checkpoint) \<and> own s k = program
     \<and> try_from_slice (step_proof_codec E) (dat s k) = Some p \<and> step_proof_is_valid p \<and> sp_checkpoint p = checkpoint"
  by (auto simp: load_step_proof_def ok_simps)

lemma load_step_proof_parsed:
  "load_step_proof E program checkpoint k s = Inr p \<Longrightarrow> try_from_slice (step_proof_codec E) (dat s k) = Some p"
  unfolding load_step_proof_ok by blast

lemma open_proof_ok:
  "open_proof E program authority session er_slot checkpoint challenge proof s = Inr p \<longleftrightarrow>
     (\<exists>x c g. is_signer authority \<and> load_session E program session s = Inr x
       \<and> load_checkpoint E program session er_slot checkpoint s = Inr c \<and> cp_status c = Challenged
       \<and> load_challenge E program checkpoint challenge s = Inr g \<and> ch_status g = Active
       \<and> clock_slot E < ch_turn_deadline_l1_slot g \<and> clock_slot E < ch_hard_deadline_l1_slot g \<and> ch_turn g = Prove
       \<and> load_step_proof E program checkpoint proof s = Inr p \<and> sp_challenge p = challenge
       \<and> sp_authority p = address authority \<and> \<not> sp_sealed p)"
  unfolding open_proof_def by (auto simp: rbind_ok guard_ok require_live_turn_ok)

lemma store_step_proof_over:
  assumes "try_from_slice (step_proof_codec E) (dat s k) = Some p" "step_proof_wf p'"
  shows "store_step_proof E k p' s = Inr (set_dat k (ser (step_proof_codec E) p') s)"
  unfolding store_step_proof_def using assms by (rule step_proof_c.store_over)

lemma parsed_step_proof_wf: "try_from_slice (step_proof_codec E) bs = Some p \<Longrightarrow> step_proof_wf p"
  by (simp add: step_proof_c.try_from_slice_iff)

lemma write_step_proof_effect:
  assumes "process_write_step_proof E program (authority # session # checkpoint # challenge # proof # rest) args s = Inr s'"
  defines "n \<equiv> unat (ws_chunk_len args)" and "start \<equiv> unat (ws_offset args)"
  shows "\<exists>p. open_proof E program authority (address session) (ws_er_slot args) (address checkpoint) (address challenge)
         (address proof) s = Inr p
     \<and> start + n \<le> 356 \<and> n \<le> length (ws_chunk args) \<and> length (sp_data p) = 356
     \<and> s' = set_dat (address proof) (ser (step_proof_codec E)
          (p\<lparr>sp_data := overwrite (sp_data p) start (take n (ws_chunk args)),
             sp_written_len := max (sp_written_len p) (of_nat (start + n))\<rparr>)) s"
proof -
  obtain p where p: "open_proof E program authority (address session) (ws_er_slot args) (address checkpoint) (address challenge)
         (address proof) s = Inr p" "start + n \<le> 356" "n \<le> length (ws_chunk args)"
    and fin: "store_step_proof E (address proof) (p\<lparr>sp_data := overwrite (sp_data p) start (take n (ws_chunk args)),
             sp_written_len := max (sp_written_len p) (of_nat (start + n))\<rparr>) s = Inr s'"
    using assms by (auto simp: process_write_step_proof_def Let_def rbind_ok guard_ok MAX_STEP_PROOF_BYTES_def not_less)
  have parsed: "try_from_slice (step_proof_codec E) (dat s (address proof)) = Some p"
    using p(1) load_step_proof_parsed unfolding open_proof_ok by blast
  then have wf: "length (sp_data p) = 356" using parsed_step_proof_wf by (simp add: step_proof_wf_def MAX_STEP_PROOF_BYTES_def)
  have "step_proof_wf (p\<lparr>sp_data := overwrite (sp_data p) start (take n (ws_chunk args)),
             sp_written_len := max (sp_written_len p) (of_nat (start + n))\<rparr>)"
    using wf p(2,3) by (simp add: step_proof_wf_def MAX_STEP_PROOF_BYTES_def length_overwrite)
  from store_step_proof_over [OF parsed this] fin p wf show ?thesis by (intro exI [of _ p]) simp
qed

lemma seal_step_proof_effect:
  assumes "process_seal_step_proof E program (authority # session # checkpoint # challenge # proof # rest) er_slot len s = Inr s'"
  shows "\<exists>p. open_proof E program authority (address session) er_slot (address checkpoint) (address challenge)
         (address proof) s = Inr p
     \<and> 0 < len \<and> len \<le> sp_written_len p \<and> unat len \<le> 356 \<and> length (sp_data p) = 356
     \<and> s' = set_dat (address proof) (ser (step_proof_codec E) (p\<lparr>sp_written_len := len, sp_sealed := True,
             sp_proof_hash := hashv E [take (unat len) (sp_data p)]\<rparr>)) s"
proof -
  obtain p where p: "open_proof E program authority (address session) er_slot (address checkpoint) (address challenge)
         (address proof) s = Inr p" "len \<noteq> 0" "len \<le> sp_written_len p" "unat len \<le> length (sp_data p)"
    and fin: "store_step_proof E (address proof) (p\<lparr>sp_written_len := len, sp_sealed := True,
             sp_proof_hash := hashv E [take (unat len) (sp_data p)]\<rparr>) s = Inr s'"
    using assms by (auto simp: process_seal_step_proof_def Let_def rbind_ok guard_ok not_less)
  have parsed: "try_from_slice (step_proof_codec E) (dat s (address proof)) = Some p"
    using p(1) load_step_proof_parsed unfolding open_proof_ok by blast
  then have wf: "length (sp_data p) = 356" using parsed_step_proof_wf by (simp add: step_proof_wf_def MAX_STEP_PROOF_BYTES_def)
  then have "step_proof_wf (p\<lparr>sp_written_len := len, sp_sealed := True,
             sp_proof_hash := hashv E [take (unat len) (sp_data p)]\<rparr>)"
    by (simp add: step_proof_wf_def MAX_STEP_PROOF_BYTES_def)
  from store_step_proof_over [OF parsed this] fin p wf show ?thesis by (intro exI [of _ p]) (simp add: word_neq_0_conv)
qed

lemma uphold_challenge_effect:
  assumes run: "uphold_challenge E k g recipient u c ch cur s = Inr s'"
    and l: "length (dat s k) = 380" "length (dat s g) = 255" "length (dat s u) = 153"
  shows "recipient = ch_challenger ch \<and> (\<exists>t. cp_bond_status c = Locked \<and> bond_moved k recipient (cp_bond_lamports c) s t
     \<and> s' = set_dat u (ser (cursor_codec E) (clear_active_checkpoint cur))
        (set_dat g (ser (challenge_codec E) (ch\<lparr>ch_status := ChallengerWon\<rparr>))
        (set_dat k (ser (checkpoint_codec E) (c\<lparr>cp_bond_status := Slashed, cp_status := Invalid, cp_challenge_resolved := True\<rparr>)) t)))"
proof -
  obtain c' t v w where r: "recipient = ch_challenger ch" and t: "slash_checkpoint_bond E k recipient c s = Inr (c', t)"
    and v: "store_checkpoint E k (c'\<lparr>cp_status := Invalid, cp_challenge_resolved := True\<rparr>) t = Inr v"
    and w: "store_challenge E g (ch\<lparr>ch_status := ChallengerWon\<rparr>) v = Inr w"
      "store_cursor E u (clear_active_checkpoint cur) w = Inr s'"
    using run unfolding uphold_challenge_def by (auto simp: rbind_ok guard_ok)
  have c': "cp_bond_status c = Locked" "c' = c\<lparr>cp_bond_status := Slashed\<rparr>" and m: "bond_moved k recipient (cp_bond_lamports c) s t"
    using resolve_bond_effect t unfolding slash_checkpoint_bond_def by blast+
  have dt: "dat t j = dat s j" for j using bond_movedD(1) [OF m] by blast
  have ne: "u \<noteq> k" "u \<noteq> g" "g \<noteq> k" using l by auto
  have v': "v = set_dat k (ser (checkpoint_codec E) (c'\<lparr>cp_status := Invalid, cp_challenge_resolved := True\<rparr>)) t"
    using v l by (simp add: dt store_checkpoint_sized)
  then have "w = set_dat g (ser (challenge_codec E) (ch\<lparr>ch_status := ChallengerWon\<rparr>)) v"
    using w(1) l ne by (simp add: dt store_challenge_sized)
  then have "s' = set_dat u (ser (cursor_codec E) (clear_active_checkpoint cur))
      (set_dat g (ser (challenge_codec E) (ch\<lparr>ch_status := ChallengerWon\<rparr>)) v)"
    using w(2) l ne by (simp add: v' dt store_cursor_sized)
  then show ?thesis using r c' m v' by (auto intro!: exI [of _ t])
qed

lemma create_step_proof_effect:
  assumes "process_create_step_proof E program (authority # session # checkpoint # challenge # proof # sys # rest) args s = Inr s'"
  defines "p0 \<equiv> empty_step_proof args (address checkpoint) (address challenge) (address authority)
      (snd (find_step_proof_pda E program (address checkpoint)))"
  shows "\<exists>x c g ext. is_signer authority \<and> load_session E program (address session) s = Inr x
     \<and> load_checkpoint E program (address session) (cs_er_slot args) (address checkpoint) s = Inr c \<and> cp_status c = Challenged
     \<and> load_challenge E program (address checkpoint) (address challenge) s = Inr g \<and> ch_status g = Active
     \<and> clock_slot E < ch_turn_deadline_l1_slot g \<and> clock_slot E < ch_hard_deadline_l1_slot g \<and> ch_turn g = Prove
     \<and> cs_step_index args = ch_start_step g \<and> ch_end_step g = saturating_add (ch_start_step g) 1
     \<and> address authority = ch_challenger g
     \<and> session_context_v1 E program (address session) x = Some (cs_session_context args)
     \<and> cs_readonly_l1_root args = cp_readonly_l1_root c \<and> cs_settlement_effect_root args = cp_effect_commitment c
     \<and> verify_step_tx_effect_binding (hashv E) c (cs_step_index args) (cs_proof_kind args, cs_proof_version args)
         (cs_tx_effect_root args) (cs_tx_effect_path_len args) (cs_tx_effect_path args) = Inr True
     \<and> address proof = fst (find_step_proof_pda E program (address checkpoint))
     \<and> dat s' (address proof) = ser (step_proof_codec E) (p0\<lparr>sp_public_input_hash :=
          step_proof_public_input_hash (hashv E) program (address session) (address checkpoint) c g p0\<rparr>) @ ext
     \<and> (dat s (address proof) = [] \<or> length (dat s (address proof)) \<ge> 668)
     \<and> own s' (address proof) = program \<and> same_but {address proof} s s'"
proof -
  let ?accs = "authority # session # checkpoint # challenge # proof # sys # rest"
  let ?s = "address session" and ?k = "address checkpoint" and ?g = "address challenge" and ?p = "address proof"
  let ?P = "\<lambda>c g. p0\<lparr>sp_public_input_hash := step_proof_public_input_hash (hashv E) program ?s ?k c g p0\<rparr>"
  obtain x c g t where h: "is_signer authority" "load_session E program ?s s = Inr x"
      "load_checkpoint E program ?s (cs_er_slot args) ?k s = Inr c" "cp_status c = Challenged"
      "load_challenge E program ?k ?g s = Inr g" "ch_status g = Active" "clock_slot E < ch_turn_deadline_l1_slot g"
      "clock_slot E < ch_hard_deadline_l1_slot g" "ch_turn g = Prove" "ch_end_step g = saturating_add (ch_start_step g) 1"
      "cs_step_index args = ch_start_step g"
      "session_context_v1 E program ?s x = Some (cs_session_context args)" "address authority = ch_challenger g"
      "cs_readonly_l1_root args = cp_readonly_l1_root c" "cs_settlement_effect_root args = cp_effect_commitment c"
      "verify_step_tx_effect_binding (hashv E) c (cs_step_index args) (cs_proof_kind args, cs_proof_version args)
         (cs_tx_effect_root args) (cs_tx_effect_path_len args) (cs_tx_effect_path args) = Inr True"
      "?p = fst (find_step_proof_pda E program ?k)"
    and t: "ensure_step_proof E program ?accs (address authority) ?p (?P c g) s = Inr t"
    and fin: "store_step_proof E ?p (?P c g) t = Inr s'"
    using assms(1) [unfolded process_create_step_proof_def Let_def de_Morgan_disj not_not,
        simplified rbind_ok guard_ok require_live_turn_ok, simplified, simplified rbind_ok, folded p0_def]
    by (elim exE conjE) (rule that, (assumption | (simp; fail))+)
  have wf: "step_proof_wf (?P c g)" by (simp add: step_proof_wf_def p0_def empty_step_proof_def)
  have t': "same_but {?p} s t \<and> own t ?p = program \<and> (dat s ?p = [] \<or> t = s)"
  proof (cases "dat s ?p = []")
    case True
    then obtain amount seeds size where "initialize_pda_account E program ?accs (address authority) ?p amount size program seeds s = Inr t"
      using t by (auto simp: ensure_step_proof_def ok_simps Let_def)
    from initialize_same_but [OF this] initialize_created [OF this] show ?thesis using created_atD(3) True by fastforce
  next
    case False
    then show ?thesis using t by (auto simp: ensure_step_proof_def ok_simps Let_def)
  qed
  from fin obtain ext where s': "s' = set_dat ?p (ser (step_proof_codec E) (?P c g) @ ext) t" and "length (dat t ?p) \<ge> 668"
    by (auto simp: store_step_proof_def store_ok write_slice_def step_proof_c.ser_length [OF wf] split: if_splits)
  then have old: "dat s ?p = [] \<or> length (dat s ?p) \<ge> 668" using t' by auto
  have "same_but {?p} s s'" unfolding s' by (rule same_but_set_dat) (use t' step_proof_c.ser_length [OF wf] in auto)
  then show ?thesis using h t' old
    by (intro exI [of _ x] exI [of _ c] exI [of _ g] exI [of _ ext] conjI) (assumption | simp add: s')+
qed

lemma resolve_effect:
  assumes "process_resolve_challenge E program (submitter # session # checkpoint # challenge # da # proof # recipient # cursor # rest)
     er_slot mode s = Inr s'"
  shows "\<exists>x c g d u p. is_signer submitter \<and> load_session E program (address session) s = Inr x
     \<and> load_checkpoint E program (address session) er_slot (address checkpoint) s = Inr c \<and> cp_status c = Challenged
     \<and> load_challenge E program (address checkpoint) (address challenge) s = Inr g \<and> ch_status g = Active
     \<and> clock_slot E < ch_turn_deadline_l1_slot g \<and> clock_slot E < ch_hard_deadline_l1_slot g \<and> ch_turn g = Prove
     \<and> ch_end_step g = saturating_add (ch_start_step g) 1
     \<and> load_da_proof E program (address challenge) (address checkpoint) (address da) s = Inr d \<and> da_status d = Revealed
     \<and> load_cursor E program (address session) (address cursor) s = Inr u
     \<and> cc_active_checkpoint u = address checkpoint \<and> cc_active_er_slot u = er_slot
     \<and> load_step_proof E program (address checkpoint) (address proof) s = Inr p
     \<and> sp_challenge p = address challenge \<and> sp_authority p = ch_challenger g \<and> sp_sealed p
     \<and> 0 < sp_written_len p \<and> unat (sp_written_len p) \<le> 356
     \<and> sp_proof_hash p = hashv E [take (unat (sp_written_len p)) (sp_data p)]
     \<and> sp_public_input_hash p = step_proof_public_input_hash (hashv E) program (address session) (address checkpoint) c g p
     \<and> distinct [address session, address checkpoint, address challenge, address da, address cursor]
     \<and> (verify_step_proof E mode c g p = Proof_Invalid \<and> address recipient = ch_challenger g
         \<and> (\<exists>t. cp_bond_status c = Locked \<and> bond_moved (address checkpoint) (ch_challenger g) (cp_bond_lamports c) s t
           \<and> s' = set_dat (address cursor) (ser (cursor_codec E) (clear_active_checkpoint u))
              (set_dat (address challenge) (ser (challenge_codec E) (g\<lparr>ch_status := ChallengerWon\<rparr>))
              (set_dat (address checkpoint) (ser (checkpoint_codec E)
                 (c\<lparr>cp_bond_status := Slashed, cp_status := Invalid, cp_challenge_resolved := True\<rparr>)) t)))
        \<or> verify_step_proof E mode c g p = Proof_Valid
         \<and> s' = set_dat (address challenge) (ser (challenge_codec E) (g\<lparr>ch_status := ValidatorWon\<rparr>))
              (set_dat (address checkpoint) (ser (checkpoint_codec E) (c\<lparr>cp_status := Pending, cp_challenge_resolved := True\<rparr>)) s))"
proof -
  let ?s = "address session" and ?k = "address checkpoint" and ?g = "address challenge" and ?d = "address da" and ?u = "address cursor"
  obtain x c g d u p where h: "is_signer submitter" "load_session E program ?s s = Inr x" "load_checkpoint E program ?s er_slot ?k s = Inr c"
      "cp_status c = Challenged" "load_challenge E program ?k ?g s = Inr g" "ch_status g = Active"
      "clock_slot E < ch_turn_deadline_l1_slot g" "clock_slot E < ch_hard_deadline_l1_slot g" "ch_turn g = Prove"
      "ch_end_step g = saturating_add (ch_start_step g) 1" "load_da_proof E program ?g ?k ?d s = Inr d" "da_status d = Revealed"
      "load_cursor E program ?s ?u s = Inr u" "cc_active_checkpoint u = ?k" "cc_active_er_slot u = er_slot"
      "load_step_proof E program ?k (address proof) s = Inr p" "sp_challenge p = ?g" "sp_authority p = ch_challenger g" "sp_sealed p"
      "sp_written_len p \<noteq> 0" "unat (sp_written_len p) \<le> MAX_STEP_PROOF_BYTES"
      "hashv E [take (unat (sp_written_len p)) (sp_data p)] = sp_proof_hash p"
      "sp_public_input_hash p = step_proof_public_input_hash (hashv E) program ?s ?k c g p"
    and fin: "verify_step_proof E mode c g p \<noteq> Proof_Unavailable"
      "verify_step_proof E mode c g p = Proof_Invalid \<Longrightarrow> uphold_challenge E ?k ?g (address recipient) ?u c g u s = Inr s'"
      "verify_step_proof E mode c g p = Proof_Valid \<Longrightarrow> default_challenger E ?k ?g c g s = Inr s'"
    using assms [unfolded process_resolve_challenge_def Let_def de_Morgan_disj not_not,
        simplified rbind_ok guard_ok require_live_turn_ok require_active_checkpoint_ok not_less, simplified]
    by (elim exE conjE) (rule that, (assumption | (simp; fail) | (auto; fail))+)
  have l: "length (dat s ?s) = 226 \<or> length (dat s ?s) = 378" "length (dat s ?k) = 380" "length (dat s ?g) = 255"
      "length (dat s ?d) = 178" "length (dat s ?u) = 153"
    using parse_session_length [OF load_parsed(1) [OF h(2)]] parsed_length(1) [OF load_parsed(2) [OF h(3)]]
      parsed_length(3) [OF load_game_parsed(1) [OF h(5)]] parsed_length(4) [OF load_game_parsed(2) [OF h(11)]]
      parsed_length(2) [OF load_parsed(3) [OF h(13)]] by blast+
  then have dist: "distinct [?s, ?k, ?g, ?d, ?u]" by auto
  note facts = h(1-19) h(20) [unfolded word_neq_0_conv] h(21) [unfolded MAX_STEP_PROOF_BYTES_def] h(22) [symmetric] h(23) dist
  show ?thesis
  proof (cases "verify_step_proof E mode c g p")
    case Proof_Valid
    from default_challenger_effect [OF fin(3) [OF this] l(2,3)] this
    show ?thesis by (intro exI [of _ x] exI [of _ c] exI [of _ g] exI [of _ d] exI [of _ u] exI [of _ p] conjI)
        (rule facts | rule disjI2 | (rule conjI, assumption, assumption) | (simp; fail))+
  next
    case Proof_Invalid
    from uphold_challenge_effect [OF fin(2) [OF this] l(2,3,5)] this
    show ?thesis by (intro exI [of _ x] exI [of _ c] exI [of _ g] exI [of _ d] exI [of _ u] exI [of _ p] conjI)
        (rule facts | (rule disjI1, auto; fail))+
  qed (use fin in simp)
qed

end

end
