(* ===== verification/Checkpoint_Run.thy ===== *)
theory Checkpoint_Run
  imports Portal_Step_Proof Settlement_Run
begin

text \<open>
  The life of checkpoints under the instructions that change them, in any order, by any callers and
  at any slots: an abstract machine with the outcomes of the protocol, the refinement of every
  instruction to a step of it, and the invariants of all reachable ledgers.
\<close>

subsection \<open>Instructions and runs\<close>

datatype checkpoint_ix =
    Propose propose_checkpoint
  | Commit u64
  | Cancel u64
  | Open_challenge u64
  | Respond respond_challenge
  | Bisect u64 bool
  | Timeout u64
  | Create_proof create_step_proof
  | Write_proof write_step_proof
  | Seal_proof u64 u32
  | Resolve u64 step_proof_verifier_mode
  | Finish finish_settlement

fun checkpoint_exec :: "portal_env \<Rightarrow> pubkey \<Rightarrow> account_info list \<Rightarrow> checkpoint_ix \<Rightarrow> st \<Rightarrow> st res" where
  "checkpoint_exec E program accs (Propose args) s = process_propose_checkpoint E program accs args s"
| "checkpoint_exec E program accs (Commit er_slot) s = process_commit_checkpoint E program accs er_slot s"
| "checkpoint_exec E program accs (Cancel er_slot) s = process_cancel_checkpoint E program accs er_slot s"
| "checkpoint_exec E program accs (Open_challenge er_slot) s = process_open_challenge E program accs er_slot s"
| "checkpoint_exec E program accs (Respond args) s = process_respond_challenge E program accs args s"
| "checkpoint_exec E program accs (Bisect er_slot upper) s = process_bisect_challenge E program accs er_slot upper s"
| "checkpoint_exec E program accs (Timeout er_slot) s = process_timeout_challenge E program accs er_slot s"
| "checkpoint_exec E program accs (Create_proof args) s = process_create_step_proof E program accs args s"
| "checkpoint_exec E program accs (Write_proof args) s = process_write_step_proof E program accs args s"
| "checkpoint_exec E program accs (Seal_proof er_slot len) s = process_seal_step_proof E program accs er_slot len s"
| "checkpoint_exec E program accs (Resolve er_slot mode) s = process_resolve_challenge E program accs er_slot mode s"
| "checkpoint_exec E program accs (Finish args) s = process_finish_settlement E program accs args s"

inductive checkpoint_run :: "portal_env \<Rightarrow> pubkey \<Rightarrow> st \<Rightarrow> st \<Rightarrow> bool" for E program s where
  start: "checkpoint_run E program s s"
| step: "checkpoint_run E program s t \<Longrightarrow> checkpoint_exec (at_slot n E) program accs ix t = Inr u \<Longrightarrow> checkpoint_run E program s u"

subsection \<open>What the Portal stores at an address\<close>

definition checkpoint_at :: "portal_env \<Rightarrow> pubkey \<Rightarrow> st \<Rightarrow> pubkey \<Rightarrow> checkpoint option" where
  "checkpoint_at E program s k = (if own s k = program then try_from_slice (checkpoint_codec E) (dat s k) else None)"

definition cursor_at :: "portal_env \<Rightarrow> pubkey \<Rightarrow> st \<Rightarrow> pubkey \<Rightarrow> cursor option" where
  "cursor_at E program s k = (if own s k = program then try_from_slice (cursor_codec E) (dat s k) else None)"

definition challenge_at :: "portal_env \<Rightarrow> pubkey \<Rightarrow> st \<Rightarrow> pubkey \<Rightarrow> challenge option" where
  "challenge_at E program s k = (if own s k = program then try_from_slice (challenge_codec E) (dat s k) else None)"

subsection \<open>The protocol\<close>

text \<open>The abstract state: the checkpoints and cursors by address.\<close>

record rollup =
  ckpts :: "pubkey \<Rightarrow> checkpoint option"
  curs :: "pubkey \<Rightarrow> cursor option"

definition rollup_of :: "portal_env \<Rightarrow> pubkey \<Rightarrow> st \<Rightarrow> rollup" where
  "rollup_of E program s = \<lparr>ckpts = checkpoint_at E program s, curs = cursor_at E program s\<rparr>"

definition current_cursor :: "pubkey \<Rightarrow> u8 \<Rightarrow> cursor option \<Rightarrow> cursor" where
  "current_cursor S bump stored = (case stored of None \<Rightarrow> new_cursor S bump | Some u \<Rightarrow> u)"

text \<open>What may happen to the checkpoints of the session \<open>S\<close>, whose cursor is at \<open>U\<close> and whose checkpoint for an
  ephemeral slot \<open>n\<close> is at \<open>K n\<close>, at the L1 slot \<open>now\<close>.\<close>

inductive protocol_step :: "pubkey \<Rightarrow> pubkey \<Rightarrow> (u64 \<Rightarrow> pubkey) \<Rightarrow> u64 \<Rightarrow> rollup \<Rightarrow> rollup \<Rightarrow> bool"
  for S U K now where
  quiet: "protocol_step S U K now r r"
| propose: "u = current_cursor S bump (curs r U) \<Longrightarrow> cc_active_checkpoint u = 0 \<Longrightarrow>
     cc_latest_finalized_er_slot u < cp_er_slot c \<Longrightarrow> continues_root u (cp_previous_state_root c) \<Longrightarrow>
     (\<And>old. ckpts r (K (cp_er_slot c)) = Some old \<Longrightarrow>
        reusable_terminal old u \<and> cp_er_slot old = cp_er_slot c \<and> cp_session old = S) \<Longrightarrow>
     cp_session c = S \<Longrightarrow> cp_status c = Pending \<Longrightarrow> cp_bond_status c = Locked \<Longrightarrow> \<not> cp_challenge_resolved c \<Longrightarrow>
     cp_bond_lamports c = CHECKPOINT_PROPOSER_BOND_LAMPORTS \<Longrightarrow>
     0 < cp_step_count c \<Longrightarrow> cp_step_count c \<le> CANONICAL_CHECKPOINT_STEPS \<Longrightarrow> now \<le> cp_challenge_deadline_l1_slot c \<Longrightarrow>
     protocol_step S U K now r \<lparr>ckpts = (ckpts r)(K (cp_er_slot c) \<mapsto> c),
       curs = (curs r)(U \<mapsto> u\<lparr>cc_active_checkpoint := K (cp_er_slot c), cc_active_er_slot := cp_er_slot c\<rparr>)\<rparr>"
| commit: "ckpts r (K n) = Some c \<Longrightarrow> cp_session c = S \<Longrightarrow> cp_er_slot c = n \<Longrightarrow> cp_status c = Pending \<Longrightarrow>
     cp_bond_status c = Locked \<Longrightarrow> cp_challenge_deadline_l1_slot c \<le> now \<Longrightarrow>
     curs r U = Some u \<Longrightarrow> cc_active_checkpoint u = K n \<Longrightarrow> cc_active_er_slot u = n \<Longrightarrow>
     cc_latest_finalized_er_slot u < n \<Longrightarrow> continues_root u (cp_previous_state_root c) \<Longrightarrow>
     protocol_step S U K now r \<lparr>ckpts = (ckpts r)(K n \<mapsto> c\<lparr>cp_status := Committed, cp_bond_status := Released\<rparr>),
       curs = (curs r)(U \<mapsto> u\<lparr>cc_latest_finalized_checkpoint := K n, cc_latest_finalized_er_slot := n,
         cc_latest_finalized_state_root := cp_new_state_root c\<rparr>)\<rparr>"
| cancel: "ckpts r (K n) = Some c \<Longrightarrow> cp_session c = S \<Longrightarrow> cp_er_slot c = n \<Longrightarrow> cp_status c = Pending \<Longrightarrow>
     cp_bond_status c = Locked \<Longrightarrow> now < cp_challenge_deadline_l1_slot c \<Longrightarrow>
     curs r U = Some u \<Longrightarrow> cc_active_checkpoint u = K n \<Longrightarrow> cc_active_er_slot u = n \<Longrightarrow>
     protocol_step S U K now r \<lparr>ckpts = (ckpts r)(K n \<mapsto> c\<lparr>cp_status := Cancelled, cp_bond_status := Released\<rparr>),
       curs = (curs r)(U \<mapsto> clear_active_checkpoint u)\<rparr>"
| dispute: "ckpts r (K n) = Some c \<Longrightarrow> cp_session c = S \<Longrightarrow> cp_er_slot c = n \<Longrightarrow> cp_status c = Pending \<Longrightarrow>
     \<not> cp_challenge_resolved c \<Longrightarrow> now < cp_challenge_deadline_l1_slot c \<Longrightarrow>
     protocol_step S U K now r (r\<lparr>ckpts := (ckpts r)(K n \<mapsto>
       c\<lparr>cp_status := Challenged, cp_challenger := who, cp_challenged_at_l1_slot := now\<rparr>)\<rparr>)"
| strike: "ckpts r (K n) = Some c \<Longrightarrow> cp_session c = S \<Longrightarrow> cp_er_slot c = n \<Longrightarrow> cp_status c = Challenged \<Longrightarrow>
     cp_bond_status c = Locked \<Longrightarrow>
     curs r U = Some u \<Longrightarrow> cc_active_checkpoint u = K n \<Longrightarrow> cc_active_er_slot u = n \<Longrightarrow>
     protocol_step S U K now r \<lparr>ckpts = (ckpts r)(K n \<mapsto> c\<lparr>cp_bond_status := Slashed, cp_status := Invalid,
         cp_challenge_resolved := True\<rparr>), curs = (curs r)(U \<mapsto> clear_active_checkpoint u)\<rparr>"
| uphold: "ckpts r (K n) = Some c \<Longrightarrow> cp_session c = S \<Longrightarrow> cp_er_slot c = n \<Longrightarrow> cp_status c = Challenged \<Longrightarrow>
     protocol_step S U K now r (r\<lparr>ckpts := (ckpts r)(K n \<mapsto> c\<lparr>cp_status := Pending, cp_challenge_resolved := True\<rparr>)\<rparr>)"
| settle: "ckpts r (K n) = Some c \<Longrightarrow> cp_session c = S \<Longrightarrow> cp_er_slot c = n \<Longrightarrow> cp_status c = Committed \<Longrightarrow>
     curs r U = Some u \<Longrightarrow> cc_active_checkpoint u = K n \<Longrightarrow> cc_active_er_slot u = n \<Longrightarrow>
     protocol_step S U K now r \<lparr>ckpts = (ckpts r)(K n \<mapsto> c\<lparr>cp_status := Settled\<rparr>),
       curs = (curs r)(U \<mapsto> clear_active_checkpoint u)\<rparr>"

inductive_cases protocol_stepE: "protocol_step S U K now r r'"

text \<open>The addresses of the session of a Portal deployment.\<close>

abbreviation session_key :: "portal_env \<Rightarrow> pubkey \<Rightarrow> pubkey" where
  "session_key E program \<equiv> fst (find_session_pda E program)"

abbreviation cursor_key :: "portal_env \<Rightarrow> pubkey \<Rightarrow> pubkey" where
  "cursor_key E program \<equiv> fst (find_checkpoint_cursor_pda E program (session_key E program))"

abbreviation checkpoint_key :: "portal_env \<Rightarrow> pubkey \<Rightarrow> u64 \<Rightarrow> pubkey" where
  "checkpoint_key E program \<equiv> \<lambda>n. fst (find_checkpoint_pda E program (session_key E program) n)"

abbreviation portal_step :: "portal_env \<Rightarrow> pubkey \<Rightarrow> rollup \<Rightarrow> rollup \<Rightarrow> bool" where
  "portal_step E program \<equiv>
     protocol_step (session_key E program) (cursor_key E program) (checkpoint_key E program) (clock_slot E)"

subsection \<open>Every instruction is a step of the protocol\<close>

lemma rollup_of_cong:
  "(\<And>j. dat t j = dat s j) \<Longrightarrow> (\<And>j. own t j = own s j) \<Longrightarrow> rollup_of E program t = rollup_of E program s"
  by (simp add: rollup_of_def checkpoint_at_def cursor_at_def fun_eq_iff)

lemma rollup_of_bond: "bond_moved k recipient bond s t \<Longrightarrow> rollup_of E program t = rollup_of E program s"
  by (rule rollup_of_cong) (auto dest: bond_movedD)

context portal_codecs
begin

lemma checkpoint_at_None: "length (dat s k) \<noteq> 380 \<Longrightarrow> checkpoint_at E program s k = None"
  using checkpoint_c.try_from_sliceD(3) by (fastforce simp: checkpoint_at_def intro: ccontr)

lemma cursor_at_None: "length (dat s k) \<noteq> 153 \<Longrightarrow> cursor_at E program s k = None"
  using cursor_c.try_from_sliceD(3) by (fastforce simp: cursor_at_def intro: ccontr)

lemma rollup_of_skip:
  assumes "length (dat s k) \<notin> {380, 153}" "length bs \<notin> {380, 153}"
  shows "rollup_of E program (set_dat k bs s) = rollup_of E program s"
proof -
  have "checkpoint_at E program (set_dat k bs s) j = checkpoint_at E program s j"
    "cursor_at E program (set_dat k bs s) j = cursor_at E program s j" for j
    using assms checkpoint_at_None [of "set_dat k bs s" k] checkpoint_at_None [of s k]
      cursor_at_None [of "set_dat k bs s" k] cursor_at_None [of s k]
    by (cases "j = k"; auto simp: checkpoint_at_def cursor_at_def)+
  then show ?thesis by (simp add: rollup_of_def fun_eq_iff)
qed

lemma rollup_of_put_checkpoint:
  assumes "own s k = program" "length (dat s k) = 380"
  shows "rollup_of E program (set_dat k (ser (checkpoint_codec E) c) s) =
     (rollup_of E program s)\<lparr>ckpts := (checkpoint_at E program s)(k \<mapsto> c)\<rparr>"
proof -
  have "cursor_at E program (set_dat k (ser (checkpoint_codec E) c) s) j = cursor_at E program s j" for j
    using assms by (cases "j = k") (simp_all add: cursor_at_None ser_lengths, simp add: cursor_at_def)
  then show ?thesis
    using assms(1) by (auto simp: rollup_of_def fun_eq_iff checkpoint_at_def ser_parsed)
qed

lemma rollup_of_put_cursor:
  assumes "own s k = program" "length (dat s k) = 153"
  shows "rollup_of E program (set_dat k (ser (cursor_codec E) u) s) =
     (rollup_of E program s)\<lparr>curs := (cursor_at E program s)(k \<mapsto> u)\<rparr>"
proof -
  have "checkpoint_at E program (set_dat k (ser (cursor_codec E) u) s) j = checkpoint_at E program s j" for j
    using assms by (cases "j = k") (simp_all add: checkpoint_at_None ser_lengths, simp add: checkpoint_at_def)
  then show ?thesis
    using assms(1) by (auto simp: rollup_of_def fun_eq_iff cursor_at_def ser_parsed)
qed

text \<open>The stored structs that an instruction loaded, as the abstract state has them.\<close>

lemma load_checkpoint_view:
  assumes "load_session E program S s = Inr x" "load_checkpoint E program S er_slot k s = Inr c"
  shows "S = session_key E program" "k = checkpoint_key E program er_slot" "checkpoint_at E program s k = Some c"
    "own s k = program" "length (dat s k) = 380" "cp_session c = session_key E program" "cp_er_slot c = er_slot"
  using assms parsed_length(1) unfolding load_session_ok load_checkpoint_ok checkpoint_at_def by auto

lemma load_cursor_view:
  assumes "load_session E program S s = Inr x" "load_cursor E program S k s = Inr u"
  shows "k = cursor_key E program" "cursor_at E program s k = Some u" "own s k = program" "length (dat s k) = 153"
  using assms parsed_length(2) unfolding load_session_ok load_cursor_ok cursor_at_def by auto

lemma load_game_length:
  "load_challenge E program k j s = Inr g \<Longrightarrow> own s j = program \<and> length (dat s j) = 255"
  "load_da_proof E program i k j s = Inr d \<Longrightarrow> own s j = program \<and> length (dat s j) = 178"
  using parsed_length unfolding load_challenge_ok load_da_proof_ok by auto

lemmas rollup_puts = rollup_of_put_checkpoint rollup_of_put_cursor rollup_of_skip rollup_of_bond

lemma propose_refines:
  assumes "process_propose_checkpoint_versioned E program (proposer # session # checkpoint # cursor # sys # rest) args v2 s = Inr s'"
  shows "portal_step E program (rollup_of E program s) (rollup_of E program s')"
proof -
  let ?k = "address checkpoint" and ?u = "address cursor" and ?s = "address session"
  obtain x u deadline c where x: "load_session E program ?s s = Inr x"
    and u: "?u = fst (find_checkpoint_cursor_pda E program ?s)"
      "dat s ?u = [] \<and> u = new_cursor ?s (snd (find_checkpoint_cursor_pda E program ?s))
        \<or> try_from_slice (cursor_codec E) (dat s ?u) = Some u \<and> own s ?u = program"
      "cc_active_checkpoint u = 0" "cc_latest_finalized_er_slot u < pc_er_slot args" "continues_root u (pc_previous_state_root args)"
    and k: "?k = fst (find_checkpoint_pda E program ?s (pc_er_slot args))"
      "dat s ?k = [] \<or> (\<exists>old. try_from_slice (checkpoint_codec E) (dat s ?k) = Some old \<and> reusable_terminal old u
          \<and> cp_er_slot old = pc_er_slot args \<and> cp_session old = ?s)"
    and c: "checked_add (clock_slot E) (pc_challenge_window_slots args) = Some deadline"
       "c = proposed_checkpoint args ?s (address proposer) (clock_slot E) deadline (snd (find_checkpoint_pda E program ?s (pc_er_slot args)))"
       "0 < pc_step_count args" "pc_step_count args \<le> CANONICAL_CHECKPOINT_STEPS"
    and d: "?k \<noteq> ?u" "try_from_slice (checkpoint_codec E) (dat s' ?k) = Some c" "own s' ?k = program"
      "try_from_slice (cursor_codec E) (dat s' ?u) = Some (u\<lparr>cc_active_checkpoint := ?k, cc_active_er_slot := pc_er_slot args\<rparr>)"
      "own s' ?u = program" "same_but {?k, ?u} s s'"
    using propose_effect [OF assms]
    by (elim exE conjE) (rule that, assumption+, (simp; fail), assumption+)
  let ?u' = "u\<lparr>cc_active_checkpoint := ?k, cc_active_er_slot := pc_er_slot args\<rparr>"
  have S: "?s = session_key E program" using x unfolding load_session_ok by blast
  have now: "clock_slot E \<le> deadline" using c(1) by (simp add: checked_add_Some_iff word_le_nat_alt)
  have "checkpoint_at E program s' j = ((checkpoint_at E program s)(?k \<mapsto> c)) j" for j
  proof -
    consider "j = ?k" | "j = ?u" "j \<noteq> ?k" | "j \<notin> {?k, ?u}" by blast
    then show ?thesis
    proof cases
      case 2
      have "length (dat s' ?u) \<noteq> 380" "length (dat s ?u) \<noteq> 380" using parsed_length(2) d(4) u(2) by fastforce+
      with 2 show ?thesis by (simp add: checkpoint_at_None)
    qed (use d(2,3) same_butD(1,2) [OF d(6)] in \<open>auto simp: checkpoint_at_def\<close>)
  qed
  moreover have "cursor_at E program s' j = ((cursor_at E program s)(?u \<mapsto> ?u')) j" for j
  proof -
    consider "j = ?u" | "j = ?k" "j \<noteq> ?u" | "j \<notin> {?k, ?u}" by blast
    then show ?thesis
    proof cases
      case 2
      have "length (dat s' ?k) \<noteq> 153" "length (dat s ?k) \<noteq> 153" using parsed_length(1) d(2) k(2) by fastforce+
      with 2 show ?thesis by (simp add: cursor_at_None)
    qed (use d(4,5) same_butD(1,2) [OF d(6)] in \<open>auto simp: cursor_at_def\<close>)
  qed
  ultimately have s': "rollup_of E program s' = \<lparr>ckpts = (checkpoint_at E program s)(?k \<mapsto> c), curs = (cursor_at E program s)(?u \<mapsto> ?u')\<rparr>"
    by (simp add: rollup_of_def fun_eq_iff)
  have old: "reusable_terminal old u \<and> cp_er_slot old = pc_er_slot args \<and> cp_session old = ?s" if "checkpoint_at E program s ?k = Some old" for old
    using that k(2) checkpoint_at_None [of s ?k program]
    by (auto simp: checkpoint_at_def split: if_splits)
  have cur: "u = current_cursor ?s (snd (find_checkpoint_cursor_pda E program ?s)) (cursor_at E program s ?u)"
    using u(2) cursor_at_None [of s ?u program] by (auto simp: current_cursor_def cursor_at_def)
  have k'': "checkpoint_key E program (pc_er_slot args) = ?k" using k(1) S by simp
  then have k': "checkpoint_key E program (cp_er_slot c) = ?k" using c(2) by simp
  have u': "cursor_key E program = ?u" using u(1) S by simp
  have "protocol_step ?s ?u (checkpoint_key E program) (clock_slot E) (rollup_of E program s)
      \<lparr>ckpts = (ckpts (rollup_of E program s))(checkpoint_key E program (cp_er_slot c) \<mapsto> c),
       curs = (curs (rollup_of E program s))(?u \<mapsto> u\<lparr>cc_active_checkpoint := checkpoint_key E program (cp_er_slot c),
         cc_active_er_slot := cp_er_slot c\<rparr>)\<rparr>"
    by (rule protocol_step.propose [where bump = "snd (find_checkpoint_cursor_pda E program ?s)"])
      (use cur u(3-5) c(2-4) old now k' in \<open>simp_all add: rollup_of_def\<close>)
  moreover have "cp_er_slot c = pc_er_slot args" using c(2) by simp
  ultimately show ?thesis using s' by (simp add: rollup_of_def k'' u' S)
qed

text \<open>Writing a checkpoint and its session's cursor.\<close>

lemma rollup_of_put_both:
  assumes "own s k = program" "length (dat s k) = 380" "own s j = program" "length (dat s j) = 153"
  shows "rollup_of E program (set_dat j (ser (cursor_codec E) u) (set_dat k (ser (checkpoint_codec E) c) s)) =
     \<lparr>ckpts = (checkpoint_at E program s)(k \<mapsto> c), curs = (cursor_at E program s)(j \<mapsto> u)\<rparr>"
proof -
  let ?t = "set_dat k (ser (checkpoint_codec E) c) s"
  have "j \<noteq> k" using assms by auto
  then have "own ?t j = program" "length (dat ?t j) = 153" using assms by auto
  from rollup_of_put_cursor [OF this] rollup_of_put_checkpoint [OF assms(1,2)]
  show ?thesis by (simp add: rollup_of_def)
qed

lemma set_dat_commute: "j \<noteq> k \<Longrightarrow> set_dat j a (set_dat k b s) = set_dat k b (set_dat j a s)"
  by (intro st_eqI acct_eqI) auto

lemma bond_kept:
  assumes "bond_moved k recipient bond s t"
  shows "own t j = own s j" "dat t j = dat s j" "rollup_of E program t = rollup_of E program s"
    "checkpoint_at E program t = checkpoint_at E program s" "cursor_at E program t = cursor_at E program s"
  using bond_movedD [OF assms] rollup_of_bond [OF assms] by (auto simp: checkpoint_at_def cursor_at_def fun_eq_iff)

lemma bond_put_both:
  assumes "bond_moved i recipient bond s t"
    and "own s k = program" "length (dat s k) = 380" "own s j = program" "length (dat s j) = 153"
  shows "rollup_of E program (set_dat j (ser (cursor_codec E) u) (set_dat k (ser (checkpoint_codec E) c) t)) =
     \<lparr>ckpts = (ckpts (rollup_of E program s))(k \<mapsto> c), curs = (curs (rollup_of E program s))(j \<mapsto> u)\<rparr>"
  using rollup_of_put_both [of t k program j u c] assms(2-) bond_kept [OF assms(1)] by (simp add: rollup_of_def)

lemma commit_refines:
  assumes "process_commit_checkpoint_versioned E program (committer # session # checkpoint # cursor # proposer # rest) er_slot v2 s
     = Inr s'"
  shows "portal_step E program (rollup_of E program s) (rollup_of E program s')"
proof -
  obtain x c u t where x: "load_session E program (address session) s = Inr x"
      "load_checkpoint E program (address session) er_slot (address checkpoint) s = Inr c"
      "load_cursor E program (address session) (address cursor) s = Inr u"
    and g: "cp_status c = Pending" "cp_challenge_deadline_l1_slot c \<le> clock_slot E" "cc_latest_finalized_er_slot u < er_slot"
      "cc_active_checkpoint u = address checkpoint" "cc_active_er_slot u = er_slot" "continues_root u (cp_previous_state_root c)"
      "cp_bond_status c = Locked"
    and t: "bond_moved (address checkpoint) (address proposer) (cp_bond_lamports c) s t"
    and s': "s' = set_dat (address cursor) (ser (cursor_codec E) (u\<lparr>cc_latest_finalized_checkpoint := address checkpoint,
              cc_latest_finalized_er_slot := er_slot, cc_latest_finalized_state_root := cp_new_state_root c\<rparr>))
          (set_dat (address checkpoint) (ser (checkpoint_codec E) (c\<lparr>cp_status := Committed, cp_bond_status := Released\<rparr>)) t)"
    using commit_effect [OF assms] by (elim exE conjE) (rule that, assumption+)
  note v = load_checkpoint_view [OF x(1,2)] load_cursor_view [OF x(1,3)]
  have "protocol_step (session_key E program) (cursor_key E program) (checkpoint_key E program) (clock_slot E) (rollup_of E program s)
     \<lparr>ckpts = (ckpts (rollup_of E program s))(checkpoint_key E program er_slot \<mapsto> c\<lparr>cp_status := Committed, cp_bond_status := Released\<rparr>),
      curs = (curs (rollup_of E program s))(cursor_key E program \<mapsto> u\<lparr>cc_latest_finalized_checkpoint := checkpoint_key E program er_slot,
        cc_latest_finalized_er_slot := er_slot, cc_latest_finalized_state_root := cp_new_state_root c\<rparr>)\<rparr>"
    by (rule protocol_step.commit) (use v g in \<open>auto simp: rollup_of_def\<close>)
  then show ?thesis unfolding s' bond_put_both [OF t v(4,5) v(10,11)] using v(2,8) by simp
qed

lemma cancel_refines:
  assumes "process_cancel_checkpoint E program (proposer # session # checkpoint # cursor # rest) er_slot s = Inr s'"
  shows "portal_step E program (rollup_of E program s) (rollup_of E program s')"
proof -
  obtain x c u t where x: "load_session E program (address session) s = Inr x"
      "load_checkpoint E program (address session) er_slot (address checkpoint) s = Inr c"
      "load_cursor E program (address session) (address cursor) s = Inr u"
    and g: "cp_status c = Pending" "clock_slot E < cp_challenge_deadline_l1_slot c"
      "cc_active_checkpoint u = address checkpoint" "cc_active_er_slot u = er_slot" "cp_bond_status c = Locked"
    and t: "bond_moved (address checkpoint) (address proposer) (cp_bond_lamports c) s t"
    and s': "s' = set_dat (address cursor) (ser (cursor_codec E) (clear_active_checkpoint u))
          (set_dat (address checkpoint) (ser (checkpoint_codec E) (c\<lparr>cp_status := Cancelled, cp_bond_status := Released\<rparr>)) t)"
    using cancel_effect [OF assms] by (elim exE conjE) (rule that, assumption+)
  note v = load_checkpoint_view [OF x(1,2)] load_cursor_view [OF x(1,3)]
  have "protocol_step (session_key E program) (cursor_key E program) (checkpoint_key E program) (clock_slot E) (rollup_of E program s)
     \<lparr>ckpts = (ckpts (rollup_of E program s))(checkpoint_key E program er_slot \<mapsto> c\<lparr>cp_status := Cancelled, cp_bond_status := Released\<rparr>),
      curs = (curs (rollup_of E program s))(cursor_key E program \<mapsto> clear_active_checkpoint u)\<rparr>"
    by (rule protocol_step.cancel) (use v g in \<open>auto simp: rollup_of_def\<close>)
  then show ?thesis unfolding s' bond_put_both [OF t v(4,5) v(10,11)] using v(2,8) by simp
qed

lemma finish_loads:
  assumes "process_finish_settlement E program (validator # session # checkpoint # cursor # rest) args s = Inr s'"
  shows "\<exists>x c u. load_session E program (address session) s = Inr x
     \<and> load_checkpoint E program (address session) (fs_er_slot args) (address checkpoint) s = Inr c
     \<and> load_cursor E program (address session) (address cursor) s = Inr u"
  using assms by (auto simp: process_finish_settlement_def Let_def rbind_ok guard_ok load_checkpoint_ok
      load_checkpoint_for_settlement_ok)

lemma finish_refines:
  assumes "process_finish_settlement E program (validator # session # checkpoint # cursor # rest) args s = Inr s'"
  shows "portal_step E program (rollup_of E program s) (rollup_of E program s')"
proof -
  let ?s = "address session" and ?k = "address checkpoint" and ?u = "address cursor"
  obtain x c u where l: "load_session E program ?s s = Inr x" "load_checkpoint E program ?s (fs_er_slot args) ?k s = Inr c"
      "load_cursor E program ?s ?u s = Inr u"
    using finish_loads [OF assms] by blast
  note v = load_checkpoint_view [OF l(1,2)] load_cursor_view [OF l(1,3)]
  obtain y bs where g: "cp_status c = Committed" "cc_active_checkpoint u = ?k" "cc_active_er_slot u = fs_er_slot args"
    and d: "distinct [?s, ?k, ?u]" "parse_session E bs = Inr y"
    and s': "s' = set_dat ?s bs (set_dat ?u (ser (cursor_codec E) (clear_active_checkpoint u))
          (set_dat ?k (ser (checkpoint_codec E) (c\<lparr>cp_status := Settled\<rparr>)) s))"
    using finish_effect [OF assms] load_parsed(2) [OF l(2)] load_parsed(3) [OF l(3)]
    by (elim exE conjE) (rule that, (assumption | (simp; fail))+)
  let ?t = "set_dat ?u (ser (cursor_codec E) (clear_active_checkpoint u)) (set_dat ?k (ser (checkpoint_codec E) (c\<lparr>cp_status := Settled\<rparr>)) s)"
  have "dat ?t ?s = dat s ?s" using d(1) by auto
  then have "rollup_of E program s' = rollup_of E program ?t"
    unfolding s' using parse_session_length [OF load_parsed(1) [OF l(1)]] parse_session_length [OF d(2)]
    by (intro rollup_of_skip) auto
  moreover have "protocol_step (session_key E program) (cursor_key E program) (checkpoint_key E program) (clock_slot E) (rollup_of E program s)
     \<lparr>ckpts = (ckpts (rollup_of E program s))(checkpoint_key E program (fs_er_slot args) \<mapsto> c\<lparr>cp_status := Settled\<rparr>),
      curs = (curs (rollup_of E program s))(cursor_key E program \<mapsto> clear_active_checkpoint u)\<rparr>"
    by (rule protocol_step.settle) (use v g in \<open>auto simp: rollup_of_def\<close>)
  ultimately show ?thesis using v(2,8) rollup_of_put_both [OF v(4,5) v(10,11)] by (simp add: rollup_of_def)
qed

lemma open_refines:
  assumes "process_open_challenge E program (challenger # session # checkpoint # challenge # da # sys # rest) er_slot s = Inr s'"
  shows "portal_step E program (rollup_of E program s) (rollup_of E program s')"
proof -
  let ?s = "address session" and ?k = "address checkpoint" and ?g = "address challenge" and ?d = "address da"
  let ?c = "\<lambda>c. c\<lparr>cp_status := Challenged, cp_challenger := address challenger, cp_challenged_at_l1_slot := clock_slot E\<rparr>"
  obtain x c g d where l: "load_session E program ?s s = Inr x" "load_checkpoint E program ?s er_slot ?k s = Inr c"
    and h: "cp_status c = Pending" "\<not> cp_challenge_resolved c" "clock_slot E < cp_challenge_deadline_l1_slot c"
      "distinct [?s, ?k, ?g, ?d]"
    and r: "try_from_slice (challenge_codec E) (dat s' ?g) = Some g" "try_from_slice (da_proof_codec E) (dat s' ?d) = Some d"
      "try_from_slice (checkpoint_codec E) (dat s' ?k) = Some (?c c)" "own s' ?k = program"
      "dat s ?g = [] \<or> (\<exists>old. load_challenge E program ?k ?g s = Inr old \<and> ch_status old \<noteq> Active)"
      "dat s ?d = [] \<or> length (dat s ?d) = 178" "same_but {?k, ?g, ?d} s s'"
    using open_challenge_effect [OF assms] by (elim exE conjE) (rule that, assumption+)
  have "length (dat s ?g) = 0 \<or> length (dat s ?g) = 255" using r(5) load_game_length(1) by auto
  then have before: "length (dat s ?g) \<notin> {380, 153}" "length (dat s ?d) \<notin> {380, 153}" using r(6) by auto
  have "length (dat s' ?g) = 255" "length (dat s' ?d) = 178" using r(1,2) parsed_length by blast+
  then have after: "length (dat s' ?g) \<notin> {380, 153}" "length (dat s' ?d) \<notin> {380, 153}" by simp_all
  have same: "checkpoint_at E program s' j = checkpoint_at E program s j \<and> cursor_at E program s' j = cursor_at E program s j"
    if "j \<noteq> ?k" for j
  proof (cases "j = ?g \<or> j = ?d")
    case True
    then show ?thesis using before after by (auto simp: checkpoint_at_None cursor_at_None)
  next
    case False
    then show ?thesis using that same_butD(1,2) [OF r(7), of j] by (simp add: checkpoint_at_def cursor_at_def)
  qed
  note v = load_checkpoint_view [OF l]
  have "cursor_at E program s' ?k = cursor_at E program s ?k"
    using v(5) parsed_length(1) [OF r(3)] by (simp add: cursor_at_None)
  then have cu: "cursor_at E program s' = cursor_at E program s" using same by (metis ext)
  have ck: "checkpoint_at E program s' = (checkpoint_at E program s)(?k \<mapsto> ?c c)"
    using same r(3,4) by (auto simp: fun_eq_iff checkpoint_at_def)
  have "rollup_of E program s' = (rollup_of E program s)\<lparr>ckpts := (ckpts (rollup_of E program s))(?k \<mapsto> ?c c)\<rparr>"
    by (simp add: rollup_of_def cu ck)
  moreover have "protocol_step (session_key E program) (cursor_key E program) (checkpoint_key E program) (clock_slot E) (rollup_of E program s)
     ((rollup_of E program s)\<lparr>ckpts := (ckpts (rollup_of E program s))(checkpoint_key E program er_slot \<mapsto> ?c c)\<rparr>)"
    by (rule protocol_step.dispute) (use v h in \<open>auto simp: rollup_of_def\<close>)
  ultimately show ?thesis using v(2) by simp
qed

lemma put_challenge_quiet:
  assumes "length (dat s k) = 255"
  shows "rollup_of E program (set_dat k (ser (challenge_codec E) g) s) = rollup_of E program s"
  by (rule rollup_of_skip) (use assms in \<open>simp_all add: ser_lengths\<close>)

lemma put_da_proof_quiet:
  assumes "length (dat s k) = 178"
  shows "rollup_of E program (set_dat k (ser (da_proof_codec E) d) s) = rollup_of E program s"
  by (rule rollup_of_skip) (use assms in \<open>simp_all add: ser_lengths\<close>)

lemma respond_quiet:
  assumes "process_respond_challenge E program (validator # session # checkpoint # challenge # da # rest) args s = Inr s'"
  shows "rollup_of E program s' = rollup_of E program s"
proof -
  obtain g d d' g' where l: "load_challenge E program (address checkpoint) (address challenge) s = Inr g"
      "load_da_proof E program (address challenge) (address checkpoint) (address da) s = Inr d"
    and n: "distinct [address session, address checkpoint, address challenge, address da]"
    and s': "s' = set_dat (address challenge) (ser (challenge_codec E) g') (set_dat (address da) (ser (da_proof_codec E) d') s)"
    using respond_effect [OF assms] by blast
  note len = load_game_length(1) [OF l(1)] load_game_length(2) [OF l(2)]
  let ?t = "set_dat (address da) (ser (da_proof_codec E) d') s"
  have "length (dat ?t (address challenge)) = 255" using len n by auto
  from put_challenge_quiet [OF this] put_da_proof_quiet len show ?thesis by (simp add: s')
qed

lemma bisect_quiet:
  assumes "process_bisect_challenge E program (challenger # session # checkpoint # challenge # rest) er_slot upper s = Inr s'"
  shows "rollup_of E program s' = rollup_of E program s"
  using bisect_effect [OF assms] load_game_length(1) put_challenge_quiet by blast

lemma put_step_proof_quiet:
  assumes "try_from_slice (step_proof_codec E) (dat s k) = Some p" "step_proof_wf p'"
  shows "rollup_of E program (set_dat k (ser (step_proof_codec E) p') s) = rollup_of E program s"
  by (rule rollup_of_skip)
     (use step_proof_c.try_from_sliceD(3) [OF assms(1)] step_proof_c.ser_length [OF assms(2)] in simp_all)

lemma open_proof_parsed:
  "open_proof E program authority session er_slot checkpoint challenge proof s = Inr p \<Longrightarrow>
   try_from_slice (step_proof_codec E) (dat s proof) = Some p"
  using load_step_proof_parsed unfolding open_proof_ok by blast

lemma write_quiet:
  assumes "process_write_step_proof E program (authority # session # checkpoint # challenge # proof # rest) args s = Inr s'"
  shows "rollup_of E program s' = rollup_of E program s"
  using write_step_proof_effect [OF assms]
  by (elim exE conjE)
     (simp add: put_step_proof_quiet [OF open_proof_parsed] step_proof_wf_def MAX_STEP_PROOF_BYTES_def length_overwrite)

lemma seal_quiet:
  assumes "process_seal_step_proof E program (authority # session # checkpoint # challenge # proof # rest) er_slot len s = Inr s'"
  shows "rollup_of E program s' = rollup_of E program s"
  using seal_step_proof_effect [OF assms]
  by (elim exE conjE)
     (simp add: put_step_proof_quiet [OF open_proof_parsed] step_proof_wf_def MAX_STEP_PROOF_BYTES_def)

lemma create_quiet:
  assumes "process_create_step_proof E program (authority # session # checkpoint # challenge # proof # sys # rest) args s = Inr s'"
  shows "rollup_of E program s' = rollup_of E program s"
proof -
  let ?p = "address proof"
  obtain p ext where p: "step_proof_wf p" "dat s' ?p = ser (step_proof_codec E) p @ ext" "same_but {?p} s s'"
    using create_step_proof_effect [OF assms]
    by (elim exE conjE) (rule that, simp_all add: step_proof_wf_def empty_step_proof_def)
  have l: "length (dat s' ?p) \<ge> 668" using p step_proof_c.ser_length [OF p(1)] by simp
  have l': "length (dat s ?p) \<notin> {380, 153}"
    using create_step_proof_effect [OF assms] by fastforce
  have "checkpoint_at E program s' j = checkpoint_at E program s j \<and> cursor_at E program s' j = cursor_at E program s j" for j
    using l l' same_butD(1,2) [OF p(3), of j]
    by (cases "j = ?p") (simp_all add: checkpoint_at_None cursor_at_None, simp add: checkpoint_at_def cursor_at_def)
  then show ?thesis by (simp add: rollup_of_def fun_eq_iff)
qed

lemma uphold_refines:
  assumes "load_session E program S s = Inr x" "load_checkpoint E program S er_slot k s = Inr c" "cp_status c = Challenged"
    and "s' = set_dat j (ser (challenge_codec E) g') (set_dat k (ser (checkpoint_codec E) (c\<lparr>cp_status := Pending, cp_challenge_resolved := True\<rparr>)) s)"
    and "load_challenge E program k j s = Inr g"
  shows "portal_step E program (rollup_of E program s) (rollup_of E program s')"
proof -
  note v = load_checkpoint_view [OF assms(1,2)]
  let ?c = "c\<lparr>cp_status := Pending, cp_challenge_resolved := True\<rparr>"
  have "j \<noteq> k" "length (dat s j) = 255" using v(5) load_game_length(1) [OF assms(5)] by auto
  then have "rollup_of E program s' = (rollup_of E program s)\<lparr>ckpts := (ckpts (rollup_of E program s))(k \<mapsto> ?c)\<rparr>"
    using put_challenge_quiet rollup_of_put_checkpoint [OF v(4,5)] by (simp add: assms(4) rollup_of_def)
  moreover have "protocol_step (session_key E program) (cursor_key E program) (checkpoint_key E program) (clock_slot E)
      (rollup_of E program s) ((rollup_of E program s)\<lparr>ckpts := (ckpts (rollup_of E program s))(checkpoint_key E program er_slot \<mapsto> ?c)\<rparr>)"
    by (rule protocol_step.uphold) (use v assms(3) in \<open>auto simp: rollup_of_def\<close>)
  ultimately show ?thesis using v(2) by simp
qed

lemma strike_refines:
  assumes l: "load_session E program S s = Inr x" "load_checkpoint E program S er_slot k s = Inr c" "load_cursor E program S j s = Inr u"
    and h: "cp_status c = Challenged" "cc_active_checkpoint u = k" "cc_active_er_slot u = er_slot" "cp_bond_status c = Locked"
    and s': "rollup_of E program s' = \<lparr>ckpts = (ckpts (rollup_of E program s))(k \<mapsto> c\<lparr>cp_bond_status := Slashed, cp_status := Invalid,
         cp_challenge_resolved := True\<rparr>), curs = (curs (rollup_of E program s))(j \<mapsto> clear_active_checkpoint u)\<rparr>"
  shows "portal_step E program (rollup_of E program s) (rollup_of E program s')"
proof -
  note v = load_checkpoint_view [OF l(1,2)] load_cursor_view [OF l(1,3)]
  have "protocol_step (session_key E program) (cursor_key E program) (checkpoint_key E program) (clock_slot E) (rollup_of E program s)
     \<lparr>ckpts = (ckpts (rollup_of E program s))(checkpoint_key E program er_slot \<mapsto> c\<lparr>cp_bond_status := Slashed, cp_status := Invalid,
         cp_challenge_resolved := True\<rparr>), curs = (curs (rollup_of E program s))(cursor_key E program \<mapsto> clear_active_checkpoint u)\<rparr>"
    by (rule protocol_step.strike) (use v h in \<open>auto simp: rollup_of_def\<close>)
  then show ?thesis using s' v(2,8) by simp
qed

lemma timeout_refines:
  assumes "process_timeout_challenge E program (caller # session # checkpoint # challenge # da # recipient # cursor # rest) er_slot s
     = Inr s'"
  shows "portal_step E program (rollup_of E program s) (rollup_of E program s')"
proof -
  let ?s = "address session" and ?k = "address checkpoint" and ?g = "address challenge" and ?d = "address da" and ?u = "address cursor"
  obtain x c g u d where l: "load_session E program ?s s = Inr x" "load_checkpoint E program ?s er_slot ?k s = Inr c"
      "load_cursor E program ?s ?u s = Inr u" "load_challenge E program ?k ?g s = Inr g" "load_da_proof E program ?g ?k ?d s = Inr d"
    and h: "cp_status c = Challenged" "cc_active_checkpoint u = ?k" "cc_active_er_slot u = er_slot"
    and n: "distinct [?s, ?k, ?g, ?d, ?u]"
    and fin: "if ch_turn g = Respondent then
          \<exists>d' t. cp_bond_status c = Locked \<and> bond_moved ?k (ch_challenger g) (cp_bond_lamports c) s t
           \<and> d' = (if da_status d = Missing then d\<lparr>da_status := Defaulted\<rparr> else d)
           \<and> s' = set_dat ?g (ser (challenge_codec E) (g\<lparr>ch_status := ChallengerWon\<rparr>))
              (set_dat ?k (ser (checkpoint_codec E) (c\<lparr>cp_bond_status := Slashed, cp_status := Invalid, cp_challenge_resolved := True\<rparr>))
              (set_dat ?u (ser (cursor_codec E) (clear_active_checkpoint u))
              (set_dat ?d (ser (da_proof_codec E) d') t)))
        else s' = set_dat ?g (ser (challenge_codec E) (g\<lparr>ch_status := ValidatorWon\<rparr>))
              (set_dat ?k (ser (checkpoint_codec E) (c\<lparr>cp_status := Pending, cp_challenge_resolved := True\<rparr>)) s)"
    using timeout_effect [OF assms] by (elim exE conjE) (rule that, assumption+)
  note v = load_checkpoint_view [OF l(1,2)] load_cursor_view [OF l(1,3)]
  note len = load_game_length(1) [OF l(4)] load_game_length(2) [OF l(5)]
  show ?thesis
  proof (cases "ch_turn g = Respondent")
    case True
    let ?c = "c\<lparr>cp_bond_status := Slashed, cp_status := Invalid, cp_challenge_resolved := True\<rparr>"
    obtain d' t where t: "cp_bond_status c = Locked" "bond_moved ?k (ch_challenger g) (cp_bond_lamports c) s t"
      and s': "s' = set_dat ?g (ser (challenge_codec E) (g\<lparr>ch_status := ChallengerWon\<rparr>)) (set_dat ?k (ser (checkpoint_codec E) ?c)
              (set_dat ?u (ser (cursor_codec E) (clear_active_checkpoint u)) (set_dat ?d (ser (da_proof_codec E) d') t)))"
      using fin True by auto
    let ?a = "set_dat ?d (ser (da_proof_codec E) d') t"
    have a: "rollup_of E program ?a = rollup_of E program s" "own ?a j = own s j"
        "j \<noteq> ?d \<Longrightarrow> dat ?a j = dat s j" for j
      using put_da_proof_quiet [of t ?d] len bond_kept [OF t(2)] by auto
    have ka: "own ?a ?k = program" "length (dat ?a ?k) = 380" "own ?a ?u = program" "length (dat ?a ?u) = 153"
      using a(2,3) v(4,5,10,11) n by auto
    let ?b = "set_dat ?u (ser (cursor_codec E) (clear_active_checkpoint u)) (set_dat ?k (ser (checkpoint_codec E) ?c) ?a)"
    have "set_dat ?k (ser (checkpoint_codec E) ?c) (set_dat ?u (ser (cursor_codec E) (clear_active_checkpoint u)) ?a) = ?b"
      using n by (intro set_dat_commute) auto
    then have sb: "s' = set_dat ?g (ser (challenge_codec E) (g\<lparr>ch_status := ChallengerWon\<rparr>)) ?b" by (simp add: s')
    have "length (dat ?b ?g) = 255" using a(3) [of ?g] len n by auto
    then have "rollup_of E program s' = rollup_of E program ?b" unfolding sb by (rule put_challenge_quiet)
    also have "\<dots> = \<lparr>ckpts = (ckpts (rollup_of E program ?a))(?k \<mapsto> ?c),
        curs = (curs (rollup_of E program ?a))(?u \<mapsto> clear_active_checkpoint u)\<rparr>"
      unfolding rollup_of_put_both [OF ka] by (simp add: rollup_of_def)
    finally show ?thesis unfolding a(1) by (rule strike_refines [OF l(1-3) h t(1)])
  next
    case False
    then show ?thesis using fin uphold_refines [OF l(1,2) h(1) _ l(4)] by simp
  qed
qed

lemma resolve_refines:
  assumes "process_resolve_challenge E program (submitter # session # checkpoint # challenge # da # proof # recipient # cursor # rest)
     er_slot mode s = Inr s'"
  shows "portal_step E program (rollup_of E program s) (rollup_of E program s')"
proof -
  let ?k = "address checkpoint" and ?g = "address challenge" and ?u = "address cursor" and ?s = "address session"
  obtain x c g u where l: "load_session E program ?s s = Inr x" "load_checkpoint E program ?s er_slot ?k s = Inr c"
      "load_cursor E program ?s ?u s = Inr u" "load_challenge E program ?k ?g s = Inr g"
    and h: "cp_status c = Challenged" "cc_active_checkpoint u = ?k" "cc_active_er_slot u = er_slot"
    and fin: "(\<exists>t. cp_bond_status c = Locked \<and> bond_moved ?k (ch_challenger g) (cp_bond_lamports c) s t
           \<and> s' = set_dat ?u (ser (cursor_codec E) (clear_active_checkpoint u))
              (set_dat ?g (ser (challenge_codec E) (g\<lparr>ch_status := ChallengerWon\<rparr>))
              (set_dat ?k (ser (checkpoint_codec E)
                 (c\<lparr>cp_bond_status := Slashed, cp_status := Invalid, cp_challenge_resolved := True\<rparr>)) t)))
        \<or> s' = set_dat ?g (ser (challenge_codec E) (g\<lparr>ch_status := ValidatorWon\<rparr>))
              (set_dat ?k (ser (checkpoint_codec E) (c\<lparr>cp_status := Pending, cp_challenge_resolved := True\<rparr>)) s)"
    using resolve_effect [OF assms] by (elim exE conjE) (rule that, assumption+, blast)
  note v = load_checkpoint_view [OF l(1,2)] load_cursor_view [OF l(1,3)]
  note len = load_game_length(1) [OF l(4)]
  have n: "?g \<noteq> ?k" "?g \<noteq> ?u" "?k \<noteq> ?u" using v(5,11) len by auto
  from fin show ?thesis
  proof
    assume "\<exists>t. cp_bond_status c = Locked \<and> bond_moved ?k (ch_challenger g) (cp_bond_lamports c) s t
           \<and> s' = set_dat ?u (ser (cursor_codec E) (clear_active_checkpoint u))
              (set_dat ?g (ser (challenge_codec E) (g\<lparr>ch_status := ChallengerWon\<rparr>))
              (set_dat ?k (ser (checkpoint_codec E)
                 (c\<lparr>cp_bond_status := Slashed, cp_status := Invalid, cp_challenge_resolved := True\<rparr>)) t))"
    then obtain t where t: "cp_bond_status c = Locked" "bond_moved ?k (ch_challenger g) (cp_bond_lamports c) s t"
      and s': "s' = set_dat ?u (ser (cursor_codec E) (clear_active_checkpoint u))
              (set_dat ?g (ser (challenge_codec E) (g\<lparr>ch_status := ChallengerWon\<rparr>))
              (set_dat ?k (ser (checkpoint_codec E)
                 (c\<lparr>cp_bond_status := Slashed, cp_status := Invalid, cp_challenge_resolved := True\<rparr>)) t))" by blast
    let ?b = "set_dat ?u (ser (cursor_codec E) (clear_active_checkpoint u)) (set_dat ?k (ser (checkpoint_codec E)
        (c\<lparr>cp_bond_status := Slashed, cp_status := Invalid, cp_challenge_resolved := True\<rparr>)) t)"
    have sb: "s' = set_dat ?g (ser (challenge_codec E) (g\<lparr>ch_status := ChallengerWon\<rparr>)) ?b"
      unfolding s' using n(2) by (intro set_dat_commute) auto
    have "length (dat ?b ?g) = 255" using len n bond_kept(2) [OF t(2)] by auto
    then have "rollup_of E program s' = rollup_of E program ?b" unfolding sb by (rule put_challenge_quiet)
    with bond_put_both [OF t(2) v(4,5) v(10,11)] show ?thesis by (intro strike_refines [OF l(1-3) h t(1)]) simp
  qed (rule uphold_refines [OF l(1,2) h(1) _ l(4)])
qed

end

lemma conses6: "\<not> length xs < 6 \<Longrightarrow> \<exists>a b c d e f ys. xs = a # b # c # d # e # f # ys"
  and conses7: "\<not> length xs < 7 \<Longrightarrow> \<exists>a b c d e f g ys. xs = a # b # c # d # e # f # g # ys"
  and conses8: "\<not> length xs < 8 \<Longrightarrow> \<exists>a b c d e f g h ys. xs = a # b # c # d # e # f # g # h # ys"
  by (auto simp: not_less numeral_eq_Suc Suc_le_length_iff)

text \<open>The number of accounts an instruction needs.\<close>

fun accounts_needed :: "checkpoint_ix \<Rightarrow> nat" where
  "accounts_needed (Propose _) = 5"
| "accounts_needed (Commit _) = 5"
| "accounts_needed (Cancel _) = 4"
| "accounts_needed (Open_challenge _) = 6"
| "accounts_needed (Respond _) = 5"
| "accounts_needed (Bisect _ _) = 4"
| "accounts_needed (Timeout _) = 7"
| "accounts_needed (Create_proof _) = 6"
| "accounts_needed (Write_proof _) = 5"
| "accounts_needed (Seal_proof _ _) = 5"
| "accounts_needed (Resolve _ _) = 8"
| "accounts_needed (Finish _) = 4"

lemmas handler_defs = process_propose_checkpoint_def process_propose_checkpoint_versioned_def
  process_commit_checkpoint_def process_commit_checkpoint_versioned_def process_cancel_checkpoint_def
  process_open_challenge_def process_respond_challenge_def process_bisect_challenge_def
  process_timeout_challenge_def process_create_step_proof_def process_write_step_proof_def
  process_seal_step_proof_def process_resolve_challenge_def process_finish_settlement_def

lemma checkpoint_exec_accounts:
  "checkpoint_exec E program accs ix s = Inr s' \<Longrightarrow> \<not> length accs < accounts_needed ix"
  by (cases ix) (rule notI, simp add: handler_defs split: if_splits)+

end
