(* ===== verification/Settlement_Props.thy ===== *)
theory Settlement_Props
  imports Settlement_Run
begin

text \<open>
  What the single settlement instructions guarantee: who may begin a settlement and for which
  checkpoint, which bytes a chunk changes, that lamports are conserved and never fall below the rent
  reserve, how much a receipt pays out, and that a settlement with effects cannot be aborted.
\<close>

text \<open>Only the session's validator begins a settlement, by signature, when none is in progress and the
  settlement interval has passed, for a rollup slot beyond the last settled one that has a committed
  checkpoint with the given effect commitment; nothing but the session account's data changes.\<close>

theorem begin_settlement_guards:
  assumes "portal_codecs E"
    and "process_begin_settlement E program (validator # session # checkpoint # rest) args s = Inr s'"
  shows "\<exists>x c bs. parse_session E (dat s (address session)) = Inr x
     \<and> is_signer validator \<and> address validator = s_validator x \<and> s_settlement_status x = Idle
     \<and> saturating_add (s_last_settled_l1_slot x) (s_settlement_interval_slots x) \<le> clock_slot E
     \<and> s_last_settled_er_slot x < bs_er_slot args
     \<and> try_from_slice (checkpoint_codec E) (dat s (address checkpoint)) = Some c
     \<and> cp_status c = Committed \<and> cp_session c = address session \<and> cp_er_slot c = bs_er_slot args
     \<and> cp_effect_commitment c = bs_effect_commitment args
     \<and> s' = set_dat (address session) bs s"
  using portal_codecs.begin_effect [OF assms]
  by (elim exE conjE) (intro exI conjI, assumption+)

theorem begin_settlement_guards_witness:
  "\<exists>s'. process_begin_settlement (sample_env 90) 77 [signer 6, mutable 1007, readonly 1050]
     \<lparr>bs_er_slot = 7, bs_checksum = 78, bs_effect_commitment = 88\<rparr> (settling_st sample_session) = Inr s'
   \<and> (\<exists>bs. s' = set_dat 1007 bs (settling_st sample_session))"
  using begin_settlement_guards [OF smp.portal_codecs_axioms begin_sample_run] begin_sample_run
  by (auto simp del: set_dat_read)

text \<open>C36: a chunk of at most 700 bytes is written at its offset, inside the account: the account keeps its length
  and every byte outside the chunk; besides it only the session account's data changes, and no
  lamports move.\<close>

theorem chunk_writes_exactly:
  assumes "portal_codecs E"
    and "process_write_settlement_chunk E program (validator # session # delegated # rec # rest) args s = Inr s'"
    and "address delegated \<noteq> address session"
  defines "start \<equiv> unat (wc_account_data_offset args)" and "n \<equiv> unat (wc_chunk_len args)"
  defines "chunk \<equiv> take n (wc_chunk args)"
  assumes "length (wc_chunk args) = 700"
  shows "n \<le> 700 \<and> length (dat s' (address delegated)) = length (dat s (address delegated))
     \<and> (\<forall>i < length (dat s (address delegated)). dat s' (address delegated) ! i =
          (if start \<le> i \<and> i < start + n then chunk ! (i - start) else dat s (address delegated) ! i))
     \<and> (\<forall>k. k \<noteq> address delegated \<longrightarrow> k \<noteq> address session \<longrightarrow> accts s' k = accts s k)
     \<and> (\<forall>k. lam s' k = lam s k \<and> own s' k = own s k)"
proof -
  let ?d = "address delegated"
  have len: "start + n \<le> length (dat s ?d)" "n \<le> 700" and
    eff: "if take n (drop start (dat s ?d)) = chunk then s' = s
        else \<exists>bs. s' = set_dat (address session) bs (set_dat ?d (overwrite (dat s ?d) start chunk) s)"
    using portal_codecs.chunk_effect [OF assms(1,2,3)]
    unfolding start_def [symmetric] n_def [symmetric] chunk_def by (auto simp del: set_dat_read split: if_splits)
  have c: "length chunk = n" using len assms(7) by (simp add: chunk_def)
  have new: "dat s' ?d = overwrite (dat s ?d) start chunk"
  proof (cases "take n (drop start (dat s ?d)) = chunk")
    case True
    have "dat s ?d = take start (dat s ?d) @ take n (drop start (dat s ?d)) @ drop n (drop start (dat s ?d))"
      by (metis append_take_drop_id)
    with True eff c show ?thesis by (simp add: overwrite_def add.commute)
  next
    case False
    then show ?thesis using eff assms(3) by auto
  qed
  have "dat s' ?d ! i = (if start \<le> i \<and> i < start + n then chunk ! (i - start) else dat s ?d ! i)"
    if "i < length (dat s ?d)" for i
    using that len c by (auto simp: new overwrite_def nth_append min_def)
  moreover have "length (dat s' ?d) = length (dat s ?d)" using len c by (simp add: new overwrite_def)
  moreover have "accts s' k = accts s k" if "k \<noteq> ?d" "k \<noteq> address session" for k
    using eff that by (auto intro!: acct_eqI split: if_splits)
  moreover have "lam s' k = lam s k \<and> own s' k = own s k" for k using eff by (auto split: if_splits)
  ultimately show ?thesis using len by blast
qed

definition full_chunk :: write_settlement_chunk where
  "full_chunk = \<lparr>wc_er_slot = 7, wc_checksum = 78, wc_account_data_offset = 1, wc_chunk_len = 1,
     wc_chunk = 9 # replicate 699 0\<rparr>"

theorem chunk_writes_exactly_witness:
  "\<exists>s'. process_write_settlement_chunk (sample_env 91) 77 [signer 6, mutable 1007, mutable 20, readonly 1042] full_chunk
     (settling_st (settling_session 78 32)) = Inr s' \<and> length (dat s' 20) = 4 \<and> dat s' 20 ! 1 = 9 \<and> dat s' 20 ! 2 = 3"
proof -
  obtain s' where run: "process_write_settlement_chunk (sample_env 91) 77 [signer 6, mutable 1007, mutable 20, readonly 1042]
      full_chunk (settling_st (settling_session 78 32)) = Inr s'"
    by (simp add: process_write_settlement_chunk_def full_chunk_def settle_eval store_eval MAX_SETTLEMENT_CHUNK_def)
  have "length (wc_chunk full_chunk) = 700" by (simp add: full_chunk_def)
  from chunk_writes_exactly [OF smp.portal_codecs_axioms run _ this]
  show ?thesis using run by (auto simp: full_chunk_def settling_st_def)
qed


definition lamports_args :: settle_account_lamports where
  "lamports_args = \<lparr>sl_er_slot = 7, sl_checksum = 78, sl_account_count = 1, sl_lamports = [1390, 0, 0, 0, 0, 0, 0]\<rparr>"

definition vault_st :: st where
  "vault_st = set_own 1009 77 (set_lam 1009 2000 (set_dat 1009 (ser fee_vault_layout
     \<lparr>fv_discriminator = fee_vault_DISCRIMINATOR, fv_authority = 5, fv_bump = 255\<rparr>) (settling_st (settling_session 78 32))))"


text \<open>Settling a deposit receipt pays the recipient exactly the newly withdrawn amount, out of the receipt's
  escrow, which keeps the rent reserve and the balance still owed; the receipt's withdrawn counter
  never falls and lamports are conserved.  A receipt already settled to these values is left alone.\<close>

theorem settle_receipt_pays:
  assumes "portal_codecs E"
    and "process_settle_deposit_receipt E program (validator # session # receipt # er_source # l1 # rest) args s = Inr s'"
    and "address l1 \<noteq> address receipt"
  shows "\<exists>r. parse_deposit_receipt E (dat s (address receipt)) = Inr r \<and> rc_recipient r = address er_source
     \<and> total_lamports s' = total_lamports s
     \<and> (if rc_balance r = sr_balance args \<and> sr_withdrawn args \<le> rc_withdrawn r then s' = s
        else parse_deposit_receipt E (dat s' (address receipt)) =
               Inr (r\<lparr>rc_balance := sr_balance args, rc_withdrawn := sr_withdrawn args\<rparr>)
          \<and> unat (rc_withdrawn r) + unat (sr_payout_lamports args) = unat (sr_withdrawn args)
          \<and> unat (lam s' (address l1)) = unat (lam s (address l1)) + unat (sr_payout_lamports args)
          \<and> unat (lam s' (address receipt)) + unat (sr_payout_lamports args) = unat (lam s (address receipt))
          \<and> (\<exists>rent. rent_minimum E (length (dat s (address receipt))) = Inr rent
               \<and> unat rent + unat (sr_balance args) \<le> unat (lam s' (address receipt))))"
proof -
  let ?r = "address receipt" and ?l = "address l1" and ?k = "address session"
  obtain r where r: "?r \<noteq> ?k" "parse_deposit_receipt E (dat s ?r) = Inr r" "rc_recipient r = address er_source"
    and eff: "if rc_balance r = sr_balance args \<and> sr_withdrawn args \<le> rc_withdrawn r then s' = s
        else unat (rc_withdrawn r) + unat (sr_payout_lamports args) = unat (sr_withdrawn args)
          \<and> (\<exists>t rb bs. pay_receipt E args ?r ?l s = Inr t
            \<and> parse_deposit_receipt E rb = Inr (r\<lparr>rc_balance := sr_balance args, rc_withdrawn := sr_withdrawn args\<rparr>)
            \<and> accts s' = accts (set_dat ?k bs (set_dat ?r rb t)))"
    using portal_codecs.receipt_effect [OF assms(1,2)] by (elim exE conjE) (rule that, assumption+, simp split: if_splits, blast)
  show ?thesis
  proof (cases "rc_balance r = sr_balance args \<and> sr_withdrawn args \<le> rc_withdrawn r")
    case True
    then show ?thesis using r eff by auto
  next
    case False
    then obtain t rb bs where t: "unat (rc_withdrawn r) + unat (sr_payout_lamports args) = unat (sr_withdrawn args)"
        "pay_receipt E args ?r ?l s = Inr t"
        "parse_deposit_receipt E rb = Inr (r\<lparr>rc_balance := sr_balance args, rc_withdrawn := sr_withdrawn args\<rparr>)"
        "accts s' = accts (set_dat ?k bs (set_dat ?r rb t))" using eff by auto
    obtain rent where p: "rent_minimum E (length (dat s ?r)) = Inr rent"
       "unat rent + unat (sr_payout_lamports args) + unat (sr_balance args) \<le> unat (lam s ?r)"
       "t = set_lam ?r (lam s ?r - sr_payout_lamports args) (set_lam ?l (lam s ?l + sr_payout_lamports args) s)"
       "unat (lam s ?l + sr_payout_lamports args) = unat (lam s ?l) + unat (sr_payout_lamports args)"
       "total_lamports t = total_lamports s"
      using pay_receipt_ok [OF t(2)] assms(3) by auto
    have "unat (lam s ?r - sr_payout_lamports args) = unat (lam s ?r) - unat (sr_payout_lamports args)"
      using p(2) by (simp add: unat_sub word_le_nat_alt)
    then have "unat (lam s' ?r) + unat (sr_payout_lamports args) = unat (lam s ?r)" "unat (lam s' ?l) = unat (lam s ?l) + unat (sr_payout_lamports args)"
      using t(4) p(2-4) assms(3) by auto
    moreover have "total_lamports s' = total_lamports s"
      using p(5) t(4) total_lamports_cong [of s' t] by simp
    moreover have "dat s' ?r = rb" using t(4) r(1) by simp
    ultimately show ?thesis using r False t(1,3) p(1,2)
      by (intro exI [of _ r]) (simp, arith)
  qed
qed

definition receipt_args :: settle_deposit_receipt where
  "receipt_args = \<lparr>sr_er_slot = 7, sr_checksum = 78, sr_balance = 300, sr_withdrawn = 100, sr_payout_lamports = 100,
     sr_l1_recipient = 40\<rparr>"

definition sample_receipt :: deposit_receipt where
  "sample_receipt = \<lparr>rc_discriminator = deposit_receipt_DISCRIMINATOR, rc_session = 1007, rc_recipient = 20,
     rc_balance = 400, rc_withdrawn = 0, rc_bump = 255\<rparr>"

definition receipt_st :: st where
  "receipt_st = set_own 1079 77 (set_lam 1079 2570 (set_dat 1079 (ser deposit_receipt_layout sample_receipt)
     (settling_st (settling_session 78 32))))"

lemma sample_receipt_rw [simp]:
  "deposit_receipt_is_valid x \<Longrightarrow> parse_deposit_receipt (sample_env n) (ser deposit_receipt_layout x) = Inr x"
  "deposit_receipt_is_valid x \<Longrightarrow> write_deposit_receipt (sample_env n) (ser deposit_receipt_layout x) y = Inr (ser deposit_receipt_layout y)"
  "deposit_receipt_is_valid x \<Longrightarrow> \<not> starts_with (ser deposit_receipt_layout x) deposit_receipt_v2_DISCRIMINATOR"
  "session_is_valid z \<Longrightarrow> \<not> starts_with (ser session_layout z) session_v2_DISCRIMINATOR"
proof -
  show d: "deposit_receipt_is_valid x \<Longrightarrow> \<not> starts_with (ser deposit_receipt_layout x) deposit_receipt_v2_DISCRIMINATOR"
    using smp.starts_with_receipt [where d = deposit_receipt_v2_DISCRIMINATOR] by (simp add: deposit_receipt_is_valid_def)
  show "deposit_receipt_is_valid x \<Longrightarrow> parse_deposit_receipt (sample_env n) (ser deposit_receipt_layout x) = Inr x"
    using d by (simp add: parse_deposit_receipt_def)
  show "deposit_receipt_is_valid x \<Longrightarrow> write_deposit_receipt (sample_env n) (ser deposit_receipt_layout x) y = Inr (ser deposit_receipt_layout y)"
    using d by (simp add: write_deposit_receipt_def write_slice_def)
  show "session_is_valid z \<Longrightarrow> \<not> starts_with (ser session_layout z) session_v2_DISCRIMINATOR"
    using smp.starts_with_session [where d = session_v2_DISCRIMINATOR] by (simp add: session_is_valid_def)
qed

lemma sample_receipt_valid [simp]: "deposit_receipt_is_valid sample_receipt"
  by (simp add: sample_receipt_def deposit_receipt_is_valid_def)

lemma receipt_sample_run:
  "\<exists>s'. process_settle_deposit_receipt (sample_env 91) 77 [signer 6, mutable 1007, mutable 1079, readonly 20, mutable 40]
     receipt_args receipt_st = Inr s'
   \<and> own s' 1007 = 77 \<and> (\<exists>a. dat s' 1007 = ser session_layout (settling_session 78 a)) \<and> own s' 1079 = 77
   \<and> dat s' 1079 = ser deposit_receipt_layout (sample_receipt\<lparr>rc_balance := 300, rc_withdrawn := 100\<rparr>)"
  by (simp add: process_settle_deposit_receipt_def receipt_args_def receipt_st_def settle_eval store_eval
      session_context_def receipt_pda_def check_receipt_frame_def settle_receipt_def pay_receipt_def
      checked_add_def checked_sub_def sample_receipt_def deposit_receipt_is_valid_def)
    auto

lemma receipt_sample_again:
  assumes "own s 1007 = 77" "dat s 1007 = ser session_layout (settling_session 78 a)" "own s 1079 = 77"
    "dat s 1079 = ser deposit_receipt_layout (sample_receipt\<lparr>rc_balance := 300, rc_withdrawn := 100\<rparr>)"
  shows "process_settle_deposit_receipt (sample_env n) 77 [signer 6, mutable 1007, mutable 1079, readonly 20, mutable 40]
      receipt_args s = Inr s"
  using assms
  by (simp add: process_settle_deposit_receipt_def receipt_args_def settle_eval store_eval
      session_context_def receipt_pda_def check_receipt_frame_def settle_receipt_def)
    (simp add: sample_receipt_def)

theorem settle_receipt_pays_witness:
  "\<exists>s'. process_settle_deposit_receipt (sample_env 91) 77 [signer 6, mutable 1007, mutable 1079, readonly 20, mutable 40]
     receipt_args receipt_st = Inr s' \<and> total_lamports s' = total_lamports receipt_st
     \<and> unat (lam s' 1079) + 100 = unat (lam receipt_st 1079)"
proof -
  obtain s' where run: "process_settle_deposit_receipt (sample_env 91) 77
      [signer 6, mutable 1007, mutable 1079, readonly 20, mutable 40] receipt_args receipt_st = Inr s'"
    using receipt_sample_run by blast
  show ?thesis
    using settle_receipt_pays [OF smp.portal_codecs_axioms run] run
    by (auto simp: receipt_st_def sample_receipt_def receipt_args_def deposit_receipt_is_valid_def)
qed

text \<open>C38: a receipt is paid once: repeating a successful \<open>SettleDepositReceipt\<close> (at any later slot, with the
  ledger unchanged in between) changes nothing.\<close>

theorem receipt_paid_once:
  assumes "portal_codecs E"
    and "process_settle_deposit_receipt E program (validator # session # receipt # er_source # l1 # rest) args s = Inr s'"
    and "process_settle_deposit_receipt (at_slot n E) program (validator # session # receipt # er_source # l1 # rest) args s' = Inr s''"
  shows "s'' = s'"
proof -
  let ?r = "address receipt"
  obtain r where r: "?r \<noteq> address session" "parse_deposit_receipt E (dat s ?r) = Inr r"
    "if rc_balance r = sr_balance args \<and> sr_withdrawn args \<le> rc_withdrawn r then s' = s
        else \<exists>t rb bs. parse_deposit_receipt E rb = Inr (r\<lparr>rc_balance := sr_balance args, rc_withdrawn := sr_withdrawn args\<rparr>)
            \<and> accts s' = accts (set_dat (address session) bs (set_dat ?r rb t))"
    using portal_codecs.receipt_effect [OF assms(1,2)] by (elim exE conjE) (rule that, assumption+, simp split: if_splits, blast)
  then obtain r' where r': "parse_deposit_receipt E (dat s' ?r) = Inr r'" "rc_balance r' = sr_balance args"
      "sr_withdrawn args \<le> rc_withdrawn r'"
    by (auto split: if_splits)
  have "parse_deposit_receipt (at_slot n E) = parse_deposit_receipt E"
    by (simp add: parse_deposit_receipt_def at_slot_def fun_eq_iff)
  then show ?thesis
    using portal_codecs.receipt_effect [OF at_slot_codecs [OF assms(1)] assms(3)] r' by (auto split: if_splits)
qed

theorem receipt_paid_once_witness:
  "\<exists>s'. process_settle_deposit_receipt (sample_env 91) 77 [signer 6, mutable 1007, mutable 1079, readonly 20, mutable 40]
      receipt_args receipt_st = Inr s'
    \<and> process_settle_deposit_receipt (sample_env 95) 77 [signer 6, mutable 1007, mutable 1079, readonly 20, mutable 40]
      receipt_args s' = Inr s'"
proof -
  let ?accs = "[signer 6, mutable 1007, mutable 1079, readonly 20, mutable 40]"
  obtain s' where run: "process_settle_deposit_receipt (sample_env 91) 77 ?accs receipt_args receipt_st = Inr s'"
    and again: "process_settle_deposit_receipt (at_slot 95 (sample_env 91)) 77 ?accs receipt_args s' = Inr s'"
    using receipt_sample_run receipt_sample_again by fastforce
  from receipt_paid_once [OF smp.portal_codecs_axioms run again] run again show ?thesis by auto
qed

text \<open>C39: a settlement that applied an effect cannot be aborted: after \<open>BeginSettlement\<close> and a run with at least one
  effect, \<open>AbortSettlement\<close> fails for every caller and at every slot, unless the hashed inputs collide.\<close>

theorem no_abort_after_effect:
  assumes "portal_codecs E"
    and "process_begin_settlement (at_slot m E) program (v # session # c # rest) bargs s0 = Inr s1"
    and "settle_run E program s1 es s2" "es \<noteq> []"
    and "collision_free (hashv E) (hashed_inputs (hashv E) (bs_er_slot bargs) es) (hashed_inputs (hashv E) (bs_er_slot bargs) [])"
  shows "\<not> is_ok (process_abort_settlement (at_slot n E) program accs s2)"
proof
  assume "is_ok (process_abort_settlement (at_slot n E) program accs s2)"
  then obtain s3 where run: "process_abort_settlement (at_slot n E) program accs s2 = Inr s3"
    by (cases "process_abort_settlement (at_slot n E) program accs s2") auto
  have "\<not> length accs < 2" using run by (rule contrapos_pn) (simp add: process_abort_settlement_def)
  then obtain a b ys where accs: "accs = a # b # ys" using conses2 by blast
  let ?k = "fst (find_session_pda E program)"
  obtain x bs where b: "own s0 ?k = program" "s1 = set_dat ?k bs s0"
      "parse_session E bs = Inr x" "s_settlement_er_slot x = bs_er_slot bargs"
      "s_settlement_accumulator x = initial_settlement_checksum (hashv E) (bs_er_slot bargs)"
    using portal_codecs.begin_effect [OF at_slot_codecs [OF assms(1)] assms(2)] by auto
  have "parse_session E (dat s2 ?k) = Inr (x\<lparr>s_settlement_accumulator := settlement_checksum (hashv E) (bs_er_slot bargs) es\<rparr>)"
    using settle_run_accumulates [OF assms(3,1) refl, of x] b by (simp add: settlement_checksum_def)
  then have "settlement_checksum (hashv E) (bs_er_slot bargs) es = settlement_checksum (hashv E) (bs_er_slot bargs) []"
    using portal_codecs.abort_effect [OF at_slot_codecs [OF assms(1)] run [unfolded accs]] b(4)
    by (auto simp: settlement_checksum_def)
  from checksum_injective [OF this assms(5)] assms(4) show False by simp
qed

theorem no_abort_after_effect_witness:
  "\<not> is_ok (process_abort_settlement (sample_env 200) 77 [signer 6, mutable 1007]
     (set_dat 20 [1, 9, 3, 4] (settling_st (settling_session 78 78))))"
proof -
  have "collision_free (hashv (sample_env 0)) (hashed_inputs (hashv (sample_env 0)) 7 [Data_chunk 20 1 [9]])
      (hashed_inputs (hashv (sample_env 0)) 7 [])"
    by (simp add: collision_free_def hashed_inputs_def parts_length_def SETTLEMENT_CHECKSUM_DOMAIN_def ascii_def)
  then show ?thesis
    using no_abort_after_effect [OF smp.portal_codecs_axioms settling_sample, of 200 "[signer 6, mutable 1007]"] by simp
qed

end
