(* ===== verification/Checkpoint_Props.thy ===== *)
theory Checkpoint_Props
  imports Checkpoint_Run Settlement_Props
begin

text \<open>
  The properties of checkpoints: every instruction refines the protocol, at most one checkpoint of a
  session is live, the bond follows the outcome and stays backed, and the finalized state only
  advances.
\<close>

subsection \<open>Refinement\<close>

lemma exec_refines:
  assumes E: "portal_codecs E" and run: "checkpoint_exec E program accs ix s = Inr s'"
  shows "portal_step E program (rollup_of E program s) (rollup_of E program s')"
proof -
  note n = checkpoint_exec_accounts [OF run]
  show ?thesis
  proof (cases ix)
    case (Propose args)
    with n conses5 obtain a b c d e ys where "accs = a # b # c # d # e # ys" by fastforce
    with run Propose portal_codecs.propose_refines [OF E] show ?thesis by (simp add: process_propose_checkpoint_def)
  next
    case (Commit er)
    with n conses5 obtain a b c d e ys where "accs = a # b # c # d # e # ys" by fastforce
    with run Commit portal_codecs.commit_refines [OF E] show ?thesis by (simp add: process_commit_checkpoint_def)
  next
    case (Cancel er)
    with n conses4 obtain a b c d ys where "accs = a # b # c # d # ys" by fastforce
    with run Cancel portal_codecs.cancel_refines [OF E] show ?thesis by simp
  next
    case (Open_challenge er)
    with n conses6 obtain a b c d e f ys where "accs = a # b # c # d # e # f # ys" by fastforce
    with run Open_challenge portal_codecs.open_refines [OF E] show ?thesis by simp
  next
    case (Respond args)
    with n conses5 obtain a b c d e ys where "accs = a # b # c # d # e # ys" by fastforce
    with run Respond portal_codecs.respond_quiet [OF E] show ?thesis by (auto intro: protocol_step.quiet)
  next
    case (Bisect er upper)
    with n conses4 obtain a b c d ys where "accs = a # b # c # d # ys" by fastforce
    with run Bisect portal_codecs.bisect_quiet [OF E] show ?thesis by (auto intro: protocol_step.quiet)
  next
    case (Timeout er)
    with n conses7 obtain a b c d e f g ys where "accs = a # b # c # d # e # f # g # ys" by fastforce
    with run Timeout portal_codecs.timeout_refines [OF E] show ?thesis by simp
  next
    case (Create_proof args)
    with n conses6 obtain a b c d e f ys where "accs = a # b # c # d # e # f # ys" by fastforce
    with run Create_proof portal_codecs.create_quiet [OF E] show ?thesis by (auto intro: protocol_step.quiet)
  next
    case (Write_proof args)
    with n conses5 obtain a b c d e ys where "accs = a # b # c # d # e # ys" by fastforce
    with run Write_proof portal_codecs.write_quiet [OF E] show ?thesis by (auto intro: protocol_step.quiet)
  next
    case (Seal_proof er len)
    with n conses5 obtain a b c d e ys where "accs = a # b # c # d # e # ys" by fastforce
    with run Seal_proof portal_codecs.seal_quiet [OF E] show ?thesis by (auto intro: protocol_step.quiet)
  next
    case (Resolve er mode)
    with n conses8 obtain a b c d e f g h ys where "accs = a # b # c # d # e # f # g # h # ys" by fastforce
    with run Resolve portal_codecs.resolve_refines [OF E] show ?thesis by simp
  next
    case (Finish args)
    with n conses4 obtain a b c d ys where "accs = a # b # c # d # ys" by fastforce
    with run Finish portal_codecs.finish_refines [OF E] show ?thesis by simp
  qed
qed

lemma at_slot_rollup [simp]:
  "rollup_of (at_slot n E) program s = rollup_of E program s"
  "session_key (at_slot n E) program = session_key E program"
  "fst (find_checkpoint_cursor_pda (at_slot n E) program S) = fst (find_checkpoint_cursor_pda E program S)"
  "fst (find_checkpoint_pda (at_slot n E) program S m) = fst (find_checkpoint_pda E program S m)"
  "clock_slot (at_slot n E) = n"
  by (simp_all add: at_slot_def rollup_of_def checkpoint_at_def cursor_at_def fun_eq_iff find_session_pda_def
      find_checkpoint_cursor_pda_def find_checkpoint_pda_def)

subsection \<open>Invariants of the protocol\<close>

definition live :: "checkpoint \<Rightarrow> bool" where
  "live c \<longleftrightarrow> cp_status c \<in> {Pending, Challenged, Committed}"

text \<open>The bond is locked while the checkpoint can still be struck, and resolved once, by the outcome.\<close>

definition bond_matches :: "checkpoint \<Rightarrow> bool" where
  "bond_matches c \<longleftrightarrow> cp_bond_status c = (if cp_status c \<in> {Pending, Challenged} then Locked
     else if cp_status c = Invalid then Slashed else Released)"

definition rollup_inv :: "pubkey \<Rightarrow> pubkey \<Rightarrow> (u64 \<Rightarrow> pubkey) \<Rightarrow> rollup \<Rightarrow> bool" where
  "rollup_inv S U K r \<longleftrightarrow>
     (\<forall>k c. ckpts r k = Some c \<longrightarrow> cp_session c = S \<longrightarrow>
        k = K (cp_er_slot c) \<and> bond_matches c \<and> 0 < cp_step_count c \<and> cp_step_count c \<le> CANONICAL_CHECKPOINT_STEPS
        \<and> (live c \<longrightarrow> (\<exists>u. curs r U = Some u \<and> cc_active_checkpoint u = k \<and> cc_active_er_slot u = cp_er_slot c)))
     \<and> (\<forall>u. curs r U = Some u \<longrightarrow> cc_latest_finalized_checkpoint u \<noteq> 0 \<longrightarrow>
         (\<exists>c. ckpts r (cc_latest_finalized_checkpoint u) = Some c \<and> cp_session c = S \<and> cp_status c \<in> {Committed, Settled}
            \<and> cp_er_slot c = cc_latest_finalized_er_slot u \<and> cp_new_state_root c = cc_latest_finalized_state_root u))"

lemma rollup_invD:
  assumes "rollup_inv S U K r"
  shows "ckpts r k = Some c \<Longrightarrow> cp_session c = S \<Longrightarrow> k = K (cp_er_slot c)"
    "ckpts r k = Some c \<Longrightarrow> cp_session c = S \<Longrightarrow> bond_matches c"
    "ckpts r k = Some c \<Longrightarrow> cp_session c = S \<Longrightarrow> 0 < cp_step_count c \<and> cp_step_count c \<le> CANONICAL_CHECKPOINT_STEPS"
    "ckpts r k = Some c \<Longrightarrow> cp_session c = S \<Longrightarrow> live c \<Longrightarrow>
       \<exists>u. curs r U = Some u \<and> cc_active_checkpoint u = k \<and> cc_active_er_slot u = cp_er_slot c"
    "curs r U = Some u \<Longrightarrow> cc_latest_finalized_checkpoint u \<noteq> 0 \<Longrightarrow>
       \<exists>c. ckpts r (cc_latest_finalized_checkpoint u) = Some c \<and> cp_session c = S \<and> cp_status c \<in> {Committed, Settled}
         \<and> cp_er_slot c = cc_latest_finalized_er_slot u \<and> cp_new_state_root c = cc_latest_finalized_state_root u"
  using assms unfolding rollup_inv_def by blast+

lemma rollup_invI:
  assumes "\<And>k c. ckpts r k = Some c \<Longrightarrow> cp_session c = S \<Longrightarrow>
      k = K (cp_er_slot c) \<and> bond_matches c \<and> 0 < cp_step_count c \<and> cp_step_count c \<le> CANONICAL_CHECKPOINT_STEPS"
    and "\<And>k c. ckpts r k = Some c \<Longrightarrow> cp_session c = S \<Longrightarrow> live c \<Longrightarrow>
       \<exists>u. curs r U = Some u \<and> cc_active_checkpoint u = k \<and> cc_active_er_slot u = cp_er_slot c"
    and "\<And>u. curs r U = Some u \<Longrightarrow> cc_latest_finalized_checkpoint u \<noteq> 0 \<Longrightarrow>
       \<exists>c. ckpts r (cc_latest_finalized_checkpoint u) = Some c \<and> cp_session c = S \<and> cp_status c \<in> {Committed, Settled}
         \<and> cp_er_slot c = cc_latest_finalized_er_slot u \<and> cp_new_state_root c = cc_latest_finalized_state_root u"
  shows "rollup_inv S U K r"
  using assms unfolding rollup_inv_def by blast

text \<open>Moving the live checkpoint of the cursor to another status.\<close>

lemma inv_put:
  assumes inv: "rollup_inv S U K r"
    and c: "ckpts r (K n) = Some c" "cp_session c = S" "cp_er_slot c = n"
    and c': "cp_session c' = S" "cp_er_slot c' = n" "cp_step_count c' = cp_step_count c" "bond_matches c'"
      "cp_new_state_root c' = cp_new_state_root c"
    and fin: "cp_status c \<in> {Committed, Settled} \<Longrightarrow> cp_status c' \<in> {Committed, Settled}"
    and u: "curs r U = Some u" "cc_active_checkpoint u = K n" "cc_active_er_slot u = n"
    and u': "u' = u \<or> u' = clear_active_checkpoint u \<and> \<not> live c'
       \<or> u' = u\<lparr>cc_latest_finalized_checkpoint := K n, cc_latest_finalized_er_slot := n,
             cc_latest_finalized_state_root := cp_new_state_root c\<rparr> \<and> cp_status c' = Committed"
  shows "rollup_inv S U K \<lparr>ckpts = (ckpts r)(K n \<mapsto> c'), curs = (curs r)(U \<mapsto> u')\<rparr>" (is "rollup_inv S U K ?r")
proof (rule rollup_invI)
  fix k d assume d: "ckpts ?r k = Some d" "cp_session d = S"
  show "k = K (cp_er_slot d) \<and> bond_matches d \<and> 0 < cp_step_count d \<and> cp_step_count d \<le> CANONICAL_CHECKPOINT_STEPS"
  proof (cases "k = K n")
    case True
    then show ?thesis using d c' rollup_invD(3) [OF inv c(1,2)] by auto
  next
    case False
    then show ?thesis using d rollup_invD(1-3) [OF inv, of k d] by simp
  qed
  assume l: "live d"
  show "\<exists>u. curs ?r U = Some u \<and> cc_active_checkpoint u = k \<and> cc_active_er_slot u = cp_er_slot d"
  proof (cases "k = K n")
    case True
    then have "d = c'" using d by simp
    then show ?thesis using True l u u' c'(2) by auto
  next
    case False
    then show ?thesis using d rollup_invD(4) [OF inv, of k d] l u by auto
  qed
next
  fix v assume v: "curs ?r U = Some v" "cc_latest_finalized_checkpoint v \<noteq> 0"
  then have [simp]: "v = u'" by simp
  show "\<exists>d. ckpts ?r (cc_latest_finalized_checkpoint v) = Some d \<and> cp_session d = S \<and> cp_status d \<in> {Committed, Settled}
      \<and> cp_er_slot d = cc_latest_finalized_er_slot v \<and> cp_new_state_root d = cc_latest_finalized_state_root v"
  proof (cases "cc_latest_finalized_checkpoint v = K n \<and> cp_status c' = Committed
      \<and> cc_latest_finalized_er_slot v = n \<and> cc_latest_finalized_state_root v = cp_new_state_root c")
    case True
    then show ?thesis using c' by simp
  next
    case False
    then have same: "cc_latest_finalized_checkpoint v = cc_latest_finalized_checkpoint u"
        "cc_latest_finalized_er_slot v = cc_latest_finalized_er_slot u" "cc_latest_finalized_state_root v = cc_latest_finalized_state_root u"
      using u' by (auto simp: clear_active_checkpoint_def)
    obtain d where d: "ckpts r (cc_latest_finalized_checkpoint u) = Some d" "cp_session d = S" "cp_status d \<in> {Committed, Settled}"
        "cp_er_slot d = cc_latest_finalized_er_slot u" "cp_new_state_root d = cc_latest_finalized_state_root u"
      using rollup_invD(5) [OF inv u(1)] v(2) same(1) by auto
    show ?thesis
    proof (cases "cc_latest_finalized_checkpoint u = K n")
      case True
      then have "d = c" using d(1) c(1) by simp
      with True d c c' fin show ?thesis unfolding same by simp
    next
      case ne: False
      with d show ?thesis unfolding same by simp
    qed
  qed
qed

lemma protocol_keeps_inv:
  assumes step: "protocol_step S U K now r r'" and inv: "rollup_inv S U K r" and K: "\<And>n. K n \<noteq> 0"
  shows "rollup_inv S U K r'"
  using step
proof cases
  case quiet
  then show ?thesis using inv by simp
next
  case (propose u bump c)
  let ?k = "K (cp_er_slot c)"
  have dead: "\<not> live c'" if "ckpts r k = Some c'" "cp_session c' = S" for k c'
    using that inv K propose(2,3) by (fastforce simp: rollup_inv_def current_cursor_def)
  have first: "k = K (cp_er_slot c') \<and> bond_matches c' \<and> 0 < cp_step_count c' \<and> cp_step_count c' \<le> CANONICAL_CHECKPOINT_STEPS
      \<and> (live c' \<longrightarrow> (\<exists>u. curs r' U = Some u \<and> cc_active_checkpoint u = k \<and> cc_active_er_slot u = cp_er_slot c'))"
    if "ckpts r' k = Some c'" "cp_session c' = S" for k c'
  proof (cases "k = ?k")
    case True
    then show ?thesis using that propose by (auto simp: bond_matches_def)
  next
    case False
    then have "ckpts r k = Some c'" using that(1) propose(1) by simp
    then show ?thesis using inv dead that(2) by (auto simp: rollup_inv_def)
  qed
  have second: "\<exists>c'. ckpts r' (cc_latest_finalized_checkpoint u) = Some c' \<and> cp_session c' = S \<and> cp_status c' \<in> {Committed, Settled}
      \<and> cp_er_slot c' = cc_latest_finalized_er_slot u \<and> cp_new_state_root c' = cc_latest_finalized_state_root u"
    if nz: "cc_latest_finalized_checkpoint u \<noteq> 0"
  proof -
    have "curs r U = Some u" using nz propose(2) by (cases "curs r U") (auto simp: current_cursor_def)
    then obtain c' where c': "ckpts r (cc_latest_finalized_checkpoint u) = Some c'" "cp_session c' = S" "cp_status c' \<in> {Committed, Settled}"
        "cp_er_slot c' = cc_latest_finalized_er_slot u" "cp_new_state_root c' = cc_latest_finalized_state_root u"
      using inv nz unfolding rollup_inv_def by blast
    have "cc_latest_finalized_checkpoint u \<noteq> ?k"
    proof
      assume "cc_latest_finalized_checkpoint u = ?k"
      then have "cp_er_slot c' = cp_er_slot c" using propose(6) [of c'] c'(1) by simp
      with c'(4) propose(4) show False by simp
    qed
    with c' show ?thesis using propose(1) by auto
  qed
  have "curs r' U = Some (u\<lparr>cc_active_checkpoint := ?k, cc_active_er_slot := cp_er_slot c\<rparr>)" using propose(1) by simp
  then show ?thesis using first second unfolding rollup_inv_def by auto
next
  case (commit n c u)
  show ?thesis unfolding commit(1)
    by (rule inv_put [OF inv commit(2-4) _ _ _ _ _ _ commit(8-10)]) (use commit in \<open>simp_all add: bond_matches_def\<close>)
next
  case (cancel n c u)
  show ?thesis unfolding cancel(1)
    by (rule inv_put [OF inv cancel(2-4) _ _ _ _ _ _ cancel(8-10)]) (use cancel in \<open>simp_all add: bond_matches_def live_def\<close>)
next
  case (dispute n c who)
  obtain u where u: "curs r U = Some u" "cc_active_checkpoint u = K n" "cc_active_er_slot u = n"
    using rollup_invD(4) [OF inv dispute(2,3)] dispute(4,5) by (auto simp: live_def)
  then have "r' = \<lparr>ckpts = (ckpts r)(K n \<mapsto> c\<lparr>cp_status := Challenged, cp_challenger := who, cp_challenged_at_l1_slot := now\<rparr>),
      curs = (curs r)(U \<mapsto> u)\<rparr>" using dispute(1) by (simp add: fun_upd_idem)
  then show ?thesis
    using dispute rollup_invD(2) [OF inv dispute(2,3)]
    by (simp only:) (rule inv_put [OF inv dispute(2-4) _ _ _ _ _ _ u], simp_all add: bond_matches_def)
next
  case (strike n c u)
  show ?thesis unfolding strike(1)
    by (rule inv_put [OF inv strike(2-4) _ _ _ _ _ _ strike(7-9)]) (use strike in \<open>simp_all add: bond_matches_def live_def\<close>)
next
  case (uphold n c)
  obtain u where u: "curs r U = Some u" "cc_active_checkpoint u = K n" "cc_active_er_slot u = n"
    using rollup_invD(4) [OF inv uphold(2,3)] uphold(4,5) by (auto simp: live_def)
  then have "r' = \<lparr>ckpts = (ckpts r)(K n \<mapsto> c\<lparr>cp_status := Pending, cp_challenge_resolved := True\<rparr>),
      curs = (curs r)(U \<mapsto> u)\<rparr>" using uphold(1) by (simp add: fun_upd_idem)
  then show ?thesis
    using uphold rollup_invD(2) [OF inv uphold(2,3)]
    by (simp only:) (rule inv_put [OF inv uphold(2-4) _ _ _ _ _ _ u], simp_all add: bond_matches_def)
next
  case (settle n c u)
  show ?thesis unfolding settle(1)
    by (rule inv_put [OF inv settle(2-4) _ _ _ _ _ _ settle(6-8)])
       (use settle rollup_invD(2) [OF inv settle(2,3)] in \<open>simp_all add: bond_matches_def live_def\<close>)
qed

subsection \<open>Runs\<close>

text \<open>A deployment whose session has no checkpoints and no cursor yet.\<close>

definition no_checkpoints :: "portal_env \<Rightarrow> pubkey \<Rightarrow> st \<Rightarrow> bool" where
  "no_checkpoints E program s \<longleftrightarrow>
     (\<forall>k c. checkpoint_at E program s k = Some c \<longrightarrow> cp_session c \<noteq> session_key E program)
     \<and> cursor_at E program s (cursor_key E program) = None"

lemma rollup_sel [simp]:
  "ckpts (rollup_of E program s) = checkpoint_at E program s" "curs (rollup_of E program s) = cursor_at E program s"
  by (simp_all add: rollup_of_def)

lemma step_refines:
  assumes "portal_codecs E" "checkpoint_exec (at_slot n E) program accs ix t = Inr u"
  shows "protocol_step (session_key E program) (cursor_key E program) (checkpoint_key E program) n
    (rollup_of E program t) (rollup_of E program u)"
  using exec_refines [OF at_slot_codecs [OF assms(1)] assms(2)] by simp

lemma run_keeps_inv:
  assumes run: "checkpoint_run E program s t" and E: "portal_codecs E" and K: "\<And>n. checkpoint_key E program n \<noteq> 0"
    and start: "no_checkpoints E program s"
  shows "rollup_inv (session_key E program) (cursor_key E program) (checkpoint_key E program) (rollup_of E program t)"
  using run
proof induction
  case start
  then show ?case using assms(4) by (auto simp: rollup_inv_def no_checkpoints_def)
next
  case (step t n accs ix u)
  show ?case by (rule protocol_keeps_inv [OF step_refines [OF E step(2)] step.IH K])
qed

text \<open>The finalized position of a cursor: it advances strictly with every commit and never otherwise changes.\<close>

definition advanced :: "cursor \<Rightarrow> cursor \<Rightarrow> bool" where
  "advanced u u' \<longleftrightarrow> cc_latest_finalized_er_slot u < cc_latest_finalized_er_slot u'
     \<or> cc_latest_finalized_er_slot u = cc_latest_finalized_er_slot u'
       \<and> cc_latest_finalized_checkpoint u = cc_latest_finalized_checkpoint u'
       \<and> cc_latest_finalized_state_root u = cc_latest_finalized_state_root u'"

lemma advanced_refl [simp]: "advanced u u"
  by (simp add: advanced_def)

lemma advanced_trans: "advanced u v \<Longrightarrow> advanced v w \<Longrightarrow> advanced u w"
  by (auto simp: advanced_def)

lemma advanced_clear [simp]: "advanced u (clear_active_checkpoint u)"
  by (simp add: advanced_def clear_active_checkpoint_def)

lemma step_advances:
  assumes "protocol_step S U K now r r'" "curs r U = Some u"
  shows "\<exists>u'. curs r' U = Some u' \<and> advanced u u'"
  using assms by (cases rule: protocol_step.cases) (auto simp: current_cursor_def advanced_def clear_active_checkpoint_def)

lemma run_advances:
  assumes "checkpoint_run E program s t" "portal_codecs E" "cursor_at E program s (cursor_key E program) = Some u"
  shows "\<exists>u'. cursor_at E program t (cursor_key E program) = Some u' \<and> advanced u u'"
  using assms(1)
proof induction
  case start
  then show ?case using assms(3) by simp
next
  case (step t n accs ix v)
  then obtain u' where u': "cursor_at E program t (cursor_key E program) = Some u'" "advanced u u'" by blast
  from step_advances [OF step_refines [OF assms(2) step(2)]] u'(1)
  obtain v' where "cursor_at E program v (cursor_key E program) = Some v'" "advanced u' v'" by auto
  with u'(2) advanced_trans show ?case by blast
qed

subsection \<open>A sample proposal\<close>

definition proposal :: propose_checkpoint where
  "proposal = \<lparr>pc_er_slot = 7, pc_step_count = 4, pc_previous_state_root = 11, pc_new_state_root = 12, pc_trace_root = 13,
     pc_tx_effect_root = 14, pc_readonly_l1_root = 15, pc_da_commitment = 16, pc_effect_commitment = 40,
     pc_challenge_window_slots = 40\<rparr>"

definition proposer_st :: st where
  "proposer_st = sample_st
     [(6, \<lparr>lamports = 10000000, data = [], owner = 0, executable = False\<rparr>),
      (1007, \<lparr>lamports = 3540, data = ser session_layout sample_session, owner = 77, executable = False\<rparr>)]"

lemmas propose_eval = CANONICAL_CHECKPOINT_STEPS_def MAX_CHALLENGE_WINDOW_SLOTS_def CHECKPOINT_PROPOSER_BOND_LAMPORTS_def
  load_or_create_cursor_def create_cursor_def store_cursor_def store_checkpoint_def require_no_active_checkpoint_def
  require_advancing_checkpoint_def continues_root_def fund_checkpoint_def load_checkpoint_def session_is_expired_def
  saturating_add_def

lemma proposal_run:
  "\<exists>s'. process_propose_checkpoint (sample_env 20) 77 [signer 6, readonly 1007, mutable 1050, mutable 1049, readonly 0] proposal proposer_st
     = Inr s' \<and> own s' 1050 = 77 \<and> own s' 1049 = 77 \<and> own s' 1007 = 77 \<and> dat s' 1007 = ser session_layout sample_session
     \<and> dat s' 1050 = ser checkpoint_layout (proposed_checkpoint proposal 1007 6 20 60 255)
     \<and> dat s' 1049 = ser cursor_layout ((new_cursor 1007 255)\<lparr>cc_active_checkpoint := 1050, cc_active_er_slot := 7\<rparr>)
     \<and> lam s' 1050 = 1005080 \<and> lam s' 6 = 8992110 \<and> dat s' 6 = [] \<and> own s' 6 = 0
     \<and> dat s' 1041 = [] \<and> own s' 1041 = 0 \<and> lam s' 1041 = 0 \<and> dat s' 1040 = [] \<and> own s' 1040 = 0 \<and> lam s' 1040 = 0"
  by (simp add: process_propose_checkpoint_def process_propose_checkpoint_versioned_def proposal_def proposer_st_def
      propose_eval settle_eval session_eval cpi_eval store_eval empty_account_def)


text \<open>C3: Every checkpoint instruction that succeeds, in any state and with any accounts, is a step of the
  checkpoint protocol on what the ledger stores: it proposes, commits, cancels, disputes, strikes, upholds or
  settles one checkpoint of the session under the protocol's conditions, or changes no checkpoint and no cursor.\<close>

theorem checkpoint_refinement:
  assumes "portal_codecs E" "checkpoint_exec E program accs ix s = Inr s'"
  shows "protocol_step (session_key E program) (cursor_key E program) (checkpoint_key E program) (clock_slot E)
    (rollup_of E program s) (rollup_of E program s')"
  by (rule exec_refines [OF assms])

theorem checkpoint_refinement_witness:
  "\<exists>s'. checkpoint_exec (sample_env 20) 77 [signer 6, readonly 1007, mutable 1050, mutable 1049, readonly 0] (Propose proposal) proposer_st
       = Inr s'
    \<and> protocol_step 1007 1049 (\<lambda>_. 1050) 20 (rollup_of (sample_env 20) 77 proposer_st) (rollup_of (sample_env 20) 77 s')"
proof -
  obtain s' where s': "checkpoint_exec (sample_env 20) 77 [signer 6, readonly 1007, mutable 1050, mutable 1049, readonly 0]
      (Propose proposal) proposer_st = Inr s'" using proposal_run by auto
  with checkpoint_refinement [OF smp.portal_codecs_axioms s'] show ?thesis by (intro exI [of _ s'] conjI) simp_all
qed


lemma sample_no_checkpoints: "no_checkpoints (sample_env n) 77 proposer_st"
proof -
  have "checkpoint_at (sample_env n) 77 proposer_st k = None" for k
  proof (cases "k = 1007")
    case True
    then show ?thesis
      using smp.checkpoint_at_None [of proposer_st k n] smp.session_c.ser_length [of n sample_session]
      by (simp add: proposer_st_def)
  qed (auto simp: checkpoint_at_def proposer_st_def sample_st_def empty_account_def)
  moreover have "cursor_at (sample_env n) 77 proposer_st 1049 = None"
    by (simp add: cursor_at_def proposer_st_def empty_account_def)
  ultimately show ?thesis by (simp add: no_checkpoints_def)
qed

text \<open>Anybody commits it at the end of the window.\<close>

lemmas commit_eval = process_commit_checkpoint_def process_commit_checkpoint_versioned_def release_checkpoint_bond_def
  resolve_checkpoint_bond_def require_active_checkpoint_def load_cursor_def

definition committed_checkpoint :: checkpoint where
  "committed_checkpoint = (proposed_checkpoint proposal 1007 6 20 60 255)\<lparr>cp_status := Committed, cp_bond_status := Released\<rparr>"

definition committed_cursor :: cursor where
  "committed_cursor = \<lparr>cc_discriminator = cursor_DISCRIMINATOR, cc_session = 1007, cc_latest_finalized_checkpoint = 1050,
     cc_latest_finalized_er_slot = 7, cc_latest_finalized_state_root = 12, cc_active_checkpoint = 1050, cc_active_er_slot = 7,
     cc_bump = 255\<rparr>"

lemma commit_run:
  assumes "own s 1050 = 77" "own s 1049 = 77" "own s 1007 = 77" "dat s 1007 = ser session_layout sample_session"
    "dat s 1050 = ser checkpoint_layout (proposed_checkpoint proposal 1007 6 20 60 255)"
    "dat s 1049 = ser cursor_layout ((new_cursor 1007 255)\<lparr>cc_active_checkpoint := 1050, cc_active_er_slot := 7\<rparr>)"
    "lam s 1050 = 1005080" "lam s 6 = 8992110"
  shows "\<exists>t. process_commit_checkpoint (sample_env 60) 77 [signer 6, readonly 1007, mutable 1050, mutable 1049, mutable 6] 7 s = Inr t
    \<and> own t 1050 = 77 \<and> own t 1049 = 77 \<and> dat t 1050 = ser checkpoint_layout committed_checkpoint
    \<and> dat t 1049 = ser cursor_layout committed_cursor \<and> lam t 1050 = 5080 \<and> lam t 6 = 9992110"
  using assms
  by (simp add: commit_eval propose_eval settle_eval session_eval cpi_eval store_eval proposal_def proposed_checkpoint_def
      new_cursor_def committed_checkpoint_def committed_cursor_def)

lemma sample_proposed:
  "\<exists>s' t. checkpoint_run (sample_env 0) 77 proposer_st s' \<and> checkpoint_run (sample_env 0) 77 s' t
     \<and> checkpoint_at (sample_env 0) 77 s' 1050 = Some (proposed_checkpoint proposal 1007 6 20 60 255)
     \<and> cursor_at (sample_env 0) 77 s' 1049 = Some ((new_cursor 1007 255)\<lparr>cc_active_checkpoint := 1050, cc_active_er_slot := 7\<rparr>)
     \<and> checkpoint_run (sample_env 0) 77 proposer_st t
     \<and> checkpoint_at (sample_env 0) 77 t 1050 = Some committed_checkpoint
     \<and> cursor_at (sample_env 0) 77 t 1049 = Some committed_cursor"
proof -
  obtain s' where s': "checkpoint_exec (at_slot 20 (sample_env 0)) 77 [signer 6, readonly 1007, mutable 1050, mutable 1049, readonly 0]
      (Propose proposal) proposer_st = Inr s'" "own s' 1050 = 77" "own s' 1049 = 77" "own s' 1007 = 77"
      "dat s' 1007 = ser session_layout sample_session"
      "dat s' 1050 = ser checkpoint_layout (proposed_checkpoint proposal 1007 6 20 60 255)"
      "dat s' 1049 = ser cursor_layout ((new_cursor 1007 255)\<lparr>cc_active_checkpoint := 1050, cc_active_er_slot := 7\<rparr>)"
      "lam s' 1050 = 1005080" "lam s' 6 = 8992110"
    using proposal_run by (auto simp: at_slot_sample)
  from commit_run [OF s'(2-)] obtain t where t: "checkpoint_exec (at_slot 60 (sample_env 0)) 77
      [signer 6, readonly 1007, mutable 1050, mutable 1049, mutable 6] (Commit 7) s' = Inr t" "own t 1050 = 77" "own t 1049 = 77"
      "dat t 1050 = ser checkpoint_layout committed_checkpoint" "dat t 1049 = ser cursor_layout committed_cursor"
    by (auto simp: at_slot_sample)
  note r = checkpoint_run.step [OF checkpoint_run.start s'(1)]
  show ?thesis
    using r checkpoint_run.step [OF checkpoint_run.start t(1)] checkpoint_run.step [OF r t(1)] s'(2,3,6,7) t(2-)
    by (intro exI [of _ s'] exI [of _ t] conjI) (simp_all add: checkpoint_at_def cursor_at_def)
qed

text \<open>C4: In every state reachable from a session without checkpoints, by any sequence of checkpoint instructions at
  any slots, at most one checkpoint of the session is live (pending, challenged or committed but not settled).\<close>

theorem single_live_checkpoint:
  assumes "portal_codecs E" "\<And>n. checkpoint_key E program n \<noteq> 0" "no_checkpoints E program s" "checkpoint_run E program s t"
    and "checkpoint_at E program t k = Some c" "cp_session c = session_key E program" "live c"
    and "checkpoint_at E program t k' = Some c'" "cp_session c' = session_key E program" "live c'"
  shows "k = k' \<and> c = c'"
  using rollup_invD(4) [OF run_keeps_inv [OF assms(4,1,2,3)], of k c] rollup_invD(4) [OF run_keeps_inv [OF assms(4,1,2,3)], of k' c']
    assms(5-10) by auto

theorem single_live_checkpoint_witness:
  "\<exists>s'. checkpoint_run (sample_env 0) 77 proposer_st s'
     \<and> checkpoint_at (sample_env 0) 77 s' 1050 = Some (proposed_checkpoint proposal 1007 6 20 60 255)
     \<and> (\<forall>k c. checkpoint_at (sample_env 0) 77 s' k = Some c \<and> cp_session c = 1007 \<and> live c \<longrightarrow> k = 1050)"
proof -
  obtain s' where s': "checkpoint_run (sample_env 0) 77 proposer_st s'"
      "checkpoint_at (sample_env 0) 77 s' 1050 = Some (proposed_checkpoint proposal 1007 6 20 60 255)"
    using sample_proposed by blast
  have "k = 1050" if "checkpoint_at (sample_env 0) 77 s' k = Some c" "cp_session c = 1007" "live c" for k c
    using single_live_checkpoint [OF smp.portal_codecs_axioms _ sample_no_checkpoints s'(1) that(1) _ that(3) s'(2)] that(2)
    by (simp add: live_def)
  with s' show ?thesis by blast
qed

text \<open>C5: In every such state the bond of a checkpoint follows its status: locked while the checkpoint is pending or
  challenged, slashed exactly when it was found invalid, released when it was committed, settled or cancelled; and
  its number of steps is between one and the canonical maximum.\<close>

theorem bond_follows_outcome:
  assumes "portal_codecs E" "\<And>n. checkpoint_key E program n \<noteq> 0" "no_checkpoints E program s" "checkpoint_run E program s t"
    and "checkpoint_at E program t k = Some c" "cp_session c = session_key E program"
  shows "cp_bond_status c = (case cp_status c of Pending \<Rightarrow> Locked | Challenged \<Rightarrow> Locked | Invalid \<Rightarrow> Slashed
      | Cancelled \<Rightarrow> Released | Committed \<Rightarrow> Released | Settled \<Rightarrow> Released)
    \<and> 0 < cp_step_count c \<and> cp_step_count c \<le> CANONICAL_CHECKPOINT_STEPS \<and> k = checkpoint_key E program (cp_er_slot c)"
  using rollup_invD(1-3) [OF run_keeps_inv [OF assms(4,1,2,3)], of k c] assms(5,6)
  by (auto simp: bond_matches_def split: checkpoint_status.split)

theorem bond_follows_outcome_witness:
  "\<exists>s'. checkpoint_run (sample_env 0) 77 proposer_st s'
     \<and> (\<exists>c. checkpoint_at (sample_env 0) 77 s' 1050 = Some c \<and> cp_status c = Pending \<and> cp_bond_status c = Locked)"
proof -
  obtain s' where s': "checkpoint_run (sample_env 0) 77 proposer_st s'"
      "checkpoint_at (sample_env 0) 77 s' 1050 = Some (proposed_checkpoint proposal 1007 6 20 60 255)"
    using sample_proposed by blast
  with bond_follows_outcome [OF smp.portal_codecs_axioms _ sample_no_checkpoints s'] show ?thesis by auto
qed



text \<open>C7: In every state reachable from a session without checkpoints, the checkpoint the cursor names as the last
  finalized one is stored, was committed, and has the slot and the state root the cursor records.\<close>

theorem finalized_was_committed:
  assumes "portal_codecs E" "\<And>n. checkpoint_key E program n \<noteq> 0" "no_checkpoints E program s" "checkpoint_run E program s t"
    and "cursor_at E program t (cursor_key E program) = Some u" "cc_latest_finalized_checkpoint u \<noteq> 0"
  shows "\<exists>c. checkpoint_at E program t (cc_latest_finalized_checkpoint u) = Some c \<and> cp_session c = session_key E program
    \<and> cp_status c \<in> {Committed, Settled} \<and> cp_bond_status c = Released
    \<and> cp_er_slot c = cc_latest_finalized_er_slot u \<and> cp_new_state_root c = cc_latest_finalized_state_root u"
  using rollup_invD(5) [OF run_keeps_inv [OF assms(4,1,2,3)], simplified, OF assms(5,6)]
    rollup_invD(2) [OF run_keeps_inv [OF assms(4,1,2,3)], of "cc_latest_finalized_checkpoint u"]
  by (fastforce simp: bond_matches_def)

theorem finalized_was_committed_witness:
  "\<exists>t. checkpoint_run (sample_env 0) 77 proposer_st t \<and> cursor_at (sample_env 0) 77 t 1049 = Some committed_cursor
    \<and> (\<exists>c. checkpoint_at (sample_env 0) 77 t 1050 = Some c \<and> cp_status c \<in> {Committed, Settled} \<and> cp_er_slot c = 7
        \<and> cp_new_state_root c = 12)"
proof -
  obtain t where t: "checkpoint_run (sample_env 0) 77 proposer_st t" "cursor_at (sample_env 0) 77 t 1049 = Some committed_cursor"
    using sample_proposed by blast
  with finalized_was_committed [OF smp.portal_codecs_axioms _ sample_no_checkpoints t(1)] show ?thesis
    by (auto simp: committed_cursor_def)
qed

end
