(* ===== verification/Challenge_Props.thy ===== *)
theory Challenge_Props
  imports Checkpoint_Props
begin

text \<open>
  The properties of the challenge game: the disputed interval halves until one step is left, a missed
  deadline always decides the game, a finished checkpoint is frozen, and the outcome moves the bond.
\<close>

subsection \<open>The interval\<close>

definition game_ok :: "challenge \<Rightarrow> bool" where
  "game_ok g \<longleftrightarrow> ch_start_step g < ch_end_step g \<and> ch_end_step g \<le> CANONICAL_CHECKPOINT_STEPS
     \<and> unat (ch_rounds g) \<le> 4 \<and> unat (ch_end_step g - ch_start_step g) \<le> 2 ^ (4 - unat (ch_rounds g))
     \<and> (ch_turn g = Challenger \<longrightarrow> 1 < ch_end_step g - ch_start_step g
          \<and> ch_midpoint_step g = ch_start_step g + (ch_end_step g - ch_start_step g) div 2)
     \<and> (ch_turn g = Prove \<longrightarrow> ch_end_step g - ch_start_step g = 1)
     \<and> ch_turn_deadline_l1_slot g \<le> ch_hard_deadline_l1_slot g"

lemma opened_game_ok:
  assumes "0 < cp_step_count c" "cp_step_count c \<le> CANONICAL_CHECKPOINT_STEPS" "turn_deadline \<le> cp_challenge_deadline_l1_slot c"
  shows "game_ok (opened_challenge checkpoint c challenger respondent slot turn_deadline bump)"
  using assms by (simp add: game_ok_def opened_challenge_def CANONICAL_CHECKPOINT_STEPS_def word_le_nat_alt)

text \<open>Each half of an interval of at most \<open>2 ^ n\<close> steps has at most \<open>2 ^ (n - 1)\<close>, and is not empty.\<close>

lemma halves:
  fixes a b :: u64
  assumes "a < b" "1 < b - a" "unat (b - a) \<le> 2 ^ n"
  defines "m \<equiv> a + (b - a) div 2"
  shows "a < m" "m < b" "n \<noteq> 0" "unat (m - a) \<le> 2 ^ (n - 1)" "unat (b - m) \<le> 2 ^ (n - 1)"
proof -
  let ?w = "unat (b - a)"
  have w: "1 < ?w" using assms(2) by (simp add: word_less_nat_alt)
  have b: "unat b = unat a + ?w" using assms(1) by (simp add: unat_sub_if' word_less_nat_alt)
  have m: "unat m = unat a + ?w div 2"
  proof -
    have "unat ((b - a) div 2) = ?w div 2" by (simp add: unat_div)
    moreover have "unat b < 2 ^ LENGTH(64)" by (rule unsigned_less)
    then have "unat a + ?w div 2 < 2 ^ 64" using b by simp
    ultimately show ?thesis unfolding m_def by (simp add: unat_word_ariths)
  qed
  show lt: "a < m" "m < b" using m b w by (auto simp: word_less_nat_alt)
  show n: "n \<noteq> 0" using assms(3) w by (cases n) auto
  have h: "?w - ?w div 2 \<le> 2 ^ (n - 1)" "?w div 2 \<le> 2 ^ (n - 1)" using n assms(3) by (cases n; simp)+
  show "unat (m - a) \<le> 2 ^ (n - 1)" "unat (b - m) \<le> 2 ^ (n - 1)"
    using h by (simp_all add: unat_sub less_imp_le lt m b)
qed

lemma half_moves: "a < a + w div 2 \<Longrightarrow> 1 < w" for a w :: u64
proof (rule ccontr)
  assume "a < a + w div 2" "\<not> 1 < w"
  then have "unat (w div 2) = 0" by (simp add: unat_div word_less_nat_alt)
  then have "w div 2 = 0" by (simp only: unat_eq_zero)
  with \<open>a < a + w div 2\<close> show False by simp
qed

lemma bisected_game_ok:
  assumes g: "game_ok g" "ch_turn g = Challenger" and r: "checked_add (ch_rounds g) 1 = Some rounds"
    and d: "deadline \<le> ch_hard_deadline_l1_slot g"
  shows "game_ok ((bisect_interval g upper)\<lparr>ch_rounds := rounds, ch_turn_deadline_l1_slot := deadline\<rparr>)"
proof -
  let ?n = "4 - unat (ch_rounds g)"
  have h: "ch_start_step g < ch_end_step g" "1 < ch_end_step g - ch_start_step g"
      "unat (ch_end_step g - ch_start_step g) \<le> 2 ^ ?n" and m: "ch_midpoint_step g = ch_start_step g + (ch_end_step g - ch_start_step g) div 2"
    using g by (simp_all add: game_ok_def)
  note k = halves [OF h, folded m]
  have "unat rounds = unat (ch_rounds g) + 1" using r by (simp add: checked_add_Some_iff)
  moreover have "ch_midpoint_step g \<le> CANONICAL_CHECKPOINT_STEPS" "ch_end_step g \<le> CANONICAL_CHECKPOINT_STEPS"
    using k(2) g(1) by (auto simp: game_ok_def)
  ultimately show ?thesis using k d by (auto simp: game_ok_def bisect_interval_def)
qed

lemma decided_game_ok: "game_ok g \<Longrightarrow> game_ok (g\<lparr>ch_status := st\<rparr>)"
  by (simp add: game_ok_def)

text \<open>All challenges of a ledger are in order.\<close>

definition games_ok :: "portal_env \<Rightarrow> pubkey \<Rightarrow> st \<Rightarrow> bool" where
  "games_ok E program s \<longleftrightarrow> (\<forall>k g. challenge_at E program s k = Some g \<longrightarrow> game_ok g)"

context portal_codecs
begin

lemma claimed_game_ok:
  assumes "game_ok g" "claim_step hash c g args = Inr g'" "deadline \<le> ch_hard_deadline_l1_slot g'"
  shows "game_ok (g'\<lparr>ch_turn_deadline_l1_slot := deadline\<rparr>)"
  using assms claim_step_cases [OF assms(2)] by (auto simp: game_ok_def Let_def intro: half_moves)

lemma challenge_at_None: "length (dat s k) \<noteq> 255 \<Longrightarrow> challenge_at E program s k = None"
  using challenge_c.try_from_sliceD(3) by (fastforce simp: challenge_at_def intro: ccontr)

lemma games_bond: "bond_moved k recipient bond s t \<Longrightarrow> games_ok E program t = games_ok E program s"
  by (simp add: games_ok_def challenge_at_def bond_movedD)

lemma games_put:
  assumes "games_ok E program s" "\<And>g. try_from_slice (challenge_codec E) bs = Some g \<Longrightarrow> game_ok g"
  shows "games_ok E program (set_dat k bs s)"
  using assms by (auto simp: games_ok_def challenge_at_def split: if_splits)

lemma games_puts:
  assumes "games_ok E program s"
  shows "game_ok g \<Longrightarrow> games_ok E program (set_dat k (ser (challenge_codec E) g) s)"
    "games_ok E program (set_dat k (ser (checkpoint_codec E) c) s)"
    "games_ok E program (set_dat k (ser (cursor_codec E) u) s)"
    "games_ok E program (set_dat k (ser (da_proof_codec E) d) s)"
    "step_proof_wf p \<Longrightarrow> games_ok E program (set_dat k (ser (step_proof_codec E) p) s)"
    "parse_session E bs = Inr x \<Longrightarrow> games_ok E program (set_dat k bs s)"
proof -
  show "game_ok g \<Longrightarrow> games_ok E program (set_dat k (ser (challenge_codec E) g) s)"
    by (rule games_put [OF assms]) (simp add: ser_parsed)
  have short: "games_ok E program (set_dat k bs s)" if "length bs \<noteq> 255" for bs
    using that by (auto intro: games_put [OF assms] dest: challenge_c.try_from_sliceD(3))
  show "games_ok E program (set_dat k (ser (checkpoint_codec E) c) s)" "games_ok E program (set_dat k (ser (cursor_codec E) u) s)"
    "games_ok E program (set_dat k (ser (da_proof_codec E) d) s)"
    by (rule short, simp add: ser_lengths)+
  show "step_proof_wf p \<Longrightarrow> games_ok E program (set_dat k (ser (step_proof_codec E) p) s)"
    by (rule short) (simp add: step_proof_c.ser_length)
  show "parse_session E bs = Inr x \<Longrightarrow> games_ok E program (set_dat k bs s)"
    by (rule short) (auto dest: parse_session_length)
qed

lemma games_same_but:
  assumes "games_ok E program s" "same_but K s t"
    and "\<And>k g. k \<in> K \<Longrightarrow> try_from_slice (challenge_codec E) (dat t k) = Some g \<Longrightarrow> game_ok g"
  shows "games_ok E program t"
  using assms(1,3) same_butD(1,2) [OF assms(2)] unfolding games_ok_def challenge_at_def by (metis option.discI)

lemma load_challenge_view:
  assumes "load_challenge E program k j s = Inr g"
  shows "challenge_at E program s j = Some g" "own s j = program"
  using assms unfolding challenge_at_def load_challenge_ok by (elim conjE, simp)+

lemma loaded_game_ok: "games_ok E program s \<Longrightarrow> load_challenge E program k j s = Inr g \<Longrightarrow> game_ok g"
  unfolding games_ok_def challenge_at_def load_challenge_ok by (elim conjE allE [of _ j] allE [of _ g]) simp

lemma open_keeps_games:
  assumes "process_open_challenge E program (challenger # session # checkpoint # challenge # da # sys # rest) er_slot s = Inr s'"
    and "games_ok E program s" "\<And>k c. checkpoint_at E program s k = Some c \<Longrightarrow> cp_session c = session_key E program
      \<Longrightarrow> 0 < cp_step_count c \<and> cp_step_count c \<le> CANONICAL_CHECKPOINT_STEPS"
  shows "games_ok E program s'"
proof -
  let ?s = "address session" and ?k = "address checkpoint" and ?g = "address challenge" and ?d = "address da"
  obtain x c g d c' who slot td bump resp where l: "load_session E program ?s s = Inr x" "load_checkpoint E program ?s er_slot ?k s = Inr c"
    and h: "next_turn_deadline (clock_slot E) (cp_challenge_deadline_l1_slot c) = Inr td"
      "g = opened_challenge ?k c who resp slot td bump"
    and r: "try_from_slice (challenge_codec E) (dat s' ?g) = Some g" "try_from_slice (da_proof_codec E) (dat s' ?d) = Some d"
      "try_from_slice (checkpoint_codec E) (dat s' ?k) = Some c'" "same_but {?k, ?g, ?d} s s'"
    using open_challenge_effect [OF assms(1)] by (elim exE conjE) (rule that, (assumption | rule refl)+)
  note v = load_checkpoint_view [OF l]
  have "game_ok g" unfolding h(2) using assms(3) [OF v(3,6)] h(1) by (intro opened_game_ok) (auto simp: next_turn_deadline_ok)
  moreover have "length (dat s' ?k) = 380" "length (dat s' ?d) = 178" using r(2,3) parsed_length by blast+
  ultimately show ?thesis using r(1)
    by (intro games_same_but [OF assms(2) r(4)]) (auto dest: parsed_length(3))
qed

lemma respond_keeps_games:
  assumes "process_respond_challenge E program (validator # session # checkpoint # challenge # da # rest) args s = Inr s'"
    and "games_ok E program s"
  shows "games_ok E program s'"
proof -
  obtain c g d' g' deadline where l: "load_challenge E program (address checkpoint) (address challenge) s = Inr g"
    and c: "claim_step (hashv E) c g args = Inr g'" "next_turn_deadline (clock_slot E) (ch_hard_deadline_l1_slot g) = Inr deadline"
    and s': "s' = set_dat (address challenge) (ser (challenge_codec E) (g'\<lparr>ch_turn_deadline_l1_slot := deadline\<rparr>))
              (set_dat (address da) (ser (da_proof_codec E) d') s)"
    using respond_effect [OF assms(1)] by (elim exE conjE) (rule that, assumption+)
  have "ch_hard_deadline_l1_slot g' = ch_hard_deadline_l1_slot g" using claim_step_cases [OF c(1)] by (auto simp: Let_def)
  with c(2) have "deadline \<le> ch_hard_deadline_l1_slot g'" by (auto simp: next_turn_deadline_ok)
  then have "game_ok (g'\<lparr>ch_turn_deadline_l1_slot := deadline\<rparr>)"
    by (rule claimed_game_ok [OF loaded_game_ok [OF assms(2) l] c(1)])
  then show ?thesis unfolding s' by (intro games_puts assms(2))
qed

lemma bisect_keeps_games:
  assumes "process_bisect_challenge E program (challenger # session # checkpoint # challenge # rest) er_slot upper s = Inr s'"
    and "games_ok E program s"
  shows "games_ok E program s'"
proof -
  obtain g rounds deadline where l: "load_challenge E program (address checkpoint) (address challenge) s = Inr g" "ch_turn g = Challenger"
    and r: "checked_add (ch_rounds g) 1 = Some rounds" "next_turn_deadline (clock_slot E) (ch_hard_deadline_l1_slot g) = Inr deadline"
    and s': "s' = set_dat (address challenge) (ser (challenge_codec E)
         ((bisect_interval g upper)\<lparr>ch_rounds := rounds, ch_turn_deadline_l1_slot := deadline\<rparr>)) s"
    using bisect_effect [OF assms(1)] by (elim exE conjE) (rule that, assumption+)
  have "deadline \<le> ch_hard_deadline_l1_slot g" using r(2) by (auto simp: next_turn_deadline_ok)
  with bisected_game_ok [OF loaded_game_ok [OF assms(2) l(1)] l(2) r(1)] show ?thesis
    unfolding s' by (intro games_puts assms(2))
qed

lemma timeout_keeps_games:
  assumes "process_timeout_challenge E program (caller # session # checkpoint # challenge # da # recipient # cursor # rest) er_slot s
     = Inr s'" and "games_ok E program s"
  shows "games_ok E program s'"
proof -
  obtain c g u d where l: "load_challenge E program (address checkpoint) (address challenge) s = Inr g"
    and s': "if ch_turn g = Respondent then
          \<exists>d' t. cp_bond_status c = Locked \<and> bond_moved (address checkpoint) (ch_challenger g) (cp_bond_lamports c) s t
           \<and> d' = (if da_status d = Missing then d\<lparr>da_status := Defaulted\<rparr> else d)
           \<and> s' = set_dat (address challenge) (ser (challenge_codec E) (g\<lparr>ch_status := ChallengerWon\<rparr>))
              (set_dat (address checkpoint) (ser (checkpoint_codec E) (c\<lparr>cp_bond_status := Slashed, cp_status := Invalid, cp_challenge_resolved := True\<rparr>))
              (set_dat (address cursor) (ser (cursor_codec E) (clear_active_checkpoint u))
              (set_dat (address da) (ser (da_proof_codec E) d') t)))
        else s' = set_dat (address challenge) (ser (challenge_codec E) (g\<lparr>ch_status := ValidatorWon\<rparr>))
              (set_dat (address checkpoint) (ser (checkpoint_codec E) (c\<lparr>cp_status := Pending, cp_challenge_resolved := True\<rparr>)) s)"
    using timeout_effect [OF assms(1)] by (elim exE conjE) (rule that, assumption+)
  note g = decided_game_ok [OF loaded_game_ok [OF assms(2) l]]
  show ?thesis
  proof (cases "ch_turn g = Respondent")
    case True
    with s' obtain d' t where t: "bond_moved (address checkpoint) (ch_challenger g) (cp_bond_lamports c) s t"
      and e: "s' = set_dat (address challenge) (ser (challenge_codec E) (g\<lparr>ch_status := ChallengerWon\<rparr>))
              (set_dat (address checkpoint) (ser (checkpoint_codec E) (c\<lparr>cp_bond_status := Slashed, cp_status := Invalid, cp_challenge_resolved := True\<rparr>))
              (set_dat (address cursor) (ser (cursor_codec E) (clear_active_checkpoint u))
              (set_dat (address da) (ser (da_proof_codec E) d') t)))" by auto
    show ?thesis unfolding e by (intro games_puts g) (simp add: games_bond [OF t] assms(2))
  next
    case False
    with s' show ?thesis by (simp add: games_puts g assms(2))
  qed
qed

lemma resolve_keeps_games:
  assumes "process_resolve_challenge E program (submitter # session # checkpoint # challenge # da # proof # recipient # cursor # rest)
     er_slot mode s = Inr s'" and "games_ok E program s"
  shows "games_ok E program s'"
proof -
  obtain c g u where l: "load_challenge E program (address checkpoint) (address challenge) s = Inr g"
    and s': "(\<exists>t. bond_moved (address checkpoint) (ch_challenger g) (cp_bond_lamports c) s t
           \<and> s' = set_dat (address cursor) (ser (cursor_codec E) (clear_active_checkpoint u))
              (set_dat (address challenge) (ser (challenge_codec E) (g\<lparr>ch_status := ChallengerWon\<rparr>))
              (set_dat (address checkpoint) (ser (checkpoint_codec E)
                 (c\<lparr>cp_bond_status := Slashed, cp_status := Invalid, cp_challenge_resolved := True\<rparr>)) t)))
        \<or> s' = set_dat (address challenge) (ser (challenge_codec E) (g\<lparr>ch_status := ValidatorWon\<rparr>))
              (set_dat (address checkpoint) (ser (checkpoint_codec E) (c\<lparr>cp_status := Pending, cp_challenge_resolved := True\<rparr>)) s)"
    using resolve_effect [OF assms(1)] by (elim exE conjE) (rule that, assumption, blast)
  note g = decided_game_ok [OF loaded_game_ok [OF assms(2) l]]
  from s' show ?thesis
  proof (elim disjE exE conjE)
    fix t assume t: "bond_moved (address checkpoint) (ch_challenger g) (cp_bond_lamports c) s t"
      and e: "s' = set_dat (address cursor) (ser (cursor_codec E) (clear_active_checkpoint u))
              (set_dat (address challenge) (ser (challenge_codec E) (g\<lparr>ch_status := ChallengerWon\<rparr>))
              (set_dat (address checkpoint) (ser (checkpoint_codec E)
                 (c\<lparr>cp_bond_status := Slashed, cp_status := Invalid, cp_challenge_resolved := True\<rparr>)) t))"
    show ?thesis unfolding e by (intro games_puts g) (simp add: games_bond [OF t] assms(2))
  qed (simp add: games_puts g assms(2))
qed

lemma checkpoint_keeps_games:
  assumes "games_ok E program s"
  shows "process_propose_checkpoint_versioned E program (a # b # k # u # e # rest) args v2 s = Inr s' \<Longrightarrow> games_ok E program s'"
    "process_commit_checkpoint_versioned E program (a # b # k # u # e # rest) er_slot v2 s = Inr s' \<Longrightarrow> games_ok E program s'"
    "process_cancel_checkpoint E program (a # b # k # u # rest) er_slot s = Inr s' \<Longrightarrow> games_ok E program s'"
    "process_finish_settlement E program (a # b # k # u # rest) fin s = Inr s' \<Longrightarrow> games_ok E program s'"
proof -
  assume "process_propose_checkpoint_versioned E program (a # b # k # u # e # rest) args v2 s = Inr s'"
  from propose_effect [OF this] obtain c v where *: "try_from_slice (checkpoint_codec E) (dat s' (address k)) = Some c"
      "try_from_slice (cursor_codec E) (dat s' (address u)) = Some v" "same_but {address k, address u} s s'"
    by (elim exE conjE) (rule that, assumption+)
  have "length (dat s' (address k)) = 380" "length (dat s' (address u)) = 153" using *(1,2) parsed_length by blast+
  then show "games_ok E program s'"
    by (intro games_same_but [OF assms *(3)]) (auto dest: parsed_length(3))
next
  assume "process_commit_checkpoint_versioned E program (a # b # k # u # e # rest) er_slot v2 s = Inr s'"
  from commit_effect [OF this] obtain c v w bond t where t: "bond_moved (address k) w bond s t"
    and e: "s' = set_dat (address u) (ser (cursor_codec E) v) (set_dat (address k) (ser (checkpoint_codec E) c) t)"
    by (elim exE conjE) (rule that, assumption+)
  show "games_ok E program s'" unfolding e by (intro games_puts) (simp add: games_bond [OF t] assms)
next
  assume "process_cancel_checkpoint E program (a # b # k # u # rest) er_slot s = Inr s'"
  from cancel_effect [OF this] obtain c v w bond t where t: "bond_moved (address k) w bond s t"
    and e: "s' = set_dat (address u) (ser (cursor_codec E) v) (set_dat (address k) (ser (checkpoint_codec E) c) t)"
    by (elim exE conjE) (rule that, assumption+)
  show "games_ok E program s'" unfolding e by (intro games_puts) (simp add: games_bond [OF t] assms)
next
  assume "process_finish_settlement E program (a # b # k # u # rest) fin s = Inr s'"
  from finish_effect [OF this] obtain c v bs y where *: "parse_session E bs = Inr y"
    and e: "s' = set_dat (address b) bs (set_dat (address u) (ser (cursor_codec E) v) (set_dat (address k) (ser (checkpoint_codec E) c) s))"
    by (elim exE conjE) (rule that, assumption+)
  show "games_ok E program s'" unfolding e by (intro games_puts(6) [OF _ *] games_puts assms)
qed

lemma proof_keeps_games:
  assumes "games_ok E program s"
  shows "process_create_step_proof E program (a # b # k # g # p # y # rest) new s = Inr s' \<Longrightarrow> games_ok E program s'"
    "process_write_step_proof E program (a # b # k # g # p # rest) args s = Inr s' \<Longrightarrow> games_ok E program s'"
    "process_seal_step_proof E program (a # b # k # g # p # rest) er_slot len s = Inr s' \<Longrightarrow> games_ok E program s'"
proof -
  assume "process_create_step_proof E program (a # b # k # g # p # y # rest) new s = Inr s'"
  from create_step_proof_effect [OF this] obtain p0 ext where *: "dat s' (address p) = ser (step_proof_codec E) p0 @ ext" "step_proof_wf p0"
      "same_but {address p} s s'"
    by (elim exE conjE) (rule that, assumption, simp add: step_proof_wf_def empty_step_proof_def MAX_STEP_PROOF_BYTES_def, assumption)
  then have "length (dat s' (address p)) \<noteq> 255" by (simp add: step_proof_c.ser_length)
  then show "games_ok E program s'" by (intro games_same_but [OF assms *(3)]) (auto dest: parsed_length(3))
next
  assume "process_write_step_proof E program (a # b # k # g # p # rest) args s = Inr s'"
  from write_step_proof_effect [OF this] show "games_ok E program s'"
    by (elim exE conjE) (simp, rule games_puts(5) [OF assms], simp add: step_proof_wf_def length_overwrite MAX_STEP_PROOF_BYTES_def)
next
  assume "process_seal_step_proof E program (a # b # k # g # p # rest) er_slot len s = Inr s'"
  from seal_step_proof_effect [OF this] show "games_ok E program s'"
    by (elim exE conjE) (simp, rule games_puts(5) [OF assms], simp add: step_proof_wf_def MAX_STEP_PROOF_BYTES_def)
qed

end

lemma exec_keeps_games:
  assumes E: "portal_codecs E" and run: "checkpoint_exec E program accs ix s = Inr s'" and g: "games_ok E program s"
    and n: "\<And>k c. checkpoint_at E program s k = Some c \<Longrightarrow> cp_session c = session_key E program
      \<Longrightarrow> 0 < cp_step_count c \<and> cp_step_count c \<le> CANONICAL_CHECKPOINT_STEPS"
  shows "games_ok E program s'"
proof -
  note l = checkpoint_exec_accounts [OF run]
  show ?thesis
  proof (cases ix)
    case (Propose args)
    with l conses5 obtain a b c d e ys where "accs = a # b # c # d # e # ys" by fastforce
    with run Propose portal_codecs.checkpoint_keeps_games(1) [OF E g] show ?thesis by (simp add: process_propose_checkpoint_def)
  next
    case (Commit er)
    with l conses5 obtain a b c d e ys where "accs = a # b # c # d # e # ys" by fastforce
    with run Commit portal_codecs.checkpoint_keeps_games(2) [OF E g] show ?thesis by (simp add: process_commit_checkpoint_def)
  next
    case (Cancel er)
    with l conses4 obtain a b c d ys where "accs = a # b # c # d # ys" by fastforce
    with run Cancel portal_codecs.checkpoint_keeps_games(3) [OF E g] show ?thesis by simp
  next
    case (Open_challenge er)
    with l conses6 obtain a b c d e f ys where "accs = a # b # c # d # e # f # ys" by fastforce
    with run Open_challenge portal_codecs.open_keeps_games [OF E _ g n] show ?thesis by simp
  next
    case (Respond args)
    with l conses5 obtain a b c d e ys where "accs = a # b # c # d # e # ys" by fastforce
    with run Respond portal_codecs.respond_keeps_games [OF E _ g] show ?thesis by simp
  next
    case (Bisect er upper)
    with l conses4 obtain a b c d ys where "accs = a # b # c # d # ys" by fastforce
    with run Bisect portal_codecs.bisect_keeps_games [OF E _ g] show ?thesis by simp
  next
    case (Timeout er)
    with l conses7 obtain a b c d e f h ys where "accs = a # b # c # d # e # f # h # ys" by fastforce
    with run Timeout portal_codecs.timeout_keeps_games [OF E _ g] show ?thesis by simp
  next
    case (Create_proof args)
    with l conses6 obtain a b c d e f ys where "accs = a # b # c # d # e # f # ys" by fastforce
    with run Create_proof portal_codecs.proof_keeps_games(1) [OF E g] show ?thesis by simp
  next
    case (Write_proof args)
    with l conses5 obtain a b c d e ys where "accs = a # b # c # d # e # ys" by fastforce
    with run Write_proof portal_codecs.proof_keeps_games(2) [OF E g] show ?thesis by simp
  next
    case (Seal_proof er len)
    with l conses5 obtain a b c d e ys where "accs = a # b # c # d # e # ys" by fastforce
    with run Seal_proof portal_codecs.proof_keeps_games(3) [OF E g] show ?thesis by simp
  next
    case (Resolve er mode)
    with l conses8 obtain a b c d e f h i ys where "accs = a # b # c # d # e # f # h # i # ys" by fastforce
    with run Resolve portal_codecs.resolve_keeps_games [OF E _ g] show ?thesis by simp
  next
    case (Finish args)
    with l conses4 obtain a b c d ys where "accs = a # b # c # d # ys" by fastforce
    with run Finish portal_codecs.checkpoint_keeps_games(4) [OF E g] show ?thesis by simp
  qed
qed

lemma at_slot_views [simp]:
  "checkpoint_at (at_slot n E) program s = checkpoint_at E program s"
  "games_ok (at_slot n E) program s = games_ok E program s"
  "session_key (at_slot n E) program = session_key E program"
  by (simp_all add: at_slot_def checkpoint_at_def games_ok_def challenge_at_def fun_eq_iff find_session_pda_def)

lemma run_keeps_games:
  assumes run: "checkpoint_run E program s t" and E: "portal_codecs E" and K: "\<And>n. checkpoint_key E program n \<noteq> 0"
    and start: "no_checkpoints E program s" "games_ok E program s"
  shows "games_ok E program t"
  using run
proof induction
  case start
  then show ?case using assms(5) by simp
next
  case (step t n accs ix u)
  show ?case
    using exec_keeps_games [OF at_slot_codecs [OF E] step(2), unfolded at_slot_views]
      rollup_invD(3) [OF run_keeps_inv [OF step(1) E K start(1)]] step.IH by simp
qed

subsection \<open>A sample challenge\<close>

lemmas challenge_eval = process_open_challenge_def next_turn_deadline_def CHALLENGE_TURN_WINDOW_SLOTS_def ensure_challenge_def
  ensure_da_proof_def store_challenge_def store_da_proof_def load_challenge_def load_da_proof_def

definition sample_challenge :: challenge where
  "sample_challenge = opened_challenge 1050 (proposed_checkpoint proposal 1007 6 20 60 255) 6 6 30 60 255"

lemma open_run:
  assumes "own s 1050 = 77" "own s 1049 = 77" "own s 1007 = 77" "dat s 1007 = ser session_layout sample_session"
    "dat s 1050 = ser checkpoint_layout (proposed_checkpoint proposal 1007 6 20 60 255)"
    "lam s 6 = 8992110" "dat s 6 = []" "own s 6 = 0"
    "dat s 1041 = []" "own s 1041 = 0" "lam s 1041 = 0" "dat s 1040 = []" "own s 1040 = 0" "lam s 1040 = 0"
  shows "\<exists>t. process_open_challenge (sample_env 30) 77 [signer 6, readonly 1007, mutable 1050, mutable 1041, mutable 1040, readonly 0] 7 s
      = Inr t
    \<and> own t 1041 = 77 \<and> dat t 1041 = ser challenge_layout sample_challenge"
  using assms
  by (simp add: challenge_eval commit_eval propose_eval settle_eval session_eval cpi_eval store_eval proposal_def proposed_checkpoint_def
      opened_challenge_def missing_da_proof_def sample_challenge_def)

lemma sample_no_challenge: "challenge_at (sample_env n) 77 proposer_st k = None"
proof (cases "k = 1007")
  case True
  then show ?thesis
    using smp.challenge_at_None [of proposer_st k n] smp.session_c.ser_length [of n sample_session]
    by (simp add: proposer_st_def)
qed (auto simp: challenge_at_def proposer_st_def sample_st_def empty_account_def)

lemma sample_opened:
  "\<exists>t. checkpoint_run (sample_env 0) 77 proposer_st t \<and> challenge_at (sample_env 0) 77 t 1041 = Some sample_challenge"
proof -
  obtain s' where s': "checkpoint_exec (at_slot 20 (sample_env 0)) 77 [signer 6, readonly 1007, mutable 1050, mutable 1049, readonly 0]
      (Propose proposal) proposer_st = Inr s'"
    and v: "own s' 1050 = 77" "own s' 1049 = 77" "own s' 1007 = 77" "dat s' 1007 = ser session_layout sample_session"
      "dat s' 1050 = ser checkpoint_layout (proposed_checkpoint proposal 1007 6 20 60 255)" "lam s' 6 = 8992110" "dat s' 6 = []" "own s' 6 = 0"
      "dat s' 1041 = []" "own s' 1041 = 0" "lam s' 1041 = 0" "dat s' 1040 = []" "own s' 1040 = 0" "lam s' 1040 = 0"
    using proposal_run by (auto simp: at_slot_sample)
  from open_run [OF v] obtain t where t: "checkpoint_exec (at_slot 30 (sample_env 0)) 77
      [signer 6, readonly 1007, mutable 1050, mutable 1041, mutable 1040, readonly 0] (Open_challenge 7) s' = Inr t"
      "own t 1041 = 77" "dat t 1041 = ser challenge_layout sample_challenge"
    by (auto simp: at_slot_sample)
  from checkpoint_run.step [OF checkpoint_run.step [OF checkpoint_run.start s'] t(1)] t(2,3)
  show ?thesis by (intro exI [of _ t]) (simp add: challenge_at_def)
qed



subsection \<open>Outcomes\<close>

text \<open>The checkpoint an instruction names by its slot, apart from a proposal.\<close>

fun ix_slot :: "checkpoint_ix \<Rightarrow> u64 option" where
  "ix_slot (Propose args) = None"
| "ix_slot (Commit er_slot) = Some er_slot"
| "ix_slot (Cancel er_slot) = Some er_slot"
| "ix_slot (Open_challenge er_slot) = Some er_slot"
| "ix_slot (Respond args) = Some (rp_er_slot args)"
| "ix_slot (Bisect er_slot upper) = Some er_slot"
| "ix_slot (Timeout er_slot) = Some er_slot"
| "ix_slot (Create_proof args) = Some (cs_er_slot args)"
| "ix_slot (Write_proof args) = Some (ws_er_slot args)"
| "ix_slot (Seal_proof er_slot len) = Some er_slot"
| "ix_slot (Resolve er_slot mode) = Some er_slot"
| "ix_slot (Finish args) = Some (fs_er_slot args)"

definition open_for :: "portal_env \<Rightarrow> pubkey \<Rightarrow> u64 \<Rightarrow> st \<Rightarrow> bool" where
  "open_for E program n s \<longleftrightarrow> (\<exists>S x k c. load_session E program S s = Inr x \<and> load_checkpoint E program S n k s = Inr c \<and> live c)"

lemma exec_needs_live:
  assumes E: "portal_codecs E" and run: "checkpoint_exec E program accs ix s = Inr s'" and n: "ix_slot ix = Some n"
  shows "open_for E program n s"
proof -
  note l = checkpoint_exec_accounts [OF run]
  have I: "open_for E program n s" if "load_session E program S s = Inr x" "load_checkpoint E program S n k s = Inr c"
      "cp_status c = Pending \<or> cp_status c = Challenged \<or> cp_status c = Committed" for S x k c
    using that unfolding open_for_def live_def by blast
  show ?thesis
  proof (cases ix)
    case (Propose args)
    with n show ?thesis by simp
  next
    case (Commit er)
    with l conses5 obtain a b c d e ys where "accs = a # b # c # d # e # ys" by fastforce
    with run n Commit have "process_commit_checkpoint_versioned E program (a # b # c # d # e # ys) n False s = Inr s'"
      by (simp add: process_commit_checkpoint_def)
    from portal_codecs.commit_effect [OF E this] show ?thesis by (elim exE conjE) (rule I, assumption+, simp)
  next
    case (Cancel er)
    with l conses4 obtain a b c d ys where "accs = a # b # c # d # ys" by fastforce
    with run n Cancel have "process_cancel_checkpoint E program (a # b # c # d # ys) n s = Inr s'" by simp
    from portal_codecs.cancel_effect [OF E this] show ?thesis by (elim exE conjE) (rule I, assumption+, simp)
  next
    case (Open_challenge er)
    with l conses6 obtain a b c d e f ys where "accs = a # b # c # d # e # f # ys" by fastforce
    with run n Open_challenge have "process_open_challenge E program (a # b # c # d # e # f # ys) n s = Inr s'" by simp
    from portal_codecs.open_challenge_effect [OF E this] show ?thesis by (elim exE conjE) (rule I, assumption+, simp)
  next
    case (Respond args)
    with l conses5 obtain a b c d e ys where "accs = a # b # c # d # e # ys" by fastforce
    with run Respond have "process_respond_challenge E program (a # b # c # d # e # ys) args s = Inr s'" by simp
    from portal_codecs.respond_effect [OF E this] n Respond show ?thesis by (elim exE conjE) (rule I, assumption, simp, simp)
  next
    case (Bisect er upper)
    with l conses4 obtain a b c d ys where "accs = a # b # c # d # ys" by fastforce
    with run n Bisect have "process_bisect_challenge E program (a # b # c # d # ys) n upper s = Inr s'" by simp
    from portal_codecs.bisect_effect [OF E this] show ?thesis by (elim exE conjE) (rule I, assumption+, simp)
  next
    case (Timeout er)
    with l conses7 obtain a b c d e f h ys where "accs = a # b # c # d # e # f # h # ys" by fastforce
    with run n Timeout have "process_timeout_challenge E program (a # b # c # d # e # f # h # ys) n s = Inr s'" by simp
    from portal_codecs.timeout_effect [OF E this] show ?thesis by (elim exE conjE) (rule I, assumption+, simp)
  next
    case (Create_proof args)
    with l conses6 obtain a b c d e f ys where "accs = a # b # c # d # e # f # ys" by fastforce
    with run Create_proof have "process_create_step_proof E program (a # b # c # d # e # f # ys) args s = Inr s'" by simp
    from portal_codecs.create_step_proof_effect [OF E this] n Create_proof show ?thesis
      by (elim exE conjE) (rule I, assumption, simp, simp)
  next
    case (Write_proof args)
    with l conses5 obtain a b c d e ys where "accs = a # b # c # d # e # ys" by fastforce
    with run Write_proof have "process_write_step_proof E program (a # b # c # d # e # ys) args s = Inr s'" by simp
    from portal_codecs.write_step_proof_effect [OF E this] n Write_proof
    obtain p where "open_proof E program a (address b) n (address c) (address d) (address e) s = Inr p" by auto
    then show ?thesis unfolding portal_codecs.open_proof_ok [OF E] by (elim exE conjE) (rule I, assumption+, simp)
  next
    case (Seal_proof er len)
    with l conses5 obtain a b c d e ys where "accs = a # b # c # d # e # ys" by fastforce
    with run Seal_proof have "process_seal_step_proof E program (a # b # c # d # e # ys) er len s = Inr s'" by simp
    from portal_codecs.seal_step_proof_effect [OF E this] n Seal_proof
    obtain p where "open_proof E program a (address b) n (address c) (address d) (address e) s = Inr p" by auto
    then show ?thesis unfolding portal_codecs.open_proof_ok [OF E] by (elim exE conjE) (rule I, assumption+, simp)
  next
    case (Resolve er mode)
    with l conses8 obtain a b c d e f h i ys where "accs = a # b # c # d # e # f # h # i # ys" by fastforce
    with run n Resolve have "process_resolve_challenge E program (a # b # c # d # e # f # h # i # ys) n mode s = Inr s'" by simp
    from portal_codecs.resolve_effect [OF E this] show ?thesis by (elim exE conjE) (rule I, assumption+, simp)
  next
    case (Finish args)
    with l conses4 obtain a b c d ys where "accs = a # b # c # d # ys" by fastforce
    with run Finish have f: "process_finish_settlement E program (a # b # c # d # ys) args s = Inr s'" by simp
    obtain x k where k: "load_session E program (address b) s = Inr x" "load_checkpoint E program (address b) n (address c) s = Inr k"
      using portal_codecs.finish_loads [OF E f] n Finish by auto
    moreover have "cp_status k = Committed"
      using portal_codecs.finish_effect [OF E f] portal_codecs.load_parsed(2) [OF E k(2)] by auto
    ultimately show ?thesis by (blast intro: I)
  qed
qed


definition struck_checkpoint :: checkpoint where
  "struck_checkpoint = (proposed_checkpoint proposal 1007 6 20 60 255)\<lparr>cp_status := Invalid, cp_bond_status := Slashed,
     cp_challenge_resolved := True\<rparr>"

definition struck_st :: st where
  "struck_st = sample_st
     [(1007, \<lparr>lamports = 3540, data = ser session_layout sample_session, owner = 77, executable = False\<rparr>),
      (1050, \<lparr>lamports = 5080, data = ser checkpoint_layout struck_checkpoint, owner = 77, executable = False\<rparr>)]"



definition pending_st :: st where
  "pending_st = sample_st
     [(6, \<lparr>lamports = 8992110, data = [], owner = 0, executable = False\<rparr>),
      (1007, \<lparr>lamports = 3540, data = ser session_layout sample_session, owner = 77, executable = False\<rparr>),
      (1050, \<lparr>lamports = 1005080, data = ser checkpoint_layout (proposed_checkpoint proposal 1007 6 20 60 255), owner = 77,
        executable = False\<rparr>),
      (1049, \<lparr>lamports = 2810, data = ser cursor_layout ((new_cursor 1007 255)\<lparr>cc_active_checkpoint := 1050, cc_active_er_slot := 7\<rparr>),
        owner = 77, executable = False\<rparr>)]"



subsection \<open>Timeouts\<close>

context portal_codecs
begin

lemma resolve_bond_succeeds:
  assumes "cp_bond_status c = Locked" "cp_bond_lamports c \<noteq> 0" "rent_minimum E 380 = Inr rent"
    and "unat rent + unat (cp_bond_lamports c) \<le> unat (lam s k)"
    and "unat (lam s recipient) + unat (cp_bond_lamports c) < 2 ^ 64"
  shows "\<exists>t. resolve_checkpoint_bond E k recipient c next_status s = Inr (c\<lparr>cp_bond_status := next_status\<rparr>, t)"
proof -
  let ?b = "cp_bond_lamports c"
  have bound: "unat (lam s k) < 2 ^ LENGTH(64)" by (rule unsigned_less)
  then obtain m where m: "checked_add rent ?b = Some m" "m \<le> lam s k"
    using assms(4) by (auto simp: checked_add_def word_le_nat_alt unat_word_ariths)
  obtain r where r: "checked_add (lam s recipient) ?b = Some r" using assms(5) by (auto simp: checked_add_def)
  have "?b \<le> lam (set_lam recipient r s) k" using assms(4) r by (auto simp: word_le_nat_alt checked_add_Some_iff)
  then obtain q where "checked_sub (lam (set_lam recipient r s) k) ?b = Some q" by (auto simp: checked_sub_def)
  then show ?thesis using assms(1-3) m r
    by (auto simp: resolve_checkpoint_bond_def checkpoint_c.account_size_eq ok_simps Let_def)
qed

lemma timeout_succeeds:
  assumes l: "load_session E program (address session) s = Inr x"
      "load_checkpoint E program (address session) er_slot (address checkpoint) s = Inr c"
      "load_challenge E program (address checkpoint) (address challenge) s = Inr g"
      "load_cursor E program (address session) (address cursor) s = Inr u"
      "load_da_proof E program (address challenge) (address checkpoint) (address da) s = Inr d"
    and st: "cp_status c = Challenged" "ch_status g = Active" "cc_active_checkpoint u = address checkpoint" "cc_active_er_slot u = er_slot"
    and late: "ch_turn_deadline_l1_slot g \<le> clock_slot E \<or> ch_hard_deadline_l1_slot g \<le> clock_slot E"
    and b: "cp_bond_status c = Locked" "cp_bond_lamports c \<noteq> 0" "rent_minimum E 380 = Inr rent"
      "unat rent + unat (cp_bond_lamports c) \<le> unat (lam s (address checkpoint))"
      "unat (lam s (ch_challenger g)) + unat (cp_bond_lamports c) < 2 ^ 64"
    and who: "is_signer caller" "address recipient = ch_challenger g"
  shows "\<exists>s'. process_timeout_challenge E program (caller # session # checkpoint # challenge # da # recipient # cursor # rest) er_slot s
    = Inr s'"
proof -
  let ?k = "address checkpoint" and ?g = "address challenge" and ?u = "address cursor" and ?d = "address da"
  have len: "length (dat s ?k) = 380" "length (dat s ?g) = 255" "length (dat s ?u) = 153" "length (dat s ?d) = 178"
    using load_parsed(2) [OF l(2)] load_parsed(3) [OF l(4)] load_game_parsed(1) [OF l(3)] load_game_parsed(2) [OF l(5)]
      parsed_length by blast+
  have n: "?k \<noteq> ?u" "?k \<noteq> ?g" "?g \<noteq> ?u" using len by auto
  obtain v where v: "(if da_status d = Missing then store_da_proof E ?d (d\<lparr>da_status := Defaulted\<rparr>) s else Inr s) = Inr v"
      "\<And>j. length (dat v j) = length (dat s j)" "\<And>j. lam v j = lam s j"
    using store_da_proof_sized [OF len(4)] len(4) by (cases "da_status d = Missing") (auto simp: ser_lengths)
  obtain t where t: "slash_checkpoint_bond E ?k (ch_challenger g) c v = Inr (c\<lparr>cp_bond_status := Slashed\<rparr>, t)"
    using resolve_bond_succeeds [OF b(1-3), of v ?k "ch_challenger g"] b(4,5) by (auto simp: slash_checkpoint_bond_def v(3))
  have dt: "dat t j = dat v j" for j
    using resolve_bond_effect t bond_movedD(1) unfolding slash_checkpoint_bond_def by blast
  have "\<exists>s'. default_respondent E ?k ?g ?d (ch_challenger g) ?u c g d u s = Inr s'"
    by (simp add: default_respondent_def v(1) t stores_sized dt v(2) len ser_lengths n n [symmetric])
  moreover have "\<exists>s'. default_challenger E ?k ?g c g s = Inr s'"
    by (simp add: default_challenger_def stores_sized len ser_lengths n n [symmetric])
  moreover have "\<not> (clock_slot E < ch_turn_deadline_l1_slot g \<and> clock_slot E < ch_hard_deadline_l1_slot g)" using late by auto
  ultimately show ?thesis
    using l st who by (auto simp: process_timeout_challenge_def require_active_checkpoint_def Let_def)
qed

end

text \<open>C14: A challenge is always decided: once a deadline of an active challenge has passed, \<open>TimeoutChallenge\<close> by any signer
  succeeds, provided the checkpoint's account still holds its bond and the challenger's balance does not overflow.  If it
  was the validator's turn the checkpoint becomes invalid and the challenger receives the bond; otherwise the checkpoint is
  pending again, still bonded, and cannot be challenged a second time.\<close>

theorem timeout_decides:
  assumes "portal_codecs E" "load_session E program (address session) s = Inr x"
    and "load_checkpoint E program (address session) er_slot (address checkpoint) s = Inr c" "cp_status c = Challenged"
    and "load_challenge E program (address checkpoint) (address challenge) s = Inr g" "ch_status g = Active"
    and "load_cursor E program (address session) (address cursor) s = Inr u"
    and "cc_active_checkpoint u = address checkpoint" "cc_active_er_slot u = er_slot"
    and "load_da_proof E program (address challenge) (address checkpoint) (address da) s = Inr d"
    and "ch_turn_deadline_l1_slot g \<le> clock_slot E \<or> ch_hard_deadline_l1_slot g \<le> clock_slot E"
    and "cp_bond_status c = Locked" "cp_bond_lamports c \<noteq> 0" "rent_minimum E 380 = Inr rent"
    and "unat rent + unat (cp_bond_lamports c) \<le> unat (lam s (address checkpoint))"
    and "unat (lam s (ch_challenger g)) + unat (cp_bond_lamports c) < 2 ^ 64"
    and "is_signer caller" "address recipient = ch_challenger g" "ch_challenger g \<noteq> address checkpoint"
  shows "\<exists>s'. process_timeout_challenge E program (caller # session # checkpoint # challenge # da # recipient # cursor # rest) er_slot s
      = Inr s'
    \<and> (if ch_turn g = Respondent
       then checkpoint_at E program s' (address checkpoint)
           = Some (c\<lparr>cp_bond_status := Slashed, cp_status := Invalid, cp_challenge_resolved := True\<rparr>)
         \<and> unat (lam s' (ch_challenger g)) = unat (lam s (ch_challenger g)) + unat (cp_bond_lamports c)
       else checkpoint_at E program s' (address checkpoint) = Some (c\<lparr>cp_status := Pending, cp_challenge_resolved := True\<rparr>)
         \<and> (\<forall>k. lam s' k = lam s k))"
proof -
  let ?k = "address checkpoint" and ?g = "address challenge" and ?u = "address cursor" and ?d = "address da"
  obtain s' where s': "process_timeout_challenge E program (caller # session # checkpoint # challenge # da # recipient # cursor # rest)
      er_slot s = Inr s'"
    using portal_codecs.timeout_succeeds [OF assms(1,2,3,5,7,10,4,6,8,9,11-18)] by blast
  obtain c' g' u' d' where l: "load_checkpoint E program (address session) er_slot ?k s = Inr c'" "load_challenge E program ?k ?g s = Inr g'"
    and n: "distinct [address session, ?k, ?g, ?d, ?u]"
    and e: "if ch_turn g' = Respondent then
          \<exists>d'' t. cp_bond_status c' = Locked \<and> bond_moved ?k (ch_challenger g') (cp_bond_lamports c') s t
           \<and> d'' = (if da_status d' = Missing then d'\<lparr>da_status := Defaulted\<rparr> else d')
           \<and> s' = set_dat ?g (ser (challenge_codec E) (g'\<lparr>ch_status := ChallengerWon\<rparr>))
              (set_dat ?k (ser (checkpoint_codec E) (c'\<lparr>cp_bond_status := Slashed, cp_status := Invalid, cp_challenge_resolved := True\<rparr>))
              (set_dat ?u (ser (cursor_codec E) (clear_active_checkpoint u'))
              (set_dat ?d (ser (da_proof_codec E) d'') t)))
        else s' = set_dat ?g (ser (challenge_codec E) (g'\<lparr>ch_status := ValidatorWon\<rparr>))
              (set_dat ?k (ser (checkpoint_codec E) (c'\<lparr>cp_status := Pending, cp_challenge_resolved := True\<rparr>)) s)"
    using portal_codecs.timeout_effect [OF assms(1) s'] by (elim exE conjE) (rule that, assumption+)
  have same: "c' = c" "g' = g" using l assms(3,5) by simp_all
  have o: "own s ?k = program" using portal_codecs.load_checkpoint_view(4) [OF assms(1,2,3)] .
  show ?thesis
  proof (cases "ch_turn g = Respondent")
    case True
    then obtain d'' t where t: "bond_moved ?k (ch_challenger g) (cp_bond_lamports c) s t"
      and f: "s' = set_dat ?g (ser (challenge_codec E) (g\<lparr>ch_status := ChallengerWon\<rparr>))
              (set_dat ?k (ser (checkpoint_codec E) (c\<lparr>cp_bond_status := Slashed, cp_status := Invalid, cp_challenge_resolved := True\<rparr>))
              (set_dat ?u (ser (cursor_codec E) (clear_active_checkpoint u'))
              (set_dat ?d (ser (da_proof_codec E) d'') t)))"
      using e unfolding same by auto
    have "checkpoint_at E program s' ?k = Some (c\<lparr>cp_bond_status := Slashed, cp_status := Invalid, cp_challenge_resolved := True\<rparr>)"
      using n o bond_movedD(2) [OF t] by (simp add: f checkpoint_at_def portal_codecs.ser_parsed [OF assms(1)])
    moreover have "unat (lam s' (ch_challenger g)) = unat (lam s (ch_challenger g)) + unat (cp_bond_lamports c)"
      using t assms(19) by (simp add: f bond_moved_def)
    ultimately show ?thesis using True s' by (intro exI [of _ s']) simp
  next
    case False
    then have f: "s' = set_dat ?g (ser (challenge_codec E) (g\<lparr>ch_status := ValidatorWon\<rparr>))
              (set_dat ?k (ser (checkpoint_codec E) (c\<lparr>cp_status := Pending, cp_challenge_resolved := True\<rparr>)) s)"
      using e unfolding same by simp
    have "checkpoint_at E program s' ?k = Some (c\<lparr>cp_status := Pending, cp_challenge_resolved := True\<rparr>)"
      using n o by (simp add: f checkpoint_at_def portal_codecs.ser_parsed [OF assms(1)])
    then show ?thesis using False s' by (intro exI [of _ s']) (simp add: f)
  qed
qed

text \<open>A challenge whose validator has not answered in time.\<close>

definition late_st :: st where
  "late_st = sample_st
     [(8, \<lparr>lamports = 500, data = [], owner = 0, executable = False\<rparr>),
      (1007, \<lparr>lamports = 3540, data = ser session_layout sample_session, owner = 77, executable = False\<rparr>),
      (1050, \<lparr>lamports = 1005080, data = ser checkpoint_layout ((proposed_checkpoint proposal 1007 6 20 60 255)\<lparr>cp_status := Challenged,
        cp_challenger := 8, cp_challenged_at_l1_slot := 30\<rparr>), owner = 77, executable = False\<rparr>),
      (1049, \<lparr>lamports = 2810, data = ser cursor_layout ((new_cursor 1007 255)\<lparr>cc_active_checkpoint := 1050, cc_active_er_slot := 7\<rparr>),
        owner = 77, executable = False\<rparr>),
      (1041, \<lparr>lamports = 3830, data = ser challenge_layout (sample_challenge\<lparr>ch_challenger := 8\<rparr>), owner = 77, executable = False\<rparr>),
      (1040, \<lparr>lamports = 3060, data = ser da_proof_layout (missing_da_proof 1041 1050 16 255), owner = 77, executable = False\<rparr>)]"

lemmas sample_game_defs = late_st_def sample_challenge_def opened_challenge_def missing_da_proof_def proposed_checkpoint_def
  proposal_def new_cursor_def challenge_is_valid_def da_proof_is_valid_def

theorem timeout_decides_witness:
  "\<exists>s'. process_timeout_challenge (sample_env 60) 77
      [signer 6, readonly 1007, mutable 1050, mutable 1041, mutable 1040, mutable 8, mutable 1049] 7 late_st = Inr s'
    \<and> unat (lam s' 8) = 1000500"
proof -
  let ?c = "(proposed_checkpoint proposal 1007 6 20 60 255)\<lparr>cp_status := Challenged, cp_challenger := 8, cp_challenged_at_l1_slot := 30\<rparr>"
  let ?g = "sample_challenge\<lparr>ch_challenger := 8\<rparr>"
  have "\<exists>s'. process_timeout_challenge (sample_env 60) 77
      [signer 6, readonly 1007, mutable 1050, mutable 1041, mutable 1040, mutable 8, mutable 1049] 7 late_st = Inr s'
    \<and> (if ch_turn ?g = Respondent
       then checkpoint_at (sample_env 60) 77 s' (address (mutable 1050))
           = Some (?c\<lparr>cp_bond_status := Slashed, cp_status := Invalid, cp_challenge_resolved := True\<rparr>)
         \<and> unat (lam s' (ch_challenger ?g)) = unat (lam late_st (ch_challenger ?g)) + unat (cp_bond_lamports ?c)
       else checkpoint_at (sample_env 60) 77 s' (address (mutable 1050)) = Some (?c\<lparr>cp_status := Pending, cp_challenge_resolved := True\<rparr>)
         \<and> (\<forall>k. lam s' k = lam late_st k))"
    by (rule timeout_decides [OF smp.portal_codecs_axioms, where x = sample_session and d = "missing_da_proof 1041 1050 16 255"
        and u = "(new_cursor 1007 255)\<lparr>cc_active_checkpoint := 1050, cc_active_er_slot := 7\<rparr>" and rent = 5080])
       (simp_all add: sample_game_defs challenge_eval commit_eval propose_eval settle_eval session_eval store_eval)
  then show ?thesis by (auto simp: sample_game_defs CHECKPOINT_PROPOSER_BOND_LAMPORTS_def)
qed

end
