(* ===== verification/Proof_Props.thy ===== *)
theory Proof_Props
  imports Challenge_Props
begin

text \<open>
  The properties of step proofs: what a resolution does with the checkpoint and the bond, and what the
  verifier accepted when a checkpoint is upheld.
\<close>

subsection \<open>Step proofs\<close>

lemma resolve_views:
  assumes E: "portal_codecs E"
    and run: "process_resolve_challenge E program (submitter # session # checkpoint # challenge # da # proof # recipient # cursor # rest)
      er_slot mode s = Inr s'"
  shows "\<exists>c g p. checkpoint_at E program s (address checkpoint) = Some c \<and> challenge_at E program s (address challenge) = Some g
    \<and> load_step_proof E program (address checkpoint) (address proof) s = Inr p \<and> sp_authority p = ch_challenger g
    \<and> sp_public_input_hash p = step_proof_public_input_hash (hashv E) program (address session) (address checkpoint) c g p
    \<and> (verify_step_proof E mode c g p = Proof_Invalid
       \<and> checkpoint_at E program s' (address checkpoint)
          = Some (c\<lparr>cp_bond_status := Slashed, cp_status := Invalid, cp_challenge_resolved := True\<rparr>)
       \<and> challenge_at E program s' (address challenge) = Some (g\<lparr>ch_status := ChallengerWon\<rparr>)
       \<and> (ch_challenger g \<noteq> address checkpoint \<longrightarrow>
          unat (lam s' (ch_challenger g)) = unat (lam s (ch_challenger g)) + unat (cp_bond_lamports c))
       \<or> verify_step_proof E mode c g p = Proof_Valid
       \<and> checkpoint_at E program s' (address checkpoint) = Some (c\<lparr>cp_status := Pending, cp_challenge_resolved := True\<rparr>)
       \<and> challenge_at E program s' (address challenge) = Some (g\<lparr>ch_status := ValidatorWon\<rparr>))"
proof -
  let ?k = "address checkpoint" and ?g = "address challenge" and ?u = "address cursor"
  obtain x c g d u p where l: "load_session E program (address session) s = Inr x" "load_checkpoint E program (address session) er_slot ?k s = Inr c"
      "load_challenge E program ?k ?g s = Inr g" "load_step_proof E program ?k (address proof) s = Inr p" "sp_authority p = ch_challenger g"
      "sp_public_input_hash p = step_proof_public_input_hash (hashv E) program (address session) ?k c g p"
    and n: "distinct [address session, ?k, ?g, address da, ?u]"
    and e: "verify_step_proof E mode c g p = Proof_Invalid \<and> address recipient = ch_challenger g
         \<and> (\<exists>t. cp_bond_status c = Locked \<and> bond_moved ?k (ch_challenger g) (cp_bond_lamports c) s t
           \<and> s' = set_dat ?u (ser (cursor_codec E) (clear_active_checkpoint u))
              (set_dat ?g (ser (challenge_codec E) (g\<lparr>ch_status := ChallengerWon\<rparr>))
              (set_dat ?k (ser (checkpoint_codec E)
                 (c\<lparr>cp_bond_status := Slashed, cp_status := Invalid, cp_challenge_resolved := True\<rparr>)) t)))
        \<or> verify_step_proof E mode c g p = Proof_Valid
         \<and> s' = set_dat ?g (ser (challenge_codec E) (g\<lparr>ch_status := ValidatorWon\<rparr>))
              (set_dat ?k (ser (checkpoint_codec E) (c\<lparr>cp_status := Pending, cp_challenge_resolved := True\<rparr>)) s)"
    using portal_codecs.resolve_effect [OF E run] by (elim exE conjE) (rule that, assumption+)
  note v = portal_codecs.load_checkpoint_view(3,4) [OF E l(1,2)]
  note g = portal_codecs.load_challenge_view [OF E l(3)]
  note parsed = portal_codecs.ser_parsed [OF E]
  from e have "verify_step_proof E mode c g p = Proof_Invalid
       \<and> checkpoint_at E program s' ?k = Some (c\<lparr>cp_bond_status := Slashed, cp_status := Invalid, cp_challenge_resolved := True\<rparr>)
       \<and> challenge_at E program s' ?g = Some (g\<lparr>ch_status := ChallengerWon\<rparr>)
       \<and> (ch_challenger g \<noteq> ?k \<longrightarrow> unat (lam s' (ch_challenger g)) = unat (lam s (ch_challenger g)) + unat (cp_bond_lamports c))
       \<or> verify_step_proof E mode c g p = Proof_Valid
       \<and> checkpoint_at E program s' ?k = Some (c\<lparr>cp_status := Pending, cp_challenge_resolved := True\<rparr>)
       \<and> challenge_at E program s' ?g = Some (g\<lparr>ch_status := ValidatorWon\<rparr>)"
  proof (elim disjE conjE exE)
    fix t assume t: "bond_moved ?k (ch_challenger g) (cp_bond_lamports c) s t" and i: "verify_step_proof E mode c g p = Proof_Invalid"
      and s': "s' = set_dat ?u (ser (cursor_codec E) (clear_active_checkpoint u))
              (set_dat ?g (ser (challenge_codec E) (g\<lparr>ch_status := ChallengerWon\<rparr>))
              (set_dat ?k (ser (checkpoint_codec E)
                 (c\<lparr>cp_bond_status := Slashed, cp_status := Invalid, cp_challenge_resolved := True\<rparr>)) t))"
    have "ch_challenger g \<noteq> ?k \<longrightarrow> unat (lam s' (ch_challenger g)) = unat (lam s (ch_challenger g)) + unat (cp_bond_lamports c)"
      using t by (simp add: s' bond_moved_def)
    moreover have "own s' ?k = program" "own s' ?g = program" using v(2) g(2) bond_movedD(2) [OF t] by (simp_all add: s')
    moreover have "dat s' ?k = ser (checkpoint_codec E) (c\<lparr>cp_bond_status := Slashed, cp_status := Invalid, cp_challenge_resolved := True\<rparr>)"
      "dat s' ?g = ser (challenge_codec E) (g\<lparr>ch_status := ChallengerWon\<rparr>)" using n by (simp_all add: s')
    ultimately show ?thesis using i by (simp add: checkpoint_at_def challenge_at_def parsed)
  next
    assume i: "verify_step_proof E mode c g p = Proof_Valid"
      and s': "s' = set_dat ?g (ser (challenge_codec E) (g\<lparr>ch_status := ValidatorWon\<rparr>))
              (set_dat ?k (ser (checkpoint_codec E) (c\<lparr>cp_status := Pending, cp_challenge_resolved := True\<rparr>)) s)"
    have "own s' ?k = program" "own s' ?g = program" using v(2) g(2) by (simp_all add: s')
    moreover have "dat s' ?k = ser (checkpoint_codec E) (c\<lparr>cp_status := Pending, cp_challenge_resolved := True\<rparr>)"
      "dat s' ?g = ser (challenge_codec E) (g\<lparr>ch_status := ValidatorWon\<rparr>)" using n by (simp_all add: s')
    ultimately show ?thesis using i by (simp add: checkpoint_at_def challenge_at_def parsed)
  qed
  with v(1) g(1) l(4-6) show ?thesis by (intro exI [of _ c] exI [of _ g] exI [of _ p] conjI)
qed

lemma proof_failed_ok [simp]: "proof_failed r = Inr v \<longleftrightarrow> r = Inr v"
  by (cases r) (simp_all add: proof_failed_def)

lemma verified_step:
  assumes "verify_er_step_proof_v1 E bytes inputs = Inr z"
  shows "\<exists>e. Sp1Groth16ProofV1_from_bytes bytes = Inr e
    \<and> groth16_verify E (negate_g1_be E (g16_a (sp1_proof e))) (g16_b (sp1_proof e)) (g16_c (sp1_proof e))
        [key_bytes (mask_root (hashv E [inputs])), sp1_proof_nonce e]"
proof -
  obtain e gi i j where e: "Sp1Groth16ProofV1_from_bytes bytes = Inr e"
    and gi: "gi = [SP1_REPLAY_PROGRAM_VKEY_HASH, key_bytes (mask_root (hashv E [inputs])), replicate 32 0, SP1_GROTH16_VK_ROOT, sp1_proof_nonce e]"
    and v: "(if gi ! 0 \<noteq> SP1_REPLAY_PROGRAM_VKEY_HASH then Inl (Portal StepProofVerificationFailed)
       else if groth16_verify E (negate_g1_be E (g16_a (sp1_proof e))) (g16_b (sp1_proof e)) (g16_c (sp1_proof e)) [gi ! 1, gi ! 4]
       then Inr () else Inl (Portal StepProofVerificationFailed)) = Inr z"
    using assms unfolding verify_er_step_proof_v1_def sp1_public_inputs_def rbind_ok proof_failed_ok
    by (elim exE conjE) (rule that, assumption, (simp; fail), simp)
  from v show ?thesis unfolding gi using e by (simp split: if_splits)
qed

lemma step_public_inputs_fields:
  assumes "step_public_inputs c g p = Inr i"
  shows "pi_slot_step i = FrBytes_from_u64_pair (cp_er_slot c) (sp_step_index p)"
    "pi_pre_state_root i = key_bytes (ch_start_state_root g)" "pi_post_state_root i = key_bytes (ch_end_state_root g)"
    "pi_tx_effect_root i = key_bytes (sp_tx_effect_root p)" "pi_readonly_l1_root i = key_bytes (sp_readonly_l1_root p)"
    "pi_settlement_effect_root i = key_bytes (sp_settlement_effect_root p)"
proof -
  have new: "FrBytes_new bs = Inr f \<Longrightarrow> f = bs" for bs f by (simp add: FrBytes_new_def split: if_splits)
  obtain a b d e f h where *: "FrBytes_new (key_bytes (sp_session_context p)) = Inr a" "FrBytes_new (key_bytes (ch_start_state_root g)) = Inr b"
      "FrBytes_new (key_bytes (ch_end_state_root g)) = Inr d" "FrBytes_new (key_bytes (sp_tx_effect_root p)) = Inr e"
      "FrBytes_new (key_bytes (sp_readonly_l1_root p)) = Inr f" "FrBytes_new (key_bytes (sp_settlement_effect_root p)) = Inr h"
    and i: "i = \<lparr>pi_domain = FrBytes_er_step_domain_v1 (sp_proof_kind p) (sp_proof_version p), pi_session_context = a,
       pi_slot_step = FrBytes_from_u64_pair (cp_er_slot c) (sp_step_index p), pi_pre_state_root = b, pi_post_state_root = d,
       pi_tx_effect_root = e, pi_readonly_l1_root = f, pi_settlement_effect_root = h\<rparr>"
    using assms unfolding step_public_inputs_def rbind_ok by (elim exE conjE) (rule that, assumption+, simp)
  show "pi_slot_step i = FrBytes_from_u64_pair (cp_er_slot c) (sp_step_index p)"
    "pi_pre_state_root i = key_bytes (ch_start_state_root g)" "pi_post_state_root i = key_bytes (ch_end_state_root g)"
    "pi_tx_effect_root i = key_bytes (sp_tx_effect_root p)" "pi_readonly_l1_root i = key_bytes (sp_readonly_l1_root p)"
    "pi_settlement_effect_root i = key_bytes (sp_settlement_effect_root p)"
    unfolding i using new [OF *(2)] new [OF *(3)] new [OF *(4)] new [OF *(5)] new [OF *(6)] by simp_all
qed

subsection \<open>A sample game at its last step\<close>

text \<open>The sample environment with the production verifier built in, and a pairing check that accepts.\<close>

definition proving_env :: "u64 \<Rightarrow> portal_env" where
  "proving_env n = (sample_env n)\<lparr>zk_verifier_prototype := True, groth16_verify := (\<lambda>_ _ _ _. True)\<rparr>"

lemma proving_codecs: "portal_codecs (proving_env n)"
  using smp.portal_codecs_axioms [of n] by (simp add: portal_codecs_def portal_codecs_axioms_def proving_env_def)

lemma proving_sel [simp]:
  "zk_verifier_prototype (proving_env n)" "groth16_verify (proving_env n) a b c d" "clock_slot (proving_env n) = n"
  "hashv (proving_env n) = hashv (sample_env n)" "rent_minimum (proving_env n) = rent_minimum (sample_env n)"
  "session_codec (proving_env n) = session_layout" "session_v2_codec (proving_env n) = session_v2_layout"
  "checkpoint_codec (proving_env n) = checkpoint_layout" "cursor_codec (proving_env n) = cursor_layout"
  "challenge_codec (proving_env n) = challenge_layout" "da_proof_codec (proving_env n) = da_proof_layout"
  "step_proof_codec (proving_env n) = step_proof_layout"
  "find_session_pda (proving_env n) p = (1007, 255)" "find_checkpoint_pda (proving_env n) p k m = (1050, 255)"
  "find_checkpoint_cursor_pda (proving_env n) p k = (1049, 255)" "find_challenge_pda (proving_env n) p k = (1041, 255)"
  "find_da_proof_pda (proving_env n) p k = (1040, 255)" "find_step_proof_pda (proving_env n) p k = (1042, 255)"
  "parse_session (proving_env n) = parse_session (sample_env n)"
  by (simp_all add: proving_env_def find_session_pda_def find_checkpoint_pda_def find_checkpoint_cursor_pda_def find_challenge_pda_def
      find_da_proof_pda_def find_step_proof_pda_def parts_length_def ascii_def parse_session_def fun_eq_iff)

definition disputed_checkpoint :: checkpoint where
  "disputed_checkpoint = (proposed_checkpoint proposal 1007 6 20 60 255)\<lparr>cp_status := Challenged, cp_challenger := 8,
     cp_challenged_at_l1_slot := 30\<rparr>"

definition last_step :: challenge where
  "last_step = sample_challenge\<lparr>ch_challenger := 8, ch_end_step := 1, ch_turn := Prove, ch_rounds := 2\<rparr>"

text \<open>A sealed proof of the first \<open>len\<close> bytes of \<open>bs\<close>.\<close>

definition sealed_proof :: "bytes \<Rightarrow> u32 \<Rightarrow> step_proof" where
  "sealed_proof bs len =
     (let p = \<lparr>sp_discriminator = step_proof_DISCRIMINATOR, sp_checkpoint = 1050, sp_challenge = 1041, sp_authority = 8,
        sp_proof_kind = 2, sp_proof_version = 1, sp_step_index = 0, sp_session_context = 5, sp_tx_effect_root = 14,
        sp_readonly_l1_root = 15, sp_settlement_effect_root = 40, sp_public_input_hash = 0, sp_written_len = len,
        sp_sealed = True, sp_proof_hash = hashv (sample_env 40) [take (unat len) bs], sp_bump = 255, sp_data = bs\<rparr>
      in p\<lparr>sp_public_input_hash := step_proof_public_input_hash (hashv (sample_env 40)) 77 1007 1050 disputed_checkpoint last_step p\<rparr>)"

definition resolving_st :: "step_proof \<Rightarrow> st" where
  "resolving_st p = sample_st
     [(8, \<lparr>lamports = 500, data = [], owner = 0, executable = False\<rparr>),
      (1007, \<lparr>lamports = 3540, data = ser session_layout sample_session, owner = 77, executable = False\<rparr>),
      (1050, \<lparr>lamports = 1005080, data = ser checkpoint_layout disputed_checkpoint, owner = 77, executable = False\<rparr>),
      (1049, \<lparr>lamports = 2810, data = ser cursor_layout ((new_cursor 1007 255)\<lparr>cc_active_checkpoint := 1050, cc_active_er_slot := 7\<rparr>),
        owner = 77, executable = False\<rparr>),
      (1041, \<lparr>lamports = 3830, data = ser challenge_layout last_step, owner = 77, executable = False\<rparr>),
      (1040, \<lparr>lamports = 3060, data = ser da_proof_layout ((missing_da_proof 1041 1050 16 255)\<lparr>da_payload_root := 16,
        da_inclusion_proof_hash := 3, da_status := Revealed\<rparr>), owner = 77, executable = False\<rparr>),
      (1042, \<lparr>lamports = 9000, data = ser step_proof_layout p, owner = 77, executable = False\<rparr>)]"

lemma sealed_proof_sel [simp]:
  "sp_data (sealed_proof bs len) = bs" "sp_written_len (sealed_proof bs len) = len" "sp_challenge (sealed_proof bs len) = 1041"
  "sp_checkpoint (sealed_proof bs len) = 1050" "sp_authority (sealed_proof bs len) = 8" "sp_sealed (sealed_proof bs len)"
  "step_proof_is_valid (sealed_proof bs len)" "sp_proof_hash (sealed_proof bs len) = hashv (sample_env 40) [take (unat len) bs]"
  "sp_public_input_hash (sealed_proof bs len)
     = step_proof_public_input_hash (hashv (sample_env 40)) 77 1007 1050 disputed_checkpoint last_step (sealed_proof bs len)"
  by (simp_all add: sealed_proof_def Let_def step_proof_is_valid_def step_proof_public_input_hash_def step_proof_public_input_parts_def)

lemma sealed_proof_loaded:
  assumes "length bs = 356"
  shows "load_step_proof (proving_env 40) 77 1050 1042 (resolving_st (sealed_proof bs len)) = Inr (sealed_proof bs len)"
proof -
  have "step_proof_wf (sealed_proof bs len)" using assms by (simp add: step_proof_wf_def MAX_STEP_PROOF_BYTES_def)
  then have "try_from_slice step_proof_layout (ser step_proof_layout (sealed_proof bs len)) = Some (sealed_proof bs len)"
    using borsh_codec.try_from_slice_ser [OF borsh_step_proof] by simp
  then show ?thesis by (simp add: load_step_proof_def load_def resolving_st_def)
qed

lemma resolving_loads [simp]:
  "load_session (proving_env n) 77 1007 (resolving_st p) = Inr sample_session"
  "load_checkpoint (proving_env n) 77 1007 7 1050 (resolving_st p) = Inr disputed_checkpoint"
  "load_challenge (proving_env n) 77 1050 1041 (resolving_st p) = Inr last_step"
  "load_da_proof (proving_env n) 77 1041 1050 1040 (resolving_st p) = Inr ((missing_da_proof 1041 1050 16 255)\<lparr>da_payload_root := 16,
        da_inclusion_proof_hash := 3, da_status := Revealed\<rparr>)"
  "load_cursor (proving_env n) 77 1007 1049 (resolving_st p) = Inr ((new_cursor 1007 255)\<lparr>cc_active_checkpoint := 1050, cc_active_er_slot := 7\<rparr>)"
  by (simp_all add: resolving_st_def disputed_checkpoint_def last_step_def sample_game_defs challenge_eval commit_eval propose_eval
      settle_eval session_eval store_eval)

lemma resolving_views:
  "checkpoint_at (proving_env n) 77 (resolving_st p) 1050 = Some disputed_checkpoint"
  "challenge_at (proving_env n) 77 (resolving_st p) 1041 = Some last_step"
  by (simp_all add: checkpoint_at_def challenge_at_def resolving_st_def)

lemma resolving_ends:
  "\<exists>s'. uphold_challenge (proving_env n) 1050 1041 8 1049 disputed_checkpoint last_step
     ((new_cursor 1007 255)\<lparr>cc_active_checkpoint := 1050, cc_active_er_slot := 7\<rparr>) (resolving_st p) = Inr s'"
  "\<exists>s'. default_challenger (proving_env n) 1050 1041 disputed_checkpoint last_step (resolving_st p) = Inr s'"
  by (simp_all add: uphold_challenge_def slash_checkpoint_bond_def default_challenger_def resolving_st_def disputed_checkpoint_def
      last_step_def sample_game_defs challenge_eval commit_eval propose_eval settle_eval session_eval cpi_eval store_eval)

lemma resolve_run:
  assumes bs: "length bs = 356" and len: "len \<noteq> 0" "unat len \<le> 356"
    and v: "verify_step_proof (proving_env 40) Production disputed_checkpoint last_step (sealed_proof bs len) = v" "v \<noteq> Proof_Unavailable"
  shows "\<exists>s'. process_resolve_challenge (proving_env 40) 77
      [signer 6, readonly 1007, mutable 1050, mutable 1041, readonly 1040, readonly 1042, mutable 8, mutable 1049] 7 Production
      (resolving_st (sealed_proof bs len)) = Inr s'"
proof -
  have g: "cp_status disputed_checkpoint = Challenged" "require_live_turn last_step 40 = Inr ()" "ch_turn last_step = Prove"
      "ch_end_step last_step = saturating_add (ch_start_step last_step) 1" "ch_challenger last_step = 8"
    by (simp_all add: disputed_checkpoint_def last_step_def require_live_turn_def sample_game_defs saturating_add_def)
  from v(2) show ?thesis
    using len resolving_ends [of 40 "sealed_proof bs len"]
    by (cases v) (simp_all add: process_resolve_challenge_def Let_def g sealed_proof_loaded [OF bs] v(1) require_active_checkpoint_def
        MAX_STEP_PROOF_BYTES_def new_cursor_def)
qed

text \<open>C12: If a production resolution upholds a checkpoint, the Groth16 verifier accepted the sealed proof under the public
  inputs of exactly the disputed step: the checkpoint's slot, the state roots at both ends of the isolated interval, and the
  step index, transaction effect, readonly and settlement roots the proof account was opened with.\<close>

theorem upheld_step_is_verified:
  assumes "portal_codecs E"
    and "process_resolve_challenge E program (submitter # session # checkpoint # challenge # da # proof # recipient # cursor # rest)
      er_slot Production s = Inr s'"
    and "checkpoint_at E program s' (address checkpoint) = Some c'" "cp_status c' = Pending"
  shows "\<exists>c g p i e. checkpoint_at E program s (address checkpoint) = Some c \<and> challenge_at E program s (address challenge) = Some g
    \<and> load_step_proof E program (address checkpoint) (address proof) s = Inr p
    \<and> pi_slot_step i = FrBytes_from_u64_pair (cp_er_slot c) (sp_step_index p)
    \<and> pi_pre_state_root i = key_bytes (ch_start_state_root g) \<and> pi_post_state_root i = key_bytes (ch_end_state_root g)
    \<and> pi_tx_effect_root i = key_bytes (sp_tx_effect_root p) \<and> pi_readonly_l1_root i = key_bytes (sp_readonly_l1_root p)
    \<and> pi_settlement_effect_root i = key_bytes (sp_settlement_effect_root p)
    \<and> Sp1Groth16ProofV1_from_bytes (sp_data p) = Inr e
    \<and> groth16_verify E (negate_g1_be E (g16_a (sp1_proof e))) (g16_b (sp1_proof e)) (g16_c (sp1_proof e))
        [key_bytes (mask_root (hashv E [concat (ErStepPublicInputsV1_to_array i)])), sp1_proof_nonce e]"
proof -
  obtain c g p where v: "checkpoint_at E program s (address checkpoint) = Some c" "challenge_at E program s (address challenge) = Some g"
      "load_step_proof E program (address checkpoint) (address proof) s = Inr p"
    and ok: "verify_step_proof E Production c g p = Proof_Valid"
  proof -
    from resolve_views [OF assms(1,2)] show thesis
    proof (elim exE conjE disjE)
      fix c g p assume "checkpoint_at E program s' (address checkpoint)
        = Some (c\<lparr>cp_bond_status := Slashed, cp_status := Invalid, cp_challenge_resolved := True\<rparr>)"
      with assms(3,4) show thesis by auto
    qed (rule that)
  qed
  obtain i where i: "step_public_inputs c g p = Inr i"
    and ver: "is_ok (verify_er_step_proof_v1 E (sp_data p) (concat (ErStepPublicInputsV1_to_array i)))"
    using ok by (cases "step_public_inputs c g p")
      (simp_all add: verify_step_proof_def verify_step_proof_production_def split: if_splits)
  obtain z where "verify_er_step_proof_v1 E (sp_data p) (concat (ErStepPublicInputsV1_to_array i)) = Inr z"
    using ver by (cases "verify_er_step_proof_v1 E (sp_data p) (concat (ErStepPublicInputsV1_to_array i))") auto
  then obtain e where e: "Sp1Groth16ProofV1_from_bytes (sp_data p) = Inr e"
      "groth16_verify E (negate_g1_be E (g16_a (sp1_proof e))) (g16_b (sp1_proof e)) (g16_c (sp1_proof e))
        [key_bytes (mask_root (hashv E [concat (ErStepPublicInputsV1_to_array i)])), sp1_proof_nonce e]"
    using verified_step by blast
  show ?thesis
    by (intro exI [of _ c] exI [of _ g] exI [of _ p] exI [of _ i] exI [of _ e] conjI v e step_public_inputs_fields [OF i])
qed

definition sample_inputs :: er_step_public_inputs where
  "sample_inputs = \<lparr>pi_domain = FrBytes_er_step_domain_v1 2 1, pi_session_context = key_bytes 5,
     pi_slot_step = FrBytes_from_u64_pair 7 0, pi_pre_state_root = key_bytes 11, pi_post_state_root = key_bytes 12,
     pi_tx_effect_root = key_bytes 14, pi_readonly_l1_root = key_bytes 15, pi_settlement_effect_root = key_bytes 40\<rparr>"

lemma sample_fields:
  "FrBytes_new (key_bytes 5) = Inr (key_bytes 5)" "FrBytes_new (key_bytes 11) = Inr (key_bytes 11)"
  "FrBytes_new (key_bytes 12) = Inr (key_bytes 12)" "FrBytes_new (key_bytes 14) = Inr (key_bytes 14)"
  "FrBytes_new (key_bytes 15) = Inr (key_bytes 15)" "FrBytes_new (key_bytes 40) = Inr (key_bytes 40)"
  by code_simp+

lemma sample_step_verifies:
  "verify_step_proof (proving_env 40) Production disputed_checkpoint last_step (sealed_proof sample_envelope 356) = Proof_Valid"
proof -
  have "step_public_inputs disputed_checkpoint last_step (sealed_proof sample_envelope 356) = Inr sample_inputs"
    by (simp add: step_public_inputs_def disputed_checkpoint_def last_step_def sample_challenge_def opened_challenge_def
        proposed_checkpoint_def proposal_def sealed_proof_def Let_def sample_fields sample_inputs_def)
  moreover have "is_ok (verify_er_step_proof_v1 (proving_env 40) sample_envelope (concat (ErStepPublicInputsV1_to_array sample_inputs)))"
    by code_simp
  ultimately show ?thesis
    by (simp add: verify_step_proof_def verify_step_proof_production_def MAX_STEP_PROOF_BYTES_def)
qed

theorem upheld_step_is_verified_witness:
  "\<exists>s'. process_resolve_challenge (proving_env 40) 77
      [signer 6, readonly 1007, mutable 1050, mutable 1041, readonly 1040, readonly 1042, mutable 8, mutable 1049] 7 Production
      (resolving_st (sealed_proof sample_envelope 356)) = Inr s'
    \<and> (\<exists>p e. load_step_proof (proving_env 40) 77 1050 1042 (resolving_st (sealed_proof sample_envelope 356)) = Inr p
        \<and> Sp1Groth16ProofV1_from_bytes (sp_data p) = Inr e)"
proof -
  let ?st = "resolving_st (sealed_proof sample_envelope 356)"
  have len: "length sample_envelope = 356" by code_simp
  obtain s' where s': "process_resolve_challenge (proving_env 40) 77
      [signer 6, readonly 1007, mutable 1050, mutable 1041, readonly 1040, readonly 1042, mutable 8, mutable 1049] 7 Production ?st = Inr s'"
    using resolve_run [OF len _ _ sample_step_verifies] by auto
  obtain c' where c': "checkpoint_at (proving_env 40) 77 s' (address (mutable 1050)) = Some c'" "cp_status c' = Pending"
  proof -
    from resolve_views [OF proving_codecs s'] show thesis
      using that sealed_proof_loaded [OF len, of 356] sample_step_verifies resolving_views by fastforce
  qed
  from upheld_step_is_verified [OF proving_codecs s' c'] s' show ?thesis by fastforce
qed

text \<open>C17: A production resolution on a sealed proof that is not a full envelope strikes the checkpoint, whatever the proof
  bytes are: the checkpoint becomes invalid, the challenge is won by the challenger, who wrote the proof, and the bond
  goes to them.\<close>

theorem short_proof_strikes:
  assumes "portal_codecs E" "zk_verifier_prototype E"
    and "process_resolve_challenge E program (submitter # session # checkpoint # challenge # da # proof # recipient # cursor # rest)
      er_slot Production s = Inr s'"
    and "load_step_proof E program (address checkpoint) (address proof) s = Inr p" "unat (sp_written_len p) \<noteq> MAX_STEP_PROOF_BYTES"
  shows "\<exists>c g. checkpoint_at E program s (address checkpoint) = Some c \<and> challenge_at E program s (address challenge) = Some g
    \<and> sp_authority p = ch_challenger g
    \<and> checkpoint_at E program s' (address checkpoint)
        = Some (c\<lparr>cp_bond_status := Slashed, cp_status := Invalid, cp_challenge_resolved := True\<rparr>)
    \<and> challenge_at E program s' (address challenge) = Some (g\<lparr>ch_status := ChallengerWon\<rparr>)
    \<and> (ch_challenger g \<noteq> address checkpoint \<longrightarrow>
        unat (lam s' (ch_challenger g)) = unat (lam s (ch_challenger g)) + unat (cp_bond_lamports c))"
proof -
  have "verify_step_proof E Production c g p = Proof_Invalid" for c g
    using assms(2,5) by (auto simp: verify_step_proof_def verify_step_proof_production_def split: sum.splits)
  then have inv: "verify_step_proof E Production c g p \<noteq> Proof_Valid" for c g by simp
  from resolve_views [OF assms(1,3)] obtain c g q where q: "load_step_proof E program (address checkpoint) (address proof) s = Inr q"
    and v: "checkpoint_at E program s (address checkpoint) = Some c" "challenge_at E program s (address challenge) = Some g"
      "sp_authority q = ch_challenger g"
    and o: "verify_step_proof E Production c g q = Proof_Invalid
       \<and> checkpoint_at E program s' (address checkpoint)
          = Some (c\<lparr>cp_bond_status := Slashed, cp_status := Invalid, cp_challenge_resolved := True\<rparr>)
       \<and> challenge_at E program s' (address challenge) = Some (g\<lparr>ch_status := ChallengerWon\<rparr>)
       \<and> (ch_challenger g \<noteq> address checkpoint \<longrightarrow>
          unat (lam s' (ch_challenger g)) = unat (lam s (ch_challenger g)) + unat (cp_bond_lamports c))
       \<or> verify_step_proof E Production c g q = Proof_Valid
       \<and> checkpoint_at E program s' (address checkpoint) = Some (c\<lparr>cp_status := Pending, cp_challenge_resolved := True\<rparr>)
       \<and> challenge_at E program s' (address challenge) = Some (g\<lparr>ch_status := ValidatorWon\<rparr>)"
    by (elim exE conjE) (rule that, assumption+)
  have "q = p" using q assms(4) by simp
  with o inv v show ?thesis by (intro exI [of _ c] exI [of _ g]) simp
qed

theorem short_proof_strikes_witness:
  "\<exists>s'. process_resolve_challenge (proving_env 40) 77
      [signer 6, readonly 1007, mutable 1050, mutable 1041, readonly 1040, readonly 1042, mutable 8, mutable 1049] 7 Production
      (resolving_st (sealed_proof (replicate 356 0) 1)) = Inr s'
    \<and> (\<exists>c. checkpoint_at (proving_env 40) 77 s' 1050 = Some c \<and> cp_status c = Invalid)"
proof -
  let ?p = "sealed_proof (replicate 356 0) 1" and ?E = "proving_env 40"
  have "verify_step_proof ?E Production disputed_checkpoint last_step ?p = Proof_Invalid"
    by (simp add: verify_step_proof_def verify_step_proof_production_def MAX_STEP_PROOF_BYTES_def split: sum.split)
  then obtain s' where s': "process_resolve_challenge ?E 77
      [signer 6, readonly 1007, mutable 1050, mutable 1041, readonly 1040, readonly 1042, mutable 8, mutable 1049] 7 Production
      (resolving_st ?p) = Inr s'"
    using resolve_run [of "replicate 356 0" 1] by auto
  have "load_step_proof ?E 77 (address (mutable 1050)) (address (readonly 1042)) (resolving_st ?p) = Inr ?p"
    by (simp add: sealed_proof_loaded)
  from short_proof_strikes [OF proving_codecs _ s' this] s' show ?thesis by (auto simp: MAX_STEP_PROOF_BYTES_def)
qed

end
