(* ===== verification/Bond_Props.thy ===== *)
theory Bond_Props
  imports Challenge_Props
begin

text \<open>
  Bonds are backed: as long as the bond of a checkpoint is locked, its account holds the rent reserve and the
  bond, whatever instructions are executed.
\<close>

definition backed :: "portal_env \<Rightarrow> st \<Rightarrow> pubkey \<Rightarrow> checkpoint \<Rightarrow> bool" where
  "backed E s k c \<longleftrightarrow> (\<exists>rent. rent_minimum E 380 = Inr rent \<and> unat rent + unat (cp_bond_lamports c) \<le> unat (lam s k))"

definition bonds_backed :: "portal_env \<Rightarrow> pubkey \<Rightarrow> st \<Rightarrow> bool" where
  "bonds_backed E program s \<longleftrightarrow> (\<forall>k c. checkpoint_at E program s k = Some c \<longrightarrow> cp_session c = session_key E program \<longrightarrow>
     cp_bond_status c = Locked \<longrightarrow> backed E s k c)"

lemma backed_mono: "backed E s k c \<Longrightarrow> cp_bond_lamports c' = cp_bond_lamports c \<Longrightarrow> lam s k \<le> lam s' k \<Longrightarrow> backed E s' k c'"
  unfolding backed_def word_le_nat_alt by (elim exE conjE, rule exI, rule conjI, assumption) simp

text \<open>No account with data pays, except a checkpoint whose bond was resolved.\<close>

definition nobody_pays :: "portal_env \<Rightarrow> pubkey \<Rightarrow> st \<Rightarrow> st \<Rightarrow> bool" where
  "nobody_pays E program s s' \<longleftrightarrow> (\<forall>j. dat s j \<noteq> [] \<longrightarrow> lam s j \<le> lam s' j
     \<or> (\<exists>c. checkpoint_at E program s' j = Some c \<and> cp_bond_status c \<noteq> Locked))"

lemma same_but_nobody_pays: "same_but K s s' \<Longrightarrow> nobody_pays E program s s'"
  by (simp add: nobody_pays_def same_but_def)

lemma same_lam_nobody_pays: "(\<And>j. lam s' j = lam s j) \<Longrightarrow> nobody_pays E program s s'"
  by (simp add: nobody_pays_def)

lemma bond_nobody_pays:
  assumes "bond_moved k recipient bond s t" "\<And>j. lam s' j = lam t j"
    and "checkpoint_at E program s' k = Some c" "cp_bond_status c \<noteq> Locked"
  shows "nobody_pays E program s s'"
  unfolding nobody_pays_def
proof (intro allI impI)
  fix j
  show "lam s j \<le> lam s' j \<or> (\<exists>c. checkpoint_at E program s' j = Some c \<and> cp_bond_status c \<noteq> Locked)"
  proof (cases "j = k")
    case True
    then show ?thesis using assms(3,4) by blast
  next
    case False
    then have "lam s j \<le> lam t j"
      using assms(1) by (cases "j = recipient") (auto simp: bond_moved_def word_le_nat_alt)
    then show ?thesis by (simp add: assms(2))
  qed
qed

context portal_codecs
begin

lemma checkpoint_put: "own s k = program \<Longrightarrow> dat s k = ser (checkpoint_codec E) c \<Longrightarrow> checkpoint_at E program s k = Some c"
  by (simp add: checkpoint_at_def ser_parsed)

lemma checkpoint_at_data: "checkpoint_at E program s k = Some c \<Longrightarrow> dat s k \<noteq> []"
  using checkpoint_at_None [of s k program] by auto

lemma commit_nobody_pays:
  assumes "process_commit_checkpoint_versioned E program (a # b # k # u # e # rest) er_slot v2 s = Inr s'"
  shows "nobody_pays E program s s'"
proof -
  obtain x c v t w bond where l: "load_session E program (address b) s = Inr x" "load_checkpoint E program (address b) er_slot (address k) s = Inr c"
      "load_cursor E program (address b) (address u) s = Inr v"
    and t: "bond_moved (address k) w bond s t"
    and s': "s' = set_dat (address u) (ser (cursor_codec E) (v\<lparr>cc_latest_finalized_checkpoint := address k,
              cc_latest_finalized_er_slot := er_slot, cc_latest_finalized_state_root := cp_new_state_root c\<rparr>))
          (set_dat (address k) (ser (checkpoint_codec E) (c\<lparr>cp_status := Committed, cp_bond_status := Released\<rparr>)) t)"
    using commit_effect [OF assms] by (elim exE conjE) (rule that, assumption+)
  have "address k \<noteq> address u" using load_checkpoint_view(5) [OF l(1,2)] load_cursor_view(4) [OF l(1,3)] by auto
  then have "checkpoint_at E program s' (address k) = Some (c\<lparr>cp_status := Committed, cp_bond_status := Released\<rparr>)"
    using load_checkpoint_view(4) [OF l(1,2)] bond_movedD(2) [OF t] by (intro checkpoint_put) (simp_all add: s')
  then show ?thesis by (rule bond_nobody_pays [OF t, rotated]) (simp_all add: s')
qed

lemma cancel_nobody_pays:
  assumes "process_cancel_checkpoint E program (a # b # k # u # rest) er_slot s = Inr s'"
  shows "nobody_pays E program s s'"
proof -
  obtain x c v t w bond where l: "load_session E program (address b) s = Inr x" "load_checkpoint E program (address b) er_slot (address k) s = Inr c"
      "load_cursor E program (address b) (address u) s = Inr v"
    and t: "bond_moved (address k) w bond s t"
    and s': "s' = set_dat (address u) (ser (cursor_codec E) (clear_active_checkpoint v))
          (set_dat (address k) (ser (checkpoint_codec E) (c\<lparr>cp_status := Cancelled, cp_bond_status := Released\<rparr>)) t)"
    using cancel_effect [OF assms] by (elim exE conjE) (rule that, assumption+)
  have "address k \<noteq> address u" using load_checkpoint_view(5) [OF l(1,2)] load_cursor_view(4) [OF l(1,3)] by auto
  then have "checkpoint_at E program s' (address k) = Some (c\<lparr>cp_status := Cancelled, cp_bond_status := Released\<rparr>)"
    using load_checkpoint_view(4) [OF l(1,2)] bond_movedD(2) [OF t] by (intro checkpoint_put) (simp_all add: s')
  then show ?thesis by (rule bond_nobody_pays [OF t, rotated]) (simp_all add: s')
qed

lemma timeout_nobody_pays:
  assumes "process_timeout_challenge E program (a # b # k # g # da # r # u # rest) er_slot s = Inr s'"
  shows "nobody_pays E program s s'"
proof -
  obtain x c ch v d where l: "load_session E program (address b) s = Inr x" "load_checkpoint E program (address b) er_slot (address k) s = Inr c"
    and n: "distinct [address b, address k, address g, address da, address u]"
    and s': "if ch_turn ch = Respondent then
          \<exists>d' t. cp_bond_status c = Locked \<and> bond_moved (address k) (ch_challenger ch) (cp_bond_lamports c) s t
           \<and> d' = (if da_status d = Missing then d\<lparr>da_status := Defaulted\<rparr> else d)
           \<and> s' = set_dat (address g) (ser (challenge_codec E) (ch\<lparr>ch_status := ChallengerWon\<rparr>))
              (set_dat (address k) (ser (checkpoint_codec E) (c\<lparr>cp_bond_status := Slashed, cp_status := Invalid, cp_challenge_resolved := True\<rparr>))
              (set_dat (address u) (ser (cursor_codec E) (clear_active_checkpoint v))
              (set_dat (address da) (ser (da_proof_codec E) d') t)))
        else s' = set_dat (address g) (ser (challenge_codec E) (ch\<lparr>ch_status := ValidatorWon\<rparr>))
              (set_dat (address k) (ser (checkpoint_codec E) (c\<lparr>cp_status := Pending, cp_challenge_resolved := True\<rparr>)) s)"
    using timeout_effect [OF assms] by (elim exE conjE) (rule that, assumption+)
  show ?thesis
  proof (cases "ch_turn ch = Respondent")
    case True
    with s' obtain d' t where t: "bond_moved (address k) (ch_challenger ch) (cp_bond_lamports c) s t"
      and e: "s' = set_dat (address g) (ser (challenge_codec E) (ch\<lparr>ch_status := ChallengerWon\<rparr>))
              (set_dat (address k) (ser (checkpoint_codec E) (c\<lparr>cp_bond_status := Slashed, cp_status := Invalid, cp_challenge_resolved := True\<rparr>))
              (set_dat (address u) (ser (cursor_codec E) (clear_active_checkpoint v))
              (set_dat (address da) (ser (da_proof_codec E) d') t)))" by auto
    have "checkpoint_at E program s' (address k) = Some (c\<lparr>cp_bond_status := Slashed, cp_status := Invalid, cp_challenge_resolved := True\<rparr>)"
      using n load_checkpoint_view(4) [OF l] bond_movedD(2) [OF t] by (intro checkpoint_put) (simp_all add: e)
    then show ?thesis by (rule bond_nobody_pays [OF t, rotated]) (simp_all add: e)
  next
    case False
    with s' show ?thesis by (intro same_lam_nobody_pays) simp
  qed
qed

lemma resolve_outcome:
  assumes "process_resolve_challenge E program (a # b # k # g # da # p # r # u # rest) er_slot mode s = Inr s'"
  obtains (struck) x c ch v t where "load_session E program (address b) s = Inr x"
      "load_checkpoint E program (address b) er_slot (address k) s = Inr c" "distinct [address k, address g, address u]"
      "bond_moved (address k) (ch_challenger ch) (cp_bond_lamports c) s t"
      "s' = set_dat (address u) (ser (cursor_codec E) (clear_active_checkpoint v))
              (set_dat (address g) (ser (challenge_codec E) (ch\<lparr>ch_status := ChallengerWon\<rparr>))
              (set_dat (address k) (ser (checkpoint_codec E)
                 (c\<lparr>cp_bond_status := Slashed, cp_status := Invalid, cp_challenge_resolved := True\<rparr>)) t))"
    | (upheld) x c ch where "load_session E program (address b) s = Inr x"
      "load_checkpoint E program (address b) er_slot (address k) s = Inr c"
      "s' = set_dat (address g) (ser (challenge_codec E) (ch\<lparr>ch_status := ValidatorWon\<rparr>))
              (set_dat (address k) (ser (checkpoint_codec E) (c\<lparr>cp_status := Pending, cp_challenge_resolved := True\<rparr>)) s)"
proof -
  obtain x c ch v y where l: "load_session E program (address b) s = Inr x" "load_checkpoint E program (address b) er_slot (address k) s = Inr c"
    and n: "distinct [address b, address k, address g, address da, address u]"
    and s': "verify_step_proof E mode c ch y = Proof_Invalid \<and> address r = ch_challenger ch
         \<and> (\<exists>t. cp_bond_status c = Locked \<and> bond_moved (address k) (ch_challenger ch) (cp_bond_lamports c) s t
           \<and> s' = set_dat (address u) (ser (cursor_codec E) (clear_active_checkpoint v))
              (set_dat (address g) (ser (challenge_codec E) (ch\<lparr>ch_status := ChallengerWon\<rparr>))
              (set_dat (address k) (ser (checkpoint_codec E)
                 (c\<lparr>cp_bond_status := Slashed, cp_status := Invalid, cp_challenge_resolved := True\<rparr>)) t)))
        \<or> verify_step_proof E mode c ch y = Proof_Valid
         \<and> s' = set_dat (address g) (ser (challenge_codec E) (ch\<lparr>ch_status := ValidatorWon\<rparr>))
              (set_dat (address k) (ser (checkpoint_codec E) (c\<lparr>cp_status := Pending, cp_challenge_resolved := True\<rparr>)) s)"
    using resolve_effect [OF assms] by (elim exE conjE) (rule that, assumption+)
  have n': "distinct [address k, address g, address u]" using n by auto
  from s' show thesis
  proof (elim disjE exE conjE)
  qed (rule struck [OF l n'] upheld [OF l], assumption+)+
qed

lemma resolve_nobody_pays:
  assumes "process_resolve_challenge E program (a # b # k # g # da # p # r # u # rest) er_slot mode s = Inr s'"
  shows "nobody_pays E program s s'"
  using assms
proof (cases rule: resolve_outcome)
  case (struck x c ch v t)
  have "checkpoint_at E program s' (address k) = Some (c\<lparr>cp_bond_status := Slashed, cp_status := Invalid, cp_challenge_resolved := True\<rparr>)"
    using struck(3) load_checkpoint_view(4) [OF struck(1,2)] bond_movedD(2) [OF struck(4)]
    by (intro checkpoint_put) (simp_all add: struck(5))
  then show ?thesis by (rule bond_nobody_pays [OF struck(4), rotated]) (simp_all add: struck(5))
next
  case (upheld x c ch)
  then show ?thesis by (simp add: same_lam_nobody_pays)
qed

lemma quiet_nobody_pays:
  "process_respond_challenge E program (a # b # k # g # da # rest) resp s = Inr s' \<Longrightarrow> nobody_pays E program s s'"
  "process_bisect_challenge E program (a # b # k # g # rest) er_slot upper s = Inr s' \<Longrightarrow> nobody_pays E program s s'"
  "process_write_step_proof E program (a # b # k # g # p # rest) args s = Inr s' \<Longrightarrow> nobody_pays E program s s'"
  "process_seal_step_proof E program (a # b # k # g # p # rest) er_slot len s = Inr s' \<Longrightarrow> nobody_pays E program s s'"
  "process_finish_settlement E program (a # b # k # u # rest) fin s = Inr s' \<Longrightarrow> nobody_pays E program s s'"
  subgoal by (drule respond_effect) (elim exE conjE, simp add: same_lam_nobody_pays)
  subgoal by (drule bisect_effect) (elim exE conjE, simp add: same_lam_nobody_pays)
  subgoal by (drule write_step_proof_effect) (elim exE conjE, simp add: same_lam_nobody_pays)
  subgoal by (drule seal_step_proof_effect) (elim exE conjE, simp add: same_lam_nobody_pays)
  subgoal by (drule finish_effect) (elim exE conjE, simp add: same_lam_nobody_pays)
  done

end

lemma exec_nobody_pays:
  assumes E: "portal_codecs E" and run: "checkpoint_exec E program accs ix s = Inr s'"
  shows "nobody_pays E program s s'"
proof -
  note l = checkpoint_exec_accounts [OF run]
  show ?thesis
  proof (cases ix)
    case (Propose args)
    with l conses5 obtain a b c d e ys where "accs = a # b # c # d # e # ys" by fastforce
    with run Propose have "process_propose_checkpoint_versioned E program (a # b # c # d # e # ys) args False s = Inr s'"
      by (simp add: process_propose_checkpoint_def)
    from portal_codecs.propose_effect [OF E this] have "same_but {address c, address d} s s'" by (elim exE conjE)
    then show ?thesis by (rule same_but_nobody_pays)
  next
    case (Commit er)
    with l conses5 obtain a b c d e ys where "accs = a # b # c # d # e # ys" by fastforce
    with run Commit portal_codecs.commit_nobody_pays [OF E] show ?thesis by (simp add: process_commit_checkpoint_def)
  next
    case (Cancel er)
    with l conses4 obtain a b c d ys where "accs = a # b # c # d # ys" by fastforce
    with run Cancel portal_codecs.cancel_nobody_pays [OF E] show ?thesis by simp
  next
    case (Open_challenge er)
    with l conses6 obtain a b c d e f ys where "accs = a # b # c # d # e # f # ys" by fastforce
    with run Open_challenge have "process_open_challenge E program (a # b # c # d # e # f # ys) er s = Inr s'" by simp
    from portal_codecs.open_challenge_effect [OF E this] have "same_but {address c, address d, address e} s s'" by (elim exE conjE)
    then show ?thesis by (rule same_but_nobody_pays)
  next
    case (Respond args)
    with l conses5 obtain a b c d e ys where "accs = a # b # c # d # e # ys" by fastforce
    with run Respond portal_codecs.quiet_nobody_pays(1) [OF E] show ?thesis by simp
  next
    case (Bisect er upper)
    with l conses4 obtain a b c d ys where "accs = a # b # c # d # ys" by fastforce
    with run Bisect portal_codecs.quiet_nobody_pays(2) [OF E] show ?thesis by simp
  next
    case (Timeout er)
    with l conses7 obtain a b c d e f h ys where "accs = a # b # c # d # e # f # h # ys" by fastforce
    with run Timeout portal_codecs.timeout_nobody_pays [OF E] show ?thesis by simp
  next
    case (Create_proof args)
    with l conses6 obtain a b c d e f ys where "accs = a # b # c # d # e # f # ys" by fastforce
    with run Create_proof have "process_create_step_proof E program (a # b # c # d # e # f # ys) args s = Inr s'" by simp
    from portal_codecs.create_step_proof_effect [OF E this] have "same_but {address e} s s'" by (elim exE conjE)
    then show ?thesis by (rule same_but_nobody_pays)
  next
    case (Write_proof args)
    with l conses5 obtain a b c d e ys where "accs = a # b # c # d # e # ys" by fastforce
    with run Write_proof portal_codecs.quiet_nobody_pays(3) [OF E] show ?thesis by simp
  next
    case (Seal_proof er len)
    with l conses5 obtain a b c d e ys where "accs = a # b # c # d # e # ys" by fastforce
    with run Seal_proof portal_codecs.quiet_nobody_pays(4) [OF E] show ?thesis by simp
  next
    case (Resolve er mode)
    with l conses8 obtain a b c d e f h i ys where "accs = a # b # c # d # e # f # h # i # ys" by fastforce
    with run Resolve portal_codecs.resolve_nobody_pays [OF E] show ?thesis by simp
  next
    case (Finish args)
    with l conses4 obtain a b c d ys where "accs = a # b # c # d # ys" by fastforce
    with run Finish portal_codecs.quiet_nobody_pays(5) [OF E] show ?thesis by simp
  qed
qed


subsection \<open>Locked bonds were locked before\<close>

definition keeps_bonds :: "portal_env \<Rightarrow> pubkey \<Rightarrow> st \<Rightarrow> st \<Rightarrow> bool" where
  "keeps_bonds E program s s' \<longleftrightarrow> (\<forall>k c'. checkpoint_at E program s' k = Some c' \<longrightarrow> cp_bond_status c' = Locked \<longrightarrow>
     (\<exists>c. checkpoint_at E program s k = Some c \<and> cp_session c = cp_session c' \<and> cp_bond_status c = Locked
        \<and> cp_bond_lamports c = cp_bond_lamports c'))"

lemma keeps_refl: "keeps_bonds E program s s"
  by (simp add: keeps_bonds_def)

lemma keeps_moved: "bond_moved k recipient bond s t \<Longrightarrow> keeps_bonds E program s t"
  by (simp add: keeps_bonds_def checkpoint_at_def bond_movedD)

lemma keeps_quiet: "rollup_of E program s' = rollup_of E program s \<Longrightarrow> keeps_bonds E program s s'"
  by (simp add: keeps_bonds_def rollup_of_def)

context portal_codecs
begin

lemma keeps_put:
  assumes "keeps_bonds E program s t"
    and "\<And>c'. try_from_slice (checkpoint_codec E) bs = Some c' \<Longrightarrow> cp_bond_status c' = Locked \<Longrightarrow>
      \<exists>c. checkpoint_at E program s k = Some c \<and> cp_session c = cp_session c' \<and> cp_bond_status c = Locked
        \<and> cp_bond_lamports c = cp_bond_lamports c'"
  shows "keeps_bonds E program s (set_dat k bs t)"
  unfolding keeps_bonds_def
proof (intro allI impI)
  fix j c' assume c': "checkpoint_at E program (set_dat k bs t) j = Some c'" "cp_bond_status c' = Locked"
  show "\<exists>c. checkpoint_at E program s j = Some c \<and> cp_session c = cp_session c' \<and> cp_bond_status c = Locked
        \<and> cp_bond_lamports c = cp_bond_lamports c'"
  proof (cases "j = k")
    case True
    with c'(1) have "try_from_slice (checkpoint_codec E) bs = Some c'" by (simp add: checkpoint_at_def split: if_splits)
    from assms(2) [OF this c'(2)] True show ?thesis by simp
  next
    case False
    with c'(1) have "checkpoint_at E program t j = Some c'" by (simp add: checkpoint_at_def split: if_splits)
    with assms(1) c'(2) show ?thesis by (simp add: keeps_bonds_def)
  qed
qed

lemma keeps_short: "keeps_bonds E program s t \<Longrightarrow> length bs \<noteq> 380 \<Longrightarrow> keeps_bonds E program s (set_dat k bs t)"
  using checkpoint_c.try_from_sliceD(3) by (auto intro!: keeps_put)

lemma keeps_puts:
  assumes "keeps_bonds E program s t"
  shows "keeps_bonds E program s (set_dat k (ser (cursor_codec E) u) t)"
    "keeps_bonds E program s (set_dat k (ser (challenge_codec E) g) t)"
    "keeps_bonds E program s (set_dat k (ser (da_proof_codec E) d) t)"
    "parse_session E bs = Inr x \<Longrightarrow> keeps_bonds E program s (set_dat k bs t)"
    "cp_bond_status c \<noteq> Locked \<Longrightarrow> keeps_bonds E program s (set_dat k (ser (checkpoint_codec E) c) t)"
    "checkpoint_at E program s k = Some c0 \<Longrightarrow> cp_session c = cp_session c0 \<Longrightarrow> cp_bond_status c = cp_bond_status c0 \<Longrightarrow>
       cp_bond_lamports c = cp_bond_lamports c0 \<Longrightarrow> keeps_bonds E program s (set_dat k (ser (checkpoint_codec E) c) t)"
  subgoal by (rule keeps_short [OF assms]) (simp add: ser_lengths)
  subgoal by (rule keeps_short [OF assms]) (simp add: ser_lengths)
  subgoal by (rule keeps_short [OF assms]) (simp add: ser_lengths)
  subgoal by (rule keeps_short [OF assms]) (auto dest: parse_session_length)
  subgoal by (rule keeps_put [OF assms]) (simp add: ser_parsed)
  subgoal by (rule keeps_put [OF assms]) (simp add: ser_parsed)
  done

lemma open_keeps_bonds:
  assumes "process_open_challenge E program (a # b # k # g # da # y # rest) er_slot s = Inr s'"
  shows "keeps_bonds E program s s'"
proof -
  obtain x c ch d where l: "load_session E program (address b) s = Inr x" "load_checkpoint E program (address b) er_slot (address k) s = Inr c"
    and r: "try_from_slice (challenge_codec E) (dat s' (address g)) = Some ch" "try_from_slice (da_proof_codec E) (dat s' (address da)) = Some d"
      "try_from_slice (checkpoint_codec E) (dat s' (address k)) = Some (c\<lparr>cp_status := Challenged,
         cp_challenger := address a, cp_challenged_at_l1_slot := clock_slot E\<rparr>)"
      "same_but {address k, address g, address da} s s'"
    using open_challenge_effect [OF assms] by (elim exE conjE) (rule that, assumption+)
  have len: "length (dat s' (address g)) = 255" "length (dat s' (address da)) = 178" using r(1,2) parsed_length by blast+
  show ?thesis
    unfolding keeps_bonds_def
  proof (intro allI impI)
    fix j c' assume c': "checkpoint_at E program s' j = Some c'" "cp_bond_status c' = Locked"
    show "\<exists>c. checkpoint_at E program s j = Some c \<and> cp_session c = cp_session c' \<and> cp_bond_status c = Locked
        \<and> cp_bond_lamports c = cp_bond_lamports c'"
    proof (cases "j = address k")
      case True
      then show ?thesis using load_checkpoint_view(3) [OF l] r(3) c' by (auto simp: checkpoint_at_def split: if_splits)
    next
      case False
      have "j \<noteq> address g" "j \<noteq> address da" using c'(1) len by (auto simp: checkpoint_at_None)
      then have "dat s' j = dat s j" "own s' j = own s j" using False same_butD(1,2) [OF r(4), of j] by auto
      then show ?thesis using c' by (simp add: checkpoint_at_def split: if_splits)
    qed
  qed
qed

lemma outcome_keeps_bonds:
  "process_commit_checkpoint_versioned E program (a # b # k # u # e # rest) er_slot v2 s = Inr s' \<Longrightarrow> keeps_bonds E program s s'"
  "process_cancel_checkpoint E program (a # b # k # u # rest) er_slot s = Inr s' \<Longrightarrow> keeps_bonds E program s s'"
  "process_finish_settlement E program (a # b # k # u # rest) fin s = Inr s' \<Longrightarrow> keeps_bonds E program s s'"
proof -
  assume "process_commit_checkpoint_versioned E program (a # b # k # u # e # rest) er_slot v2 s = Inr s'"
  from commit_effect [OF this] show "keeps_bonds E program s s'"
    by (elim exE conjE) (simp add: keeps_puts(5) keeps_puts(1) keeps_moved)
next
  assume "process_cancel_checkpoint E program (a # b # k # u # rest) er_slot s = Inr s'"
  from cancel_effect [OF this] show "keeps_bonds E program s s'"
    by (elim exE conjE) (simp add: keeps_puts(5) keeps_puts(1) keeps_moved)
next
  assume f: "process_finish_settlement E program (a # b # k # u # rest) fin s = Inr s'"
  obtain x c where l: "load_session E program (address b) s = Inr x" "load_checkpoint E program (address b) (fs_er_slot fin) (address k) s = Inr c"
    using finish_loads [OF f] by blast
  obtain u' bs y where "parse_session E bs = Inr y" "s' = set_dat (address b) bs (set_dat (address u) (ser (cursor_codec E) u')
      (set_dat (address k) (ser (checkpoint_codec E) (c\<lparr>cp_status := Settled\<rparr>)) s))"
    using finish_effect [OF f] load_parsed(2) [OF l(2)] by auto
  then show "keeps_bonds E program s s'"
    using keeps_puts(6) [OF keeps_refl load_checkpoint_view(3) [OF l]] by (simp add: keeps_puts)
qed

lemma timeout_keeps_bonds:
  assumes "process_timeout_challenge E program (a # b # k # g # da # r # u # rest) er_slot s = Inr s'"
  shows "keeps_bonds E program s s'"
proof -
  obtain x c where l: "load_session E program (address b) s = Inr x" "load_checkpoint E program (address b) er_slot (address k) s = Inr c"
    using timeout_effect [OF assms] by (elim exE conjE) (rule that, assumption+)
  have up: "keeps_bonds E program s (set_dat (address g) (ser (challenge_codec E) h)
      (set_dat (address k) (ser (checkpoint_codec E) (c\<lparr>cp_status := Pending, cp_challenge_resolved := True\<rparr>)) s))" for h
    by (intro keeps_puts(2) keeps_puts(6) [OF keeps_refl load_checkpoint_view(3) [OF l]]) simp_all
  from timeout_effect [OF assms] show ?thesis
    unfolding l(2) by (elim exE conjE) (auto simp: keeps_puts keeps_moved up split: if_splits)
qed

lemma resolve_keeps_bonds:
  assumes "process_resolve_challenge E program (a # b # k # g # da # p # r # u # rest) er_slot mode s = Inr s'"
  shows "keeps_bonds E program s s'"
  using assms
proof (cases rule: resolve_outcome)
  case (struck x c ch v t)
  show ?thesis unfolding struck(5) by (intro keeps_puts(1,2,5) keeps_moved [OF struck(4)]) simp
next
  case (upheld x c ch)
  show ?thesis unfolding upheld(3)
    by (intro keeps_puts(2) keeps_puts(6) [OF keeps_refl load_checkpoint_view(3) [OF upheld(1,2)]]) simp_all
qed

end

lemma exec_keeps_bonds:
  assumes E: "portal_codecs E" and run: "checkpoint_exec E program accs ix s = Inr s'" and no: "\<nexists>args. ix = Propose args"
  shows "keeps_bonds E program s s'"
proof -
  note l = checkpoint_exec_accounts [OF run]
  show ?thesis
  proof (cases ix)
    case (Propose args)
    with no show ?thesis by simp
  next
    case (Commit er)
    with l conses5 obtain a b c d e ys where "accs = a # b # c # d # e # ys" by fastforce
    with run Commit portal_codecs.outcome_keeps_bonds(1) [OF E] show ?thesis by (simp add: process_commit_checkpoint_def)
  next
    case (Cancel er)
    with l conses4 obtain a b c d ys where "accs = a # b # c # d # ys" by fastforce
    with run Cancel portal_codecs.outcome_keeps_bonds(2) [OF E] show ?thesis by simp
  next
    case (Open_challenge er)
    with l conses6 obtain a b c d e f ys where "accs = a # b # c # d # e # f # ys" by fastforce
    with run Open_challenge portal_codecs.open_keeps_bonds [OF E] show ?thesis by simp
  next
    case (Respond args)
    with l conses5 obtain a b c d e ys where "accs = a # b # c # d # e # ys" by fastforce
    with run Respond portal_codecs.respond_quiet [OF E] show ?thesis by (simp add: keeps_quiet)
  next
    case (Bisect er upper)
    with l conses4 obtain a b c d ys where "accs = a # b # c # d # ys" by fastforce
    with run Bisect portal_codecs.bisect_quiet [OF E] show ?thesis by (simp add: keeps_quiet)
  next
    case (Timeout er)
    with l conses7 obtain a b c d e f h ys where "accs = a # b # c # d # e # f # h # ys" by fastforce
    with run Timeout portal_codecs.timeout_keeps_bonds [OF E] show ?thesis by simp
  next
    case (Create_proof args)
    with l conses6 obtain a b c d e f ys where "accs = a # b # c # d # e # f # ys" by fastforce
    with run Create_proof portal_codecs.create_quiet [OF E] show ?thesis by (simp add: keeps_quiet)
  next
    case (Write_proof args)
    with l conses5 obtain a b c d e ys where "accs = a # b # c # d # e # ys" by fastforce
    with run Write_proof portal_codecs.write_quiet [OF E] show ?thesis by (simp add: keeps_quiet)
  next
    case (Seal_proof er len)
    with l conses5 obtain a b c d e ys where "accs = a # b # c # d # e # ys" by fastforce
    with run Seal_proof portal_codecs.seal_quiet [OF E] show ?thesis by (simp add: keeps_quiet)
  next
    case (Resolve er mode)
    with l conses8 obtain a b c d e f h i ys where "accs = a # b # c # d # e # f # h # i # ys" by fastforce
    with run Resolve portal_codecs.resolve_keeps_bonds [OF E] show ?thesis by simp
  next
    case (Finish args)
    with l conses4 obtain a b c d ys where "accs = a # b # c # d # ys" by fastforce
    with run Finish portal_codecs.outcome_keeps_bonds(3) [OF E] show ?thesis by simp
  qed
qed

lemma propose_backs:
  assumes E: "portal_codecs E" and b: "bonds_backed E program s"
    and run: "process_propose_checkpoint_versioned E program (p # b # k # u # y # rest) args v2 s = Inr s'"
    and who: "address p \<noteq> address k"
  shows "bonds_backed E program s'"
  unfolding bonds_backed_def
proof (intro allI impI)
  obtain x deadline c v rent where new: "try_from_slice (checkpoint_codec E) (dat s' (address k)) = Some c"
      "c = proposed_checkpoint args (address b) (address p) (clock_slot E) deadline (snd (find_checkpoint_pda E program (address b) (pc_er_slot args)))"
      "try_from_slice (cursor_codec E) (dat s' (address u)) = Some v"
      "same_but {address k, address u} s s'" "rent_minimum E 380 = Inr rent"
      "unat rent + unat CHECKPOINT_PROPOSER_BOND_LAMPORTS \<le> unat (lam s' (address k))"
    using portal_codecs.propose_effect [OF E run] who
    by (elim exE conjE) (drule mp, assumption, elim exE conjE, rule that, assumption+)
  have u: "checkpoint_at E program s' (address u) = None"
    using portal_codecs.parsed_length(2) [OF E new(3)] portal_codecs.checkpoint_at_None [OF E, of s' "address u"] by simp
  fix j c' assume c': "checkpoint_at E program s' j = Some c'" "cp_session c' = session_key E program" "cp_bond_status c' = Locked"
  show "backed E s' j c'"
  proof (cases "j = address k")
    case True
    then have "c' = c" using c'(1) new(1) by (simp add: checkpoint_at_def split: if_splits)
    then show ?thesis using True new(2,5,6) by (simp add: backed_def)
  next
    case False
    have "j \<noteq> address u" using c'(1) u by auto
    then have d: "dat s' j = dat s j" "own s' j = own s j" using False same_butD(1,2) [OF new(4), of j] by auto
    then have at: "checkpoint_at E program s j = Some c'" using c'(1) by (simp add: checkpoint_at_def split: if_splits)
    then have "backed E s j c'" using b c'(2,3) by (simp add: bonds_backed_def)
    moreover have "lam s j \<le> lam s' j"
      using same_butD(6) [OF new(4)] portal_codecs.checkpoint_at_data [OF E at] by simp
    ultimately show ?thesis using backed_mono [OF _ refl] by (simp only:)
  qed
qed

text \<open>C8: Every checkpoint instruction keeps the locked bonds backed: if each checkpoint of the session whose bond is locked
  holds the rent reserve and the bond, then so it is afterwards, provided no checkpoint address signs (derived addresses
  have no key).\<close>

theorem bonds_stay_backed:
  assumes "portal_codecs E" "checkpoint_exec E program accs ix s = Inr s'" "bonds_backed E program s"
    and "\<And>a n. a \<in> set accs \<Longrightarrow> is_signer a \<Longrightarrow> address a \<noteq> checkpoint_key E program n"
  shows "bonds_backed E program s'"
proof (cases "\<exists>args. ix = Propose args")
  case True
  then obtain args where args: "ix = Propose args" ..
  with checkpoint_exec_accounts [OF assms(2)] conses5 obtain p b k u y rest where accs: "accs = p # b # k # u # y # rest" by fastforce
  with assms(2) args have run: "process_propose_checkpoint_versioned E program (p # b # k # u # y # rest) args False s = Inr s'"
    by (simp add: process_propose_checkpoint_def)
  obtain x where *: "is_signer p" "load_session E program (address b) s = Inr x"
      "address k = fst (find_checkpoint_pda E program (address b) (pc_er_slot args))"
    using portal_codecs.propose_effect [OF assms(1) run] by (elim exE conjE) (rule that, assumption+)
  have "address b = session_key E program" using *(2) unfolding portal_codecs.load_session_ok [OF assms(1)] by (elim conjE)
  then have "address k = checkpoint_key E program (pc_er_slot args)" using *(3) by (simp only:)
  then have "address p \<noteq> address k" using assms(4) [of p "pc_er_slot args"] *(1) accs by auto
  with propose_backs [OF assms(1,3) run] show ?thesis .
next
  case False
  note k = exec_keeps_bonds [OF assms(1,2) False] and l = exec_nobody_pays [OF assms(1,2)]
  show ?thesis
    unfolding bonds_backed_def
  proof (intro allI impI)
    fix j c' assume c': "checkpoint_at E program s' j = Some c'" "cp_session c' = session_key E program" "cp_bond_status c' = Locked"
    obtain c where c: "checkpoint_at E program s j = Some c" "cp_session c = cp_session c'" "cp_bond_status c = Locked"
        "cp_bond_lamports c = cp_bond_lamports c'"
      using k [unfolded keeps_bonds_def, rule_format, OF c'(1,3)] by (elim exE conjE) (rule that)
    have "lam s j \<le> lam s' j \<or> (\<exists>c. checkpoint_at E program s' j = Some c \<and> cp_bond_status c \<noteq> Locked)"
      by (rule l [unfolded nobody_pays_def, rule_format, OF portal_codecs.checkpoint_at_data [OF assms(1) c(1)]])
    then have "lam s j \<le> lam s' j" using c'(1,3) by simp
    moreover have "backed E s j c"
      by (rule assms(3) [unfolded bonds_backed_def, rule_format, OF c(1) _ c(3)]) (simp only: c(2) c'(2))
    ultimately show "backed E s' j c'" using backed_mono [OF _ c(4) [symmetric]] by (simp only:)
  qed
qed

theorem bonds_stay_backed_witness:
  "\<exists>s'. checkpoint_exec (sample_env 20) 77 [signer 6, readonly 1007, mutable 1050, mutable 1049, readonly 0] (Propose proposal) proposer_st
       = Inr s' \<and> bonds_backed (sample_env 20) 77 s'"
proof -
  obtain s' where s': "checkpoint_exec (sample_env 20) 77 [signer 6, readonly 1007, mutable 1050, mutable 1049, readonly 0]
      (Propose proposal) proposer_st = Inr s'" using proposal_run by auto
  have "bonds_backed (sample_env 20) 77 proposer_st"
    using sample_no_checkpoints [of 20] by (auto simp: bonds_backed_def no_checkpoints_def)
  moreover have "address a \<noteq> checkpoint_key (sample_env 20) 77 n"
    if "a \<in> set [signer 6, readonly 1007, mutable 1050, mutable 1049, readonly 0]" "is_signer a" for a n
    using that by auto
  ultimately have "bonds_backed (sample_env 20) 77 s'" by (rule bonds_stay_backed [OF smp.portal_codecs_axioms s'])
  with s' show ?thesis by blast
qed

end
