(* ===== verification/Bridge_State.thy ===== *)
theory Bridge_State
  imports Portal_Delegation Portal_Token
begin

text \<open>
  The state and the shared operations of the token bridge program (\<open>programs/token-bridge/src\<close>): its stored structs
  (\<open>state.rs\<close> and \<open>zk-types/src/token_bridge.rs\<close>), derived addresses, loads, account creation and the calls it makes
  to the Portal and to the token program, in the build without \<open>checkpoint-continuity-v2\<close>.  The token program is a
  library: reading a token account and transferring are parameters.
\<close>

subsection \<open>Stored structs\<close>

record token_vault =
  tv_discriminator :: u8
  tv_session_bridge :: pubkey
  tv_mint :: pubkey
  tv_vault_token_account :: pubkey
  tv_token_program :: pubkey
  tv_deposited :: u64
  tv_withdrawn :: u64
  tv_bump :: u8

definition token_vault_DISCRIMINATOR :: u8 where "token_vault_DISCRIMINATOR = 1"

definition token_vault_is_valid :: "token_vault \<Rightarrow> bool" where
  "token_vault_is_valid v = (tv_discriminator v = token_vault_DISCRIMINATOR)"

record er_token_account =
  et_discriminator :: u8
  et_session_bridge :: pubkey
  et_owner :: pubkey
  et_mint :: pubkey
  et_amount :: u64
  et_bump :: u8

definition er_token_account_DISCRIMINATOR :: u8 where "er_token_account_DISCRIMINATOR = 2"

definition er_token_account_is_valid :: "er_token_account \<Rightarrow> bool" where
  "er_token_account_is_valid t = (et_discriminator t = er_token_account_DISCRIMINATOR)"

record token_deposit_receipt =
  td_discriminator :: u8
  td_session_bridge :: pubkey
  td_er_token_account :: pubkey
  td_balance :: u64
  td_withdrawn :: u64
  td_bump :: u8

definition token_deposit_receipt_DISCRIMINATOR :: u8 where "token_deposit_receipt_DISCRIMINATOR = 3"

definition token_deposit_receipt_is_valid :: "token_deposit_receipt \<Rightarrow> bool" where
  "token_deposit_receipt_is_valid r = (td_discriminator r = token_deposit_receipt_DISCRIMINATOR)"

record token_deposit_progress =
  tp_discriminator :: u8
  tp_balance :: u64
  tp_bump :: u8

definition ORIGIN_DISCRIMINATOR :: u8 where "ORIGIN_DISCRIMINATOR = 4"
definition CURSOR_DISCRIMINATOR :: u8 where "CURSOR_DISCRIMINATOR = 5"

subsection \<open>Environment\<close>

text \<open>What the bridge reads of a token account of the token program.\<close>

record spl_token_account =
  tk_mint :: pubkey
  tk_owner :: pubkey
  tk_delegate :: "pubkey option"
  tk_amount :: u64

text \<open>The calls to the Portal, with their arguments.\<close>

datatype portal_call =
    CallDelegate u64
  | CallUndelegateHandoff
  | CallRequestUndelegation
  | CallConsumeTokenWithdrawal token_withdrawal_args

text \<open>The Portal is deployed at one address; \<open>foreign_call\<close> is whatever program a caller passes in its place.\<close>

record bridge_env =
  be_portal :: portal_env
  portal_id :: pubkey
  foreign_call :: "pubkey \<Rightarrow> account_info list \<Rightarrow> portal_call \<Rightarrow> st \<Rightarrow> st res"
  token_vault_codec :: "token_vault codec"
  er_token_account_codec :: "er_token_account codec"
  token_deposit_receipt_codec :: "token_deposit_receipt codec"
  token_deposit_progress_codec :: "token_deposit_progress codec"
  unpack_token :: "bytes \<Rightarrow> spl_token_account option"
  spl_transfer_checked :: "pubkey \<Rightarrow> pubkey \<Rightarrow> pubkey \<Rightarrow> pubkey \<Rightarrow> u64 \<Rightarrow> u8 \<Rightarrow> st \<Rightarrow> st res"

abbreviation bridge_system :: "bridge_env \<Rightarrow> pubkey" where "bridge_system B \<equiv> system_id (be_portal B)"

subsection \<open>Derived addresses\<close>

definition find_token_vault_pda :: "bridge_env \<Rightarrow> pubkey \<Rightarrow> pubkey \<Rightarrow> pubkey \<times> u8" where
  "find_token_vault_pda B program session_bridge =
     find_program_address (be_portal B) [ascii ''token_vault'', key_bytes session_bridge] program"

definition find_er_token_account_pda :: "bridge_env \<Rightarrow> pubkey \<Rightarrow> pubkey \<Rightarrow> pubkey \<Rightarrow> pubkey \<times> u8" where
  "find_er_token_account_pda B program session_bridge holder =
     find_program_address (be_portal B) [ascii ''er_token'', key_bytes session_bridge, key_bytes holder] program"

definition find_token_deposit_receipt_pda :: "bridge_env \<Rightarrow> pubkey \<Rightarrow> pubkey \<Rightarrow> pubkey \<Rightarrow> pubkey \<times> u8" where
  "find_token_deposit_receipt_pda B program session_bridge er_token_account =
     find_program_address (be_portal B) [ascii ''token_deposit'', key_bytes session_bridge, key_bytes er_token_account] program"

definition find_buffer_pda :: "bridge_env \<Rightarrow> pubkey \<Rightarrow> pubkey \<Rightarrow> pubkey \<times> u8" where
  "find_buffer_pda B program er_token_account =
     find_program_address (be_portal B) [ascii ''northstar-token-buffer'', key_bytes er_token_account] program"

definition find_origin_pda :: "bridge_env \<Rightarrow> pubkey \<Rightarrow> pubkey \<Rightarrow> pubkey \<times> u8" where
  "find_origin_pda B program account =
     find_program_address (be_portal B) [ascii ''token_deposit_origin'', key_bytes account] program"

definition find_deposit_cursor_pda :: "bridge_env \<Rightarrow> pubkey \<Rightarrow> pubkey \<Rightarrow> u64 \<Rightarrow> pubkey \<times> u8" where
  "find_deposit_cursor_pda B program account baseline =
     find_program_address (be_portal B) [ascii ''token_deposit_cursor'', key_bytes account, u64_le baseline] program"

definition er_signer_seeds :: "er_token_account \<Rightarrow> bytes list" where
  "er_signer_seeds t = [ascii ''er_token'', key_bytes (et_session_bridge t), key_bytes (et_owner t), [et_bump t]]"

subsection \<open>Loads and stores\<close>

definition bridge_load :: "'a codec \<Rightarrow> st \<Rightarrow> pubkey \<Rightarrow> 'a res" where
  "bridge_load c s k = ok_or (try_from_slice c (dat s k)) ProgInvalidAccountData"

definition bridge_store :: "'a codec \<Rightarrow> 'a \<Rightarrow> pubkey \<Rightarrow> st \<Rightarrow> st res" where
  "bridge_store c v k s =
     (if length (ser c v) \<noteq> length (dat s k) then Inl ProgInvalidAccountData else Inr (set_dat k (ser c v) s))"

definition require_signer :: "account_info \<Rightarrow> unit res" where
  "require_signer a = (if \<not> is_signer a then Inl ProgMissingRequiredSignature else Inr ())"

definition require_self_program :: "pubkey \<Rightarrow> pubkey \<Rightarrow> unit res" where
  "require_self_program program k = (if k \<noteq> program then Inl IncorrectProgramId else Inr ())"

definition require_system_program :: "bridge_env \<Rightarrow> pubkey \<Rightarrow> unit res" where
  "require_system_program B k = (if k \<noteq> bridge_system B then Inl IncorrectProgramId else Inr ())"

definition load_session_bridge :: "bridge_env \<Rightarrow> pubkey \<Rightarrow> pubkey \<Rightarrow> pubkey \<Rightarrow> st \<Rightarrow> session_bridge res" where
  "load_session_bridge B program session_bridge portal_program s =
     (if own s session_bridge \<noteq> portal_program then Inl InvalidAccountOwner
      else rbind (bridge_load (session_bridge_codec (be_portal B)) s session_bridge) (\<lambda>bridge.
      if \<not> session_bridge_is_valid bridge \<or> sb_bridge_program bridge \<noteq> program then Inl ProgInvalidAccountData
      else Inr bridge))"

definition load_vault :: "bridge_env \<Rightarrow> pubkey \<Rightarrow> pubkey \<Rightarrow> pubkey \<Rightarrow> st \<Rightarrow> token_vault res" where
  "load_vault B program vault session_bridge s =
     (if own s vault \<noteq> program then Inl InvalidAccountOwner
      else rbind (bridge_load (token_vault_codec B) s vault) (\<lambda>state.
      if \<not> token_vault_is_valid state \<or> tv_session_bridge state \<noteq> session_bridge then Inl ProgInvalidAccountData
      else Inr state))"

definition require_er_token_account_pda :: "bridge_env \<Rightarrow> pubkey \<Rightarrow> pubkey \<Rightarrow> er_token_account \<Rightarrow> unit res" where
  "require_er_token_account_pda B program account state =
     (if (account, et_bump state) \<noteq> find_er_token_account_pda B program (et_session_bridge state) (et_owner state)
      then Inl ProgInvalidSeeds else Inr ())"

definition load_er_token_account_data :: "bridge_env \<Rightarrow> pubkey \<Rightarrow> st \<Rightarrow> er_token_account res" where
  "load_er_token_account_data B account s =
     rbind (bridge_load (er_token_account_codec B) s account) (\<lambda>state.
     if \<not> er_token_account_is_valid state then Inl ProgInvalidAccountData else Inr state)"

definition load_er_token_account :: "bridge_env \<Rightarrow> pubkey \<Rightarrow> pubkey \<Rightarrow> st \<Rightarrow> er_token_account res" where
  "load_er_token_account B program account s =
     (if own s account \<noteq> program then Inl InvalidAccountOwner
      else rbind (bridge_load (er_token_account_codec B) s account) (\<lambda>state.
      if \<not> er_token_account_is_valid state then Inl ProgInvalidAccountData
      else rbind (require_er_token_account_pda B program account state) (\<lambda>_. Inr state)))"

definition require_bridge_delegation :: "bridge_env \<Rightarrow> pubkey \<Rightarrow> pubkey \<Rightarrow> pubkey \<Rightarrow> pubkey \<Rightarrow> st \<Rightarrow> unit res" where
  "require_bridge_delegation B program er_token_account delegation_record portal_program s =
     (if fst (find_delegation_record_pda (be_portal B) portal_program er_token_account) \<noteq> delegation_record
         \<or> own s delegation_record \<noteq> portal_program
      then Inl ProgInvalidSeeds
      else rbind (bridge_load (delegation_record_codec (be_portal B)) s delegation_record) (\<lambda>record.
      if \<not> delegation_record_is_valid record \<or> dr_owner_program record \<noteq> program then Inl ProgInvalidAccountData
      else Inr ()))"

definition require_er_account :: "er_token_account \<Rightarrow> pubkey \<Rightarrow> pubkey \<Rightarrow> pubkey \<Rightarrow> unit res" where
  "require_er_account state session_bridge holder mint =
     (if et_session_bridge state \<noteq> session_bridge \<or> et_owner state \<noteq> holder \<or> et_mint state \<noteq> mint
      then Inl ProgInvalidAccountData else Inr ())"

definition require_bridge_token_accounts ::
  "session_bridge \<Rightarrow> token_vault \<Rightarrow> pubkey \<Rightarrow> pubkey \<Rightarrow> pubkey \<Rightarrow> unit res" where
  "require_bridge_token_accounts bridge vault vault_token_account mint token_program =
     (if sb_mint bridge \<noteq> mint \<or> sb_token_program bridge \<noteq> token_program \<or> tv_mint vault \<noteq> sb_mint bridge
         \<or> tv_token_program vault \<noteq> sb_token_program bridge \<or> tv_vault_token_account vault \<noteq> vault_token_account
      then Inl ProgInvalidAccountData else Inr ())"

definition unpack_token_account :: "bridge_env \<Rightarrow> pubkey \<Rightarrow> st \<Rightarrow> spl_token_account res" where
  "unpack_token_account B k s = ok_or (unpack_token B (dat s k)) ProgInvalidAccountData"

subsection \<open>Creating, copying and closing accounts\<close>

definition create_pda ::
  "bridge_env \<Rightarrow> pubkey \<Rightarrow> account_info list \<Rightarrow> pubkey \<Rightarrow> pubkey \<Rightarrow> nat \<Rightarrow> pubkey \<Rightarrow> bytes list \<Rightarrow> pubkey \<Rightarrow> st \<Rightarrow> st res" where
  "create_pda B program accs payer pda space new_owner seeds system_program s =
     (let E = be_portal B
      in rbind (require_system_program B system_program) (\<lambda>_.
         rbind (rent_minimum E space) (\<lambda>amount.
         if lam s pda = 0 then invoke_create_account E program accs payer pda amount (of_nat space) new_owner seeds s
         else if dat s pda \<noteq> [] \<or> own s pda \<noteq> system_id E then Inl ProgInvalidAccountData
         else rbind
           (if lam s pda < amount then
              rbind (ok_or (checked_sub amount (lam s pda)) ProgArithmeticOverflow) (\<lambda>d. invoke_transfer E accs payer pda d s)
            else Inr s) (\<lambda>s.
           rbind (invoke_allocate E program accs pda (of_nat space) seeds s) (\<lambda>s.
           invoke_assign E program accs pda new_owner seeds s)))))"

definition create_buffer ::
  "bridge_env \<Rightarrow> pubkey \<Rightarrow> account_info list \<Rightarrow> pubkey \<Rightarrow> pubkey \<Rightarrow> pubkey \<Rightarrow> pubkey \<Rightarrow> st \<Rightarrow> st res" where
  "create_buffer B program accs payer buffer er_token_account system_program s =
     (let pda = find_buffer_pda B program er_token_account; space = length (dat s er_token_account)
      in if fst pda \<noteq> buffer then Inl ProgInvalidSeeds
      else rbind (if own s buffer \<noteq> program
             then create_pda B program accs payer buffer space program
                    [ascii ''northstar-token-buffer'', key_bytes er_token_account, [snd pda]] system_program s
             else Inr s) (\<lambda>s.
      if own s buffer \<noteq> program \<or> length (dat s buffer) \<noteq> length (dat s er_token_account)
      then Inl ProgInvalidAccountData else Inr s))"

definition copy_data :: "pubkey \<Rightarrow> pubkey \<Rightarrow> st \<Rightarrow> st res" where
  "copy_data src dst s =
     (if src = dst then Inl AccountBorrowFailed
      else if length (dat s src) \<noteq> length (dat s dst) then Inl ProgInvalidAccountData
      else Inr (set_dat dst (dat s src) s))"

definition close_buffer :: "bridge_env \<Rightarrow> pubkey \<Rightarrow> pubkey \<Rightarrow> st \<Rightarrow> st res" where
  "close_buffer B buffer recipient s =
     rbind (ok_or (checked_add (lam s recipient) (lam s buffer)) ProgArithmeticOverflow) (\<lambda>recipient_lamports.
     Inr (close (be_portal B) buffer (set_lam buffer 0 (set_lam recipient recipient_lamports s))))"

subsection \<open>Cross-program calls\<close>

text \<open>The account views of a called program: an account has the privileges that any of its entries gives.\<close>

definition callee_infos :: "account_meta list \<Rightarrow> account_info list" where
  "callee_infos ms = map (\<lambda>m. \<lparr>address = m_address m, is_signer = meta_signer ms (m_address m),
     is_writable = meta_writable ms (m_address m)\<rparr>) ms"

definition portal_entry :: "bridge_env \<Rightarrow> account_info list \<Rightarrow> portal_call \<Rightarrow> st \<Rightarrow> st res" where
  "portal_entry B accs call s =
     (let E = be_portal B; program = portal_id B
      in case call of
        CallDelegate grid_id \<Rightarrow> process_delegate E program accs grid_id s
      | CallUndelegateHandoff \<Rightarrow> process_undelegate_handoff E program accs s
      | CallRequestUndelegation \<Rightarrow> process_request_undelegation E program accs s
      | CallConsumeTokenWithdrawal args \<Rightarrow> process_consume_token_withdrawal E program accs args s)"

definition invoke_portal ::
  "bridge_env \<Rightarrow> pubkey \<Rightarrow> account_info list \<Rightarrow> pubkey \<Rightarrow> account_meta list \<Rightarrow> bytes list \<Rightarrow> portal_call \<Rightarrow> st \<Rightarrow> st res" where
  "invoke_portal B program accs callee ms seeds call s =
     rbind (derive_signer (be_portal B) program seeds) (\<lambda>signer.
     rbind (verify_instruction_accounts accs ms [signer] callee) (\<lambda>_.
     if callee = portal_id B then portal_entry B (callee_infos ms) call s
     else foreign_call B callee (callee_infos ms) call s))"

definition ro :: "pubkey \<Rightarrow> account_meta" where "ro k = \<lparr>m_address = k, m_signer = False, m_writable = False\<rparr>"
definition ro_signer :: "pubkey \<Rightarrow> account_meta" where "ro_signer k = \<lparr>m_address = k, m_signer = True, m_writable = False\<rparr>"
definition rw :: "pubkey \<Rightarrow> account_meta" where "rw k = \<lparr>m_address = k, m_signer = False, m_writable = True\<rparr>"
definition rw_signer :: "pubkey \<Rightarrow> account_meta" where "rw_signer k = \<lparr>m_address = k, m_signer = True, m_writable = True\<rparr>"

lemmas meta_defs = ro_def ro_signer_def rw_def rw_signer_def

text \<open>\<open>TransferChecked\<close>, signed by the derived address of \<open>seeds\<close> when there are any.\<close>

definition invoke_transfer_checked ::
  "bridge_env \<Rightarrow> pubkey \<Rightarrow> account_info list \<Rightarrow> bytes list option \<Rightarrow> pubkey \<Rightarrow> pubkey \<Rightarrow> pubkey \<Rightarrow> pubkey \<Rightarrow> u64 \<Rightarrow> u8 \<Rightarrow> st \<Rightarrow> st res" where
  "invoke_transfer_checked B program accs seeds source mint destination authority amount decimals s =
     (let E = be_portal B; ms = [rw source, ro mint, rw destination, ro_signer authority]
      in rbind (case seeds of None \<Rightarrow> Inr [] | Some sd \<Rightarrow> rbind (derive_signer E program sd) (\<lambda>k. Inr [k])) (\<lambda>signers.
         rbind (verify_instruction_accounts accs ms signers (token_id E)) (\<lambda>_.
         spl_transfer_checked B source mint destination authority amount decimals s)))"

end
