(* ===== verification/Token_Bridge.thy ===== *)
theory Token_Bridge
  imports Bridge_State
begin

text \<open>
  The instructions of the token bridge (\<open>processor.rs\<close> and \<open>processor/token_deposit.rs\<close>).  On L1 users deposit tokens into
  the vault of a session bridge and withdraw them; a delegated balance lives in the rollup, where deposits are applied
  from receipts, balances are transferred, and withdrawals are started that the validator settles on L1.
\<close>

subsection \<open>Vaults and balances\<close>

definition process_initialize_vault :: "bridge_env \<Rightarrow> pubkey \<Rightarrow> account_info list \<Rightarrow> st \<Rightarrow> st res" where
  "process_initialize_vault B program accs s =
     (if length accs < 6 then Inl NotEnoughAccountKeys else
      let payer = accs ! 0; vault = address (accs ! 1); session_bridge = address (accs ! 2); portal_program = address (accs ! 3);
          vault_token_account = address (accs ! 4); system_program = address (accs ! 5);
          pda = find_token_vault_pda B program session_bridge
      in rbind (require_signer payer) (\<lambda>_.
      rbind (require_system_program B system_program) (\<lambda>_.
      rbind (load_session_bridge B program session_bridge portal_program s) (\<lambda>bridge.
      if sb_vault bridge \<noteq> vault then Inl ProgInvalidSeeds
      else if fst pda \<noteq> vault then Inl ProgInvalidSeeds
      else rbind (unpack_token_account B vault_token_account s) (\<lambda>vault_token.
      if tk_owner vault_token \<noteq> vault \<or> tk_mint vault_token \<noteq> sb_mint bridge then Inl ProgInvalidAccountData
      else
      let state = \<lparr>tv_discriminator = token_vault_DISCRIMINATOR, tv_session_bridge = session_bridge, tv_mint = sb_mint bridge,
            tv_vault_token_account = vault_token_account, tv_token_program = sb_token_program bridge, tv_deposited = 0,
            tv_withdrawn = 0, tv_bump = snd pda\<rparr>
      in rbind (if lam s vault = 0
             then create_pda B program accs (address payer) vault (account_size (token_vault_codec B) state) program
                    [ascii ''token_vault'', key_bytes session_bridge, [snd pda]] system_program s
             else Inl AccountAlreadyInitialized) (\<lambda>s.
      bridge_store (token_vault_codec B) state vault s))))))"

definition process_initialize_er_token_account :: "bridge_env \<Rightarrow> pubkey \<Rightarrow> account_info list \<Rightarrow> pubkey \<Rightarrow> st \<Rightarrow> st res" where
  "process_initialize_er_token_account B program accs holder s =
     (if length accs < 5 then Inl NotEnoughAccountKeys else
      let payer = accs ! 0; er_token_account = address (accs ! 1); session_bridge = address (accs ! 2);
          portal_program = address (accs ! 3); system_program = address (accs ! 4);
          pda = find_er_token_account_pda B program session_bridge holder
      in rbind (require_signer payer) (\<lambda>_.
      rbind (require_system_program B system_program) (\<lambda>_.
      rbind (load_session_bridge B program session_bridge portal_program s) (\<lambda>bridge.
      if fst pda \<noteq> er_token_account then Inl ProgInvalidSeeds
      else
      let state = \<lparr>et_discriminator = er_token_account_DISCRIMINATOR, et_session_bridge = session_bridge, et_owner = holder,
            et_mint = sb_mint bridge, et_amount = 0, et_bump = snd pda\<rparr>
      in rbind (if lam s er_token_account = 0
             then create_pda B program accs (address payer) er_token_account (account_size (er_token_account_codec B) state) program
                    [ascii ''er_token'', key_bytes session_bridge, key_bytes holder, [snd pda]] system_program s
             else Inl AccountAlreadyInitialized) (\<lambda>s.
      bridge_store (er_token_account_codec B) state er_token_account s)))))"

subsection \<open>Deposit\<close>

text \<open>A deposit to a delegated balance requires its delegation record and that no undelegation is requested.\<close>

definition check_deposit_target ::
  "bridge_env \<Rightarrow> pubkey \<Rightarrow> account_info list \<Rightarrow> pubkey \<Rightarrow> pubkey \<Rightarrow> pubkey \<Rightarrow> st \<Rightarrow> bool res" where
  "check_deposit_target B program accs er_token_account portal_program delegation_record s =
     (let is_delegated = (own s er_token_account = portal_program)
      in if \<not> is_delegated \<and> own s er_token_account \<noteq> program then Inl InvalidAccountOwner
      else if is_delegated then
        rbind (require_bridge_delegation B program er_token_account delegation_record portal_program s) (\<lambda>_.
        if length accs < 14 then Inl NotEnoughAccountKeys
        else
        let request = address (accs ! 13)
        in if request \<noteq> fst (find_undelegation_request_pda (be_portal B) portal_program er_token_account)
        then Inl ProgInvalidSeeds
        else if own s request \<noteq> bridge_system B \<or> dat s request \<noteq> [] then Inl ProgInvalidAccountData
        else Inr True)
      else Inr False)"

text \<open>The receipt of the balance, created when it does not exist.\<close>

definition deposit_receipt_state ::
  "bridge_env \<Rightarrow> pubkey \<Rightarrow> account_info list \<Rightarrow> pubkey \<Rightarrow> pubkey \<Rightarrow> pubkey \<Rightarrow> pubkey \<Rightarrow> pubkey \<Rightarrow> st \<Rightarrow> (token_deposit_receipt \<times> st) res" where
  "deposit_receipt_state B program accs payer session_bridge er_token_account deposit_receipt system_program s =
     (let bump = snd (find_token_deposit_receipt_pda B program session_bridge er_token_account);
          initial_receipt = \<lparr>td_discriminator = token_deposit_receipt_DISCRIMINATOR, td_session_bridge = session_bridge,
            td_er_token_account = er_token_account, td_balance = 0, td_withdrawn = 0, td_bump = bump\<rparr>
      in rbind (if lam s deposit_receipt = 0
             then create_pda B program accs payer deposit_receipt (account_size (token_deposit_receipt_codec B) initial_receipt)
                    program [ascii ''token_deposit'', key_bytes session_bridge, key_bytes er_token_account, [bump]] system_program s
             else if own s deposit_receipt \<noteq> program then Inl InvalidAccountOwner
             else Inr s) (\<lambda>s.
      rbind (case dat s deposit_receipt of
               [] \<Rightarrow> Inl Panicked
             | b # _ \<Rightarrow> if b = 0 then Inr initial_receipt else bridge_load (token_deposit_receipt_codec B) s deposit_receipt) (\<lambda>receipt.
      if \<not> token_deposit_receipt_is_valid receipt \<or> td_session_bridge receipt \<noteq> session_bridge
         \<or> td_er_token_account receipt \<noteq> er_token_account \<or> td_bump receipt \<noteq> bump
      then Inl ProgInvalidAccountData
      else Inr (receipt, s))))"

definition process_deposit :: "bridge_env \<Rightarrow> pubkey \<Rightarrow> account_info list \<Rightarrow> u64 \<Rightarrow> u8 \<Rightarrow> st \<Rightarrow> st res" where
  "process_deposit B program accs amount decimals s =
     (if length accs < 13 then Inl NotEnoughAccountKeys else
      let payer = accs ! 0; owner = accs ! 1; vault = address (accs ! 2); er_token_account = address (accs ! 3);
          session_bridge = address (accs ! 4); portal_program = address (accs ! 5); source_token_account = address (accs ! 6);
          vault_token_account = address (accs ! 7); mint = address (accs ! 8); token_program = address (accs ! 9);
          deposit_receipt = address (accs ! 10); delegation_record = address (accs ! 11); system_program = address (accs ! 12)
      in rbind (require_signer payer) (\<lambda>_.
      rbind (require_signer owner) (\<lambda>_.
      rbind (require_system_program B system_program) (\<lambda>_.
      rbind (load_session_bridge B program session_bridge portal_program s) (\<lambda>bridge.
      rbind (load_vault B program vault session_bridge s) (\<lambda>vault_state.
      rbind (require_bridge_token_accounts bridge vault_state vault_token_account mint token_program) (\<lambda>_.
      rbind (load_er_token_account_data B er_token_account s) (\<lambda>er_state.
      rbind (require_er_account er_state session_bridge (address owner) (sb_mint bridge)) (\<lambda>_.
      rbind (check_deposit_target B program accs er_token_account portal_program delegation_record s) (\<lambda>is_delegated.
      if fst (find_token_deposit_receipt_pda B program session_bridge er_token_account) \<noteq> deposit_receipt then Inl ProgInvalidSeeds
      else if token_program \<noteq> token_id (be_portal B) then Inl IncorrectProgramId
      else rbind (invoke_transfer_checked B program accs None source_token_account mint vault_token_account (address owner)
                   amount decimals s) (\<lambda>s.
      rbind (deposit_receipt_state B program accs (address payer) session_bridge er_token_account deposit_receipt system_program s)
        (\<lambda>(receipt, s).
      rbind (ok_or (checked_add (td_balance receipt) amount) ProgArithmeticOverflow) (\<lambda>balance.
      rbind (bridge_store (token_deposit_receipt_codec B) (receipt\<lparr>td_balance := balance\<rparr>) deposit_receipt s) (\<lambda>s.
      rbind (ok_or (checked_add (tv_deposited vault_state) amount) ProgArithmeticOverflow) (\<lambda>deposited.
      rbind (bridge_store (token_vault_codec B) (vault_state\<lparr>tv_deposited := deposited\<rparr>) vault s) (\<lambda>s.
      if is_delegated then Inr s
      else rbind (ok_or (checked_add (et_amount er_state) amount) ProgArithmeticOverflow) (\<lambda>balance.
      bridge_store (er_token_account_codec B) (er_state\<lparr>et_amount := balance\<rparr>) er_token_account s)))))))))))))))))"

subsection \<open>Transfer and withdrawal\<close>

definition process_transfer :: "bridge_env \<Rightarrow> pubkey \<Rightarrow> account_info list \<Rightarrow> u64 \<Rightarrow> st \<Rightarrow> st res" where
  "process_transfer B program accs amount s =
     (if length accs < 3 then Inl NotEnoughAccountKeys else
      let authority = accs ! 0; source = address (accs ! 1); destination = address (accs ! 2)
      in rbind (require_signer authority) (\<lambda>_.
      if source = destination then Inl ProgInvalidAccountData
      else rbind (load_er_token_account B program source s) (\<lambda>source_state.
      rbind (load_er_token_account B program destination s) (\<lambda>destination_state.
      if et_owner source_state \<noteq> address authority \<or> et_session_bridge source_state \<noteq> et_session_bridge destination_state
         \<or> et_mint source_state \<noteq> et_mint destination_state
      then Inl ProgInvalidAccountData
      else rbind (ok_or (checked_sub (et_amount source_state) amount) InsufficientFunds) (\<lambda>source_amount.
      rbind (ok_or (checked_add (et_amount destination_state) amount) ProgArithmeticOverflow) (\<lambda>destination_amount.
      rbind (bridge_store (er_token_account_codec B) (source_state\<lparr>et_amount := source_amount\<rparr>) source s) (\<lambda>s.
      bridge_store (er_token_account_codec B) (destination_state\<lparr>et_amount := destination_amount\<rparr>) destination s)))))))"

definition process_withdraw :: "bridge_env \<Rightarrow> pubkey \<Rightarrow> account_info list \<Rightarrow> u64 \<Rightarrow> u8 \<Rightarrow> st \<Rightarrow> st res" where
  "process_withdraw B program accs amount decimals s =
     (if length accs < 9 then Inl NotEnoughAccountKeys else
      let owner = accs ! 0; vault = address (accs ! 1); er_token_account = address (accs ! 2); session_bridge = address (accs ! 3);
          portal_program = address (accs ! 4); vault_token_account = address (accs ! 5);
          destination_token_account = address (accs ! 6); mint = address (accs ! 7); token_program = address (accs ! 8)
      in rbind (require_signer owner) (\<lambda>_.
      rbind (load_session_bridge B program session_bridge portal_program s) (\<lambda>bridge.
      rbind (load_vault B program vault session_bridge s) (\<lambda>vault_state.
      rbind (require_bridge_token_accounts bridge vault_state vault_token_account mint token_program) (\<lambda>_.
      rbind (load_er_token_account B program er_token_account s) (\<lambda>er_state.
      rbind (require_er_account er_state session_bridge (address owner) (sb_mint bridge)) (\<lambda>_.
      rbind (ok_or (checked_sub (et_amount er_state) amount) InsufficientFunds) (\<lambda>er_amount.
      rbind (ok_or (checked_add (tv_withdrawn vault_state) amount) InsufficientFunds) (\<lambda>withdrawn.
      if withdrawn > tv_deposited vault_state then Inl InsufficientFunds
      else if token_program \<noteq> token_id (be_portal B) then Inl IncorrectProgramId
      else rbind (invoke_transfer_checked B program accs
                   (Some [ascii ''token_vault'', key_bytes session_bridge, [tv_bump vault_state]])
                   vault_token_account mint destination_token_account vault amount decimals s) (\<lambda>s.
      rbind (bridge_store (token_vault_codec B) (vault_state\<lparr>tv_withdrawn := withdrawn\<rparr>) vault s) (\<lambda>s.
      bridge_store (er_token_account_codec B) (er_state\<lparr>et_amount := er_amount\<rparr>) er_token_account s)))))))))))"

definition process_start_withdrawal_token :: "bridge_env \<Rightarrow> pubkey \<Rightarrow> account_info list \<Rightarrow> u64 \<Rightarrow> u8 \<Rightarrow> st \<Rightarrow> st res" where
  "process_start_withdrawal_token B program accs amount decimals s =
     (if length accs < 6 then Inl NotEnoughAccountKeys else
      let owner = accs ! 0; er_token_account = address (accs ! 1); session_bridge = address (accs ! 2);
          portal_program = address (accs ! 3); destination_token_account = address (accs ! 4); token_program = address (accs ! 5)
      in rbind (require_signer owner) (\<lambda>_.
      rbind (load_session_bridge B program session_bridge portal_program s) (\<lambda>bridge.
      if sb_token_program bridge \<noteq> token_program then Inl ProgInvalidAccountData
      else rbind (unpack_token_account B destination_token_account s) (\<lambda>destination.
      if tk_mint destination \<noteq> sb_mint bridge then Inl ProgInvalidAccountData
      else rbind (load_er_token_account B program er_token_account s) (\<lambda>er_state.
      rbind (require_er_account er_state session_bridge (address owner) (sb_mint bridge)) (\<lambda>_.
      rbind (ok_or (checked_sub (et_amount er_state) amount) InsufficientFunds) (\<lambda>er_amount.
      bridge_store (er_token_account_codec B) (er_state\<lparr>et_amount := er_amount\<rparr>) er_token_account s)))))))"

subsection \<open>Settling a withdrawal\<close>

definition is_valid_settlement_session :: "session \<Rightarrow> pubkey \<Rightarrow> bool" where
  "is_valid_settlement_session x validator = (session_is_valid x \<and> s_validator x = validator)"

definition is_valid_settlement_checkpoint :: "checkpoint \<Rightarrow> pubkey \<Rightarrow> u64 \<Rightarrow> hash32 \<Rightarrow> bool" where
  "is_valid_settlement_checkpoint c session er_slot checksum =
     (checkpoint_is_valid c \<and> cp_session c = session \<and> cp_er_slot c = er_slot \<and> cp_effect_commitment c = checksum
      \<and> cp_status c = Settled)"

definition process_settle_withdrawal ::
  "bridge_env \<Rightarrow> pubkey \<Rightarrow> account_info list \<Rightarrow> u64 \<Rightarrow> hash32 \<Rightarrow> u64 \<Rightarrow> u64 \<Rightarrow> u8 \<Rightarrow> st \<Rightarrow> st res" where
  "process_settle_withdrawal B program accs er_slot checksum amount withdrawn decimals s =
     (if length accs < 12 then Inl NotEnoughAccountKeys else
      let E = be_portal B; validator = accs ! 0; session = address (accs ! 1); checkpoint = address (accs ! 2);
          authorization = address (accs ! 3); session_bridge = address (accs ! 4); portal_program = address (accs ! 5);
          vault = address (accs ! 6); er_token_account = address (accs ! 7); vault_token_account = address (accs ! 8);
          destination_token_account = address (accs ! 9); mint = address (accs ! 10); token_program = address (accs ! 11)
      in rbind (require_signer validator) (\<lambda>_.
      if own s session \<noteq> own s checkpoint \<or> own s session_bridge \<noteq> own s session \<or> portal_program \<noteq> own s session
      then Inl InvalidAccountOwner
      else if fst (find_checkpoint_pda E (own s session) session er_slot) \<noteq> checkpoint then Inl ProgInvalidSeeds
      else rbind (bridge_load (session_codec E) s session) (\<lambda>session_state.
      rbind (bridge_load (checkpoint_codec E) s checkpoint) (\<lambda>checkpoint_state.
      if \<not> is_valid_settlement_session session_state (address validator)
         \<or> \<not> is_valid_settlement_checkpoint checkpoint_state session er_slot checksum
      then Inl ProgInvalidAccountData
      else rbind (bridge_load (session_bridge_codec E) s session_bridge) (\<lambda>bridge.
      if \<not> session_bridge_is_valid bridge \<or> sb_bridge_program bridge \<noteq> program \<or> sb_session bridge \<noteq> session
         \<or> fst (find_session_bridge_pda E (own s session) session (sb_mint bridge)) \<noteq> session_bridge
      then Inl ProgInvalidAccountData
      else rbind (load_vault B program vault session_bridge s) (\<lambda>vault_state.
      rbind (require_bridge_token_accounts bridge vault_state vault_token_account mint token_program) (\<lambda>_.
      rbind (unpack_token_account B destination_token_account s) (\<lambda>destination.
      if tk_mint destination \<noteq> sb_mint bridge then Inl ProgInvalidAccountData
      else if withdrawn \<le> tv_withdrawn vault_state then Inr s
      else rbind (ok_or (checked_add (tv_withdrawn vault_state) amount) ProgArithmeticOverflow) (\<lambda>expected_withdrawn.
      if withdrawn \<noteq> expected_withdrawn \<or> withdrawn > tv_deposited vault_state then Inl ProgInvalidArgument
      else if token_program \<noteq> token_id E then Inl IncorrectProgramId
      else
      let vault_seeds = [ascii ''token_vault'', key_bytes session_bridge, [tv_bump vault_state]]
      in rbind (invoke_portal B program accs (own s session)
             [ro_signer (address validator), ro session, ro checkpoint, rw authorization, ro session_bridge, ro_signer vault,
              ro er_token_account, ro vault_token_account, ro destination_token_account, ro mint, ro token_program]
             vault_seeds
             (CallConsumeTokenWithdrawal \<lparr>ta_er_slot = er_slot, ta_checksum = checksum, ta_amount = amount,
                ta_withdrawn = withdrawn, ta_decimals = decimals\<rparr>) s) (\<lambda>s.
      rbind (invoke_transfer_checked B program accs (Some vault_seeds) vault_token_account mint destination_token_account vault
               amount decimals s) (\<lambda>s.
      bridge_store (token_vault_codec B) (vault_state\<lparr>tv_withdrawn := withdrawn\<rparr>) vault s)))))))))))"

subsection \<open>Applying deposits in the rollup\<close>

definition receipt_balance :: "bridge_env \<Rightarrow> pubkey \<Rightarrow> pubkey \<Rightarrow> pubkey \<Rightarrow> pubkey \<Rightarrow> st \<Rightarrow> u64 res" where
  "receipt_balance B program bridge account receipt s =
     (let pda = find_token_deposit_receipt_pda B program bridge account
      in if receipt \<noteq> fst pda then Inl ProgInvalidSeeds
      else if lam s receipt = 0 then Inr 0
      else if own s receipt \<noteq> program then Inl InvalidAccountOwner
      else rbind (bridge_load (token_deposit_receipt_codec B) s receipt) (\<lambda>state.
      if \<not> token_deposit_receipt_is_valid state \<or> td_bump state \<noteq> snd pda \<or> td_session_bridge state \<noteq> bridge
         \<or> td_er_token_account state \<noteq> account
      then Inl ProgInvalidAccountData
      else Inr (td_balance state)))"

definition initialize_origin ::
  "bridge_env \<Rightarrow> pubkey \<Rightarrow> account_info list \<Rightarrow> pubkey \<Rightarrow> pubkey \<Rightarrow> pubkey \<Rightarrow> pubkey \<Rightarrow> pubkey \<Rightarrow> pubkey \<Rightarrow> st \<Rightarrow> st res" where
  "initialize_origin B program accs payer bridge account receipt origin system_program s =
     rbind (receipt_balance B program bridge account receipt s) (\<lambda>balance.
     let pda = find_origin_pda B program account;
         state = \<lparr>tp_discriminator = ORIGIN_DISCRIMINATOR, tp_balance = balance, tp_bump = snd pda\<rparr>
     in if origin \<noteq> fst pda then Inl ProgInvalidSeeds
     else rbind (if own s origin \<noteq> program
            then create_pda B program accs payer origin (account_size (token_deposit_progress_codec B) state) program
                   [ascii ''token_deposit_origin'', key_bytes account, [snd pda]] system_program s
            else rbind (bridge_load (token_deposit_progress_codec B) s origin) (\<lambda>previous.
              if tp_discriminator previous \<noteq> tp_discriminator state \<or> tp_bump previous \<noteq> snd pda \<or> tp_balance previous > balance
              then Inl ProgInvalidAccountData else Inr s)) (\<lambda>s.
     bridge_store (token_deposit_progress_codec B) state origin s))"

text \<open>What has been applied of the deposits since the delegation: the stored cursor, or the baseline before the first one.\<close>

definition deposit_progress :: "bridge_env \<Rightarrow> pubkey \<Rightarrow> pubkey \<Rightarrow> u64 \<Rightarrow> u8 \<Rightarrow> st \<Rightarrow> token_deposit_progress res" where
  "deposit_progress B program cursor baseline bump s =
     (if own s cursor = program then
        rbind (bridge_load (token_deposit_progress_codec B) s cursor) (\<lambda>progress.
        if tp_discriminator progress \<noteq> CURSOR_DISCRIMINATOR \<or> tp_bump progress \<noteq> bump \<or> tp_balance progress < baseline
        then Inl ProgInvalidAccountData else Inr progress)
      else Inr \<lparr>tp_discriminator = CURSOR_DISCRIMINATOR, tp_balance = baseline, tp_bump = bump\<rparr>)"

definition process_apply_token_deposit :: "bridge_env \<Rightarrow> pubkey \<Rightarrow> account_info list \<Rightarrow> u64 \<Rightarrow> st \<Rightarrow> st res" where
  "process_apply_token_deposit B program accs balance s =
     (if length accs < 10 then Inl NotEnoughAccountKeys else
      let E = be_portal B; payer = accs ! 0; account = address (accs ! 1); bridge = address (accs ! 2); portal = address (accs ! 3);
          session = address (accs ! 4); delegation = address (accs ! 5); receipt = address (accs ! 6); origin = address (accs ! 7);
          cursor = address (accs ! 8); system_program = address (accs ! 9)
      in rbind (require_signer payer) (\<lambda>_.
      rbind (require_system_program B system_program) (\<lambda>_.
      rbind (load_session_bridge B program bridge portal s) (\<lambda>bridge_state.
      if session \<noteq> sb_session bridge_state \<or> session \<noteq> fst (find_session_pda E portal) \<or> own s session \<noteq> portal
      then Inl ProgInvalidAccountData
      else rbind (bridge_load (session_codec E) s session) (\<lambda>session_state.
      if \<not> session_is_valid session_state \<or> s_validator session_state \<noteq> address payer then Inl ProgMissingRequiredSignature
      else rbind (load_er_token_account B program account s) (\<lambda>state.
      rbind (require_bridge_delegation B program account delegation portal s) (\<lambda>_.
      rbind (bridge_load (delegation_record_codec E) s delegation) (\<lambda>record.
      if dr_grid_id record \<noteq> s_grid_id session_state then Inl ProgInvalidAccountData
      else if et_session_bridge state \<noteq> bridge \<or> et_mint state \<noteq> sb_mint bridge_state then Inl ProgInvalidAccountData
      else rbind (receipt_balance B program bridge account receipt s) (\<lambda>available.
      if origin \<noteq> fst (find_origin_pda B program account) \<or> own s origin \<noteq> program then Inl ProgInvalidSeeds
      else rbind (bridge_load (token_deposit_progress_codec B) s origin) (\<lambda>baseline.
      if tp_discriminator baseline \<noteq> ORIGIN_DISCRIMINATOR \<or> tp_bump baseline \<noteq> snd (find_origin_pda B program account)
      then Inl ProgInvalidAccountData
      else
      let pda = find_deposit_cursor_pda B program account (tp_balance baseline)
      in if cursor \<noteq> fst pda then Inl ProgInvalidSeeds
      else rbind (deposit_progress B program cursor (tp_balance baseline) (snd pda) s) (\<lambda>progress.
      if balance > available \<or> balance \<le> tp_balance progress then Inl ProgInvalidArgument
      else rbind (ok_or (checked_add (et_amount state) (balance - tp_balance progress)) ProgArithmeticOverflow) (\<lambda>amount.
      let progress' = progress\<lparr>tp_balance := balance\<rparr>
      in rbind (if own s cursor \<noteq> program
             then create_pda B program accs (address payer) cursor (account_size (token_deposit_progress_codec B) progress') program
                    [ascii ''token_deposit_cursor'', key_bytes account, u64_le (tp_balance baseline), [snd pda]] system_program s
             else Inr s) (\<lambda>s.
      rbind (bridge_store (token_deposit_progress_codec B) progress' cursor s) (\<lambda>s.
      bridge_store (er_token_account_codec B) (state\<lparr>et_amount := amount\<rparr>) account s))))))))))))))"

subsection \<open>Delegating a balance and taking it back\<close>

definition process_delegate_er_token_account :: "bridge_env \<Rightarrow> pubkey \<Rightarrow> account_info list \<Rightarrow> u64 \<Rightarrow> st \<Rightarrow> st res" where
  "process_delegate_er_token_account B program accs grid_id s =
     (if length accs < 10 then Inl NotEnoughAccountKeys else
      let payer = accs ! 0; owner = accs ! 1; er_token_account = address (accs ! 2); bridge_program = address (accs ! 3);
          session_bridge = address (accs ! 4); portal_program = address (accs ! 5); session = address (accs ! 6);
          delegation_record = address (accs ! 7); buffer = address (accs ! 8); system_program = address (accs ! 9)
      in rbind (require_signer payer) (\<lambda>_.
      rbind (require_signer owner) (\<lambda>_.
      rbind (require_self_program program bridge_program) (\<lambda>_.
      rbind (require_system_program B system_program) (\<lambda>_.
      rbind (load_session_bridge B program session_bridge portal_program s) (\<lambda>_.
      rbind (load_er_token_account B program er_token_account s) (\<lambda>er_state.
      if et_session_bridge er_state \<noteq> session_bridge \<or> et_owner er_state \<noteq> address owner then Inl ProgInvalidAccountData
      else if fst (find_delegation_record_pda (be_portal B) portal_program er_token_account) \<noteq> delegation_record
      then Inl ProgInvalidSeeds
      else if length accs < 12 then Inl NotEnoughAccountKeys
      else
      let receipt = address (accs ! 10); origin = address (accs ! 11)
      in rbind (initialize_origin B program accs (address payer) session_bridge er_token_account receipt origin system_program s) (\<lambda>s.
      rbind (create_buffer B program accs (address payer) buffer er_token_account system_program s) (\<lambda>s.
      let er_account_space = length (dat s er_token_account)
      in rbind (copy_data er_token_account buffer s) (\<lambda>s.
      rbind (close_buffer B er_token_account (address payer) s) (\<lambda>s.
      rbind (create_pda B program accs (address payer) er_token_account er_account_space portal_program (er_signer_seeds er_state)
               system_program s) (\<lambda>s.
      rbind (invoke_portal B program accs portal_program
               [rw_signer (address payer), ro (bridge_system B), ro session, rw_signer er_token_account, ro program,
                rw delegation_record, ro buffer]
               (er_signer_seeds er_state) (CallDelegate grid_id) s) (\<lambda>s.
      close_buffer B buffer (address payer) s)))))))))))))"

definition process_request_undelegation_token :: "bridge_env \<Rightarrow> pubkey \<Rightarrow> account_info list \<Rightarrow> st \<Rightarrow> st res" where
  "process_request_undelegation_token B program accs s =
     (if length accs < 9 then Inl NotEnoughAccountKeys else
      let payer = accs ! 0; authority = accs ! 1; er_token_account = address (accs ! 2); bridge_program = address (accs ! 3);
          portal_program = address (accs ! 4); session = address (accs ! 5); delegation_record = address (accs ! 6);
          request = address (accs ! 7); system_program = address (accs ! 8)
      in rbind (require_signer payer) (\<lambda>_.
      rbind (require_signer authority) (\<lambda>_.
      rbind (require_self_program program bridge_program) (\<lambda>_.
      rbind (require_system_program B system_program) (\<lambda>_.
      if own s er_token_account \<noteq> portal_program then Inl InvalidAccountOwner
      else rbind (load_er_token_account_data B er_token_account s) (\<lambda>er_state.
      rbind (require_er_token_account_pda B program er_token_account er_state) (\<lambda>_.
      if et_owner er_state \<noteq> address authority then Inl ProgInvalidAccountData
      else invoke_portal B program accs portal_program
             [rw_signer (address payer), ro_signer (address authority), ro_signer er_token_account, ro program,
              ro delegation_record, ro session, rw request, ro (bridge_system B)]
             (er_signer_seeds er_state) CallRequestUndelegation s)))))))"

definition process_undelegate_er_token_account :: "bridge_env \<Rightarrow> pubkey \<Rightarrow> account_info list \<Rightarrow> st \<Rightarrow> st res" where
  "process_undelegate_er_token_account B program accs s =
     (if length accs < 9 then Inl NotEnoughAccountKeys else
      let authority = accs ! 0; er_token_account = address (accs ! 1); bridge_program = address (accs ! 2);
          portal_program = address (accs ! 3); session = address (accs ! 4); delegation_record = address (accs ! 5);
          buffer = address (accs ! 6); system_program = address (accs ! 7); request = address (accs ! 8)
      in rbind (require_signer authority) (\<lambda>_.
      rbind (require_self_program program bridge_program) (\<lambda>_.
      rbind (require_system_program B system_program) (\<lambda>_.
      if own s er_token_account \<noteq> portal_program then Inl InvalidAccountOwner
      else rbind (create_buffer B program accs (address authority) buffer er_token_account system_program s) (\<lambda>s.
      rbind (copy_data er_token_account buffer s) (\<lambda>s.
      rbind (load_er_token_account_data B buffer s) (\<lambda>er_state.
      rbind (require_er_token_account_pda B program er_token_account er_state) (\<lambda>_.
      if et_owner er_state \<noteq> address authority then Inl ProgInvalidAccountData
      else rbind (invoke_portal B program accs portal_program
             [rw_signer (address authority), rw_signer er_token_account, ro program, rw delegation_record, ro (bridge_system B),
              ro session, rw request]
             (er_signer_seeds er_state) CallUndelegateHandoff s) (\<lambda>s.
      if own s er_token_account \<noteq> program then Inl InvalidAccountOwner
      else rbind (copy_data buffer er_token_account s) (\<lambda>s.
      close_buffer B buffer (address authority) s))))))))))"

subsection \<open>Dispatch\<close>

datatype token_bridge_instruction =
    InitializeVault
  | InitializeErTokenAccount pubkey
  | Deposit u64 u8
  | Transfer u64
  | Withdraw u64 u8
  | DelegateErTokenAccount u64
  | UndelegateErTokenAccount
  | StartWithdrawal u64 u8
  | SettleWithdrawal u64 hash32 u64 u64 u8
  | RequestUndelegation
  | ApplyTokenDeposit u64

definition process_bridge_instruction ::
  "bridge_env \<Rightarrow> pubkey \<Rightarrow> account_info list \<Rightarrow> token_bridge_instruction \<Rightarrow> st \<Rightarrow> st res" where
  "process_bridge_instruction B program accs instruction s =
     (case instruction of
        InitializeVault \<Rightarrow> process_initialize_vault B program accs s
      | InitializeErTokenAccount holder \<Rightarrow> process_initialize_er_token_account B program accs holder s
      | Deposit amount decimals \<Rightarrow> process_deposit B program accs amount decimals s
      | Transfer amount \<Rightarrow> process_transfer B program accs amount s
      | Withdraw amount decimals \<Rightarrow> process_withdraw B program accs amount decimals s
      | DelegateErTokenAccount grid_id \<Rightarrow> process_delegate_er_token_account B program accs grid_id s
      | UndelegateErTokenAccount \<Rightarrow> process_undelegate_er_token_account B program accs s
      | StartWithdrawal amount decimals \<Rightarrow> process_start_withdrawal_token B program accs amount decimals s
      | SettleWithdrawal er_slot checksum amount withdrawn decimals \<Rightarrow>
          process_settle_withdrawal B program accs er_slot checksum amount withdrawn decimals s
      | RequestUndelegation \<Rightarrow> process_request_undelegation_token B program accs s
      | ApplyTokenDeposit balance \<Rightarrow> process_apply_token_deposit B program accs balance s)"

end
