(* ===== verification/Bridge_Laws.thy ===== *)
theory Bridge_Laws
  imports Token_Bridge
begin

text \<open>
  The interfaces the token bridge relies on: its codecs, the documented behaviour of the token program's checked
  transfer, and the runtime's protection of accounts during a call to a foreign program.  A vault is \<open>guarded\<close> when
  it and its token account are set up; \<open>spares\<close> says that a step leaves the vault alone and takes no token from it.
  Every operation of the bridge that does not name the vault spares it.
\<close>

subsection \<open>Interfaces\<close>

locale bridge_codecs = portal_codecs "be_portal B" +
  vault_c: borsh_codec "token_vault_codec B" "\<lambda>_. True" 146 +
  er_c: borsh_codec "er_token_account_codec B" "\<lambda>_. True" 106 +
  receipt_c: borsh_codec "token_deposit_receipt_codec B" "\<lambda>_. True" 82 +
  progress_c: borsh_codec "token_deposit_progress_codec B" "\<lambda>_. True" 10
  for B :: bridge_env

locale spl_token =
  fixes B :: bridge_env
  assumes unpack_length: "unpack_token B bs = Some a \<Longrightarrow> length bs = 165"
    and transfer_frame: "spl_transfer_checked B source mint destination authority amount decimals s = Inr s' \<Longrightarrow>
      own s' k = own s k \<and> (k \<notin> {source, destination} \<longrightarrow> accts s' k = accts s k)"
    and transfer_parties: "spl_transfer_checked B source mint destination authority amount decimals s = Inr s' \<Longrightarrow>
      \<exists>a b. unpack_token B (dat s source) = Some a \<and> own s source = token_id (be_portal B)
        \<and> unpack_token B (dat s destination) = Some b \<and> own s destination = token_id (be_portal B)
        \<and> (tk_owner a = authority \<or> tk_delegate a = Some authority)"
    and transfer_amounts: "spl_transfer_checked B source mint destination authority amount decimals s = Inr s' \<Longrightarrow>
      unpack_token B (dat s source) = Some a \<Longrightarrow> unpack_token B (dat s destination) = Some b \<Longrightarrow> source \<noteq> destination \<Longrightarrow>
      (\<exists>a' b'. unpack_token B (dat s' source) = Some a' \<and> tk_owner a' = tk_owner a \<and> tk_delegate a' \<in> {tk_delegate a, None}
        \<and> unat (tk_amount a) = unat (tk_amount a') + unat amount
        \<and> unpack_token B (dat s' destination) = Some b' \<and> tk_owner b' = tk_owner b \<and> tk_delegate b' = tk_delegate b
        \<and> unat (tk_amount b') = unat (tk_amount b) + unat amount)"
    and transfer_self: "spl_transfer_checked B source mint source authority amount decimals s = Inr s' \<Longrightarrow>
      unpack_token B (dat s' source) = unpack_token B (dat s source)"

subsection \<open>A vault and what spares it\<close>

definition guarded :: "bridge_env \<Rightarrow> pubkey \<Rightarrow> pubkey \<Rightarrow> pubkey \<Rightarrow> pubkey \<Rightarrow> st \<Rightarrow> bool" where
  "guarded B program vault token bridge s \<longleftrightarrow>
     own s vault = program \<and> length (dat s vault) = 146
     \<and> own s token = token_id (be_portal B)
     \<and> (\<exists>a. unpack_token B (dat s token) = Some a \<and> tk_owner a = vault \<and> tk_delegate a = None)
     \<and> own s bridge = portal_id B \<and> length (dat s bridge) = 169"

definition spares :: "bridge_env \<Rightarrow> pubkey \<Rightarrow> pubkey \<Rightarrow> pubkey \<Rightarrow> st \<Rightarrow> st \<Rightarrow> bool" where
  "spares B vault token bridge s s' \<longleftrightarrow>
     own s' vault = own s vault \<and> dat s' vault = dat s vault \<and> own s' token = own s token
     \<and> own s' bridge = own s bridge \<and> length (dat s' bridge) = length (dat s bridge)
     \<and> (\<forall>a. unpack_token B (dat s token) = Some a \<longrightarrow>
         (\<exists>b. unpack_token B (dat s' token) = Some b \<and> tk_owner b = tk_owner a
            \<and> (tk_delegate a = None \<longrightarrow> tk_delegate b = None) \<and> tk_amount a \<le> tk_amount b))"

lemma spares_refl [simp]: "spares B V T SB s s"
  by (simp add: spares_def)

lemma spares_trans: "spares B V T SB s t \<Longrightarrow> spares B V T SB t u \<Longrightarrow> spares B V T SB s u"
  unfolding spares_def
proof (elim conjE, intro conjI allI impI)
  fix a assume "unpack_token B (dat s T) = Some a"
    and 1: "\<forall>a. unpack_token B (dat s T) = Some a \<longrightarrow> (\<exists>b. unpack_token B (dat t T) = Some b \<and> tk_owner b = tk_owner a
            \<and> (tk_delegate a = None \<longrightarrow> tk_delegate b = None) \<and> tk_amount a \<le> tk_amount b)"
    and 2: "\<forall>a. unpack_token B (dat t T) = Some a \<longrightarrow> (\<exists>b. unpack_token B (dat u T) = Some b \<and> tk_owner b = tk_owner a
            \<and> (tk_delegate a = None \<longrightarrow> tk_delegate b = None) \<and> tk_amount a \<le> tk_amount b)"
  then obtain b where b: "unpack_token B (dat t T) = Some b" "tk_owner b = tk_owner a"
      "tk_delegate a = None \<longrightarrow> tk_delegate b = None" "tk_amount a \<le> tk_amount b" by blast
  obtain c where c: "unpack_token B (dat u T) = Some c" "tk_owner c = tk_owner b"
      "tk_delegate b = None \<longrightarrow> tk_delegate c = None" "tk_amount b \<le> tk_amount c" using 2 b(1) by blast
  show "\<exists>b. unpack_token B (dat u T) = Some b \<and> tk_owner b = tk_owner a
            \<and> (tk_delegate a = None \<longrightarrow> tk_delegate b = None) \<and> tk_amount a \<le> tk_amount b"
    using b c by (intro exI [of _ c]) auto
qed simp_all

lemma spares_guarded: "spares B V T SB s s' \<Longrightarrow> guarded B program V T SB s \<Longrightarrow> guarded B program V T SB s'"
  unfolding spares_def guarded_def by (elim conjE exE) (simp, fastforce)

lemma spares_frame:
  assumes "dat s' V = dat s V" "own s' V = own s V" "dat s' T = dat s T" "own s' T = own s T"
    "dat s' SB = dat s SB" "own s' SB = own s SB"
  shows "spares B V T SB s s'"
  using assms by (simp add: spares_def)

lemma create_pda_fresh:
  assumes "create_pda B program accs payer pda space new_owner seeds sys s = Inr s'"
  shows "own s pda = bridge_system B" "dat s pda = []"
    "own s' k = (if k = pda then new_owner else own s k)"
    "dat s' k = (if k = pda then replicate (unat (of_nat space :: u64)) 0 else dat s k)"
proof -
  let ?E = "be_portal B"
  from assms obtain amount where c: "(if lam s pda = 0 then invoke_create_account ?E program accs payer pda amount (of_nat space) new_owner seeds s
         else if dat s pda \<noteq> [] \<or> own s pda \<noteq> system_id ?E then Inl ProgInvalidAccountData
         else rbind
           (if lam s pda < amount then
              rbind (ok_or (checked_sub amount (lam s pda)) ProgArithmeticOverflow) (\<lambda>d. invoke_transfer ?E accs payer pda d s)
            else Inr s) (\<lambda>s.
           rbind (invoke_allocate ?E program accs pda (of_nat space) seeds s) (\<lambda>s.
           invoke_assign ?E program accs pda new_owner seeds s))) = Inr s'"
    by (auto simp: create_pda_def Let_def ok_simps)
  have "own s pda = bridge_system B \<and> dat s pda = [] \<and> own s' k = (if k = pda then new_owner else own s k)
      \<and> dat s' k = (if k = pda then replicate (unat (of_nat space :: u64)) 0 else dat s k)"
  proof (cases "lam s pda = 0")
    case True
    with c have "invoke_create_account ?E program accs payer pda amount (of_nat space) new_owner seeds s = Inr s'" by simp
    note r = invoke_create_account_ok [OF this]
    show ?thesis using r(2,3) r(5,6) [of k] by simp
  next
    case False
    with c obtain t u where t: "(if lam s pda < amount then
              rbind (ok_or (checked_sub amount (lam s pda)) ProgArithmeticOverflow) (\<lambda>d. invoke_transfer ?E accs payer pda d s)
            else Inr s) = Inr t"
      and u: "invoke_allocate ?E program accs pda (of_nat space) seeds t = Inr u"
      and s': "invoke_assign ?E program accs pda new_owner seeds u = Inr s'"
      and f: "dat s pda = []" "own s pda = system_id ?E"
      by (auto simp: ok_simps split: if_splits)
    have "dat t j = dat s j \<and> own t j = own s j" for j
      using t invoke_transfer_frame(1,2) [of ?E accs payer pda _ s t] by (auto simp: ok_simps split: if_splits)
    then show ?thesis
      using f invoke_allocate_ok(3) [OF u] invoke_assign_ok [OF s'] by auto
  qed
  then show "own s pda = bridge_system B" "dat s pda = []"
    "own s' k = (if k = pda then new_owner else own s k)"
    "dat s' k = (if k = pda then replicate (unat (of_nat space :: u64)) 0 else dat s k)" by auto
qed

text \<open>The runtime lets a program change only its own accounts, and a derived address signs for its program only.\<close>

locale bridge_vault = bridge_codecs B + spl_token B for B :: bridge_env +
  fixes program vault token bridge :: pubkey
  assumes ids: "program \<noteq> bridge_system B" "token_id (be_portal B) \<noteq> bridge_system B" "portal_id B \<noteq> bridge_system B"
      "program \<noteq> token_id (be_portal B)" "portal_id B \<noteq> program" "portal_id B \<noteq> token_id (be_portal B)"
    and foreign_spares: "foreign_call B callee infos call s = Inr s' \<Longrightarrow> guarded B program vault token bridge s \<Longrightarrow>
      \<forall>a \<in> set infos. is_signer a \<longrightarrow> address a \<noteq> vault \<Longrightarrow> spares B vault token bridge s s'"
begin

abbreviation G :: "st \<Rightarrow> bool" where "G \<equiv> guarded B program vault token bridge"
abbreviation K :: "st \<Rightarrow> st \<Rightarrow> bool" where "K \<equiv> spares B vault token bridge"

lemma guardedD:
  assumes "G s"
  shows "own s vault = program" "length (dat s vault) = 146" "own s token = token_id (be_portal B)" "length (dat s token) = 165"
    "own s bridge = portal_id B" "length (dat s bridge) = 169"
  using assms unpack_length by (auto simp: guarded_def)

text \<open>An account that is not one of the three, because of its length or its owner.\<close>

lemma apart:
  assumes "G s"
  shows "length (dat s k) \<notin> {146, 165, 169} \<Longrightarrow> k \<notin> {vault, token, bridge}"
    "own s k = bridge_system B \<Longrightarrow> k \<notin> {vault, token, bridge}"
    "own s k = program \<Longrightarrow> length (dat s k) \<noteq> 146 \<Longrightarrow> k \<notin> {vault, token, bridge}"
    "own s k = portal_id B \<Longrightarrow> length (dat s k) \<noteq> 169 \<Longrightarrow> k \<notin> {vault, token, bridge}"
  using guardedD [OF assms] ids by auto

lemma spares_dat: "k \<notin> {vault, token, bridge} \<Longrightarrow> K s (set_dat k bs s)"
  by (rule spares_frame) auto

lemma store_spares:
  "bridge_store c v k s = Inr s' \<Longrightarrow> k \<notin> {vault, token, bridge} \<Longrightarrow> K s s'"
  by (auto simp: bridge_store_def split: if_splits intro!: spares_dat)

lemma copy_spares: "copy_data src dst s = Inr s' \<Longrightarrow> dst \<notin> {vault, token, bridge} \<Longrightarrow> K s s'"
  by (auto simp: copy_data_def split: if_splits intro!: spares_dat)

lemma close_buffer_spares:
  "close_buffer B k r s = Inr s' \<Longrightarrow> k \<notin> {vault, token, bridge} \<Longrightarrow> K s s'"
  by (rule spares_frame) (auto simp: close_buffer_def close_def ok_simps)

lemma create_pda_spares:
  assumes "create_pda B program accs payer pda space new_owner seeds sys s = Inr s'" "G s"
  shows "K s s'" "pda \<notin> {vault, token, bridge}"
proof -
  note f = create_pda_fresh [OF assms(1)]
  show ne: "pda \<notin> {vault, token, bridge}" by (rule apart(2) [OF assms(2) f(1)])
  show "K s s'" using ne by (intro spares_frame) (auto simp: f(3,4))
qed

lemma transfer_checked_spares:
  assumes "invoke_transfer_checked B program accs seeds source mint destination authority amount decimals s = Inr s'" "G s"
    "authority \<noteq> vault"
  shows "K s s'" "own s' k = own s k" "own s k \<noteq> token_id (be_portal B) \<Longrightarrow> accts s' k = accts s k" "source \<noteq> token"
proof -
  from assms(1) have run: "spl_transfer_checked B source mint destination authority amount decimals s = Inr s'"
    by (auto simp: invoke_transfer_checked_def Let_def ok_simps split: option.splits)
  obtain a b where p: "unpack_token B (dat s source) = Some a" "own s source = token_id (be_portal B)"
      "unpack_token B (dat s destination) = Some b" "own s destination = token_id (be_portal B)"
      "tk_owner a = authority \<or> tk_delegate a = Some authority"
    using transfer_parties [OF run] by blast
  obtain t where t: "unpack_token B (dat s token) = Some t" "tk_owner t = vault" "tk_delegate t = None"
    using assms(2) by (auto simp: guarded_def)
  show st: "source \<noteq> token" using p t assms(3) by auto
  show own: "own s' k = own s k" for k using transfer_frame [OF run] by blast
  have ne: "k \<notin> {source, destination}" if "own s k \<noteq> token_id (be_portal B)" for k using p that by auto
  show fr: "own s k \<noteq> token_id (be_portal B) \<Longrightarrow> accts s' k = accts s k" for k using transfer_frame [OF run, of k] ne by blast
  have "accts s' vault = accts s vault" "accts s' bridge = accts s bridge" using fr guardedD [OF assms(2)] ids by auto
  moreover have "\<exists>b'. unpack_token B (dat s' token) = Some b' \<and> tk_owner b' = tk_owner t
      \<and> (tk_delegate t = None \<longrightarrow> tk_delegate b' = None) \<and> tk_amount t \<le> tk_amount b'"
  proof (cases "token = destination")
    case True
    then show ?thesis using transfer_amounts [OF run p(1,3)] st t p(3) by (auto simp: word_le_nat_alt)
  next
    case False
    then have "accts s' token = accts s token" using transfer_frame [OF run, of token] st by simp
    then show ?thesis using t by simp
  qed
  ultimately show "K s s'" using t own by (simp add: spares_def)
qed

end

end
