(* ===== verification/Bridge_Solvency.thy ===== *)
theory Bridge_Solvency
  imports Bridge_Laws
begin

text \<open>
  Solvency of the bridge: whatever instructions are executed, by whomever, the token account of a vault holds at least
  what was deposited and not withdrawn.
\<close>

subsection \<open>Calls to the Portal\<close>

lemma undelegate_refund_frame:
  assumes "undelegate_refund a r q t = Inr s'"
  shows "own s' k = own t k" "k \<notin> {r, q} \<Longrightarrow> dat s' k = dat t k"
  using assms by (auto simp: undelegate_refund_def ok_simps split: if_splits)

lemma callee_infos_sel [simp]:
  "length (callee_infos ms) = length ms"
  "i < length ms \<Longrightarrow> address (callee_infos ms ! i) = m_address (ms ! i)"
  by (simp_all add: callee_infos_def)

context bridge_vault
begin

lemma portal_delegate_spares:
  assumes "process_delegate (be_portal B) (portal_id B) infos g s = Inr s'" "G s" "length infos = 7"
    "length (dat s (address (infos ! 3))) \<noteq> 169"
  shows "K s s'"
proof -
  obtain payer sys session delegated owner_program rec buffer where i: "infos = [payer, sys, session, delegated, owner_program, rec, buffer]"
    using assms(3) by (auto simp: length_Suc_conv numeral_eq_Suc)
  from assms(1) obtain x where run: "process_delegate_account (be_portal B) (portal_id B) infos payer delegated owner_program rec buffer x s = Inr s'"
    by (auto simp: i process_delegate_def ok_simps)
  note e = delegate_account_effect [OF run]
  have "address rec \<notin> {vault, token, bridge}" using apart(1) [OF assms(2), of "address rec"] e(4) by simp
  moreover have "address delegated \<notin> {vault, token, bridge}" using apart(4) [OF assms(2), of "address delegated"] e(3) assms(4) by (simp add: i)
  ultimately show "K s s'" by (intro spares_frame) (auto simp: e(10,11))
qed

lemma portal_handoff_spares:
  assumes "process_undelegate_handoff (be_portal B) (portal_id B) infos s = Inr s'" "G s"
    "length (dat s (address (infos ! 1))) \<noteq> 169"
  shows "K s s'"
proof -
  let ?d = "address (infos ! Suc 0)" and ?r = "address (infos ! 3)" and ?q = "address (infos ! 6)"
  let ?t = "set_own ?d (address (infos ! 2)) (if list_ex (\<lambda>b. b \<noteq> 0) (dat s ?d) then fill_zero ?d s else s)"
  obtain q dr where d: "own s ?d = portal_id B" and dr: "try_from_slice (delegation_record_codec (be_portal B)) (dat s ?r) = Some dr"
    and q: "own s ?q = portal_id B" "try_from_slice (undelegation_request_codec (be_portal B)) (dat s ?q) = Some q"
    and fin: "undelegate_refund (address (infos ! 0)) ?r ?q ?t = Inr s'"
    using assms(1)
    by (simp add: process_undelegate_handoff_def process_undelegate_inner_def Let_def ok_simps del: set_own_read fill_zero_read)
      (elim exE conjE, rule that, simp_all del: set_own_read fill_zero_read split del: if_split)
  have "?d \<notin> {vault, token, bridge}" using apart(4) [OF assms(2) d] assms(3) by simp
  moreover have "?r \<notin> {vault, token, bridge}"
    using apart(1) [OF assms(2), of ?r] delegation_record_c.try_from_sliceD(3) [OF dr] by simp
  moreover have "?q \<notin> {vault, token, bridge}"
    using apart(4) [OF assms(2) q(1)] undelegation_request_c.try_from_sliceD(3) [OF q(2)] by simp
  ultimately show "K s s'"
    by (intro spares_frame) (auto simp: undelegate_refund_frame [OF fin])
qed

lemma portal_entry_spares:
  assumes "portal_entry B infos call s = Inr s'" "G s"
    "\<And>g. call = CallDelegate g \<Longrightarrow> length infos = 7 \<and> length (dat s (address (infos ! 3))) \<noteq> 169"
    "call = CallUndelegateHandoff \<Longrightarrow> length (dat s (address (infos ! 1))) \<noteq> 169"
  shows "K s s'"
proof (cases call)
  case (CallDelegate g)
  with assms show ?thesis by (auto simp: portal_entry_def intro!: portal_delegate_spares)
next
  case CallUndelegateHandoff
  with assms show ?thesis by (auto simp: portal_entry_def intro!: portal_handoff_spares)
next
  case CallRequestUndelegation
  with assms(1) have run: "process_request_undelegation (be_portal B) (portal_id B) infos s = Inr s'" by (simp add: portal_entry_def)
  let ?q = "address (infos ! 6)"
  obtain payer rent size seeds t bs where t: "initialize_pda_account (be_portal B) (portal_id B) infos payer ?q rent size (portal_id B) seeds s = Inr t"
    and s': "s' = set_dat ?q bs t"
    using run by (auto simp: process_request_undelegation_def Let_def ok_simps)
  note t1 = initialize_pda_account_ok [OF t]
  have "?q \<notin> {vault, token, bridge}" using apart(1) [OF assms(2), of ?q] t1(1) by simp
  then show ?thesis by (intro spares_frame) (auto simp: s' t1(3,4))
next
  case (CallConsumeTokenWithdrawal args)
  let ?a = "address (infos ! 3)"
  from assms(1) CallConsumeTokenWithdrawal obtain auth bs where
      a: "try_from_slice (token_withdrawal_authorization_codec (be_portal B)) (dat s ?a) = Some auth" and s': "s' = set_dat ?a bs s"
    by (auto simp: portal_entry_def process_consume_token_withdrawal_def Let_def ok_simps)
  have "?a \<notin> {vault, token, bridge}" using apart(1) [OF assms(2), of ?a] token_auth_c.try_from_sliceD(3) [OF a] by simp
  then show ?thesis unfolding s' by (rule spares_dat)
qed

lemma invoke_portal_spares:
  assumes "invoke_portal B program accs callee ms seeds call s = Inr s'" "G s"
    "callee = portal_id B \<or> (\<forall>m \<in> set ms. m_signer m \<longrightarrow> m_address m \<noteq> vault)"
    "\<And>g. call = CallDelegate g \<Longrightarrow> length ms = 7 \<and> length (dat s (m_address (ms ! 3))) \<noteq> 169"
    "call = CallUndelegateHandoff \<Longrightarrow> 1 < length ms \<and> length (dat s (m_address (ms ! 1))) \<noteq> 169"
  shows "K s s'"
proof (cases "callee = portal_id B")
  case True
  with assms(1) have "portal_entry B (callee_infos ms) call s = Inr s'" by (auto simp: invoke_portal_def ok_simps)
  then show ?thesis by (rule portal_entry_spares [OF _ assms(2)]) (use assms(4,5) in auto)
next
  case False
  with assms(1) have "foreign_call B callee (callee_infos ms) call s = Inr s'" by (auto simp: invoke_portal_def ok_simps)
  moreover have "\<forall>a \<in> set (callee_infos ms). is_signer a \<longrightarrow> address a \<noteq> vault"
    using assms(3) False by (auto simp: callee_infos_def meta_signer_def list_ex_iff)
  ultimately show ?thesis using assms(2) foreign_spares by blast
qed

subsection \<open>Instructions that do not name the vault\<close>

lemma loaded_er:
  assumes "load_er_token_account B program k s = Inr t"
  shows "own s k = program" "dat s k = ser (er_token_account_codec B) t" "length (dat s k) = 106" "er_token_account_is_valid t"
  using assms by (auto simp: load_er_token_account_def bridge_load_def ok_simps er_c.try_from_slice_iff er_c.ser_length)

lemma loaded_er_apart: "load_er_token_account B program k s = Inr t \<Longrightarrow> G s \<Longrightarrow> k \<notin> {vault, token, bridge}"
  using apart(3) [of s k] loaded_er [of k s t] by simp

lemma transfer_spares:
  assumes "process_transfer B program accs amount s = Inr s'" "G s"
  shows "K s s'"
proof -
  obtain a b x y t where l: "load_er_token_account B program (address (accs ! 1)) s = Inr a"
      "load_er_token_account B program (address (accs ! 2)) s = Inr b"
    and st: "bridge_store (er_token_account_codec B) x (address (accs ! 1)) s = Inr t"
      "bridge_store (er_token_account_codec B) y (address (accs ! 2)) t = Inr s'"
    using assms(1) by (auto simp: process_transfer_def Let_def ok_simps)
  show ?thesis
    using store_spares [OF st(1) loaded_er_apart [OF l(1) assms(2)]] store_spares [OF st(2) loaded_er_apart [OF l(2) assms(2)]]
    by (rule spares_trans)
qed

lemma start_withdrawal_spares:
  assumes "process_start_withdrawal_token B program accs amount decimals s = Inr s'" "G s"
  shows "K s s'"
proof -
  obtain a x where l: "load_er_token_account B program (address (accs ! 1)) s = Inr a"
    and st: "bridge_store (er_token_account_codec B) x (address (accs ! 1)) s = Inr s'"
    using assms(1) by (auto simp: process_start_withdrawal_token_def Let_def ok_simps)
  show ?thesis by (rule store_spares [OF st loaded_er_apart [OF l assms(2)]])
qed

lemma initialize_vault_spares:
  assumes "process_initialize_vault B program accs s = Inr s'" "G s"
  shows "K s s'"
proof -
  obtain p space seeds sys t x where c: "create_pda B program accs p (address (accs ! 1)) space program seeds sys s = Inr t"
    and st: "bridge_store (token_vault_codec B) x (address (accs ! 1)) t = Inr s'"
    using assms(1) by (auto simp: process_initialize_vault_def Let_def ok_simps split: if_splits)
  note cp = create_pda_spares [OF c assms(2)]
  show ?thesis by (rule spares_trans [OF cp(1) store_spares [OF st cp(2)]])
qed

lemma initialize_er_spares:
  assumes "process_initialize_er_token_account B program accs holder s = Inr s'" "G s"
  shows "K s s'"
proof -
  obtain p space seeds sys t x where c: "create_pda B program accs p (address (accs ! 1)) space program seeds sys s = Inr t"
    and st: "bridge_store (er_token_account_codec B) x (address (accs ! 1)) t = Inr s'"
    using assms(1) by (auto simp: process_initialize_er_token_account_def Let_def ok_simps split: if_splits)
  note cp = create_pda_spares [OF c assms(2)]
  show ?thesis by (rule spares_trans [OF cp(1) store_spares [OF st cp(2)]])
qed

lemma store_own_spares:
  assumes "bridge_store c v k s = Inr s'" "G s" "own s k = program" "length (ser c v) \<noteq> 146"
  shows "K s s'"
  using assms apart(3) [of s k] by (intro store_spares) (auto simp: bridge_store_def split: if_splits)

lemma maybe_create_spares:
  assumes "(if own s k \<noteq> program then create_pda B program accs p k space program seeds sys s else r) = Inr t" "G s"
    "\<And>u. r = Inr u \<Longrightarrow> u = s"
  shows "K s t" "own t k = program" "j \<noteq> k \<Longrightarrow> dat t j = dat s j" "j \<noteq> k \<Longrightarrow> own t j = own s j"
  using assms create_pda_spares(1) [of accs p k space program seeds sys s t] create_pda_fresh(3,4) [of B program accs p k space program seeds sys s t]
  by (auto split: if_splits)

lemma apply_spares:
  assumes "process_apply_token_deposit B program accs balance s = Inr s'" "G s"
  shows "K s s'"
proof -
  let ?a = "address (accs ! 1)" and ?c = "address (accs ! 8)"
  obtain a p space seeds sys t u x y where l: "load_er_token_account B program (address (accs ! 1)) s = Inr a"
    and c: "(if own s ?c \<noteq> program then create_pda B program accs p ?c space program seeds sys s else Inr s) = Inr t"
    and st: "bridge_store (token_deposit_progress_codec B) x ?c t = Inr u"
      "bridge_store (er_token_account_codec B) y ?a u = Inr s'"
    using assms(1)
    by (simp add: process_apply_token_deposit_def Let_def ok_simps split del: if_split) (elim exE conjE, rule that, simp_all)
  note m = maybe_create_spares [OF c assms(2)]
  have t: "K s t" "own t ?c = program" using m by simp_all
  have u: "K t u" using store_own_spares [OF st(1) spares_guarded [OF t(1) assms(2)] t(2)] by (simp add: progress_c.ser_length)
  show ?thesis
    by (rule spares_trans [OF t(1) spares_trans [OF u store_spares [OF st(2) loaded_er_apart [OF l assms(2)]]]])
qed

lemma initialize_origin_spares:
  assumes "initialize_origin B program accs p br k receipt origin sys s = Inr s'" "G s"
  shows "K s s'"
proof -
  obtain space seeds r t x where c: "(if own s origin \<noteq> program then create_pda B program accs p origin space program seeds sys s else r) = Inr t"
    and r: "\<And>u. r = Inr u \<Longrightarrow> u = s"
    and st: "bridge_store (token_deposit_progress_codec B) x origin t = Inr s'"
    using assms(1)
    by (simp add: initialize_origin_def Let_def ok_simps split del: if_split) (elim exE conjE, rule that, assumption, auto simp: ok_simps)
  note m = maybe_create_spares [OF c assms(2) r]
  show ?thesis
    using spares_trans [OF m(1) store_own_spares [OF st spares_guarded [OF m(1) assms(2)] m(2)]] by (simp add: progress_c.ser_length)
qed

text \<open>The program's accounts keep owner and length.\<close>

abbreviation L :: "st \<Rightarrow> st \<Rightarrow> bool" where
  "L s s' \<equiv> \<forall>k. own s k = program \<longrightarrow> own s' k = program \<and> length (dat s' k) = length (dat s k)"

lemma maybe_create_lengths:
  assumes "(if own s k \<noteq> program then create_pda B program accs p k space program seeds sys s else r) = Inr t"
    "\<And>u. r = Inr u \<Longrightarrow> u = s"
  shows "L s t"
  using assms create_pda_fresh [of B program accs p k space program seeds sys s t] ids(1) by (auto split: if_splits)

lemma store_lengths: "bridge_store c v k s = Inr s' \<Longrightarrow> own s' j = own s j \<and> length (dat s' j) = length (dat s j)"
  by (auto simp: bridge_store_def split: if_splits)

lemma initialize_origin_lengths:
  assumes "initialize_origin B program accs p br k receipt origin sys s = Inr s'"
  shows "L s s'"
proof -
  obtain space seeds r t x where c: "(if own s origin \<noteq> program then create_pda B program accs p origin space program seeds sys s else r) = Inr t"
    and r: "\<And>u. r = Inr u \<Longrightarrow> u = s"
    and st: "bridge_store (token_deposit_progress_codec B) x origin t = Inr s'"
    using assms(1)
    by (simp add: initialize_origin_def Let_def ok_simps split del: if_split) (elim exE conjE, rule that, assumption, auto simp: ok_simps)
  show ?thesis using maybe_create_lengths [OF c r] store_lengths [OF st] by simp
qed

lemma create_buffer_spares:
  assumes "create_buffer B program accs p buffer er sys s = Inr s'" "G s"
  shows "K s s'" "own s' buffer = program" "length (dat s' buffer) = length (dat s' er)" "L s s'"
    "k \<noteq> buffer \<Longrightarrow> dat s' k = dat s k" "k \<noteq> buffer \<Longrightarrow> own s' k = own s k"
proof -
  obtain space seeds where c: "(if own s buffer \<noteq> program then create_pda B program accs p buffer space program seeds sys s else Inr s) = Inr s'"
    and len: "own s' buffer = program" "length (dat s' buffer) = length (dat s' er)"
    using assms(1)
    by (simp add: create_buffer_def Let_def ok_simps split del: if_split) (elim exE conjE, rule that, auto)
  note m = maybe_create_spares [OF c assms(2)]
  show "K s s'" "own s' buffer = program" "length (dat s' buffer) = length (dat s' er)" using m len by simp_all
  show "L s s'" using maybe_create_lengths [OF c] by simp
  show "k \<noteq> buffer \<Longrightarrow> dat s' k = dat s k" "k \<noteq> buffer \<Longrightarrow> own s' k = own s k" using m(3,4) by simp_all
qed

abbreviation N :: "account_info list \<Rightarrow> bool" where
  "N accs \<equiv> \<forall>a \<in> set accs. is_signer a \<longrightarrow> address a \<noteq> vault"

lemma signer_not_vault: "require_signer (accs ! i) = Inr x \<Longrightarrow> i < length accs \<Longrightarrow> N accs \<Longrightarrow> address (accs ! i) \<noteq> vault"
  by (auto simp: require_signer_def split: if_splits)

lemma request_spares:
  assumes "process_request_undelegation_token B program accs s = Inr s'" "G s" "N accs"
  shows "K s s'"
proof -
  let ?e = "address (accs ! 2)"
  obtain t seeds where n: "\<not> length accs < 9" "require_signer (accs ! 0) = Inr ()" "require_signer (accs ! 1) = Inr ()"
    and e: "try_from_slice (er_token_account_codec B) (dat s ?e) = Some t"
    and i: "invoke_portal B program accs (address (accs ! 4))
             [rw_signer (address (accs ! 0)), ro_signer (address (accs ! 1)), ro_signer ?e, ro program,
              ro (address (accs ! 6)), ro (address (accs ! 5)), rw (address (accs ! 7)), ro (bridge_system B)]
             seeds CallRequestUndelegation s = Inr s'"
    using assms(1) by (auto simp: process_request_undelegation_token_def load_er_token_account_data_def bridge_load_def Let_def ok_simps)
  have "?e \<noteq> vault" using apart(1) [OF assms(2), of ?e] er_c.try_from_sliceD(3) [OF e] by simp
  moreover have "address (accs ! 0) \<noteq> vault" "address (accs ! 1) \<noteq> vault"
    by (rule signer_not_vault [OF n(2) _ assms(3)] signer_not_vault [OF n(3) _ assms(3)], use n(1) in linarith)+
  ultimately show ?thesis by (intro invoke_portal_spares [OF i assms(2)]) (auto simp: meta_defs)
qed

lemma delegate_spares:
  assumes "process_delegate_er_token_account B program accs grid_id s = Inr s'" "G s" "N accs"
  shows "K s s'"
proof -
  let ?p = "address (accs ! 0)" and ?e = "address (accs ! 2)" and ?b = "address (accs ! 8)" and ?P = "address (accs ! 5)"
  let ?ms = "[rw_signer ?p, ro (bridge_system B), ro (address (accs ! 6)), rw_signer ?e, ro program, rw (address (accs ! 7)), ro ?b]"
  obtain z t sys s1 s2 s3 s4 s5 s6 seeds r o' where n: "\<not> length accs < 10" "require_signer (accs ! 0) = Inr z"
    and e: "load_er_token_account B program ?e s = Inr t"
    and 1: "initialize_origin B program accs ?p (address (accs ! 4)) ?e r o' sys s = Inr s1"
    and 2: "create_buffer B program accs ?p ?b ?e sys s1 = Inr s2"
    and 3: "copy_data ?e ?b s2 = Inr s3"
    and 4: "close_buffer B ?e ?p s3 = Inr s4"
    and 5: "create_pda B program accs ?p ?e (length (dat s2 ?e)) ?P seeds sys s4 = Inr s5"
    and 6: "invoke_portal B program accs ?P ?ms seeds (CallDelegate grid_id) s5 = Inr s6"
    and 7: "close_buffer B ?b ?p s6 = Inr s'"
    using assms(1)
    by (simp only: process_delegate_er_token_account_def Let_def rbind_ok guard_ok) (elim exE conjE, rule that, assumption+)
  have p: "?p \<noteq> vault" by (rule signer_not_vault [OF n(2) _ assms(3)]) (use n(1) in linarith)
  have e': "?e \<notin> {vault, token, bridge}" by (rule loaded_er_apart [OF e assms(2)])
  have k1: "K s s1" by (rule initialize_origin_spares [OF 1 assms(2)])
  note g1 = spares_guarded [OF k1 assms(2)]
  note b = create_buffer_spares [OF 2 g1]
  note g2 = spares_guarded [OF b(1) g1]
  have len: "length (dat s2 ?e) = 106" using loaded_er [OF e] initialize_origin_lengths [OF 1] b(4) by simp
  have b': "?b \<notin> {vault, token, bridge}" using apart(3) [OF g2 b(2)] b(3) len by simp
  have k3: "K s2 s3" by (rule copy_spares [OF 3 b'])
  have k4: "K s3 s4" by (rule close_buffer_spares [OF 4 e'])
  note g4 = spares_guarded [OF k4 spares_guarded [OF k3 g2]]
  have k5: "K s4 s5" by (rule create_pda_spares(1) [OF 5 g4])
  have len5: "length (dat s5 ?e) = 106" using create_pda_fresh(4) [OF 5, of ?e] by (simp add: len)
  have k6: "K s5 s6"
    by (rule invoke_portal_spares [OF 6 spares_guarded [OF k5 g4]]) (use p e' len5 in \<open>auto simp: meta_defs\<close>)
  have k7: "K s6 s'" by (rule close_buffer_spares [OF 7 b'])
  show ?thesis using k1 b(1) k3 k4 k5 k6 k7 by (blast intro: spares_trans)
qed

lemma undelegate_spares:
  assumes "process_undelegate_er_token_account B program accs s = Inr s'" "G s" "N accs"
  shows "K s s'"
proof -
  let ?a = "address (accs ! 0)" and ?e = "address (accs ! 1)" and ?b = "address (accs ! 6)" and ?P = "address (accs ! 3)"
  let ?ms = "[rw_signer ?a, rw_signer ?e, ro program, rw (address (accs ! 5)), ro (bridge_system B), ro (address (accs ! 4)), rw (address (accs ! 8))]"
  obtain z t sys s1 s2 s3 s4 seeds where n: "\<not> length accs < 9" "require_signer (accs ! 0) = Inr z"
    and 1: "create_buffer B program accs ?a ?b ?e sys s = Inr s1"
    and 2: "copy_data ?e ?b s1 = Inr s2"
    and t: "load_er_token_account_data B ?b s2 = Inr t"
    and 3: "invoke_portal B program accs ?P ?ms seeds CallUndelegateHandoff s2 = Inr s3"
    and 4: "copy_data ?b ?e s3 = Inr s4"
    and 5: "close_buffer B ?b ?a s4 = Inr s'"
    using assms(1)
    by (simp only: process_undelegate_er_token_account_def Let_def rbind_ok guard_ok) (elim exE conjE, rule that, assumption+)
  have a: "?a \<noteq> vault" by (rule signer_not_vault [OF n(2) _ assms(3)]) (use n(1) in linarith)
  note b = create_buffer_spares [OF 1 assms(2)]
  note g1 = spares_guarded [OF b(1) assms(2)]
  have c: "?e \<noteq> ?b" "length (dat s1 ?e) = length (dat s1 ?b)" "s2 = set_dat ?b (dat s1 ?e) s1"
    using 2 by (auto simp: copy_data_def split: if_splits)
  have "length (dat s2 ?b) = 106"
    using t by (auto simp: load_er_token_account_data_def bridge_load_def ok_simps er_c.try_from_slice_iff er_c.ser_length)
  then have len: "length (dat s1 ?e) = 106" "length (dat s2 ?e) = 106" using c by simp_all
  have e': "?e \<notin> {vault, token, bridge}" using apart(1) [OF g1, of ?e] len by simp
  have b': "?b \<notin> {vault, token, bridge}" using apart(3) [OF g1 b(2)] b(3) len by simp
  have k2: "K s1 s2" by (rule copy_spares [OF 2 b'])
  have k3: "K s2 s3"
    by (rule invoke_portal_spares [OF 3 spares_guarded [OF k2 g1]]) (use a e' len in \<open>auto simp: meta_defs\<close>)
  have k4: "K s3 s4" by (rule copy_spares [OF 4 e'])
  have k5: "K s4 s'" by (rule close_buffer_spares [OF 5 b'])
  show ?thesis using b(1) k2 k3 k4 k5 by (blast intro: spares_trans)
qed

end

subsection \<open>The vault itself\<close>

text \<open>The vault's books and its tokens: what was deposited and not withdrawn is there.\<close>

definition vault_backed :: "bridge_env \<Rightarrow> pubkey \<Rightarrow> pubkey \<Rightarrow> pubkey \<Rightarrow> token_vault \<Rightarrow> st \<Rightarrow> bool" where
  "vault_backed B vault token bridge v s \<longleftrightarrow>
     dat s vault = ser (token_vault_codec B) v \<and> token_vault_is_valid v \<and> tv_session_bridge v = bridge
     \<and> tv_vault_token_account v = token \<and> tv_withdrawn v \<le> tv_deposited v
     \<and> (\<exists>a. unpack_token B (dat s token) = Some a
          \<and> unat (tv_deposited v) \<le> unat (tv_withdrawn v) + unat (tk_amount a))"

definition solvent :: "bridge_env \<Rightarrow> pubkey \<Rightarrow> pubkey \<Rightarrow> pubkey \<Rightarrow> pubkey \<Rightarrow> st \<Rightarrow> bool" where
  "solvent B program vault token bridge s \<longleftrightarrow>
     guarded B program vault token bridge s \<and> (\<exists>v. vault_backed B vault token bridge v s)"

lemma spares_vault_backed: "spares B V T SB s s' \<Longrightarrow> vault_backed B V T SB v s \<Longrightarrow> vault_backed B V T SB v s'"
  unfolding spares_def vault_backed_def by (elim conjE exE) (auto simp: word_le_nat_alt intro: le_trans add_left_mono)

lemma spares_solvent: "spares B V T SB s s' \<Longrightarrow> solvent B program V T SB s \<Longrightarrow> solvent B program V T SB s'"
  unfolding solvent_def using spares_guarded spares_vault_backed by blast

context bridge_vault
begin

lemma transfer_checked_credit:
  assumes "invoke_transfer_checked B program accs seeds source mint token authority amount decimals s = Inr s'" "G s" "authority \<noteq> vault"
  shows "\<exists>a b. unpack_token B (dat s token) = Some a \<and> unpack_token B (dat s' token) = Some b
    \<and> unat (tk_amount b) = unat (tk_amount a) + unat amount"
proof -
  from assms(1) have run: "spl_transfer_checked B source mint token authority amount decimals s = Inr s'"
    by (auto simp: invoke_transfer_checked_def Let_def ok_simps split: option.splits)
  obtain a b where "unpack_token B (dat s source) = Some a" "unpack_token B (dat s token) = Some b"
    using transfer_parties [OF run] by blast
  then show ?thesis using transfer_amounts [OF run] transfer_checked_spares(4) [OF assms] by blast
qed

lemma transfer_checked_debit:
  assumes "invoke_transfer_checked B program accs seeds token mint destination authority amount decimals s = Inr s'" "G s"
  shows "G s'" "dat s' vault = dat s vault" "own s' k = own s k" "own s k \<noteq> token_id (be_portal B) \<Longrightarrow> dat s' k = dat s k"
    "\<exists>a b. unpack_token B (dat s token) = Some a \<and> unpack_token B (dat s' token) = Some b
      \<and> unat (tk_amount a) \<le> unat (tk_amount b) + unat amount"
proof -
  from assms(1) have run: "spl_transfer_checked B token mint destination authority amount decimals s = Inr s'"
    by (auto simp: invoke_transfer_checked_def Let_def ok_simps split: option.splits)
  obtain a b where p: "unpack_token B (dat s token) = Some a" "unpack_token B (dat s destination) = Some b"
      "own s token = token_id (be_portal B)" "own s destination = token_id (be_portal B)"
    using transfer_parties [OF run] by blast
  have a: "tk_owner a = vault" "tk_delegate a = None" using p(1) assms(2) by (auto simp: guarded_def)
  show own: "own s' k = own s k" for k using transfer_frame [OF run] by blast
  show fr: "own s k \<noteq> token_id (be_portal B) \<Longrightarrow> dat s' k = dat s k" for k using transfer_frame [OF run, of k] p by auto
  have "\<exists>b. unpack_token B (dat s' token) = Some b \<and> tk_owner b = vault \<and> tk_delegate b = None \<and> unat (tk_amount a) \<le> unat (tk_amount b) + unat amount"
  proof (cases "token = destination")
    case True
    then show ?thesis using transfer_self [of token mint authority amount decimals s s'] run p(1) a by simp
  next
    case False
    then show ?thesis using transfer_amounts [OF run p(1,2)] a by auto
  qed
  then obtain b' where b': "unpack_token B (dat s' token) = Some b'" "tk_owner b' = vault" "tk_delegate b' = None"
      "unat (tk_amount a) \<le> unat (tk_amount b') + unat amount" by blast
  show "dat s' vault = dat s vault" using fr [of vault] guardedD(1) [OF assms(2)] ids by simp
  moreover have "dat s' bridge = dat s bridge" using fr [of bridge] guardedD(5) [OF assms(2)] ids by simp
  ultimately show "G s'" using assms(2) own b' by (simp add: guarded_def)
  show "\<exists>a b. unpack_token B (dat s token) = Some a \<and> unpack_token B (dat s' token) = Some b
      \<and> unat (tk_amount a) \<le> unat (tk_amount b) + unat amount" using p(1) b' by blast
qed

lemma loaded_vault:
  assumes "load_vault B program k br s = Inr v"
  shows "own s k = program" "dat s k = ser (token_vault_codec B) v" "token_vault_is_valid v" "tv_session_bridge v = br"
  using assms by (auto simp: load_vault_def bridge_load_def ok_simps vault_c.try_from_slice_iff)

lemma other_vault_apart: "own s k = program \<Longrightarrow> k \<noteq> vault \<Longrightarrow> G s \<Longrightarrow> k \<notin> {vault, token, bridge}"
  using guardedD [of s] ids by auto

lemma stored_vault:
  assumes "bridge_store (token_vault_codec B) v vault s = Inr s'" "G s"
  shows "G s'" "dat s' vault = ser (token_vault_codec B) v" "dat s' token = dat s token"
proof -
  have s': "s' = set_dat vault (ser (token_vault_codec B) v) s" using assms(1) by (auto simp: bridge_store_def split: if_splits)
  have "vault \<noteq> token" "vault \<noteq> bridge" using guardedD [OF assms(2)] by auto
  then show "G s'" "dat s' vault = ser (token_vault_codec B) v" "dat s' token = dat s token"
    using assms(2) by (simp_all add: s' guarded_def vault_c.ser_length)
qed

lemma receipt_state_spares:
  assumes "deposit_receipt_state B program accs p br er rcpt sys s = Inr (r, t)" "G s"
  shows "K s t" "own t rcpt = program" "L s t"
proof -
  obtain space seeds where c: "(if lam s rcpt = 0 then create_pda B program accs p rcpt space program seeds sys s
      else if own s rcpt \<noteq> program then Inl InvalidAccountOwner else Inr s) = Inr t"
    using assms(1)
    by (simp only: deposit_receipt_state_def Let_def rbind_ok guard_ok sum.inject prod.inject) (elim exE conjE, rule that, simp)
  show "K s t" "own t rcpt = program" "L s t"
    using c create_pda_spares(1) [of accs p rcpt space program seeds sys s t] assms(2) ids(1)
      create_pda_fresh [of B program accs p rcpt space program seeds sys s t]
    by (auto split: if_splits)
qed

lemma deposit_solvent:
  assumes "process_deposit B program accs amount decimals s = Inr s'" "solvent B program vault token bridge s" "N accs"
  shows "solvent B program vault token bridge s'"
proof -
  let ?v = "address (accs ! 2)" and ?e = "address (accs ! 3)" and ?rcpt = "address (accs ! 10)" and ?t = "address (accs ! 7)"
  obtain z b v e z' del s1 r s2 bal s3 d s4 where n: "\<not> length accs < 13" "require_signer (accs ! 1) = Inr z"
    and v: "load_vault B program ?v (address (accs ! 4)) s = Inr v"
    and tok: "require_bridge_token_accounts b v ?t (address (accs ! 8)) (address (accs ! 9)) = Inr z'"
    and e: "load_er_token_account_data B ?e s = Inr e"
    and del: "check_deposit_target B program accs ?e (address (accs ! 5)) (address (accs ! 11)) s = Inr del"
    and 1: "invoke_transfer_checked B program accs None (address (accs ! 6)) (address (accs ! 8)) ?t (address (accs ! 1)) amount decimals s = Inr s1"
    and 2: "deposit_receipt_state B program accs (address (accs ! 0)) (address (accs ! 4)) ?e ?rcpt (address (accs ! 12)) s1 = Inr (r, s2)"
    and 3: "bridge_store (token_deposit_receipt_codec B) (r\<lparr>td_balance := bal\<rparr>) ?rcpt s2 = Inr s3"
    and d: "ok_or (checked_add (tv_deposited v) amount) ProgArithmeticOverflow = Inr d"
    and 4: "bridge_store (token_vault_codec B) (v\<lparr>tv_deposited := d\<rparr>) ?v s3 = Inr s4"
    and 5: "(if del then Inr s4 else rbind (ok_or (checked_add (et_amount e) amount) ProgArithmeticOverflow) (\<lambda>balance.
      bridge_store (er_token_account_codec B) (e\<lparr>et_amount := balance\<rparr>) ?e s4)) = Inr s'"
    using assms(1)
    by (simp only: process_deposit_def Let_def rbind_ok guard_ok split_paired_Ex prod.case) (elim exE conjE, rule that, assumption+)
  have g: "G s" using assms(2) by (simp add: solvent_def)
  have auth: "address (accs ! 1) \<noteq> vault" by (rule signer_not_vault [OF n(2) _ assms(3)]) (use n(1) in linarith)
  note t1 = transfer_checked_spares [OF 1 g auth]
  note g1 = spares_guarded [OF t1(1) g]
  note t2 = receipt_state_spares [OF 2 g1]
  note g2 = spares_guarded [OF t2(1) g1]
  have k3: "K s2 s3" using store_own_spares [OF 3 g2 t2(2)] by (simp add: receipt_c.ser_length)
  note g3 = spares_guarded [OF k3 g2]
  have k13: "K s1 s3" by (rule spares_trans [OF t2(1) k3])
  have s4: "solvent B program vault token bridge s4"
  proof (cases "?v = vault")
    case False
    have "?v \<notin> {vault, token, bridge}" by (rule other_vault_apart [OF loaded_vault(1) [OF v] False g])
    then have "K s3 s4" by (rule store_spares [OF 4])
    then show ?thesis using spares_solvent [OF spares_trans [OF t1(1) spares_trans [OF k13]]] assms(2) by blast
  next
    case True
    obtain v' a where b': "dat s vault = ser (token_vault_codec B) v'" "token_vault_is_valid v'" "tv_session_bridge v' = bridge"
        "tv_vault_token_account v' = token" "tv_withdrawn v' \<le> tv_deposited v'" "unpack_token B (dat s token) = Some a"
        "unat (tv_deposited v') \<le> unat (tv_withdrawn v') + unat (tk_amount a)"
      using assms(2) by (auto simp: solvent_def vault_backed_def)
    have [simp]: "v' = v" using loaded_vault(2) [OF v] b'(1) True vault_c.ser_inject by auto
    have t: "?t = token" using tok b'(4) by (auto simp: require_bridge_token_accounts_def split: if_splits)
    obtain a1 where a1: "unpack_token B (dat s1 token) = Some a1" "unat (tk_amount a1) = unat (tk_amount a) + unat amount"
      using transfer_checked_credit [OF 1 [unfolded t] g auth] b'(6) by auto
    obtain a3 where a3: "unpack_token B (dat s3 token) = Some a3" "unat (tk_amount a1) \<le> unat (tk_amount a3)"
      using k13 a1 by (auto simp: spares_def word_le_nat_alt)
    note st = stored_vault [OF 4 [unfolded True] g3]
    have dd: "unat d = unat (tv_deposited v) + unat amount" using d by (simp add: ok_simps checked_add_Some_iff)
    have "vault_backed B vault token bridge (v\<lparr>tv_deposited := d\<rparr>) s4"
      using st(2,3) b' a1 a3 dd by (auto simp: vault_backed_def token_vault_is_valid_def word_le_nat_alt)
    then show ?thesis using st(1) by (auto simp: solvent_def)
  qed
  show ?thesis
  proof (cases del)
    case True
    then show ?thesis using 5 s4 by simp
  next
    case False
    then have own: "own s ?e = program" using del by (auto simp: check_deposit_target_def Let_def ok_simps split: if_splits)
    have len: "length (dat s ?e) = 106"
      using e by (auto simp: load_er_token_account_data_def bridge_load_def ok_simps er_c.try_from_slice_iff er_c.ser_length)
    have "?e \<notin> {vault, token, bridge}" using apart(3) [OF g own] len by simp
    then have "K s4 s'" using 5 False by (auto simp: ok_simps intro: store_spares)
    then show ?thesis using s4 by (rule spares_solvent)
  qed
qed

text \<open>Paying out of a vault: the transfer signed by the vault, and the new books.\<close>

lemma pay_out_solvent:
  assumes "invoke_transfer_checked B program accs seeds (tv_vault_token_account v) mint destination k amount decimals s = Inr s1"
    and "bridge_store (token_vault_codec B) (v\<lparr>tv_withdrawn := w\<rparr>) k s1 = Inr s2"
    and "solvent B program vault token bridge s" "own s k = program" "dat s k = ser (token_vault_codec B) v"
    and w: "unat w = unat (tv_withdrawn v) + unat amount" "w \<le> tv_deposited v"
  shows "solvent B program vault token bridge s2"
proof (cases "k = vault")
  case False
  have g: "G s" using assms(3) by (simp add: solvent_def)
  have "K s s1" by (rule transfer_checked_spares(1) [OF assms(1) g False])
  moreover have "K s1 s2" by (rule store_spares [OF assms(2) other_vault_apart [OF assms(4) False g]])
  ultimately show ?thesis using assms(3) spares_solvent spares_trans by blast
next
  case True
  have g: "G s" using assms(3) by (simp add: solvent_def)
  obtain v' a where b': "dat s vault = ser (token_vault_codec B) v'" "token_vault_is_valid v'" "tv_session_bridge v' = bridge"
      "tv_vault_token_account v' = token" "unpack_token B (dat s token) = Some a"
      "unat (tv_deposited v') \<le> unat (tv_withdrawn v') + unat (tk_amount a)"
    using assms(3) by (auto simp: solvent_def vault_backed_def)
  have [simp]: "v' = v" using assms(5) b'(1) True vault_c.ser_inject by auto
  have t: "tv_vault_token_account v = token" using b'(4) by simp
  note td = transfer_checked_debit [OF assms(1) [unfolded t] g]
  obtain a1 where a1: "unpack_token B (dat s1 token) = Some a1" "unat (tk_amount a) \<le> unat (tk_amount a1) + unat amount"
    using td(5) b'(5) by auto
  note st = stored_vault [OF assms(2) [unfolded True] td(1)]
  have "vault_backed B vault token bridge (v\<lparr>tv_withdrawn := w\<rparr>) s2"
    using st(2,3) b' a1 w by (auto simp: vault_backed_def token_vault_is_valid_def)
  then show ?thesis using st(1) by (auto simp: solvent_def)
qed

lemma withdraw_solvent:
  assumes "process_withdraw B program accs amount decimals s = Inr s'" "solvent B program vault token bridge s"
  shows "solvent B program vault token bridge s'"
proof -
  let ?v = "address (accs ! 1)" and ?e = "address (accs ! 2)" and ?t = "address (accs ! 5)"
  obtain b v z e w s1 s2 x seeds where v: "load_vault B program ?v (address (accs ! 3)) s = Inr v"
    and tok: "require_bridge_token_accounts b v ?t (address (accs ! 7)) (address (accs ! 8)) = Inr z"
    and e: "load_er_token_account B program ?e s = Inr e"
    and w: "ok_or (checked_add (tv_withdrawn v) amount) InsufficientFunds = Inr w" "\<not> w > tv_deposited v"
    and 1: "invoke_transfer_checked B program accs seeds ?t (address (accs ! 7)) (address (accs ! 6)) ?v amount decimals s = Inr s1"
    and 2: "bridge_store (token_vault_codec B) (v\<lparr>tv_withdrawn := w\<rparr>) ?v s1 = Inr s2"
    and 3: "bridge_store (er_token_account_codec B) x ?e s2 = Inr s'"
    using assms(1)
    by (simp only: process_withdraw_def Let_def rbind_ok guard_ok) (elim exE conjE, rule that, assumption+)
  have t: "?t = tv_vault_token_account v" using tok by (auto simp: require_bridge_token_accounts_def split: if_splits)
  have "solvent B program vault token bridge s2"
    using w by (intro pay_out_solvent [OF 1 [unfolded t] 2 assms(2) loaded_vault(1,2) [OF v]]) (auto simp: ok_simps checked_add_Some_iff)
  moreover have "K s2 s'" using store_spares [OF 3 loaded_er_apart [OF e]] assms(2) by (simp add: solvent_def)
  ultimately show ?thesis using spares_solvent by blast
qed

lemma settled_bridge:
  assumes "load_vault B program vault br s = Inr v" "solvent B program vault token bridge s"
  shows "vault_backed B vault token bridge v s" "br = bridge"
  using assms(2) loaded_vault(2,4) [OF assms(1)]
  by (auto simp: solvent_def vault_backed_def dest!: vault_c.ser_inject [OF TrueI TrueI])

text \<open>A settlement is either a repetition, or the authorization is consumed, the tokens move and the books follow.\<close>

lemma settle_inv:
  assumes "process_settle_withdrawal B program accs er_slot checksum amount withdrawn decimals s = Inr s'"
  obtains (again) v where "load_vault B program (address (accs ! 6)) (address (accs ! 4)) s = Inr v" "withdrawn \<le> tv_withdrawn v" "s' = s"
  | (pay) z v s1 s2 where "\<not> length accs < 12" "require_signer (accs ! 0) = Inr z"
      "own s (address (accs ! 4)) = own s (address (accs ! 1))"
      "load_vault B program (address (accs ! 6)) (address (accs ! 4)) s = Inr v"
      "address (accs ! 8) = tv_vault_token_account v"
      "unat withdrawn = unat (tv_withdrawn v) + unat amount" "withdrawn \<le> tv_deposited v" "tv_withdrawn v < withdrawn"
      "invoke_portal B program accs (own s (address (accs ! 1)))
         [ro_signer (address (accs ! 0)), ro (address (accs ! 1)), ro (address (accs ! 2)), rw (address (accs ! 3)),
          ro (address (accs ! 4)), ro_signer (address (accs ! 6)), ro (address (accs ! 7)), ro (address (accs ! 8)),
          ro (address (accs ! 9)), ro (address (accs ! 10)), ro (address (accs ! 11))]
         [ascii ''token_vault'', key_bytes (address (accs ! 4)), [tv_bump v]]
         (CallConsumeTokenWithdrawal \<lparr>ta_er_slot = er_slot, ta_checksum = checksum, ta_amount = amount,
            ta_withdrawn = withdrawn, ta_decimals = decimals\<rparr>) s = Inr s1"
      "invoke_transfer_checked B program accs (Some [ascii ''token_vault'', key_bytes (address (accs ! 4)), [tv_bump v]])
         (tv_vault_token_account v) (address (accs ! 10)) (address (accs ! 9)) (address (accs ! 6)) amount decimals s1 = Inr s2"
      "bridge_store (token_vault_codec B) (v\<lparr>tv_withdrawn := withdrawn\<rparr>) (address (accs ! 6)) s2 = Inr s'"
proof -
  let ?v = "address (accs ! 6)" and ?t = "address (accs ! 8)" and ?x = "address (accs ! 1)" and ?sb = "address (accs ! 4)"
  obtain z0 b v z where n: "\<not> length accs < 12" "require_signer (accs ! 0) = Inr z0" "\<not> (own s ?x \<noteq> own s (address (accs ! 2)) \<or> own s ?sb \<noteq> own s ?x \<or> address (accs ! 5) \<noteq> own s ?x)"
    and v: "load_vault B program ?v ?sb s = Inr v"
    and tok: "require_bridge_token_accounts b v ?t (address (accs ! 10)) (address (accs ! 11)) = Inr z"
    and rest: "(if withdrawn \<le> tv_withdrawn v then Inr s
      else rbind (ok_or (checked_add (tv_withdrawn v) amount) ProgArithmeticOverflow) (\<lambda>expected_withdrawn.
      if withdrawn \<noteq> expected_withdrawn \<or> withdrawn > tv_deposited v then Inl ProgInvalidArgument
      else if address (accs ! 11) \<noteq> token_id (be_portal B) then Inl IncorrectProgramId
      else rbind (invoke_portal B program accs (own s ?x)
             [ro_signer (address (accs ! 0)), ro ?x, ro (address (accs ! 2)), rw (address (accs ! 3)), ro ?sb, ro_signer ?v,
              ro (address (accs ! 7)), ro ?t, ro (address (accs ! 9)), ro (address (accs ! 10)), ro (address (accs ! 11))]
             [ascii ''token_vault'', key_bytes ?sb, [tv_bump v]]
             (CallConsumeTokenWithdrawal \<lparr>ta_er_slot = er_slot, ta_checksum = checksum, ta_amount = amount,
                ta_withdrawn = withdrawn, ta_decimals = decimals\<rparr>) s) (\<lambda>s.
      rbind (invoke_transfer_checked B program accs (Some [ascii ''token_vault'', key_bytes ?sb, [tv_bump v]]) ?t (address (accs ! 10))
               (address (accs ! 9)) ?v amount decimals s) (\<lambda>s.
      bridge_store (token_vault_codec B) (v\<lparr>tv_withdrawn := withdrawn\<rparr>) ?v s)))) = Inr s'"
    using assms
    by (simp only: process_settle_withdrawal_def Let_def rbind_ok guard_ok) (elim exE conjE, rule that, assumption+)
  have t: "?t = tv_vault_token_account v" using tok by (auto simp: require_bridge_token_accounts_def split: if_splits)
  show thesis
  proof (cases "withdrawn \<le> tv_withdrawn v")
    case True
    then show thesis using rest by (intro again [OF v]) simp_all
  next
    case False
    with rest n(1,2,3) t show thesis
      by (simp only: if_False rbind_ok guard_ok ok_or_ok checked_add_Some_iff)
        (elim exE conjE, rule pay [OF n(1,2) _ v], auto)
  qed
qed

lemma settle_solvent:
  assumes "process_settle_withdrawal B program accs er_slot checksum amount withdrawn decimals s = Inr s'"
    "solvent B program vault token bridge s" "N accs"
  shows "solvent B program vault token bridge s'"
  using assms(1)
proof (cases rule: settle_inv)
  case again
  then show ?thesis using assms(2) by simp
next
  case (pay z v s1 s2)
  let ?v = "address (accs ! 6)" and ?x = "address (accs ! 1)"
  have g: "G s" using assms(2) by (simp add: solvent_def)
  have a: "address (accs ! 0) \<noteq> vault" by (rule signer_not_vault [OF pay(2) _ assms(3)]) (use pay(1) in linarith)
  have c: "own s ?x = portal_id B \<or> ?v \<noteq> vault"
    using settled_bridge(2) [OF _ assms(2)] pay(3,4) guardedD(5) [OF g] by metis
  have k1: "K s s1" using a c by (intro invoke_portal_spares [OF pay(9) g]) (auto simp: meta_defs)
  have sol1: "solvent B program vault token bridge s1" by (rule spares_solvent [OF k1 assms(2)])
  show ?thesis
  proof (cases "?v = vault")
    case True
    have "own s1 ?v = program" "dat s1 ?v = ser (token_vault_codec B) v"
      using True k1 loaded_vault(1,2) [OF pay(4)] by (simp_all add: spares_def)
    then show ?thesis using pay(6,7) by (intro pay_out_solvent [OF pay(10,11) sol1])
  next
    case False
    have "K s1 s2" by (rule transfer_checked_spares(1) [OF pay(10) spares_guarded [OF k1 g] False])
    moreover have "K s2 s'" by (rule store_spares [OF pay(11) other_vault_apart [OF loaded_vault(1) [OF pay(4)] False g]])
    ultimately show ?thesis using sol1 spares_solvent spares_trans by blast
  qed
qed

lemma instruction_solvent:
  assumes "process_bridge_instruction B program accs instruction s = Inr s'" "solvent B program vault token bridge s" "N accs"
  shows "solvent B program vault token bridge s'"
proof -
  have g: "G s" using assms(2) by (simp add: solvent_def)
  note spare = initialize_vault_spares initialize_er_spares transfer_spares start_withdrawal_spares apply_spares
    delegate_spares undelegate_spares request_spares
  show ?thesis
    using assms g spare [THEN spares_solvent] deposit_solvent withdraw_solvent settle_solvent
    by (cases instruction) (auto simp: process_bridge_instruction_def)
qed

end

end
