(* ===== verification/Bridge_Sample.thy ===== *)
theory Bridge_Sample
  imports Bridge_Solvency Token_Props
begin

text \<open>
  The byte layouts of the bridge's structs, a token program with the account format of the SPL token program, and the
  environment in which the bridge's witnesses run.
\<close>

subsection \<open>Layouts\<close>

definition token_vault_layout :: "token_vault codec" where
  "token_vault_layout = iso_layout
     (\<lambda>x. (tv_discriminator x, tv_session_bridge x, tv_mint x, tv_vault_token_account x, tv_token_program x, tv_deposited x,
        tv_withdrawn x, tv_bump x))
     (\<lambda>(a0, a1, a2, a3, a4, a5, a6, a7).
        \<lparr>tv_discriminator = a0, tv_session_bridge = a1, tv_mint = a2, tv_vault_token_account = a3, tv_token_program = a4,
         tv_deposited = a5, tv_withdrawn = a6, tv_bump = a7\<rparr>)
     (pair_layout (word_layout 1) (pair_layout (word_layout 32) (pair_layout (word_layout 32) (pair_layout (word_layout 32)
     (pair_layout (word_layout 32) (pair_layout (word_layout 8) (pair_layout (word_layout 8) (word_layout 1))))))))"

definition er_token_account_layout :: "er_token_account codec" where
  "er_token_account_layout = iso_layout
     (\<lambda>x. (et_discriminator x, et_session_bridge x, et_owner x, et_mint x, et_amount x, et_bump x))
     (\<lambda>(a0, a1, a2, a3, a4, a5).
        \<lparr>et_discriminator = a0, et_session_bridge = a1, et_owner = a2, et_mint = a3, et_amount = a4, et_bump = a5\<rparr>)
     (pair_layout (word_layout 1) (pair_layout (word_layout 32) (pair_layout (word_layout 32) (pair_layout (word_layout 32)
     (pair_layout (word_layout 8) (word_layout 1))))))"

definition token_deposit_receipt_layout :: "token_deposit_receipt codec" where
  "token_deposit_receipt_layout = iso_layout
     (\<lambda>x. (td_discriminator x, td_session_bridge x, td_er_token_account x, td_balance x, td_withdrawn x, td_bump x))
     (\<lambda>(a0, a1, a2, a3, a4, a5).
        \<lparr>td_discriminator = a0, td_session_bridge = a1, td_er_token_account = a2, td_balance = a3, td_withdrawn = a4, td_bump = a5\<rparr>)
     (pair_layout (word_layout 1) (pair_layout (word_layout 32) (pair_layout (word_layout 32) (pair_layout (word_layout 8)
     (pair_layout (word_layout 8) (word_layout 1))))))"

definition token_deposit_progress_layout :: "token_deposit_progress codec" where
  "token_deposit_progress_layout = iso_layout (\<lambda>x. (tp_discriminator x, tp_balance x, tp_bump x))
     (\<lambda>(a0, a1, a2). \<lparr>tp_discriminator = a0, tp_balance = a1, tp_bump = a2\<rparr>)
     (pair_layout (word_layout 1) (pair_layout (word_layout 8) (word_layout 1)))"

lemma borsh_token_vault: "borsh_codec token_vault_layout (\<lambda>_. True) 146"
  unfolding token_vault_layout_def by (rule borsh_size_eq, rule borsh_isoT, (rule borsh_fields)+) auto

lemma borsh_er_token_account: "borsh_codec er_token_account_layout (\<lambda>_. True) 106"
  unfolding er_token_account_layout_def by (rule borsh_size_eq, rule borsh_isoT, (rule borsh_fields)+) auto

lemma borsh_token_deposit_receipt: "borsh_codec token_deposit_receipt_layout (\<lambda>_. True) 82"
  unfolding token_deposit_receipt_layout_def by (rule borsh_size_eq, rule borsh_isoT, (rule borsh_fields)+) auto

lemma borsh_token_deposit_progress: "borsh_codec token_deposit_progress_layout (\<lambda>_. True) 10"
  unfolding token_deposit_progress_layout_def by (rule borsh_size_eq, rule borsh_isoT, (rule borsh_fields)+) auto

lemmas bridge_layouts = borsh_token_vault borsh_er_token_account borsh_token_deposit_receipt borsh_token_deposit_progress

lemmas bridge_layout_size [simp] = bridge_layouts [THEN borsh_codec.ser_length, OF TrueI]
lemmas bridge_layout_read [simp] = bridge_layouts [THEN borsh_codec.try_from_slice_ser, OF TrueI]

subsection \<open>A token program\<close>

definition spl_unpack :: "bytes \<Rightarrow> spl_token_account option" where
  "spl_unpack bs =
     (if length bs \<noteq> 165 then None
      else Some \<lparr>tk_mint = le_word (take 32 bs), tk_owner = le_word (take 32 (drop 32 bs)),
        tk_delegate = (if take 4 (drop 72 bs) = [0, 0, 0, 0] then None else Some (le_word (take 32 (drop 76 bs)))),
        tk_amount = le_word (take 8 (drop 64 bs))\<rparr>)"

definition spl_account :: "pubkey \<Rightarrow> pubkey \<Rightarrow> u64 \<Rightarrow> bytes" where
  "spl_account mint holder amount = key_bytes mint @ key_bytes holder @ u64_le amount @ replicate 93 0"

definition spl_put :: "bytes \<Rightarrow> u64 \<Rightarrow> bytes" where
  "spl_put bs v = take 64 bs @ u64_le v @ drop 72 bs"

definition spl_transfer :: "pubkey \<Rightarrow> pubkey \<Rightarrow> pubkey \<Rightarrow> pubkey \<Rightarrow> pubkey \<Rightarrow> u64 \<Rightarrow> u8 \<Rightarrow> st \<Rightarrow> st res" where
  "spl_transfer program source mint destination authority amount decimals s =
     (case (spl_unpack (dat s source), spl_unpack (dat s destination)) of
        (Some a, Some b) \<Rightarrow>
          if own s source \<noteq> program \<or> own s destination \<noteq> program then Inl IncorrectProgramId
          else if tk_mint a \<noteq> mint \<or> tk_mint b \<noteq> mint then Inl ProgInvalidAccountData
          else if tk_owner a \<noteq> authority then Inl ProgInvalidAccountData
          else rbind (ok_or (checked_sub (tk_amount a) amount) InsufficientFunds) (\<lambda>x.
               if source = destination then Inr s
               else rbind (ok_or (checked_add (tk_amount b) amount) ProgArithmeticOverflow) (\<lambda>y.
               Inr (set_dat destination (spl_put (dat s destination) y) (set_dat source (spl_put (dat s source) x) s))))
      | _ \<Rightarrow> Inl ProgInvalidAccountData)"

lemma spl_unpack_account [simp]:
  "spl_unpack (spl_account mint holder amount) = Some \<lparr>tk_mint = mint, tk_owner = holder, tk_delegate = None, tk_amount = amount\<rparr>"
  by (simp add: spl_unpack_def spl_account_def numeral_eq_Suc)

lemma spl_unpack_put:
  "spl_unpack bs = Some a \<Longrightarrow> spl_unpack (spl_put bs v) = Some (a\<lparr>tk_amount := v\<rparr>)"
  by (auto simp: spl_unpack_def spl_put_def min_def drop_take split: if_splits)

definition sample_bridge :: "u64 \<Rightarrow> bridge_env" where
  "sample_bridge slot =
     \<lparr>be_portal = sample_env slot, portal_id = 77, foreign_call = (\<lambda>_ _ _ _. Inl IncorrectProgramId),
      token_vault_codec = token_vault_layout, er_token_account_codec = er_token_account_layout,
      token_deposit_receipt_codec = token_deposit_receipt_layout, token_deposit_progress_codec = token_deposit_progress_layout,
      unpack_token = spl_unpack, spl_transfer_checked = spl_transfer 600\<rparr>"

lemma sample_bridge_sel [simp]:
  "be_portal (sample_bridge slot) = sample_env slot" "portal_id (sample_bridge slot) = 77"
  "token_vault_codec (sample_bridge slot) = token_vault_layout" "er_token_account_codec (sample_bridge slot) = er_token_account_layout"
  "token_deposit_receipt_codec (sample_bridge slot) = token_deposit_receipt_layout"
  "token_deposit_progress_codec (sample_bridge slot) = token_deposit_progress_layout"
  "unpack_token (sample_bridge slot) = spl_unpack" "spl_transfer_checked (sample_bridge slot) = spl_transfer 600"
  "foreign_call (sample_bridge slot) k infos call s = Inl IncorrectProgramId"
  by (simp_all add: sample_bridge_def)

interpretation smb: bridge_vault "sample_bridge slot" 510 1043 540 1078 for slot
proof -
  have codecs: "bridge_codecs (sample_bridge slot)"
    using smp.portal_codecs_axioms [of slot] bridge_layouts by (simp add: bridge_codecs_def)
  have run: "\<exists>a b x. spl_unpack (dat s source) = Some a \<and> spl_unpack (dat s destination) = Some b \<and> own s source = 600
      \<and> own s destination = 600 \<and> tk_owner a = authority \<and> checked_sub (tk_amount a) amount = Some x
      \<and> (if source = destination then s' = s else \<exists>y. checked_add (tk_amount b) amount = Some y
          \<and> s' = set_dat destination (spl_put (dat s destination) y) (set_dat source (spl_put (dat s source) x) s))"
    if "spl_transfer 600 source mint destination authority amount decimals s = Inr s'"
    for source mint destination authority amount decimals s s'
    using that by (auto simp: spl_transfer_def ok_simps split: option.splits if_splits)
  have spl: "spl_token (sample_bridge slot)"
  proof
    fix bs a assume "unpack_token (sample_bridge slot) bs = Some a"
    then show "length bs = 165" by (simp add: spl_unpack_def split: if_splits)
  next
    fix source mint destination authority amount decimals s s' k
    assume "spl_transfer_checked (sample_bridge slot) source mint destination authority amount decimals s = Inr s'"
    then show "own s' k = own s k \<and> (k \<notin> {source, destination} \<longrightarrow> accts s' k = accts s k)"
      using run [of source mint destination authority amount decimals s s'] by (auto simp: set_dat_def split: if_splits)
  next
    fix source mint destination authority amount decimals s s'
    assume "spl_transfer_checked (sample_bridge slot) source mint destination authority amount decimals s = Inr s'"
    then show "\<exists>a b. unpack_token (sample_bridge slot) (dat s source) = Some a \<and> own s source = token_id (be_portal (sample_bridge slot))
        \<and> unpack_token (sample_bridge slot) (dat s destination) = Some b \<and> own s destination = token_id (be_portal (sample_bridge slot))
        \<and> (tk_owner a = authority \<or> tk_delegate a = Some authority)"
      using run [of source mint destination authority amount decimals s s'] by auto
  next
    fix source mint destination authority amount decimals s s' a b
    assume "spl_transfer_checked (sample_bridge slot) source mint destination authority amount decimals s = Inr s'"
      and u: "unpack_token (sample_bridge slot) (dat s source) = Some a" "unpack_token (sample_bridge slot) (dat s destination) = Some b"
      and ne: "source \<noteq> destination"
    then obtain x y where "checked_sub (tk_amount a) amount = Some x" "checked_add (tk_amount b) amount = Some y"
        "s' = set_dat destination (spl_put (dat s destination) y) (set_dat source (spl_put (dat s source) x) s)"
      using run [of source mint destination authority amount decimals s s'] by auto
    then show "\<exists>a' b'. unpack_token (sample_bridge slot) (dat s' source) = Some a' \<and> tk_owner a' = tk_owner a
        \<and> tk_delegate a' \<in> {tk_delegate a, None} \<and> unat (tk_amount a) = unat (tk_amount a') + unat amount
        \<and> unpack_token (sample_bridge slot) (dat s' destination) = Some b' \<and> tk_owner b' = tk_owner b \<and> tk_delegate b' = tk_delegate b
        \<and> unat (tk_amount b') = unat (tk_amount b) + unat amount"
      using u ne by (simp add: spl_unpack_put checked_sub_Some_iff checked_add_Some_iff)
  next
    fix source mint authority amount decimals s s'
    assume "spl_transfer_checked (sample_bridge slot) source mint source authority amount decimals s = Inr s'"
    then show "unpack_token (sample_bridge slot) (dat s' source) = unpack_token (sample_bridge slot) (dat s source)"
      using run [of source mint source authority amount decimals s s'] by auto
  qed
  show "bridge_vault (sample_bridge slot) 510 1043 540 1078"
    by (intro bridge_vault.intro codecs spl bridge_vault_axioms.intro) simp_all
qed

end
