(* ===== verification/Bridge_Props.thy ===== *)
theory Bridge_Props
  imports Bridge_Sample
begin

text \<open>
  What the token bridge promises: whatever instructions run, a vault holds the tokens its books owe; a withdrawal is
  settled once and pays exactly its amount; a deposit is applied once; transfers conserve the balances of a bridge.
\<close>

subsection \<open>Runs\<close>

definition bridge_at :: "u64 \<Rightarrow> bridge_env \<Rightarrow> bridge_env" where
  "bridge_at n B = B\<lparr>be_portal := at_slot n (be_portal B)\<rparr>"

lemma bridge_at_sel [simp]:
  "be_portal (bridge_at n B) = at_slot n (be_portal B)" "portal_id (bridge_at n B) = portal_id B"
  "foreign_call (bridge_at n B) = foreign_call B" "token_vault_codec (bridge_at n B) = token_vault_codec B"
  "er_token_account_codec (bridge_at n B) = er_token_account_codec B"
  "token_deposit_receipt_codec (bridge_at n B) = token_deposit_receipt_codec B"
  "token_deposit_progress_codec (bridge_at n B) = token_deposit_progress_codec B"
  "unpack_token (bridge_at n B) = unpack_token B" "spl_transfer_checked (bridge_at n B) = spl_transfer_checked B"
  by (simp_all add: bridge_at_def)

lemma bridge_at_views [simp]:
  "guarded (bridge_at n B) = guarded B" "spares (bridge_at n B) = spares B" "solvent (bridge_at n B) = solvent B"
  by (simp_all add: fun_eq_iff guarded_def spares_def solvent_def vault_backed_def at_slot_def)

lemma bridge_at_vault:
  assumes "bridge_vault B program vault token bridge"
  shows "bridge_vault (bridge_at n B) program vault token bridge"
proof -
  have c: "bridge_codecs B" and t: "spl_token B" and x: "bridge_vault_axioms B program vault token bridge"
    using assms by (simp_all add: bridge_vault_def)
  have "bridge_codecs (bridge_at n B)"
    using c at_slot_codecs [of "be_portal B" n] by (simp add: bridge_codecs_def)
  moreover have "spl_token (bridge_at n B)"
    using t by (simp add: spl_token_def at_slot_def)
  moreover have "bridge_vault_axioms (bridge_at n B) program vault token bridge"
    using x by (simp add: bridge_vault_axioms_def at_slot_def)
  ultimately show ?thesis by (rule bridge_vault.intro)
qed

text \<open>
  The bridge's instructions, at any slot, between transactions of other programs.  The vault is a derived address of the
  bridge, so it signs no transaction; other programs can neither change it nor take its tokens.
\<close>

inductive vault_run :: "bridge_env \<Rightarrow> pubkey \<Rightarrow> pubkey \<Rightarrow> pubkey \<Rightarrow> pubkey \<Rightarrow> st \<Rightarrow> st \<Rightarrow> bool"
  for B program vault token bridge s where
  start: "vault_run B program vault token bridge s s"
| instruction: "vault_run B program vault token bridge s t \<Longrightarrow> list_all (\<lambda>a. \<not> (is_signer a \<and> address a = vault)) accs \<Longrightarrow>
    process_bridge_instruction (bridge_at n B) program accs ix t = Inr u \<Longrightarrow> vault_run B program vault token bridge s u"
| other: "vault_run B program vault token bridge s t \<Longrightarrow> spares B vault token bridge t u \<Longrightarrow>
    vault_run B program vault token bridge s u"

lemma vault_run_solvent:
  assumes "bridge_vault B program vault token bridge" "solvent B program vault token bridge s"
    "vault_run B program vault token bridge s s'"
  shows "solvent B program vault token bridge s'"
  using assms(3)
proof (induction rule: vault_run.induct)
  case start
  show ?case by (rule assms(2))
next
  case (instruction t accs n ix u)
  from bridge_vault.instruction_solvent [OF bridge_at_vault [OF assms(1)] instruction(3)] instruction(2,4)
  show ?case by (auto simp: list_all_iff)
next
  case (other t u)
  then show ?case by (blast intro: spares_solvent)
qed

text \<open>C9: whatever instructions of the bridge run, by whoever and in whatever order, a vault that covers its books keeps
  covering them: it has paid out no more than was deposited, and its token account holds at least what was deposited and
  not yet paid out.\<close>

theorem vault_stays_solvent:
  assumes "bridge_vault B program vault token bridge"
    and "solvent B program vault token bridge s" "vault_run B program vault token bridge s s'"
  shows "\<exists>v a. dat s' vault = ser (token_vault_codec B) v \<and> tv_vault_token_account v = token
    \<and> own s' vault = program \<and> own s' token = token_id (be_portal B)
    \<and> unpack_token B (dat s' token) = Some a \<and> tk_owner a = vault \<and> tk_delegate a = None
    \<and> tv_withdrawn v \<le> tv_deposited v \<and> unat (tv_deposited v) - unat (tv_withdrawn v) \<le> unat (tk_amount a)"
  using vault_run_solvent [OF assms] unfolding solvent_def guarded_def vault_backed_def by auto

subsection \<open>A sample bridge\<close>

definition sample_vault :: token_vault where
  "sample_vault = \<lparr>tv_discriminator = 1, tv_session_bridge = 1078, tv_mint = 500, tv_vault_token_account = 540,
     tv_token_program = 600, tv_deposited = 100, tv_withdrawn = 20, tv_bump = 255\<rparr>"

definition sample_er_account :: er_token_account where
  "sample_er_account = \<lparr>et_discriminator = 2, et_session_bridge = 1078, et_owner = 4, et_mint = 500, et_amount = 50, et_bump = 255\<rparr>"

definition sample_bridge_accounts :: "(pubkey \<times> account) list" where
  "sample_bridge_accounts =
     [(1078, \<lparr>lamports = 2970, data = ser session_bridge_layout (registered_bridge (sample_env 0) 77 1007 bridge_args),
         owner = 77, executable = False\<rparr>),
      (1043, \<lparr>lamports = 2740, data = ser token_vault_layout sample_vault, owner = 510, executable = False\<rparr>),
      (540, \<lparr>lamports = 2930, data = spl_account 500 1043 80, owner = 600, executable = False\<rparr>),
      (550, \<lparr>lamports = 2930, data = spl_account 500 4 7, owner = 600, executable = False\<rparr>),
      (1072, \<lparr>lamports = 2340, data = ser er_token_account_layout sample_er_account, owner = 510, executable = False\<rparr>)]"

lemmas bridge_eval = load_session_bridge_def load_vault_def load_er_token_account_def require_er_token_account_pda_def
  load_er_token_account_data_def require_er_account_def require_bridge_token_accounts_def unpack_token_account_def
  require_signer_def require_system_program_def require_self_program_def bridge_load_def bridge_store_def
  token_vault_is_valid_def token_vault_DISCRIMINATOR_def er_token_account_is_valid_def er_token_account_DISCRIMINATOR_def
  find_er_token_account_pda_def sample_vault_def sample_er_account_def sample_bridge_accounts_def
  registered_bridge_def bridge_args_def session_bridge_is_valid_def invoke_transfer_checked_def spl_transfer_def meta_defs
  cpi_eval Let_def

lemma sample_solvent: "solvent (sample_bridge 0) 510 1043 540 1078 (sample_st sample_bridge_accounts)"
  unfolding solvent_def vault_backed_def
  by (intro conjI exI [of _ sample_vault])
    (simp_all add: guarded_def sample_bridge_accounts_def sample_vault_def token_vault_is_valid_def token_vault_DISCRIMINATOR_def)

lemma sample_withdraw:
  "\<exists>s'. process_bridge_instruction (bridge_at 5 (sample_bridge 0)) 510
     [signer 4, mutable 1043, mutable 1072, readonly 1078, readonly 77, mutable 540, mutable 550, readonly 500, readonly 600]
     (Withdraw 30 6) (sample_st sample_bridge_accounts) = Inr s'
     \<and> dat s' 1043 = ser token_vault_layout (sample_vault\<lparr>tv_withdrawn := 50\<rparr>)
     \<and> dat s' 540 = spl_put (spl_account 500 1043 80) 50"
  by (simp add: process_bridge_instruction_def process_withdraw_def bridge_eval)

theorem vault_stays_solvent_witness:
  "\<exists>s' v a. vault_run (sample_bridge 0) 510 1043 540 1078 (sample_st sample_bridge_accounts) s'
     \<and> dat s' 1043 = ser token_vault_layout v \<and> tv_withdrawn v = 50 \<and> spl_unpack (dat s' 540) = Some a
     \<and> unat (tv_deposited v) - unat (tv_withdrawn v) \<le> unat (tk_amount a)"
proof -
  obtain s' where s': "process_bridge_instruction (bridge_at 5 (sample_bridge 0)) 510
     [signer 4, mutable 1043, mutable 1072, readonly 1078, readonly 77, mutable 540, mutable 550, readonly 500, readonly 600]
     (Withdraw 30 6) (sample_st sample_bridge_accounts) = Inr s'"
     "dat s' 1043 = ser token_vault_layout (sample_vault\<lparr>tv_withdrawn := 50\<rparr>)" using sample_withdraw by blast
  have run: "vault_run (sample_bridge 0) 510 1043 540 1078 (sample_st sample_bridge_accounts) s'"
    by (rule vault_run.instruction [OF vault_run.start _ s'(1)]) simp
  obtain v a where v: "dat s' 1043 = ser token_vault_layout v" "spl_unpack (dat s' 540) = Some a"
      "unat (tv_deposited v) - unat (tv_withdrawn v) \<le> unat (tk_amount a)"
    using vault_stays_solvent [OF smb.bridge_vault_axioms sample_solvent run] by auto
  have "v = sample_vault\<lparr>tv_withdrawn := 50\<rparr>" using v(1) s'(2) by (intro borsh_codec.ser_inject [OF borsh_token_vault TrueI TrueI]) simp
  then have "tv_withdrawn v = 50" by simp
  then show ?thesis using run v by blast
qed

subsection \<open>Settling a withdrawal\<close>

context bridge_vault
begin

lemma consume_call:
  assumes "invoke_portal B program accs (portal_id B) [m0, m1, m2, m3, m4, m5, m6, m7, m8, m9, m10] seeds
    (CallConsumeTokenWithdrawal args) s = Inr s'"
  shows "\<exists>a. try_from_slice (token_withdrawal_authorization_codec (be_portal B)) (dat s (m_address m3)) = Some a \<and> \<not> tw_consumed a
    \<and> s' = set_dat (m_address m3) (ser (token_withdrawal_authorization_codec (be_portal B)) (a\<lparr>tw_consumed := True\<rparr>)) s"
proof -
  have "process_consume_token_withdrawal (be_portal B) (portal_id B)
      (callee_infos [m0, m1, m2, m3, m4, m5, m6, m7, m8, m9, m10]) args s = Inr s'"
    using assms by (auto simp: invoke_portal_def portal_entry_def ok_simps)
  from consume_effect [OF this [unfolded callee_infos_def list.map]] show ?thesis by auto
qed

lemma settle_pays:
  assumes "process_settle_withdrawal B program accs er_slot checksum amount withdrawn decimals s = Inr s'" "s' \<noteq> s"
    and "solvent B program vault token bridge s" "address (accs ! 6) = vault" "address (accs ! 9) \<noteq> token"
  shows "\<exists>v w a a' b b'. dat s vault = ser (token_vault_codec B) v \<and> dat s' vault = ser (token_vault_codec B) (v\<lparr>tv_withdrawn := withdrawn\<rparr>)
    \<and> unat withdrawn = unat (tv_withdrawn v) + unat amount
    \<and> try_from_slice (token_withdrawal_authorization_codec (be_portal B)) (dat s (address (accs ! 3))) = Some w \<and> \<not> tw_consumed w
    \<and> try_from_slice (token_withdrawal_authorization_codec (be_portal B)) (dat s' (address (accs ! 3))) = Some (w\<lparr>tw_consumed := True\<rparr>)
    \<and> unpack_token B (dat s token) = Some a \<and> unpack_token B (dat s' token) = Some a'
    \<and> unat (tk_amount a) = unat (tk_amount a') + unat amount
    \<and> unpack_token B (dat s (address (accs ! 9))) = Some b \<and> unpack_token B (dat s' (address (accs ! 9))) = Some b'
    \<and> unat (tk_amount b') = unat (tk_amount b) + unat amount"
  using assms(1)
proof (cases rule: settle_inv)
  case again
  then show ?thesis using assms(2) by simp
next
  case (pay z v s1 s2)
  let ?w = "address (accs ! 3)" and ?d = "address (accs ! 9)"
  let ?c = "token_withdrawal_authorization_codec (be_portal B)"
  have g: "G s" using assms(3) by (simp add: solvent_def)
  have vb: "vault_backed B vault token bridge v s" "address (accs ! 4) = bridge"
    using settled_bridge [OF _ assms(3)] pay(4) assms(4) by auto
  have tok: "tv_vault_token_account v = token" "dat s vault = ser (token_vault_codec B) v"
    using vb(1) by (auto simp: vault_backed_def)
  have "own s (address (accs ! 1)) = portal_id B" using pay(3) vb(2) guardedD(5) [OF g] by simp
  with consume_call [of accs _ _ _ "rw ?w"] pay(9) obtain w where w: "try_from_slice ?c (dat s ?w) = Some w" "\<not> tw_consumed w"
      "s1 = set_dat ?w (ser ?c (w\<lparr>tw_consumed := True\<rparr>)) s"
    by (fastforce simp: meta_defs)
  have lw: "length (dat s ?w) = 74" "length (ser ?c (w\<lparr>tw_consumed := True\<rparr>)) = 74"
    using token_auth_c.try_from_sliceD(3) [OF w(1)] token_auth_c.ser_length by auto
  have run: "spl_transfer_checked B token (address (accs ! 10)) ?d vault amount decimals s1 = Inr s2"
    using pay(10) assms(4) tok(1) by (auto simp: invoke_transfer_checked_def Let_def ok_simps split: option.splits)
  obtain a b where ab: "unpack_token B (dat s1 token) = Some a" "unpack_token B (dat s1 ?d) = Some b"
      "own s1 token = token_id (be_portal B)" "own s1 ?d = token_id (be_portal B)"
    using transfer_parties [OF run] by blast
  have ne: "?w \<noteq> token" "?w \<noteq> ?d" "?w \<noteq> vault" "vault \<noteq> token" "vault \<noteq> ?d"
    using lw w(3) guardedD [OF g] unpack_length [OF ab(2)] ab(4) ids(4) by auto
  obtain a' b' where ab': "unpack_token B (dat s2 token) = Some a'" "unat (tk_amount a) = unat (tk_amount a') + unat amount"
      "unpack_token B (dat s2 ?d) = Some b'" "unat (tk_amount b') = unat (tk_amount b) + unat amount"
    using transfer_amounts [OF run ab(1,2)] assms(5) by auto
  have s': "s' = set_dat vault (ser (token_vault_codec B) (v\<lparr>tv_withdrawn := withdrawn\<rparr>)) s2"
    using pay(11) assms(4) by (auto simp: bridge_store_def split: if_splits)
  have "accts s2 ?w = accts s1 ?w" using transfer_frame [OF run, of ?w] ne by simp
  then have "try_from_slice ?c (dat s' ?w) = Some (w\<lparr>tw_consumed := True\<rparr>)"
    using ne by (simp add: s' w(3) token_auth_c.try_from_slice_ser)
  moreover have "unpack_token B (dat s token) = Some a" "unpack_token B (dat s ?d) = Some b"
    "unpack_token B (dat s' token) = Some a'" "unpack_token B (dat s' ?d) = Some b'"
    using ab ab' ne by (simp_all add: s' w(3))
  moreover have "dat s' vault = ser (token_vault_codec B) (v\<lparr>tv_withdrawn := withdrawn\<rparr>)" by (simp add: s')
  ultimately show ?thesis using tok(2) pay(6) w(1,2) ab' by blast
qed

lemma settle_repeated:
  assumes "process_settle_withdrawal B program accs er_slot checksum amount w decimals s = Inr s'"
    and "address (accs ! 6) = vault" "dat s vault = ser (token_vault_codec B) v" "w \<le> tv_withdrawn v"
  shows "s' = s"
  using assms(1)
proof (cases rule: settle_inv)
  case (pay z v' s1 s2)
  then have "v' = v" using assms(2,3) loaded_vault(2) [OF pay(4)] by (auto dest!: vault_c.ser_inject [OF TrueI TrueI])
  then show ?thesis using pay(8) assms(4) by simp
qed

end


definition settled_args :: token_withdrawal_args where
  "settled_args = \<lparr>ta_er_slot = 7, ta_checksum = 88, ta_amount = 30, ta_withdrawn = 50, ta_decimals = 6\<rparr>"

definition settled_authorization :: token_withdrawal_authorization where
  "settled_authorization = authorization_state (sample_env 0) 1050
     (withdrawal_tuple settled_args (registered_bridge (sample_env 0) 77 1007 bridge_args) 1078 1072 1043 540 550 500 600) 255"

definition settled_st :: st where
  "settled_st = sample_st (sample_bridge_accounts @
     [(1007, \<lparr>lamports = 3540, data = ser session_layout sample_session, owner = 77, executable = False\<rparr>),
      (1050, \<lparr>lamports = 5080, data = ser checkpoint_layout (sample_checkpoint Settled), owner = 77, executable = False\<rparr>),
      (1093, \<lparr>lamports = 2020, data = ser token_withdrawal_authorization_layout settled_authorization,
         owner = 77, executable = False\<rparr>)])"

lemma settled_solvent: "solvent (sample_bridge 5) 510 1043 540 1078 settled_st"
  unfolding solvent_def vault_backed_def
  by (intro conjI exI [of _ sample_vault])
    (simp_all add: settled_st_def guarded_def sample_bridge_accounts_def sample_vault_def token_vault_is_valid_def token_vault_DISCRIMINATOR_def)

abbreviation settle_accs :: "account_info list" where
  "settle_accs \<equiv> [signer 6, readonly 1007, readonly 1050, mutable 1093, readonly 1078, readonly 77, mutable 1043, readonly 1072,
     mutable 540, mutable 550, readonly 500, readonly 600]"

lemma sample_settle:
  "\<exists>s'. process_settle_withdrawal (sample_bridge 5) 510 settle_accs 7 88 30 50 6 settled_st = Inr s'
     \<and> dat s' 1043 = ser token_vault_layout (sample_vault\<lparr>tv_withdrawn := 50\<rparr>)
     \<and> process_settle_withdrawal (bridge_at 9 (sample_bridge 5)) 510 settle_accs 7 88 30 50 6 s' = Inr s'"
  by (simp add: process_settle_withdrawal_def is_valid_settlement_session_def is_valid_settlement_checkpoint_def settled_st_def
      invoke_portal_def portal_entry_def callee_infos_def settled_authorization_def settled_args_def
      process_consume_token_withdrawal_def load_bridge_def authorization_state_def withdrawal_tuple_def
      token_withdrawal_authorization_is_valid_def token_withdrawal_tuple_hash_def settle_eval session_eval store_eval bridge_eval
      spl_unpack_put [OF spl_unpack_account])


end
