(* ===== verification/Bridge_Balances.thy ===== *)
theory Bridge_Balances
  imports Bridge_Props
begin

text \<open>
  The balances of a token bridge inside the rollup: a deposit is credited once, by what its receipt grew since the last
  credit, and a transfer conserves the balances of every bridge.
\<close>

subsection \<open>Crediting deposits\<close>

context bridge_codecs
begin

lemma er_loaded:
  assumes "load_er_token_account B program k s = Inr t"
  shows "own s k = program" "dat s k = ser (er_token_account_codec B) t" "length (dat s k) = 106" "er_token_account_is_valid t"
    "(k, et_bump t) = find_er_token_account_pda B program (et_session_bridge t) (et_owner t)"
  using assms by (auto simp: load_er_token_account_def require_er_token_account_pda_def bridge_load_def ok_simps
      er_c.try_from_slice_iff er_c.ser_length split: if_splits)

lemma apply_inv:
  assumes "process_apply_token_deposit B program accs balance s = Inr s'"
  obtains t base progress available amount p space seeds sys s1 s2 where
    "load_er_token_account B program (address (accs ! 1)) s = Inr t"
    "receipt_balance B program (address (accs ! 2)) (address (accs ! 1)) (address (accs ! 6)) s = Inr available"
    "address (accs ! 7) = fst (find_origin_pda B program (address (accs ! 1)))" "own s (address (accs ! 7)) = program"
    "try_from_slice (token_deposit_progress_codec B) (dat s (address (accs ! 7))) = Some base"
    "tp_discriminator base = ORIGIN_DISCRIMINATOR"
    "address (accs ! 8) = fst (find_deposit_cursor_pda B program (address (accs ! 1)) (tp_balance base))"
    "deposit_progress B program (address (accs ! 8)) (tp_balance base)
       (snd (find_deposit_cursor_pda B program (address (accs ! 1)) (tp_balance base))) s = Inr progress"
    "balance \<le> available" "tp_balance progress < balance"
    "checked_add (et_amount t) (balance - tp_balance progress) = Some amount"
    "(if own s (address (accs ! 8)) \<noteq> program then create_pda B program accs p (address (accs ! 8)) space program seeds sys s
      else Inr s) = Inr s1"
    "bridge_store (token_deposit_progress_codec B) (progress\<lparr>tp_balance := balance\<rparr>) (address (accs ! 8)) s1 = Inr s2"
    "bridge_store (er_token_account_codec B) (t\<lparr>et_amount := amount\<rparr>) (address (accs ! 1)) s2 = Inr s'"
  using assms
  by (simp only: process_apply_token_deposit_def bridge_load_def Let_def rbind_ok guard_ok ok_or_ok de_Morgan_disj not_not linorder_not_le linorder_not_less)
    (elim exE conjE, rule that, assumption+)

lemma deposit_progressD:
  assumes "deposit_progress B program cursor baseline bump s = Inr progress"
  shows "tp_discriminator progress = CURSOR_DISCRIMINATOR" "tp_bump progress = bump" "baseline \<le> tp_balance progress"
    "own s cursor = program \<Longrightarrow> dat s cursor = ser (token_deposit_progress_codec B) progress"
  using assms by (auto simp: deposit_progress_def bridge_load_def ok_simps progress_c.try_from_slice_iff split: if_splits)

lemma apply_effect:
  assumes "process_apply_token_deposit B program accs balance s = Inr s'"
  shows "\<exists>t base progress available amount. dat s (address (accs ! 1)) = ser (er_token_account_codec B) t
    \<and> receipt_balance B program (address (accs ! 2)) (address (accs ! 1)) (address (accs ! 6)) s = Inr available
    \<and> try_from_slice (token_deposit_progress_codec B) (dat s (fst (find_origin_pda B program (address (accs ! 1))))) = Some base
    \<and> deposit_progress B program (fst (find_deposit_cursor_pda B program (address (accs ! 1)) (tp_balance base))) (tp_balance base)
       (snd (find_deposit_cursor_pda B program (address (accs ! 1)) (tp_balance base))) s = Inr progress
    \<and> tp_balance progress < balance \<and> balance \<le> available
    \<and> checked_add (et_amount t) (balance - tp_balance progress) = Some amount
    \<and> dat s' (address (accs ! 1)) = ser (er_token_account_codec B) (t\<lparr>et_amount := amount\<rparr>)
    \<and> dat s' (fst (find_origin_pda B program (address (accs ! 1)))) = dat s (fst (find_origin_pda B program (address (accs ! 1))))
    \<and> own s' (fst (find_deposit_cursor_pda B program (address (accs ! 1)) (tp_balance base))) = program
    \<and> dat s' (fst (find_deposit_cursor_pda B program (address (accs ! 1)) (tp_balance base)))
        = ser (token_deposit_progress_codec B) (progress\<lparr>tp_balance := balance\<rparr>)"
  using assms
proof (cases rule: apply_inv)
  case (1 t base progress available amount p space seeds sys s1 s2)
  let ?a = "address (accs ! 1)" and ?o = "address (accs ! 7)" and ?c = "address (accs ! 8)"
  note t = er_loaded [OF 1(1)] and d = deposit_progressD [OF 1(8)]
  have c: "own s1 ?c = program" "k \<noteq> ?c \<Longrightarrow> dat s1 k = dat s k" "k \<noteq> ?c \<Longrightarrow> own s1 k = own s k" for k
    using 1(12) create_pda_fresh(3,4) [of B program accs p ?c space program seeds sys s s1] by (auto split: if_splits)
  have co: "?c \<noteq> ?o"
  proof
    assume same: "?c = ?o"
    then have "dat s ?o = ser (token_deposit_progress_codec B) progress" using d(4) 1(4) by simp
    then have "base = progress" using 1(5) by (simp add: progress_c.try_from_slice_ser)
    then show False using 1(6) d(1) by (simp add: ORIGIN_DISCRIMINATOR_def CURSOR_DISCRIMINATOR_def)
  qed
  have ca: "?c \<noteq> ?a"
  proof
    assume same: "?c = ?a"
    then have "length (dat s ?a) = 10" using d(4) t(1) progress_c.ser_length [of progress] by simp
    then show False using t(3) by simp
  qed
  have oa: "?o \<noteq> ?a" using progress_c.try_from_sliceD(3) [OF 1(5)] t(3) by auto
  have s: "s2 = set_dat ?c (ser (token_deposit_progress_codec B) (progress\<lparr>tp_balance := balance\<rparr>)) s1"
      "s' = set_dat ?a (ser (er_token_account_codec B) (t\<lparr>et_amount := amount\<rparr>)) s2"
    using 1(13,14) by (auto simp: bridge_store_def split: if_splits)
  show ?thesis
    using 1(2,5,8-11) t(2) c co ca oa
    by - (rule exI [of _ t], rule exI [of _ base], rule exI [of _ progress], rule exI [of _ available], rule exI [of _ amount],
      unfold 1(3) [symmetric] 1(7) [symmetric], simp add: s)
qed

end

lemma bridge_at_codecs: "bridge_codecs B \<Longrightarrow> bridge_codecs (bridge_at n B)"
  using at_slot_codecs [of "be_portal B" n] by (simp add: bridge_codecs_def)

lemma bridge_at_pdas [simp]:
  "find_origin_pda (bridge_at n B) = find_origin_pda B" "find_deposit_cursor_pda (bridge_at n B) = find_deposit_cursor_pda B"
  by (simp_all add: fun_eq_iff find_origin_pda_def find_deposit_cursor_pda_def at_slot_def)


definition applying_st :: st where
  "applying_st = sample_st (sample_bridge_accounts @
     [(6, \<lparr>lamports = 100000, data = [], owner = 0, executable = False\<rparr>),
      (1007, \<lparr>lamports = 3540, data = ser session_layout sample_session, owner = 77, executable = False\<rparr>),
      (1042, \<lparr>lamports = 1770, data = ser delegation_record_layout
         \<lparr>dr_discriminator = delegation_record_DISCRIMINATOR, dr_owner_program = 510, dr_grid_id = 3, dr_bump = 255\<rparr>,
         owner = 77, executable = False\<rparr>),
      (1077, \<lparr>lamports = 2100, data = ser token_deposit_receipt_layout
         \<lparr>td_discriminator = 3, td_session_bridge = 1078, td_er_token_account = 1072, td_balance = 160, td_withdrawn = 0, td_bump = 255\<rparr>,
         owner = 510, executable = False\<rparr>),
      (1052, \<lparr>lamports = 1380, data = ser token_deposit_progress_layout \<lparr>tp_discriminator = 4, tp_balance = 100, tp_bump = 255\<rparr>,
         owner = 510, executable = False\<rparr>)])"

abbreviation apply_accs :: "account_info list" where
  "apply_accs \<equiv> [signer 6, mutable 1072, readonly 1078, readonly 77, readonly 1007, readonly 1042, readonly 1077, readonly 1052,
     mutable 1060, readonly 0]"

lemma sample_apply:
  "\<exists>s'. process_apply_token_deposit (sample_bridge 20) 510 apply_accs 140 applying_st = Inr s'
     \<and> dat s' 1072 = ser er_token_account_layout (sample_er_account\<lparr>et_amount := 90\<rparr>)"
  by (simp add: process_apply_token_deposit_def require_bridge_delegation_def delegation_record_is_valid_def receipt_balance_def
      token_deposit_receipt_is_valid_def token_deposit_receipt_DISCRIMINATOR_def find_token_deposit_receipt_pda_def
      find_origin_pda_def find_deposit_cursor_pda_def ORIGIN_DISCRIMINATOR_def CURSOR_DISCRIMINATOR_def deposit_progress_def
      applying_st_def create_pda_def invoke_create_account_def system_create_account_def session_eval bridge_eval empty_account_def
      account_size_def)


subsection \<open>The supply of a bridge\<close>

definition er_amount :: "bridge_env \<Rightarrow> pubkey \<Rightarrow> pubkey \<Rightarrow> st \<Rightarrow> pubkey \<Rightarrow> nat" where
  "er_amount B program bridge s k =
     (case try_from_slice (er_token_account_codec B) (dat s k) of
        None \<Rightarrow> 0
      | Some t \<Rightarrow> if own s k = program \<and> er_token_account_is_valid t \<and> et_session_bridge t = bridge then unat (et_amount t) else 0)"

definition er_supply :: "bridge_env \<Rightarrow> pubkey \<Rightarrow> pubkey \<Rightarrow> st \<Rightarrow> nat" where
  "er_supply B program bridge s = (\<Sum>k\<in>UNIV. er_amount B program bridge s k)"

lemma er_supply_set_dat:
  "er_supply B program bridge (set_dat k bs s) + er_amount B program bridge s k
     = er_supply B program bridge s + er_amount B program bridge (set_dat k bs s) k"
proof -
  have "(\<Sum>j\<in>UNIV - {k}. er_amount B program bridge (set_dat k bs s) j) = (\<Sum>j\<in>UNIV - {k}. er_amount B program bridge s j)"
    by (rule sum.cong) (auto simp: er_amount_def split: option.splits)
  then show ?thesis by (simp add: er_supply_def sum.remove [of UNIV k])
qed

context bridge_codecs
begin

lemma er_supply_store:
  assumes "load_er_token_account B program k s0 = Inr t" "dat s k = dat s0 k" "own s k = own s0 k"
    and "bridge_store (er_token_account_codec B) (t\<lparr>et_amount := x\<rparr>) k s = Inr s'"
  shows "er_supply B program bridge s' + (if et_session_bridge t = bridge then unat (et_amount t) else 0)
    = er_supply B program bridge s + (if et_session_bridge t = bridge then unat x else 0)"
proof -
  have s': "s' = set_dat k (ser (er_token_account_codec B) (t\<lparr>et_amount := x\<rparr>)) s"
    using assms(4) by (auto simp: bridge_store_def split: if_splits)
  note l = er_loaded [OF assms(1)]
  have "er_amount B program bridge s k = (if et_session_bridge t = bridge then unat (et_amount t) else 0)"
    "er_amount B program bridge s' k = (if et_session_bridge t = bridge then unat x else 0)"
    using l assms(2,3) by (simp_all add: s' er_amount_def er_c.try_from_slice_ser er_token_account_is_valid_def)
  then show ?thesis using er_supply_set_dat [of B program bridge k _ s] by (simp add: s')
qed

lemma transfer_supply:
  assumes "process_transfer B program accs amount s = Inr s'"
  shows "er_supply B program bridge s' = er_supply B program bridge s"
proof -
  let ?a = "address (accs ! 1)" and ?b = "address (accs ! 2)"
  obtain a b x y t where ne: "?a \<noteq> ?b" and l: "load_er_token_account B program ?a s = Inr a" "load_er_token_account B program ?b s = Inr b"
    and same: "et_session_bridge a = et_session_bridge b"
    and xy: "checked_sub (et_amount a) amount = Some x" "checked_add (et_amount b) amount = Some y"
    and st: "bridge_store (er_token_account_codec B) (a\<lparr>et_amount := x\<rparr>) ?a s = Inr t"
      "bridge_store (er_token_account_codec B) (b\<lparr>et_amount := y\<rparr>) ?b t = Inr s'"
    using assms by (auto simp: process_transfer_def Let_def ok_simps)
  have "dat t ?b = dat s ?b" "own t ?b = own s ?b" using st(1) ne by (auto simp: bridge_store_def split: if_splits)
  from er_supply_store [OF l(1) refl refl st(1), of bridge] er_supply_store [OF l(2) this st(2), of bridge] xy same
  show ?thesis by (auto simp: checked_sub_Some_iff checked_add_Some_iff split: if_splits)
qed

lemma start_supply:
  assumes "process_start_withdrawal_token B program accs amount decimals s = Inr s'"
  shows "er_supply B program bridge s' + (if bridge = address (accs ! 2) then unat amount else 0) = er_supply B program bridge s"
proof -
  let ?a = "address (accs ! 1)"
  obtain a m x where l: "load_er_token_account B program ?a s = Inr a"
    and req: "require_er_account a (address (accs ! 2)) (address (accs ! 0)) m = Inr ()"
    and x: "checked_sub (et_amount a) amount = Some x"
    and st: "bridge_store (er_token_account_codec B) (a\<lparr>et_amount := x\<rparr>) ?a s = Inr s'"
    using assms by (auto simp: process_start_withdrawal_token_def Let_def ok_simps)
  have "et_session_bridge a = address (accs ! 2)" using req by (auto simp: require_er_account_def split: if_splits)
  with er_supply_store [OF l refl refl st, of bridge] x show ?thesis by (auto simp: checked_sub_Some_iff split: if_splits)
qed

end

text \<open>C32: inside the rollup no balance is minted: a \<open>Transfer\<close> leaves the sum of the balances of every bridge
  unchanged, and a \<open>StartWithdrawal\<close> burns exactly its amount from the named bridge and nothing from any other.\<close>

theorem er_balances_conserved:
  assumes "bridge_codecs B"
  shows "(process_transfer B program accs amount s = Inr s' \<longrightarrow> er_supply B program bridge s' = er_supply B program bridge s)
    \<and> (process_start_withdrawal_token B program accs amount decimals s = Inr s' \<longrightarrow>
        er_supply B program bridge s' + (if bridge = address (accs ! 2) then unat amount else 0) = er_supply B program bridge s)"
  using bridge_codecs.transfer_supply [OF assms] bridge_codecs.start_supply [OF assms] by blast

lemma sample_burn:
  "\<exists>s'. process_start_withdrawal_token (sample_bridge 20) 510
     [signer 4, mutable 1072, readonly 1078, readonly 77, readonly 550, readonly 600] 30 6 (sample_st sample_bridge_accounts) = Inr s'"
  by (simp add: process_start_withdrawal_token_def bridge_eval)

theorem er_balances_conserved_witness:
  "\<exists>s'. process_start_withdrawal_token (sample_bridge 20) 510
     [signer 4, mutable 1072, readonly 1078, readonly 77, readonly 550, readonly 600] 30 6 (sample_st sample_bridge_accounts) = Inr s'
     \<and> er_supply (sample_bridge 20) 510 1078 s' + 30 = er_supply (sample_bridge 20) 510 1078 (sample_st sample_bridge_accounts)
     \<and> er_supply (sample_bridge 20) 510 1079 s' = er_supply (sample_bridge 20) 510 1079 (sample_st sample_bridge_accounts)"
proof -
  obtain s' where run: "process_start_withdrawal_token (sample_bridge 20) 510
     [signer 4, mutable 1072, readonly 1078, readonly 77, readonly 550, readonly 600] 30 6 (sample_st sample_bridge_accounts) = Inr s'"
    using sample_burn by blast
  from er_balances_conserved [OF smb.bridge_codecs_axioms, of 20 510
      "[signer 4, mutable 1072, readonly 1078, readonly 77, readonly 550, readonly 600]" 30 "sample_st sample_bridge_accounts" s' 1078 6]
    er_balances_conserved [OF smb.bridge_codecs_axioms, of 20 510
      "[signer 4, mutable 1072, readonly 1078, readonly 77, readonly 550, readonly 600]" 30 "sample_st sample_bridge_accounts" s' 1079 6] run
  show ?thesis by simp
qed

end
