(* ===== verification/Bridge_Delegation.thy ===== *)
theory Bridge_Delegation
  imports Bridge_Balances
begin

text \<open>
  The way of a balance into the rollup and back.  Delegating closes the bridge's account, recreates it under the Portal and
  restores its bytes through a buffer; undelegating hands it back the same way.  Neither loses or changes the balance.
\<close>

lemma create_buffer_frame:
  assumes "create_buffer B program accs p buffer er sys s = Inr s'" "k \<noteq> buffer"
  shows "dat s' k = dat s k" "own s' k = own s k"
proof -
  obtain space seeds where c: "(if own s buffer \<noteq> program then create_pda B program accs p buffer space program seeds sys s else Inr s) = Inr s'"
    using assms(1)
    by (simp add: create_buffer_def Let_def ok_simps split del: if_split) (elim exE conjE, rule that, auto)
  show "dat s' k = dat s k" "own s' k = own s k"
    using c create_pda_fresh(3,4) [of B program accs p buffer space program seeds sys s s'] assms(2) by (auto split: if_splits)
qed

lemma copied:
  assumes "copy_data src dst s = Inr s'"
  shows "src \<noteq> dst" "s' = set_dat dst (dat s src) s" "length (dat s src) = length (dat s dst)"
  using assms by (auto simp: copy_data_def split: if_splits)

lemma close_buffer_frame:
  assumes "close_buffer B k r s = Inr s'" "j \<noteq> k"
  shows "dat s' j = dat s j" "own s' j = own s j"
  using assms by (auto simp: close_buffer_def close_def ok_simps)

context bridge_codecs
begin

lemma origin_frame:
  assumes "initialize_origin B program accs p br k receipt origin sys s = Inr s'" "own s j = program" "length (dat s j) \<noteq> 10"
  shows "dat s' j = dat s j" "own s' j = own s j"
proof -
  obtain space seeds b bal dsc t x where c: "(if own s origin \<noteq> program then create_pda B program accs p origin space program seeds sys s
         else rbind (bridge_load (token_deposit_progress_codec B) s origin) (\<lambda>previous.
              if tp_discriminator previous \<noteq> dsc \<or> tp_bump previous \<noteq> b \<or> tp_balance previous > bal
              then Inl ProgInvalidAccountData else Inr s)) = Inr t"
    and st: "bridge_store (token_deposit_progress_codec B) x origin t = Inr s'"
    using assms(1)
    by (simp only: initialize_origin_def Let_def rbind_ok guard_ok) (elim exE conjE, rule that, assumption+)
  have "dat t j = dat s j \<and> own t j = own s j \<and> j \<noteq> origin"
  proof (cases "own s origin = program")
    case True
    with c have "t = s" "length (dat s origin) = 10"
      by (auto simp: ok_simps bridge_load_def progress_c.try_from_slice_iff progress_c.ser_length)
    then show ?thesis using assms(3) by auto
  next
    case False
    then show ?thesis using c assms(2) create_pda_fresh(3,4) [of B program accs p origin space program seeds sys s t] by auto
  qed
  then show "dat s' j = dat s j" "own s' j = own s j" using st by (auto simp: bridge_store_def split: if_splits)
qed

lemma delegate_call:
  assumes "invoke_portal B program accs (portal_id B) [m0, m1, m2, m3, m4, m5, m6] seeds (CallDelegate g) s = Inr s'"
  shows "own s (m_address m3) = portal_id B" "m_address m6 \<noteq> m_address m3" "m_address m5 \<noteq> m_address m3" "m_address m6 \<noteq> m_address m5"
    "dat s' (m_address m3) = dat s (m_address m6)" "own s' (m_address m3) = portal_id B" "own s' (m_address m5) = portal_id B"
    "\<exists>dr. try_from_slice (delegation_record_codec (be_portal B)) (dat s' (m_address m5)) = Some dr
       \<and> delegation_record_is_valid dr \<and> dr_owner_program dr = m_address m4 \<and> dr_grid_id dr = g"
proof -
  let ?E = "be_portal B"
  let ?i = "\<lambda>m. \<lparr>address = m_address m, is_signer = meta_signer [m0, m1, m2, m3, m4, m5, m6] (m_address m),
     is_writable = meta_writable [m0, m1, m2, m3, m4, m5, m6] (m_address m)\<rparr>"
  have "process_delegate ?E (portal_id B) [?i m0, ?i m1, ?i m2, ?i m3, ?i m4, ?i m5, ?i m6] g s = Inr s'"
    using assms by (auto simp: invoke_portal_def portal_entry_def callee_infos_def ok_simps)
  then obtain x infos where x: "s_grid_id x = g"
    and run: "process_delegate_account ?E (portal_id B) infos (?i m0) (?i m3) (?i m4) (?i m5) (?i m6) x s = Inr s'"
    by (auto simp: process_delegate_def validate_session_def ok_simps)
  note e = delegate_account_effect [OF run]
  let ?dr = "delegation_state ?E (portal_id B) (m_address m3) (m_address m4) x"
  show "own s (m_address m3) = portal_id B" "m_address m6 \<noteq> m_address m3" "m_address m5 \<noteq> m_address m3" "m_address m6 \<noteq> m_address m5"
    "dat s' (m_address m3) = dat s (m_address m6)" "own s' (m_address m3) = portal_id B" "own s' (m_address m5) = portal_id B"
    using e(3,7-9) e(10,11) by auto
  have "dat s' (m_address m5) = ser (delegation_record_codec ?E) ?dr" using e(7) e(10) by auto
  then have "try_from_slice (delegation_record_codec ?E) (dat s' (m_address m5)) = Some ?dr"
    by (simp add: delegation_record_c.try_from_slice_ser)
  moreover have "delegation_record_is_valid ?dr" "dr_owner_program ?dr = m_address m4" "dr_grid_id ?dr = g"
    by (simp_all add: delegation_state_def delegation_record_is_valid_def x)
  ultimately show "\<exists>dr. try_from_slice (delegation_record_codec ?E) (dat s' (m_address m5)) = Some dr
       \<and> delegation_record_is_valid dr \<and> dr_owner_program dr = m_address m4 \<and> dr_grid_id dr = g" by blast
qed

lemma delegate_keeps_balance:
  assumes "process_delegate_er_token_account B program accs grid_id s = Inr s'" "address (accs ! 5) = portal_id B"
  shows "own s (address (accs ! 2)) = program" "own s' (address (accs ! 2)) = portal_id B"
    "dat s' (address (accs ! 2)) = dat s (address (accs ! 2))" "own s' (address (accs ! 7)) = portal_id B"
    "\<exists>dr. try_from_slice (delegation_record_codec (be_portal B)) (dat s' (address (accs ! 7))) = Some dr
       \<and> delegation_record_is_valid dr \<and> dr_owner_program dr = program \<and> dr_grid_id dr = grid_id"
proof -
  let ?p = "address (accs ! 0)" and ?e = "address (accs ! 2)" and ?b = "address (accs ! 8)" and ?P = "address (accs ! 5)" and ?r = "address (accs ! 7)"
  let ?ms = "[rw_signer ?p, ro (bridge_system B), ro (address (accs ! 6)), rw_signer ?e, ro program, rw ?r, ro ?b]"
  obtain t sys s1 s2 s3 s4 s5 s6 seeds r o' where e: "load_er_token_account B program ?e s = Inr t"
    and 1: "initialize_origin B program accs ?p (address (accs ! 4)) ?e r o' sys s = Inr s1"
    and 2: "create_buffer B program accs ?p ?b ?e sys s1 = Inr s2"
    and 3: "copy_data ?e ?b s2 = Inr s3"
    and 4: "close_buffer B ?e ?p s3 = Inr s4"
    and 5: "create_pda B program accs ?p ?e (length (dat s2 ?e)) ?P seeds sys s4 = Inr s5"
    and 6: "invoke_portal B program accs ?P ?ms seeds (CallDelegate grid_id) s5 = Inr s6"
    and 7: "close_buffer B ?b ?p s6 = Inr s'"
    using assms(1)
    by (simp only: process_delegate_er_token_account_def Let_def rbind_ok guard_ok) (elim exE conjE, rule that, assumption+)
  note l = er_loaded [OF e] and c = copied [OF 3] and d = delegate_call [OF 6 [unfolded assms(2)], simplified meta_defs account_meta.simps]
  have "dat s2 ?e = dat s ?e" using create_buffer_frame(1) [OF 2 c(1)] origin_frame(1) [OF 1 l(1)] l(3) by simp
  moreover have "dat s4 ?b = dat s3 ?b" by (rule close_buffer_frame(1) [OF 4 c(1) [symmetric]])
  moreover have "dat s5 ?b = dat s4 ?b" using create_pda_fresh(4) [OF 5, of ?b] c(1) by simp
  ultimately have "dat s5 ?b = dat s ?e" using c(2) by simp
  then show "own s ?e = program" "own s' ?e = portal_id B" "dat s' ?e = dat s ?e" "own s' ?r = portal_id B"
    "\<exists>dr. try_from_slice (delegation_record_codec (be_portal B)) (dat s' ?r) = Some dr
       \<and> delegation_record_is_valid dr \<and> dr_owner_program dr = program \<and> dr_grid_id dr = grid_id"
    using l(1) d close_buffer_frame [OF 7, of ?e] close_buffer_frame [OF 7, of ?r] c(1) by auto
qed

lemma handoff_call:
  assumes "invoke_portal B program accs (portal_id B) ms seeds CallUndelegateHandoff s = Inr s'" "length ms = 7" "length (dat s k) = 106"
    "k \<noteq> m_address (ms ! 1)"
  shows "dat s' k = dat s k"
proof -
  let ?infos = "callee_infos ms"
  let ?d = "address (?infos ! Suc 0)" and ?r = "address (?infos ! 3)" and ?q = "address (?infos ! 6)"
  let ?t = "set_own ?d (address (?infos ! 2)) (if list_ex (\<lambda>b. b \<noteq> 0) (dat s ?d) then fill_zero ?d s else s)"
  have run: "process_undelegate_inner (be_portal B) (portal_id B) ?infos True s = Inr s'"
    using assms(1) by (auto simp: invoke_portal_def portal_entry_def process_undelegate_handoff_def ok_simps)
  obtain q dr where dr: "try_from_slice (delegation_record_codec (be_portal B)) (dat s ?r) = Some dr"
    and q: "try_from_slice (undelegation_request_codec (be_portal B)) (dat s ?q) = Some q"
    and fin: "undelegate_refund (address (?infos ! 0)) ?r ?q ?t = Inr s'"
    using run
    by (simp add: process_undelegate_inner_def Let_def ok_simps del: set_own_read fill_zero_read callee_infos_sel)
      (elim exE conjE, rule that, simp_all del: set_own_read fill_zero_read callee_infos_sel split del: if_split)
  have "k \<notin> {?r, ?q}"
    using assms(3) delegation_record_c.try_from_sliceD(3) [OF dr] undelegation_request_c.try_from_sliceD(3) [OF q] by auto
  moreover have "k \<noteq> ?d" using assms(2,4) by simp
  ultimately show ?thesis using undelegate_refund_frame(2) [OF fin, of k] by simp
qed

lemma undelegate_keeps_balance:
  assumes "process_undelegate_er_token_account B program accs s = Inr s'" "address (accs ! 3) = portal_id B"
  shows "own s (address (accs ! 1)) = portal_id B" "own s' (address (accs ! 1)) = program"
    "dat s' (address (accs ! 1)) = dat s (address (accs ! 1))"
    "\<exists>t. dat s (address (accs ! 1)) = ser (er_token_account_codec B) t \<and> et_owner t = address (accs ! 0) \<and> is_signer (accs ! 0)"
proof -
  let ?a = "address (accs ! 0)" and ?e = "address (accs ! 1)" and ?b = "address (accs ! 6)" and ?P = "address (accs ! 3)"
  let ?ms = "[rw_signer ?a, rw_signer ?e, ro program, rw (address (accs ! 5)), ro (bridge_system B), ro (address (accs ! 4)), rw (address (accs ! 8))]"
  obtain z t sys s1 s2 s3 s4 seeds where sig: "require_signer (accs ! 0) = Inr z" and o: "\<not> own s ?e \<noteq> ?P"
    and 1: "create_buffer B program accs ?a ?b ?e sys s = Inr s1"
    and 2: "copy_data ?e ?b s1 = Inr s2"
    and t: "load_er_token_account_data B ?b s2 = Inr t" "\<not> et_owner t \<noteq> ?a"
    and 3: "invoke_portal B program accs ?P ?ms seeds CallUndelegateHandoff s2 = Inr s3" "\<not> own s3 ?e \<noteq> program"
    and 4: "copy_data ?b ?e s3 = Inr s4"
    and 5: "close_buffer B ?b ?a s4 = Inr s'"
    using assms(1)
    by (simp only: process_undelegate_er_token_account_def Let_def rbind_ok guard_ok) (elim exE conjE, rule that, assumption+)
  note c = copied [OF 2] and c' = copied [OF 4]
  have ser: "dat s2 ?b = ser (er_token_account_codec B) t"
    using t(1) by (auto simp: load_er_token_account_data_def bridge_load_def ok_simps er_c.try_from_slice_iff)
  have e: "dat s2 ?b = dat s ?e" using c create_buffer_frame(1) [OF 1 c(1)] by simp
  have "dat s3 ?b = dat s2 ?b"
    using handoff_call [OF 3(1) [unfolded assms(2)], of ?b] c(1) by (simp add: ser er_c.ser_length meta_defs)
  then show "own s ?e = portal_id B" "own s' ?e = program" "dat s' ?e = dat s ?e"
    using o assms(2) 3(2) c' e close_buffer_frame [OF 5, of ?e] c(1) by simp_all
  show "\<exists>t. dat s ?e = ser (er_token_account_codec B) t \<and> et_owner t = ?a \<and> is_signer (accs ! 0)"
    using e ser t(2) sig by (intro exI [of _ t]) (simp add: require_signer_def split: if_splits)
qed

end

text \<open>C33: a balance survives the way into the rollup and back.  \<open>DelegateErTokenAccount\<close> leaves the account with the
  same bytes, owned by the Portal, next to a delegation record that names the bridge and the grid; \<open>UndelegateErTokenAccount\<close>,
  signed by the owner of the balance, leaves it with the same bytes, owned by the bridge again.\<close>

theorem delegation_keeps_balance:
  assumes "bridge_codecs B"
  shows "(process_delegate_er_token_account B program accs grid_id s = Inr s' \<and> address (accs ! 5) = portal_id B \<longrightarrow>
      own s (address (accs ! 2)) = program \<and> own s' (address (accs ! 2)) = portal_id B
      \<and> dat s' (address (accs ! 2)) = dat s (address (accs ! 2)) \<and> own s' (address (accs ! 7)) = portal_id B
      \<and> (\<exists>dr. try_from_slice (delegation_record_codec (be_portal B)) (dat s' (address (accs ! 7))) = Some dr
           \<and> delegation_record_is_valid dr \<and> dr_owner_program dr = program \<and> dr_grid_id dr = grid_id))
    \<and> (process_undelegate_er_token_account B program accs s = Inr s' \<and> address (accs ! 3) = portal_id B \<longrightarrow>
      own s (address (accs ! 1)) = portal_id B \<and> own s' (address (accs ! 1)) = program
      \<and> dat s' (address (accs ! 1)) = dat s (address (accs ! 1))
      \<and> (\<exists>t. dat s (address (accs ! 1)) = ser (er_token_account_codec B) t \<and> et_owner t = address (accs ! 0) \<and> is_signer (accs ! 0)))"
proof -
  note d = bridge_codecs.delegate_keeps_balance [OF assms] and u = bridge_codecs.undelegate_keeps_balance [OF assms]
  show ?thesis by (intro conjI impI; elim conjE) (rule d u; assumption)+
qed

definition delegating_st :: st where
  "delegating_st = sample_st (sample_bridge_accounts @
     [(5, \<lparr>lamports = 100000, data = [], owner = 0, executable = False\<rparr>),
      (1007, \<lparr>lamports = 3540, data = ser session_layout sample_session, owner = 77, executable = False\<rparr>)])"

abbreviation delegate_accs :: "account_info list" where
  "delegate_accs \<equiv> [signer 5, signer 4, mutable 1072, readonly 510, readonly 1078, readonly 77, readonly 1007, mutable 1042,
     mutable 1054, readonly 0, readonly 1077, mutable 1052]"

lemma sample_delegate:
  "\<exists>s'. process_delegate_er_token_account (sample_bridge 20) 510 delegate_accs 3 delegating_st = Inr s'"
  by (simp add: process_delegate_er_token_account_def initialize_origin_def receipt_balance_def find_token_deposit_receipt_pda_def
      find_origin_pda_def ORIGIN_DISCRIMINATOR_def create_buffer_def find_buffer_pda_def copy_data_def close_buffer_def close_def
      er_signer_seeds_def invoke_portal_def portal_entry_def callee_infos_def process_delegate_def validate_session_def
      process_delegate_account_def delegating_st_def create_pda_def invoke_create_account_def system_create_account_def
      session_eval bridge_eval store_eval account_size_def)

theorem delegation_keeps_balance_witness:
  "\<exists>s'. process_delegate_er_token_account (sample_bridge 20) 510 delegate_accs 3 delegating_st = Inr s'
     \<and> own s' 1072 = 77 \<and> dat s' 1072 = ser er_token_account_layout sample_er_account"
proof -
  obtain s' where run: "process_delegate_er_token_account (sample_bridge 20) 510 delegate_accs 3 delegating_st = Inr s'"
    using sample_delegate by blast
  have "dat delegating_st 1072 = ser er_token_account_layout sample_er_account" by (simp add: delegating_st_def sample_bridge_accounts_def)
  with delegation_keeps_balance [OF smb.bridge_codecs_axioms, of 20 510 delegate_accs 3 delegating_st s'] run
  show ?thesis by auto
qed

end
