(* ===== verification/Merkle.thy ===== *)
theory Merkle
  imports Zk_Types
begin

text \<open>
  The Merkle trees of checkpoint artifacts (\<open>northstar/src/checkpoint.rs\<close>): domain-separated hashes per
  kind of tree, construction of all layers over leaves padded to a power of two, authentication
  paths and their verification.  The hash function is a parameter.
\<close>

subsection \<open>Errors and hashes\<close>

datatype checkpoint_artifact_error =
  EncodingFailed | UnsupportedArtifactVersion | InvalidStepCount | InvalidStepIndex | InvalidStateRoot | InvalidStateAccounts
  | InvalidTransaction | InvalidTransactionEffect | InvalidReadonlyL1Values | InvalidSettlementEffects | InvalidManifest
  | InvalidPage | CommitmentMismatch

text \<open>An operation fails with an error of the enum, or panics.\<close>

datatype artifact_failure = Failed checkpoint_artifact_error | Aborted

type_synonym 'a ares = "artifact_failure + 'a"

datatype tree_kind = StateTree | TraceTree | TransactionEffectTree | ReadonlyL1Tree | SettlementEffectTree | DataAvailabilityTree

fun tree_tag :: "tree_kind \<Rightarrow> bytes" where
  "tree_tag StateTree = ascii ''state''"
| "tree_tag TraceTree = ascii ''trace''"
| "tree_tag TransactionEffectTree = ascii ''transaction-effect''"
| "tree_tag ReadonlyL1Tree = ascii ''readonly-l1''"
| "tree_tag SettlementEffectTree = ascii ''settlement-effect''"
| "tree_tag DataAvailabilityTree = ascii ''data-availability''"

fun root_is_field :: "tree_kind \<Rightarrow> bool" where
  "root_is_field StateTree = True"
| "root_is_field ReadonlyL1Tree = True"
| "root_is_field SettlementEffectTree = True"
| "root_is_field _ = False"

definition CHECKPOINT_HASH_DOMAIN_V1 :: bytes where "CHECKPOINT_HASH_DOMAIN_V1 = ascii ''northstar-checkpoint-v1''"

definition node_hash :: "hasher \<Rightarrow> tree_kind \<Rightarrow> u32 \<Rightarrow> hash32 \<Rightarrow> hash32 \<Rightarrow> hash32" where
  "node_hash hash kind level left right =
     hash [CHECKPOINT_HASH_DOMAIN_V1, tree_tag kind, ascii ''node'', u32_le level, key_bytes left, key_bytes right]"

definition root_hash :: "hasher \<Rightarrow> tree_kind \<Rightarrow> u32 \<Rightarrow> hash32 \<Rightarrow> hash32" where
  "root_hash hash kind leaf_count inner =
     (let root = hash [CHECKPOINT_HASH_DOMAIN_V1, tree_tag kind, ascii ''root'', u32_le leaf_count, key_bytes inner]
      in if root_is_field kind then mask_root root else root)"

definition typed_hash :: "hasher \<Rightarrow> tree_kind \<Rightarrow> bytes \<Rightarrow> bytes \<Rightarrow> hash32" where
  "typed_hash hash kind label bs =
     (let len = if length bs < 2 ^ 64 then of_nat (length bs) else - 1
      in hash [CHECKPOINT_HASH_DOMAIN_V1, tree_tag kind, label, u64_le len, bs])"

text \<open>\<open>u32::try_from\<close> of a \<open>usize\<close>.\<close>

definition to_u32 :: "nat \<Rightarrow> u32 ares" where
  "to_u32 n = (if n < 2 ^ 32 then Inr (of_nat n) else Inl (Failed EncodingFailed))"

definition empty_leaf_hash :: "hasher \<Rightarrow> tree_kind \<Rightarrow> nat \<Rightarrow> hash32 ares" where
  "empty_leaf_hash hash kind index =
     rbind (to_u32 index) (\<lambda>index. Inr (typed_hash hash kind (ascii ''empty-leaf'') (u32_le index)))"

subsection \<open>Trees\<close>

record merkle_tree =
  mt_kind :: tree_kind
  mt_leaf_count :: u32
  mt_layers :: "hash32 list list"

text \<open>The results of a fallible function over a list, up to the first failure.\<close>

fun collect :: "('a \<Rightarrow> 'e + 'b) \<Rightarrow> 'a list \<Rightarrow> 'e + 'b list" where
  "collect f [] = Inr []"
| "collect f (x # xs) = rbind (f x) (\<lambda>y. rbind (collect f xs) (\<lambda>ys. Inr (y # ys)))"

fun next_layer :: "hasher \<Rightarrow> tree_kind \<Rightarrow> u32 \<Rightarrow> hash32 list \<Rightarrow> hash32 list" where
  "next_layer hash kind level (l # r # rest) = node_hash hash kind level l r # next_layer hash kind level rest"
| "next_layer hash kind level _ = []"

lemma length_next_layer [simp]: "length (next_layer hash kind level xs) = length xs div 2"
  by (induction hash kind level xs rule: next_layer.induct) auto

text \<open>The loop over the layers, from the leaves up, and its level counter.\<close>

function build_layers :: "hasher \<Rightarrow> tree_kind \<Rightarrow> u32 \<Rightarrow> hash32 list \<Rightarrow> hash32 list list ares" where
  "build_layers hash kind level layer =
     (if length layer > 1 then
        rbind (ok_or (checked_add level 1) (Failed EncodingFailed)) (\<lambda>level'.
        rbind (build_layers hash kind level' (next_layer hash kind level layer)) (\<lambda>layers. Inr (layer # layers)))
      else Inr [layer])"
  by pat_completeness auto
termination by (relation "measure (\<lambda>(hash, kind, level, layer). length layer)") auto

declare build_layers.simps [simp del]

definition MerkleTree_new :: "hasher \<Rightarrow> tree_kind \<Rightarrow> hash32 list \<Rightarrow> merkle_tree ares" where
  "MerkleTree_new hash kind leaves =
     rbind (to_u32 (length leaves)) (\<lambda>leaf_count.
     let width = power_from 1 (max (length leaves) 1)
     in rbind (collect (empty_leaf_hash hash kind) [length leaves..<width]) (\<lambda>padding.
        rbind (build_layers hash kind 0 (leaves @ padding)) (\<lambda>layers.
        Inr \<lparr>mt_kind = kind, mt_leaf_count = leaf_count, mt_layers = layers\<rparr>)))"

definition MerkleTree_root :: "hasher \<Rightarrow> merkle_tree \<Rightarrow> hash32 ares" where
  "MerkleTree_root hash t =
     (case mt_layers t of [] \<Rightarrow> Inl Aborted
      | _ \<Rightarrow> (case last (mt_layers t) of [] \<Rightarrow> Inl Aborted
              | inner # _ \<Rightarrow> Inr (root_hash hash (mt_kind t) (mt_leaf_count t) inner)))"

record merkle_path =
  mp_leaf_index :: u32
  mp_leaf_count :: u32
  mp_siblings :: "hash32 list"

text \<open>The index of the sibling, \<open>index ^ 1\<close>.\<close>

definition sibling_index :: "nat \<Rightarrow> nat" where
  "sibling_index i = (if even i then Suc i else i - 1)"

fun layer_siblings :: "nat \<Rightarrow> hash32 list list \<Rightarrow> hash32 list ares" where
  "layer_siblings index [] = Inr []"
| "layer_siblings index (layer # layers) =
     (if sibling_index index \<ge> length layer then Inl Aborted
      else rbind (layer_siblings (index div 2) layers) (\<lambda>siblings. Inr (layer ! sibling_index index # siblings)))"

definition MerkleTree_path :: "merkle_tree \<Rightarrow> nat \<Rightarrow> merkle_path ares" where
  "MerkleTree_path t leaf_index =
     (if leaf_index \<ge> unat (mt_leaf_count t) then Inl (Failed InvalidPage)
      else rbind (layer_siblings leaf_index (take (length (mt_layers t) - 1) (mt_layers t))) (\<lambda>siblings.
      rbind (to_u32 leaf_index) (\<lambda>i.
      Inr \<lparr>mp_leaf_index = i, mp_leaf_count = mt_leaf_count t, mp_siblings = siblings\<rparr>)))"

text \<open>The loop over the siblings of a path; a level that is no \<open>u32\<close> refuses it.\<close>

fun climb_path :: "hasher \<Rightarrow> tree_kind \<Rightarrow> nat \<Rightarrow> nat \<Rightarrow> hash32 list \<Rightarrow> hash32 \<Rightarrow> hash32 option" where
  "climb_path hash kind level index [] current = Some current"
| "climb_path hash kind level index (sibling # siblings) current =
     (if level \<ge> 2 ^ 32 then None
      else climb_path hash kind (Suc level) (index div 2) siblings
        (if even index then node_hash hash kind (of_nat level) current sibling
         else node_hash hash kind (of_nat level) sibling current))"

definition verify_path :: "hasher \<Rightarrow> merkle_path \<Rightarrow> tree_kind \<Rightarrow> hash32 \<Rightarrow> hash32 \<Rightarrow> bool" where
  "verify_path hash p kind leaf_hash expected_root =
     (if mp_leaf_count p = 0 \<or> mp_leaf_index p \<ge> mp_leaf_count p then False
      else
      let width = power_from 1 (max (unat (mp_leaf_count p)) 1)
      in if length (mp_siblings p) \<noteq> zeros_below width then False
      else (case climb_path hash kind 0 (unat (mp_leaf_index p)) (mp_siblings p) leaf_hash of
              None \<Rightarrow> False
            | Some current \<Rightarrow> root_hash hash kind (mp_leaf_count p) current = expected_root))"

subsection \<open>Every tree has a root and a path for each leaf\<close>

lemma collect_map: "(\<And>x. x \<in> set xs \<Longrightarrow> f x = Inr (g x)) \<Longrightarrow> collect f xs = Inr (map g xs)"
  by (induction xs) auto

lemma collect_ok: "collect f xs = Inr ys \<longleftrightarrow> list_all2 (\<lambda>x y. f x = Inr y) xs ys"
  by (induction xs arbitrary: ys) (auto simp: rbind_ok list_all2_Cons1)

lemma next_layer_nth:
  "i < length xs div 2 \<Longrightarrow> next_layer hash kind level xs ! i = node_hash hash kind level (xs ! (2 * i)) (xs ! Suc (2 * i))"
proof (induction hash kind level xs arbitrary: i rule: next_layer.induct)
  case (1 hash kind level l r rest)
  then show ?case by (cases i) auto
qed auto

text \<open>Over \<open>2 ^ k\<close> hashes there are \<open>Suc k\<close> layers, of halving lengths, and the last has one hash.\<close>

lemma build_layers_power:
  assumes "length layer = 2 ^ k" "unat level + k < 2 ^ 32"
  shows "\<exists>ls root. build_layers hash kind level layer = Inr (layer # ls) \<and> length ls = k
    \<and> last (layer # ls) = [root]
    \<and> (\<forall>i < 2 ^ k. \<exists>siblings. layer_siblings i (take k (layer # ls)) = Inr siblings \<and> length siblings = k
         \<and> climb_path hash kind (unat level) i siblings (layer ! i) = Some root)"
  using assms
proof (induction k arbitrary: level layer)
  case 0
  then obtain x where "layer = [x]" by (cases layer) auto
  then show ?case by (simp add: build_layers.simps)
next
  case (Suc k)
  let ?next = "next_layer hash kind level layer"
  have "1 < (2::nat) ^ Suc k" by (rule one_less_power) simp_all
  then have len: "length ?next = 2 ^ k" "1 < length layer" using Suc.prems(1) by (simp_all only: length_next_layer) simp
  have up: "checked_add level 1 = Some (level + 1)" "unat (level + 1) = Suc (unat level)"
    using Suc.prems(2) by (auto simp: checked_add_def unat_word_ariths)
  obtain ls root where ls: "build_layers hash kind (level + 1) ?next = Inr (?next # ls)" "length ls = k" "last (?next # ls) = [root]"
    and paths: "\<forall>i < 2 ^ k. \<exists>siblings. layer_siblings i (take k (?next # ls)) = Inr siblings \<and> length siblings = k
         \<and> climb_path hash kind (Suc (unat level)) i siblings (?next ! i) = Some root"
    using Suc.IH [of ?next "level + 1"] len(1) Suc.prems(2) up(2) by auto
  have "\<exists>siblings. layer_siblings i (take (Suc k) (layer # ?next # ls)) = Inr siblings \<and> length siblings = Suc k
       \<and> climb_path hash kind (unat level) i siblings (layer ! i) = Some root" if i: "i < 2 ^ Suc k" for i
  proof -
    have h: "i div 2 < 2 ^ k" "i div 2 < length layer div 2" using i len(1) by auto
    obtain siblings where s: "layer_siblings (i div 2) (take k (?next # ls)) = Inr siblings" "length siblings = k"
        "climb_path hash kind (Suc (unat level)) (i div 2) siblings (?next ! (i div 2)) = Some root"
      using paths h(1) by blast
    have b: "sibling_index i < length layer"
      using i Suc.prems(1) by (auto simp: sibling_index_def elim!: evenE)
    have "?next ! (i div 2) = (if even i then node_hash hash kind level (layer ! i) (layer ! sibling_index i)
        else node_hash hash kind level (layer ! sibling_index i) (layer ! i))"
      using next_layer_nth [OF h(2), of hash kind level] by (auto simp: sibling_index_def elim!: evenE oddE)
    then have "climb_path hash kind (unat level) i (layer ! sibling_index i # siblings) (layer ! i) = Some root"
      using s(3) Suc.prems(2) by (simp split: if_splits)
    then show ?thesis using s(1,2) b by simp
  qed
  then show ?case
    using ls len(2) up(1) by (intro exI [of _ "?next # ls"] exI [of _ root]) (simp add: build_layers.simps [of hash kind level layer])
qed


text \<open>The width of the leaf layer is a power of two with an exponent of at most 32, and the number of leaves fits in it.\<close>

definition tree_depth :: "nat \<Rightarrow> nat" where
  "tree_depth n = zeros_below (power_from 1 (max n 1))"

lemma width_power [simp]: "power_from (Suc 0) (max n (Suc 0)) = 2 ^ tree_depth n"
  using power_from_power [of 0 "max n 1"] by (auto simp: tree_depth_def)

lemma width_bounds:
  shows "n \<le> 2 ^ tree_depth n" and "n \<le> 2 ^ k \<Longrightarrow> tree_depth n \<le> k"
proof -
  show "n \<le> 2 ^ tree_depth n" using power_from_ge [of 1 "max n 1"] by simp
  have "power_from 1 (max n 1) \<le> 2 ^ k" if "n \<le> 2 ^ k"
    using power_from_least [of 1 "max n 1" k] that by simp
  then show "tree_depth n \<le> k" if "n \<le> 2 ^ k" using that by simp
qed

lemma empty_leaves:
  assumes "m \<le> 2 ^ 32"
  shows "collect (empty_leaf_hash hash kind) [n..<m] = Inr (map (\<lambda>i. typed_hash hash kind (ascii ''empty-leaf'') (u32_le (of_nat i))) [n..<m])"
  using assms by (intro collect_map) (simp add: empty_leaf_hash_def to_u32_def)

definition leaf_layer :: "hasher \<Rightarrow> tree_kind \<Rightarrow> hash32 list \<Rightarrow> hash32 list" where
  "leaf_layer hash kind leaves = leaves @ map (\<lambda>i. typed_hash hash kind (ascii ''empty-leaf'') (u32_le (of_nat i)))
     [length leaves..<2 ^ tree_depth (length leaves)]"

lemma length_leaf_layer [simp]: "length (leaf_layer hash kind leaves) = 2 ^ tree_depth (length leaves)"
  using width_bounds(1) [of "length leaves"] by (simp add: leaf_layer_def)

lemma nth_leaf_layer [simp]: "i < length leaves \<Longrightarrow> leaf_layer hash kind leaves ! i = leaves ! i"
  by (simp add: leaf_layer_def nth_append)

lemma MerkleTree_new_layers:
  assumes "length leaves < 2 ^ 32"
  shows "MerkleTree_new hash kind leaves = rbind (build_layers hash kind 0 (leaf_layer hash kind leaves)) (\<lambda>layers.
     Inr \<lparr>mt_kind = kind, mt_leaf_count = of_nat (length leaves), mt_layers = layers\<rparr>)"
proof -
  have "tree_depth (length leaves) \<le> 32" using assms by (intro width_bounds(2)) simp
  then have "(2::nat) ^ tree_depth (length leaves) \<le> 2 ^ 32" by (intro power_increasing) simp_all
  from empty_leaves [OF this, of hash kind "length leaves"] assms show ?thesis
    by (simp add: MerkleTree_new_def leaf_layer_def to_u32_def)
qed

text \<open>The tree over a list of leaves, its root, and the path of each leaf.\<close>

lemma MerkleTree_complete:
  assumes "length leaves < 2 ^ 32"
  obtains t root where "MerkleTree_new hash kind leaves = Inr t" "mt_leaf_count t = of_nat (length leaves)"
    "length (mt_layers t) = Suc (tree_depth (length leaves))" "MerkleTree_root hash t = Inr root"
    "\<And>i. i < length leaves \<Longrightarrow> \<exists>p. MerkleTree_path t i = Inr p \<and> mp_leaf_index p = of_nat i
       \<and> mp_leaf_count p = of_nat (length leaves) \<and> length (mp_siblings p) = tree_depth (length leaves)
       \<and> verify_path hash p kind (leaves ! i) root"
proof -
  let ?n = "length leaves" and ?l = "leaf_layer hash kind leaves"
  let ?d = "tree_depth ?n"
  have d: "?d \<le> 32" using assms by (intro width_bounds(2)) simp
  then have "unat (0::u32) + ?d < 2 ^ 32" by simp
  from build_layers_power [OF length_leaf_layer this, of hash kind hash kind]
  obtain ls inner where b: "build_layers hash kind 0 ?l = Inr (?l # ls)" "length ls = ?d" "last (?l # ls) = [inner]"
    and paths: "\<forall>i < 2 ^ ?d. \<exists>siblings. layer_siblings i (take ?d (?l # ls)) = Inr siblings \<and> length siblings = ?d
         \<and> climb_path hash kind (unat (0::u32)) i siblings (?l ! i) = Some inner"
    by blast
  let ?t = "\<lparr>mt_kind = kind, mt_leaf_count = of_nat ?n, mt_layers = ?l # ls\<rparr>"
  have "\<exists>p. MerkleTree_path ?t i = Inr p \<and> mp_leaf_index p = of_nat i
       \<and> mp_leaf_count p = of_nat ?n \<and> length (mp_siblings p) = ?d
       \<and> verify_path hash p kind (leaves ! i) (root_hash hash kind (of_nat ?n) inner)" if i: "i < ?n" for i
  proof -
    have "i < 2 ^ ?d" using i width_bounds(1) [of ?n] by simp
    then obtain siblings where s: "layer_siblings i (take ?d (?l # ls)) = Inr siblings" "length siblings = ?d"
        "climb_path hash kind (unat (0::u32)) i siblings (?l ! i) = Some inner"
      using paths by blast
    have w: "unat (of_nat ?n :: u32) = ?n" "unat (of_nat i :: u32) = i" using assms i by (simp_all add: unat_of_nat take_bit_nat_eq_self)
    then have "of_nat ?n \<noteq> (0::u32)" "\<not> of_nat i \<ge> (of_nat ?n :: u32)" using i by (auto simp: word_le_nat_alt)
    moreover have "zeros_below (power_from (Suc 0) ?n) = ?d" using i by (simp add: tree_depth_def max.absorb1)
    ultimately have "verify_path hash \<lparr>mp_leaf_index = of_nat i, mp_leaf_count = of_nat ?n, mp_siblings = siblings\<rparr> kind (leaves ! i)
        (root_hash hash kind (of_nat ?n) inner)"
      using s(2,3) i by (simp add: verify_path_def w)
    then show ?thesis using s(1,2) b(2) i assms by (simp add: MerkleTree_path_def to_u32_def w)
  qed
  moreover have "MerkleTree_root hash ?t = Inr (root_hash hash kind (of_nat ?n) inner)"
    using b(3) by (simp add: MerkleTree_root_def)
  ultimately show ?thesis
    using that [of ?t "root_hash hash kind (of_nat ?n) inner"] b(1,2) assms by (simp add: MerkleTree_new_layers)
qed

lemma MerkleTree_new_ok:
  "MerkleTree_new hash kind leaves = Inr t \<Longrightarrow> length leaves < 2 ^ 32"
  by (rule ccontr) (simp add: MerkleTree_new_def to_u32_def)

lemma tree_path_verifies:
  assumes "MerkleTree_new hash kind leaves = Inr t" "MerkleTree_root hash t = Inr root" "MerkleTree_path t i = Inr p"
  shows "i < length leaves" "mp_leaf_index p = of_nat i" "mp_leaf_count p = of_nat (length leaves)"
    "length (mp_siblings p) = tree_depth (length leaves)" "verify_path hash p kind (leaves ! i) root"
proof -
  have n: "length leaves < 2 ^ 32" using assms(1) by (rule MerkleTree_new_ok)
  obtain t' root' where t: "MerkleTree_new hash kind leaves = Inr t'" "mt_leaf_count t' = of_nat (length leaves)"
      "MerkleTree_root hash t' = Inr root'"
    and p: "\<And>i. i < length leaves \<Longrightarrow> \<exists>p. MerkleTree_path t' i = Inr p \<and> mp_leaf_index p = of_nat i
       \<and> mp_leaf_count p = of_nat (length leaves) \<and> length (mp_siblings p) = tree_depth (length leaves)
       \<and> verify_path hash p kind (leaves ! i) root'"
    using MerkleTree_complete [OF n, of hash kind] by metis
  have eq: "t' = t" "root' = root" using t assms by simp_all
  have "\<not> i \<ge> unat (mt_leaf_count t)" using assms(3) by (auto simp: MerkleTree_path_def)
  then show i: "i < length leaves" using t(2) n by (simp add: eq unat_of_nat take_bit_nat_eq_self)
  show "mp_leaf_index p = of_nat i" "mp_leaf_count p = of_nat (length leaves)"
    "length (mp_siblings p) = tree_depth (length leaves)" "verify_path hash p kind (leaves ! i) root"
    using p [OF i] assms(3) by (auto simp: eq)
qed

text \<open>C29: Building a tree always returns.  It refuses only a list of leaves whose length is no \<open>u32\<close>, and otherwise
  has, besides the leaves, as many layers as the least power of two that holds them has halvings; its root
  is defined, so the \<open>expect\<close> and the index in \<open>root\<close> never panic.\<close>

theorem merkle_new_returns:
  "case MerkleTree_new hash kind leaves of
     Inl e \<Rightarrow> e = Failed EncodingFailed \<and> 2 ^ 32 \<le> length leaves
   | Inr t \<Rightarrow> length leaves < 2 ^ 32 \<and> length leaves \<le> 2 ^ (length (mt_layers t) - 1)
       \<and> (length (mt_layers t) = 1 \<or> 2 ^ (length (mt_layers t) - 2) < length leaves)
       \<and> (\<exists>root. MerkleTree_root hash t = Inr root)"
proof (cases "length leaves < 2 ^ 32")
  case True
  from MerkleTree_complete [OF True, of hash kind]
  obtain t root where t: "MerkleTree_new hash kind leaves = Inr t" "length (mt_layers t) = Suc (tree_depth (length leaves))"
      "MerkleTree_root hash t = Inr root"
    by blast
  have "2 ^ (k - 1) < length leaves" if "tree_depth (length leaves) = k" "k \<noteq> 0" for k
    using width_bounds(2) [of "length leaves" "k - 1"] that by (cases "length leaves \<le> 2 ^ (k - 1)") auto
  then show ?thesis using t True width_bounds(1) [of "length leaves"] by (cases "tree_depth (length leaves)") auto
next
  case False
  then show ?thesis by (simp add: MerkleTree_new_def to_u32_def)
qed

text \<open>A tree proves each of its leaves: the path that \<open>path\<close> returns for an index of a leaf has that index
  and the tree's leaf count, and \<open>verify\<close> accepts it for the leaf and the tree's root.\<close>

theorem merkle_paths_verify:
  assumes "MerkleTree_new hash kind leaves = Inr t" "MerkleTree_root hash t = Inr root" "i < length leaves"
  shows "\<exists>p. MerkleTree_path t i = Inr p \<and> unat (mp_leaf_index p) = i \<and> unat (mp_leaf_count p) = length leaves
    \<and> verify_path hash p kind (leaves ! i) root"
proof -
  have n: "length leaves < 2 ^ 32" using assms(1) by (rule MerkleTree_new_ok)
  obtain p where p: "MerkleTree_path t i = Inr p"
    using MerkleTree_complete [OF n, of hash kind] assms(1,3) by (metis sum.inject(2))
  from tree_path_verifies [OF assms(1,2) p] p n assms(3) show ?thesis by (simp add: unat_of_nat take_bit_nat_eq_self)
qed

definition sum_hash :: hasher where
  "sum_hash parts = of_nat (sum_list (map unat (concat parts)))"

theorem merkle_paths_verify_witness:
  "\<exists>t root p. MerkleTree_new sum_hash TraceTree [5, 6, 7] = Inr t \<and> MerkleTree_root sum_hash t = Inr root
     \<and> MerkleTree_path t 2 = Inr p \<and> unat (mp_leaf_index p) = 2 \<and> verify_path sum_hash p TraceTree 7 root"
proof -
  obtain t root where t: "MerkleTree_new sum_hash TraceTree [5, 6, 7] = Inr t" "MerkleTree_root sum_hash t = Inr root"
    by (rule MerkleTree_complete [of "[5, 6, 7]" sum_hash TraceTree]) simp_all
  have "2 < length [5, 6, 7 :: hash32]" by simp
  from merkle_paths_verify [OF t this]
  obtain p where "MerkleTree_path t 2 = Inr p" "unat (mp_leaf_index p) = 2" "verify_path sum_hash p TraceTree ([5, 6, 7] ! 2) root"
    by (elim exE conjE) (rule that)
  then show ?thesis using t by (intro exI conjI) simp_all
qed

subsection \<open>A root binds its leaves\<close>

text \<open>The messages hashed on the way up from a leaf, and with the root.\<close>

fun climb_messages :: "hasher \<Rightarrow> tree_kind \<Rightarrow> nat \<Rightarrow> nat \<Rightarrow> hash32 list \<Rightarrow> hash32 \<Rightarrow> bytes list list" where
  "climb_messages hash kind level index [] current = []"
| "climb_messages hash kind level index (sibling # siblings) current =
     (let (l, r) = if even index then (current, sibling) else (sibling, current)
      in [CHECKPOINT_HASH_DOMAIN_V1, tree_tag kind, ascii ''node'', u32_le (of_nat level), key_bytes l, key_bytes r]
         # climb_messages hash kind (Suc level) (index div 2) siblings (node_hash hash kind (of_nat level) l r))"

definition path_messages :: "hasher \<Rightarrow> tree_kind \<Rightarrow> merkle_path \<Rightarrow> hash32 \<Rightarrow> bytes list list" where
  "path_messages hash kind p leaf =
     (case climb_path hash kind 0 (unat (mp_leaf_index p)) (mp_siblings p) leaf of None \<Rightarrow> []
      | Some current \<Rightarrow> [[CHECKPOINT_HASH_DOMAIN_V1, tree_tag kind, ascii ''root'', u32_le (mp_leaf_count p), key_bytes current]])
     @ climb_messages hash kind 0 (unat (mp_leaf_index p)) (mp_siblings p) leaf"

text \<open>The digest as a root keeps it: for a field root without its top three bits.\<close>

definition kept_digest :: "hasher \<Rightarrow> tree_kind \<Rightarrow> bytes list \<Rightarrow> hash32" where
  "kept_digest hash kind parts = (if root_is_field kind then mask_root (hash parts) else hash parts)"

definition digest_collision :: "hasher \<Rightarrow> tree_kind \<Rightarrow> bytes list list \<Rightarrow> bytes list list \<Rightarrow> bool" where
  "digest_collision hash kind ps qs \<longleftrightarrow>
     list_ex (\<lambda>p. list_ex (\<lambda>q. concat p \<noteq> concat q \<and> kept_digest hash kind p = kept_digest hash kind q) qs) ps"

lemma key_bytes_eq_iff [simp]: "key_bytes a = key_bytes b \<longleftrightarrow> a = b" for a b :: hash32
  by (rule le_bytes_inject) simp

lemma climb_binds:
  assumes "climb_path hash kind level index ss a = Some x" "climb_path hash kind level index ts b = Some x"
    "length ss = length ts"
  shows "a = b \<and> ss = ts
    \<or> (\<exists>p \<in> set (climb_messages hash kind level index ss a). \<exists>q \<in> set (climb_messages hash kind level index ts b).
         concat p \<noteq> concat q \<and> hash p = hash q)"
  using assms
proof (induction ss arbitrary: ts level index a b)
  case Nil
  then show ?case by simp
next
  case (Cons s ss)
  then obtain t ts' where ts: "ts = t # ts'" by (cases ts) auto
  let ?m = "\<lambda>u v. if even index then (u, v) else (v, u)"
  let ?up = "\<lambda>u v. node_hash hash kind (of_nat level) (fst (?m u v)) (snd (?m u v))"
  let ?msg = "\<lambda>u v. [CHECKPOINT_HASH_DOMAIN_V1, tree_tag kind, ascii ''node'', u32_le (of_nat level),
      key_bytes (fst (?m u v)), key_bytes (snd (?m u v))]"
  have up: "climb_path hash kind (Suc level) (index div 2) ss (?up a s) = Some x"
    "climb_path hash kind (Suc level) (index div 2) ts' (?up b t) = Some x" "length ss = length ts'"
    using Cons.prems by (auto simp: ts split: if_splits)
  define ma mb where m: "ma = ?msg a s" "mb = ?msg b t"
  have msgs: "climb_messages hash kind level index (s # ss) a
      = ma # climb_messages hash kind (Suc level) (index div 2) ss (?up a s)"
    "climb_messages hash kind level index ts b
      = mb # climb_messages hash kind (Suc level) (index div 2) ts' (?up b t)"
    by (auto simp: ts m)
  have same: "concat ma = concat mb \<Longrightarrow> a = b \<and> s = t"
    by (auto simp: m append_eq_append_conv split: if_splits)
  from Cons.IH [OF up] show ?case
  proof (elim disjE conjE)
    assume "?up a s = ?up b t" "ss = ts'"
    then have "hash ma = hash mb" by (simp add: node_hash_def m)
    then show ?thesis using same \<open>ss = ts'\<close> unfolding msgs unfolding ts by (cases "concat ma = concat mb") simp_all
  next
    assume "\<exists>p \<in> set (climb_messages hash kind (Suc level) (index div 2) ss (?up a s)).
      \<exists>q \<in> set (climb_messages hash kind (Suc level) (index div 2) ts' (?up b t)). concat p \<noteq> concat q \<and> hash p = hash q"
    then show ?thesis unfolding msgs by (intro disjI2) (elim bexE, intro bexI, assumption, simp_all only: list.set insert_iff simp_thms)
  qed
qed

text \<open>C28: A root binds its leaves.  Two paths that one root accepts for the same index of equally many leaves
  authenticate the same leaf hash with the same siblings, or the messages they hash contain two different ones
  with the same digest.\<close>

theorem merkle_root_binds:
  assumes "verify_path hash p kind a root" "verify_path hash q kind b root"
    "mp_leaf_index q = mp_leaf_index p" "mp_leaf_count q = mp_leaf_count p"
  shows "a = b \<and> p = q \<or> digest_collision hash kind (path_messages hash kind p a) (path_messages hash kind q b)"
proof -
  let ?climb = "\<lambda>p. climb_path hash kind 0 (unat (mp_leaf_index p)) (mp_siblings p)"
  let ?root = "\<lambda>x. [CHECKPOINT_HASH_DOMAIN_V1, tree_tag kind, ascii ''root'', u32_le (mp_leaf_count p), key_bytes x]"
  obtain x y where x: "?climb p a = Some x" "root_hash hash kind (mp_leaf_count p) x = root"
      and y: "?climb q b = Some y" "root_hash hash kind (mp_leaf_count p) y = root"
    and len: "length (mp_siblings p) = length (mp_siblings q)"
    using assms by (auto simp: verify_path_def Let_def split: if_splits option.splits)
  have msgs: "set (path_messages hash kind p a) = insert (?root x) (set (climb_messages hash kind 0 (unat (mp_leaf_index p)) (mp_siblings p) a))"
    "set (path_messages hash kind q b) = insert (?root y) (set (climb_messages hash kind 0 (unat (mp_leaf_index p)) (mp_siblings q) b))"
    using x(1) y(1) assms(3,4) by (simp_all add: path_messages_def)
  have roots: "kept_digest hash kind (?root x) = kept_digest hash kind (?root y)"
    using x(2) y(2) by (auto simp: root_hash_def kept_digest_def Let_def)
  show ?thesis
  proof (cases "x = y")
    case False
    then have "concat (?root x) \<noteq> concat (?root y)" by simp
    then show ?thesis using roots by (auto simp: digest_collision_def list_ex_iff msgs)
  next
    case True
    from climb_binds [OF x(1) _ len, of b] y(1) True assms(3)
    consider "a = b" "mp_siblings p = mp_siblings q"
      | m n where "m \<in> set (path_messages hash kind p a)" "n \<in> set (path_messages hash kind q b)" "concat m \<noteq> concat n" "hash m = hash n"
      unfolding msgs by auto
    then show ?thesis
    proof cases
      case 1
      then show ?thesis using assms(3,4) by simp
    next
      case 2
      then have "kept_digest hash kind m = kept_digest hash kind n" by (simp add: kept_digest_def)
      then show ?thesis using 2 unfolding digest_collision_def list_ex_iff by blast
    qed
  qed
qed

theorem merkle_root_binds_witness:
  "digest_collision sum_hash TraceTree
     (path_messages sum_hash TraceTree \<lparr>mp_leaf_index = 0, mp_leaf_count = 2, mp_siblings = [6]\<rparr> 5)
     (path_messages sum_hash TraceTree \<lparr>mp_leaf_index = 0, mp_leaf_count = 2, mp_siblings = [5]\<rparr> 6)"
proof -
  have "zeros_below (power_from (Suc 0) (Suc (Suc 0))) = 1"
    by code_simp
  then have *: "verify_path sum_hash \<lparr>mp_leaf_index = 0, mp_leaf_count = 2, mp_siblings = [s]\<rparr> TraceTree l
      (root_hash sum_hash TraceTree 2 (node_hash sum_hash TraceTree 0 l s))" for l s
    by (simp add: verify_path_def)
  have "node_hash sum_hash TraceTree 0 6 5 = node_hash sum_hash TraceTree 0 5 6"
    by (simp add: node_hash_def sum_hash_def)
  with merkle_root_binds [OF * [of 6 5] * [of 5 6, unfolded this]] show ?thesis by simp
qed

end
