(* ===== verification/Checkpoint_Artifact.thy ===== *)
theory Checkpoint_Artifact
  imports Merkle
begin

text \<open>
  The checkpoint artifacts of the node (\<open>northstar/src/checkpoint.rs\<close>): the steps of a checkpoint, their
  commitments in four Merkle trees, the data-availability pages with authentication paths, the manifest, and
  the verification of an artifact by rebuilding it.  The hash function and the Borsh encoders are
  parameters.
\<close>

subsection \<open>Data\<close>

definition CHECKPOINT_FORMAT_VERSION_V1 :: u8 where "CHECKPOINT_FORMAT_VERSION_V1 = 1"
definition CANONICAL_CHECKPOINT_STEPS_V1 :: nat where "CANONICAL_CHECKPOINT_STEPS_V1 = 16"
definition MAX_TRANSACTION_BYTES_V1 :: nat where "MAX_TRANSACTION_BYTES_V1 = 1232"
definition MAX_TRANSACTION_EFFECT_BYTES_V1 :: nat where "MAX_TRANSACTION_EFFECT_BYTES_V1 = 1048576"
definition MAX_SETTLEMENT_EFFECT_BYTES_V1 :: nat where "MAX_SETTLEMENT_EFFECT_BYTES_V1 = 16384"
definition MAX_READONLY_L1_VALUES_PER_STEP_V1 :: nat where "MAX_READONLY_L1_VALUES_PER_STEP_V1 = 256"
definition MAX_SETTLEMENT_EFFECTS_PER_STEP_V1 :: nat where "MAX_SETTLEMENT_EFFECTS_PER_STEP_V1 = 256"
definition MAX_STATE_ACCOUNTS_PER_STEP_V1 :: nat where "MAX_STATE_ACCOUNTS_PER_STEP_V1 = 4096"

record readonly_l1_value =
  rv_account :: pubkey
  rv_owner :: pubkey
  rv_lamports :: u64
  rv_data_hash :: hash32
  rv_observed_l1_slot :: u64

record state_account_value =
  sv_account :: pubkey
  sv_owner :: pubkey
  sv_lamports :: u64
  sv_executable :: bool
  sv_rent_epoch :: u64
  sv_data_hash :: hash32

record step_input =
  si_step_index :: u32
  si_transaction :: bytes
  si_transaction_effect :: bytes
  si_pre_state_accounts :: "state_account_value list"
  si_post_state_accounts :: "state_account_value list"
  si_pre_state_root :: hash32
  si_post_state_root :: hash32
  si_readonly_l1_values :: "readonly_l1_value list"
  si_settlement_effects :: "bytes list"

record authenticated_readonly_l1_value =
  ar_global_index :: u32
  ar_value_index :: u32
  ar_value :: readonly_l1_value
  ar_path :: merkle_path

record authenticated_settlement_effect =
  ae_global_index :: u32
  ae_effect_index :: u32
  ae_effect :: bytes
  ae_path :: merkle_path

record da_step_page =
  dp_version :: u8
  dp_page_index :: u32
  dp_step_index :: u32
  dp_transaction :: bytes
  dp_transaction_effect :: bytes
  dp_transaction_effect_commitment :: hash32
  dp_pre_state_accounts :: "state_account_value list"
  dp_post_state_accounts :: "state_account_value list"
  dp_pre_state_root :: hash32
  dp_post_state_root :: hash32
  dp_pre_state_path :: merkle_path
  dp_post_state_path :: merkle_path
  dp_transaction_effect_path :: merkle_path
  dp_readonly_l1_values :: "authenticated_readonly_l1_value list"
  dp_settlement_effects :: "authenticated_settlement_effect list"

datatype da_codec = Raw

record da_page_descriptor =
  pd_page_index :: u32
  pd_step_index :: u32
  pd_uncompressed_len :: u32
  pd_encoded_len :: u32
  pd_payload_hash :: hash32

record da_manifest =
  dm_version :: u8
  dm_session :: pubkey
  dm_er_slot :: u64
  dm_step_count :: u32
  dm_codec :: da_codec
  dm_dictionary_hash :: hash32
  dm_trace_root :: hash32
  dm_transaction_effect_root :: hash32
  dm_readonly_l1_root :: hash32
  dm_effect_commitment :: hash32
  dm_pages :: "da_page_descriptor list"

record da_package =
  pk_manifest :: da_manifest
  pk_pages :: "da_step_page list"

record checkpoint_commitment =
  kc_version :: u8
  kc_session :: pubkey
  kc_er_slot :: u64
  kc_step_count :: u32
  kc_previous_state_root :: hash32
  kc_new_state_root :: hash32
  kc_trace_root :: hash32
  kc_transaction_effect_root :: hash32
  kc_readonly_l1_root :: hash32
  kc_da_commitment :: hash32
  kc_effect_commitment :: hash32

record checkpoint_artifact =
  ca_checkpoint :: checkpoint_commitment
  ca_da :: da_package

text \<open>The hash function and the encoders the node links: SHA-256 and the derived Borsh instances of the leaves,
  the page, the manifest and the artifact.\<close>

record artifact_env =
  ahash :: hasher
  enc_state_leaf :: "u32 \<Rightarrow> state_account_value \<Rightarrow> bytes option"
  enc_trace_leaf :: "u32 \<Rightarrow> hash32 \<Rightarrow> bytes option"
  enc_transaction_leaf :: "u32 \<Rightarrow> bytes \<Rightarrow> bytes \<Rightarrow> bytes option"
  enc_readonly_leaf :: "u32 \<Rightarrow> u32 \<Rightarrow> u32 \<Rightarrow> readonly_l1_value \<Rightarrow> bytes option"
  enc_settlement_leaf :: "u32 \<Rightarrow> u32 \<Rightarrow> u32 \<Rightarrow> bytes \<Rightarrow> bytes option"
  enc_page :: "da_step_page \<Rightarrow> bytes option"
  enc_manifest :: "da_manifest \<Rightarrow> bytes option"
  enc_artifact :: "checkpoint_artifact \<Rightarrow> bytes option"
  dec_artifact :: "bytes \<Rightarrow> checkpoint_artifact option"

subsection \<open>Leaves and state roots\<close>

definition encode :: "bytes option \<Rightarrow> bytes ares" where
  "encode encoded = ok_or encoded (Failed EncodingFailed)"

definition trace_leaf_hash :: "artifact_env \<Rightarrow> u32 \<Rightarrow> hash32 \<Rightarrow> hash32 ares" where
  "trace_leaf_hash A index state_root =
     rbind (encode (enc_trace_leaf A index state_root)) (\<lambda>bs. Inr (typed_hash (ahash A) TraceTree (ascii ''leaf'') bs))"

definition transaction_effect_leaf_hash :: "artifact_env \<Rightarrow> u32 \<Rightarrow> bytes \<Rightarrow> bytes \<Rightarrow> hash32 ares" where
  "transaction_effect_leaf_hash A index transaction transaction_effect =
     rbind (encode (enc_transaction_leaf A index transaction transaction_effect)) (\<lambda>bs.
     Inr (mask_root (typed_hash (ahash A) TransactionEffectTree (ascii ''leaf'') bs)))"

definition readonly_l1_leaf_hash :: "artifact_env \<Rightarrow> u32 \<Rightarrow> u32 \<Rightarrow> u32 \<Rightarrow> readonly_l1_value \<Rightarrow> hash32 ares" where
  "readonly_l1_leaf_hash A global_index step_index value_index v =
     rbind (encode (enc_readonly_leaf A global_index step_index value_index v)) (\<lambda>bs.
     Inr (typed_hash (ahash A) ReadonlyL1Tree (ascii ''leaf'') bs))"

definition settlement_effect_leaf_hash :: "artifact_env \<Rightarrow> u32 \<Rightarrow> u32 \<Rightarrow> u32 \<Rightarrow> bytes \<Rightarrow> hash32 ares" where
  "settlement_effect_leaf_hash A global_index step_index effect_index effect =
     rbind (encode (enc_settlement_leaf A global_index step_index effect_index effect)) (\<lambda>bs.
     Inr (typed_hash (ahash A) SettlementEffectTree (ascii ''leaf'') bs))"

text \<open>The derived orders: the fields one after the other, addresses and hashes by their bytes.  Each field
  contributes whether it is less and whether it is equal.\<close>

fun lex_less :: "(bool \<times> bool) list \<Rightarrow> bool" where
  "lex_less [] = False"
| "lex_less ((lt, same) # rest) = (lt \<or> same \<and> lex_less rest)"

definition key_less :: "pubkey \<Rightarrow> pubkey \<Rightarrow> bool" where
  "key_less a b = bytes_less (key_bytes a) (key_bytes b)"

definition readonly_less :: "readonly_l1_value \<Rightarrow> readonly_l1_value \<Rightarrow> bool" where
  "readonly_less a b = lex_less
     [(key_less (rv_account a) (rv_account b), rv_account a = rv_account b),
      (key_less (rv_owner a) (rv_owner b), rv_owner a = rv_owner b),
      (rv_lamports a < rv_lamports b, rv_lamports a = rv_lamports b),
      (key_less (rv_data_hash a) (rv_data_hash b), rv_data_hash a = rv_data_hash b),
      (rv_observed_l1_slot a < rv_observed_l1_slot b, rv_observed_l1_slot a = rv_observed_l1_slot b)]"

definition state_account_less :: "state_account_value \<Rightarrow> state_account_value \<Rightarrow> bool" where
  "state_account_less a b = lex_less
     [(key_less (sv_account a) (sv_account b), sv_account a = sv_account b),
      (key_less (sv_owner a) (sv_owner b), sv_owner a = sv_owner b),
      (sv_lamports a < sv_lamports b, sv_lamports a = sv_lamports b),
      (\<not> sv_executable a \<and> sv_executable b, sv_executable a = sv_executable b),
      (sv_rent_epoch a < sv_rent_epoch b, sv_rent_epoch a = sv_rent_epoch b),
      (key_less (sv_data_hash a) (sv_data_hash b), sv_data_hash a = sv_data_hash b)]"

definition state_root_v1 :: "artifact_env \<Rightarrow> state_account_value list \<Rightarrow> hash32 ares" where
  "state_root_v1 A accounts =
     (if \<not> successively state_account_less accounts \<or> list_ex (\<lambda>a. sv_data_hash a = 0) accounts
      then Inl (Failed InvalidStateAccounts)
      else rbind (collect (\<lambda>(index, account). rbind (to_u32 index) (\<lambda>i.
               rbind (encode (enc_state_leaf A i account)) (\<lambda>bs. Inr (typed_hash (ahash A) StateTree (ascii ''leaf'') bs))))
             (enumerate 0 accounts)) (\<lambda>leaves.
      rbind (MerkleTree_new (ahash A) StateTree leaves) (MerkleTree_root (ahash A))))"

subsection \<open>Validation of the steps\<close>

fun insert_effects :: "bytes list \<Rightarrow> bytes list \<Rightarrow> bytes list ares" where
  "insert_effects seen [] = Inr seen"
| "insert_effects seen (effect # effects) =
     (if effect = [] \<or> length effect > MAX_SETTLEMENT_EFFECT_BYTES_V1 \<or> effect \<in> set seen
      then Inl (Failed InvalidSettlementEffects)
      else insert_effects (effect # seen) effects)"

text \<open>The loop of \<open>validate_steps\<close> over the steps from an index on, with the transactions and effects seen so far
  and the post-state root of the previous step.\<close>

fun validate_from :: "artifact_env \<Rightarrow> bytes list \<Rightarrow> bytes list \<Rightarrow> nat \<Rightarrow> hash32 option \<Rightarrow> step_input list \<Rightarrow> unit ares" where
  "validate_from A transactions effects index prev [] = Inr ()"
| "validate_from A transactions effects index prev (step # steps) =
     (if unat (si_step_index step) \<noteq> index then Inl (Failed InvalidStepIndex)
      else if length (si_pre_state_accounts step) > MAX_STATE_ACCOUNTS_PER_STEP_V1
        \<or> length (si_post_state_accounts step) > MAX_STATE_ACCOUNTS_PER_STEP_V1
        \<or> state_root_v1 A (si_pre_state_accounts step) \<noteq> Inr (si_pre_state_root step)
        \<or> state_root_v1 A (si_post_state_accounts step) \<noteq> Inr (si_post_state_root step)
      then Inl (Failed InvalidStateAccounts)
      else if si_pre_state_root step = 0 \<or> si_post_state_root step = 0
        \<or> \<not> is_ok (FrBytes_new (key_bytes (si_pre_state_root step)))
        \<or> \<not> is_ok (FrBytes_new (key_bytes (si_post_state_root step)))
        \<or> (case prev of None \<Rightarrow> False | Some root \<Rightarrow> root \<noteq> si_pre_state_root step)
      then Inl (Failed InvalidStateRoot)
      else if si_transaction step = [] \<or> length (si_transaction step) > MAX_TRANSACTION_BYTES_V1
        \<or> si_transaction step \<in> set transactions
      then Inl (Failed InvalidTransaction)
      else if si_transaction_effect step = [] \<or> length (si_transaction_effect step) > MAX_TRANSACTION_EFFECT_BYTES_V1
      then Inl (Failed InvalidTransactionEffect)
      else if length (si_readonly_l1_values step) > MAX_READONLY_L1_VALUES_PER_STEP_V1
        \<or> \<not> successively readonly_less (si_readonly_l1_values step)
      then Inl (Failed InvalidReadonlyL1Values)
      else if length (si_settlement_effects step) > MAX_SETTLEMENT_EFFECTS_PER_STEP_V1
      then Inl (Failed InvalidSettlementEffects)
      else rbind (insert_effects effects (si_settlement_effects step)) (\<lambda>effects'.
      validate_from A (si_transaction step # transactions) effects' (Suc index) (Some (si_post_state_root step)) steps))"

definition validate_steps :: "artifact_env \<Rightarrow> step_input list \<Rightarrow> unit ares" where
  "validate_steps A steps =
     (if \<not> (1 \<le> length steps \<and> length steps \<le> CANONICAL_CHECKPOINT_STEPS_V1) then Inl (Failed InvalidStepCount)
      else validate_from A [] [] 0 None steps)"

subsection \<open>Building an artifact\<close>

text \<open>An index into a vector panics out of range; \<open>checked_add\<close> on \<open>usize\<close> fails at \<open>2 ^ 64\<close>.\<close>

definition vec_at :: "'a list \<Rightarrow> nat \<Rightarrow> 'a ares" where
  "vec_at xs i = (if i < length xs then Inr (xs ! i) else Inl Aborted)"

definition usize_add :: "nat \<Rightarrow> nat \<Rightarrow> nat ares" where
  "usize_add a b = (if a + b < 2 ^ 64 then Inr (a + b) else Inl (Failed EncodingFailed))"

text \<open>The leaves of the readonly values, or of the settlement effects, of one step, numbered across the checkpoint
  and within the step; and those of all steps with the offset at which each step starts.\<close>

fun value_leaves ::
  "(u32 \<Rightarrow> u32 \<Rightarrow> u32 \<Rightarrow> 'v \<Rightarrow> hash32 ares) \<Rightarrow> u32 \<Rightarrow> nat \<Rightarrow> nat \<Rightarrow> 'v list \<Rightarrow> hash32 list ares" where
  "value_leaves leaf_hash step_index global_index value_index [] = Inr []"
| "value_leaves leaf_hash step_index global_index value_index (v # vs) =
     rbind (to_u32 global_index) (\<lambda>g.
     rbind (to_u32 value_index) (\<lambda>i.
     rbind (leaf_hash g step_index i v) (\<lambda>leaf.
     rbind (value_leaves leaf_hash step_index (Suc global_index) (Suc value_index) vs) (\<lambda>leaves. Inr (leaf # leaves)))))"

fun numbered_leaves ::
  "(u32 \<Rightarrow> u32 \<Rightarrow> u32 \<Rightarrow> 'v \<Rightarrow> hash32 ares) \<Rightarrow> (step_input \<Rightarrow> 'v list) \<Rightarrow> nat \<Rightarrow> step_input list
    \<Rightarrow> (hash32 list \<times> nat list) ares" where
  "numbered_leaves leaf_hash vals start [] = Inr ([], [])"
| "numbered_leaves leaf_hash vals start (step # steps) =
     rbind (value_leaves leaf_hash (si_step_index step) start 0 (vals step)) (\<lambda>leaves.
     rbind (numbered_leaves leaf_hash vals (start + length leaves) steps) (\<lambda>(more, offsets).
     Inr (leaves @ more, start # offsets)))"

definition trace_leaves :: "artifact_env \<Rightarrow> step_input list \<Rightarrow> hash32 list ares" where
  "trace_leaves A steps =
     rbind (vec_at steps 0) (\<lambda>first.
     rbind (trace_leaf_hash A 0 (si_pre_state_root first)) (\<lambda>leaf.
     rbind (collect (\<lambda>step. rbind (ok_or (checked_add (si_step_index step) 1) (Failed InvalidStepIndex)) (\<lambda>post_index.
              trace_leaf_hash A post_index (si_post_state_root step))) steps) (\<lambda>leaves.
     Inr (leaf # leaves))))"

definition authenticate_readonly :: "merkle_tree \<Rightarrow> nat \<Rightarrow> readonly_l1_value list \<Rightarrow> authenticated_readonly_l1_value list ares" where
  "authenticate_readonly tree offset vals =
     collect (\<lambda>(value_index, v).
       rbind (usize_add offset value_index) (\<lambda>global_index.
       rbind (to_u32 global_index) (\<lambda>g.
       rbind (to_u32 value_index) (\<lambda>i.
       rbind (MerkleTree_path tree global_index) (\<lambda>path.
       Inr \<lparr>ar_global_index = g, ar_value_index = i, ar_value = v, ar_path = path\<rparr>)))))
     (enumerate 0 vals)"

definition authenticate_effects :: "merkle_tree \<Rightarrow> nat \<Rightarrow> bytes list \<Rightarrow> authenticated_settlement_effect list ares" where
  "authenticate_effects tree offset effects =
     collect (\<lambda>(effect_index, effect).
       rbind (usize_add offset effect_index) (\<lambda>global_index.
       rbind (to_u32 global_index) (\<lambda>g.
       rbind (to_u32 effect_index) (\<lambda>i.
       rbind (MerkleTree_path tree global_index) (\<lambda>path.
       Inr \<lparr>ae_global_index = g, ae_effect_index = i, ae_effect = effect, ae_path = path\<rparr>)))))
     (enumerate 0 effects)"

text \<open>The four trees of a checkpoint and the offsets of the steps in the last two.\<close>

record checkpoint_trees =
  ct_trace :: merkle_tree
  ct_transaction :: merkle_tree
  ct_readonly :: merkle_tree
  ct_settlement :: merkle_tree
  ct_readonly_offsets :: "nat list"
  ct_settlement_offsets :: "nat list"

definition build_trees :: "artifact_env \<Rightarrow> step_input list \<Rightarrow> checkpoint_trees ares" where
  "build_trees A steps =
     rbind (trace_leaves A steps) (\<lambda>trace.
     rbind (collect (\<lambda>step. transaction_effect_leaf_hash A (si_step_index step) (si_transaction step) (si_transaction_effect step)) steps) (\<lambda>transactions.
     rbind (numbered_leaves (readonly_l1_leaf_hash A) si_readonly_l1_values 0 steps) (\<lambda>(readonly, readonly_offsets).
     rbind (numbered_leaves (settlement_effect_leaf_hash A) si_settlement_effects 0 steps) (\<lambda>(settlement, settlement_offsets).
     rbind (MerkleTree_new (ahash A) TraceTree trace) (\<lambda>trace_tree.
     rbind (MerkleTree_new (ahash A) TransactionEffectTree transactions) (\<lambda>transaction_tree.
     rbind (MerkleTree_new (ahash A) ReadonlyL1Tree readonly) (\<lambda>readonly_tree.
     rbind (MerkleTree_new (ahash A) SettlementEffectTree settlement) (\<lambda>settlement_tree.
     Inr \<lparr>ct_trace = trace_tree, ct_transaction = transaction_tree, ct_readonly = readonly_tree, ct_settlement = settlement_tree,
          ct_readonly_offsets = readonly_offsets, ct_settlement_offsets = settlement_offsets\<rparr>))))))))"

definition build_page :: "artifact_env \<Rightarrow> checkpoint_trees \<Rightarrow> nat \<times> step_input \<Rightarrow> da_step_page ares" where
  "build_page A trees = (\<lambda>(page_index, step).
     rbind (vec_at (ct_readonly_offsets trees) page_index) (\<lambda>readonly_offset.
     rbind (authenticate_readonly (ct_readonly trees) readonly_offset (si_readonly_l1_values step)) (\<lambda>readonly_l1_values.
     rbind (vec_at (ct_settlement_offsets trees) page_index) (\<lambda>settlement_offset.
     rbind (authenticate_effects (ct_settlement trees) settlement_offset (si_settlement_effects step)) (\<lambda>settlement_effects.
     rbind (to_u32 page_index) (\<lambda>page_index_u32.
     rbind (transaction_effect_leaf_hash A (si_step_index step) (si_transaction step) (si_transaction_effect step)) (\<lambda>commitment.
     rbind (MerkleTree_path (ct_trace trees) page_index) (\<lambda>pre_state_path.
     rbind (usize_add page_index 1) (\<lambda>post_index.
     rbind (MerkleTree_path (ct_trace trees) post_index) (\<lambda>post_state_path.
     rbind (MerkleTree_path (ct_transaction trees) page_index) (\<lambda>transaction_effect_path.
     Inr \<lparr>dp_version = CHECKPOINT_FORMAT_VERSION_V1, dp_page_index = page_index_u32, dp_step_index = si_step_index step,
          dp_transaction = si_transaction step, dp_transaction_effect = si_transaction_effect step,
          dp_transaction_effect_commitment = commitment,
          dp_pre_state_accounts = si_pre_state_accounts step, dp_post_state_accounts = si_post_state_accounts step,
          dp_pre_state_root = si_pre_state_root step, dp_post_state_root = si_post_state_root step,
          dp_pre_state_path = pre_state_path, dp_post_state_path = post_state_path,
          dp_transaction_effect_path = transaction_effect_path,
          dp_readonly_l1_values = readonly_l1_values, dp_settlement_effects = settlement_effects\<rparr>)))))))))))"

definition describe_page :: "artifact_env \<Rightarrow> da_step_page \<Rightarrow> da_page_descriptor ares" where
  "describe_page A page =
     rbind (encode (enc_page A page)) (\<lambda>bs.
     rbind (to_u32 (length bs)) (\<lambda>len.
     Inr \<lparr>pd_page_index = dp_page_index page, pd_step_index = dp_step_index page, pd_uncompressed_len = len, pd_encoded_len = len,
          pd_payload_hash = typed_hash (ahash A) DataAvailabilityTree (ascii ''page'') bs\<rparr>))"

definition build_checkpoint_artifact_v1 :: "artifact_env \<Rightarrow> pubkey \<Rightarrow> u64 \<Rightarrow> step_input list \<Rightarrow> checkpoint_artifact ares" where
  "build_checkpoint_artifact_v1 A session er_slot steps =
     rbind (validate_steps A steps) (\<lambda>_.
     rbind (build_trees A steps) (\<lambda>trees.
     rbind (collect (build_page A trees) (enumerate 0 steps)) (\<lambda>pages.
     rbind (MerkleTree_root (ahash A) (ct_trace trees)) (\<lambda>trace_root.
     rbind (MerkleTree_root (ahash A) (ct_transaction trees)) (\<lambda>transaction_effect_root.
     rbind (MerkleTree_root (ahash A) (ct_readonly trees)) (\<lambda>readonly_l1_root.
     rbind (MerkleTree_root (ahash A) (ct_settlement trees)) (\<lambda>effect_commitment.
     rbind (collect (describe_page A) pages) (\<lambda>descriptors.
     rbind (to_u32 (length steps)) (\<lambda>step_count.
     let manifest = \<lparr>dm_version = CHECKPOINT_FORMAT_VERSION_V1, dm_session = session, dm_er_slot = er_slot,
           dm_step_count = step_count, dm_codec = Raw,
           dm_dictionary_hash = typed_hash (ahash A) DataAvailabilityTree (ascii ''dictionary'') [],
           dm_trace_root = trace_root, dm_transaction_effect_root = transaction_effect_root,
           dm_readonly_l1_root = readonly_l1_root, dm_effect_commitment = effect_commitment, dm_pages = descriptors\<rparr>
     in rbind (encode (enc_manifest A manifest)) (\<lambda>bs.
     rbind (MerkleTree_new (ahash A) DataAvailabilityTree
              (typed_hash (ahash A) DataAvailabilityTree (ascii ''manifest'') bs # map pd_payload_hash descriptors)) (\<lambda>da_tree.
     rbind (MerkleTree_root (ahash A) da_tree) (\<lambda>da_commitment.
     rbind (vec_at steps 0) (\<lambda>first.
     rbind (vec_at steps (length steps - 1)) (\<lambda>last_step.
     Inr \<lparr>ca_checkpoint = \<lparr>kc_version = CHECKPOINT_FORMAT_VERSION_V1, kc_session = session, kc_er_slot = er_slot,
            kc_step_count = step_count, kc_previous_state_root = si_pre_state_root first,
            kc_new_state_root = si_post_state_root last_step, kc_trace_root = trace_root,
            kc_transaction_effect_root = transaction_effect_root, kc_readonly_l1_root = readonly_l1_root,
            kc_da_commitment = da_commitment, kc_effect_commitment = effect_commitment\<rparr>,
          ca_da = \<lparr>pk_manifest = manifest, pk_pages = pages\<rparr>\<rparr>))))))))))))))"

subsection \<open>Verifying an artifact\<close>

definition verify_readonly :: "artifact_env \<Rightarrow> checkpoint_commitment \<Rightarrow> u32 \<Rightarrow> authenticated_readonly_l1_value \<Rightarrow> bool" where
  "verify_readonly A c step_index v =
     (case readonly_l1_leaf_hash A (ar_global_index v) step_index (ar_value_index v) (ar_value v) of
        Inl _ \<Rightarrow> False
      | Inr leaf \<Rightarrow> mp_leaf_index (ar_path v) = ar_global_index v
          \<and> verify_path (ahash A) (ar_path v) ReadonlyL1Tree leaf (kc_readonly_l1_root c))"

definition verify_effect :: "artifact_env \<Rightarrow> checkpoint_commitment \<Rightarrow> u32 \<Rightarrow> authenticated_settlement_effect \<Rightarrow> bool" where
  "verify_effect A c step_index e =
     (case settlement_effect_leaf_hash A (ae_global_index e) step_index (ae_effect_index e) (ae_effect e) of
        Inl _ \<Rightarrow> False
      | Inr leaf \<Rightarrow> mp_leaf_index (ae_path e) = ae_global_index e
          \<and> verify_path (ahash A) (ae_path e) SettlementEffectTree leaf (kc_effect_commitment c))"

definition verify_authentication_paths :: "artifact_env \<Rightarrow> da_step_page \<Rightarrow> checkpoint_commitment \<Rightarrow> bool" where
  "verify_authentication_paths A p c =
     (if dp_version p \<noteq> CHECKPOINT_FORMAT_VERSION_V1 \<or> dp_page_index p \<noteq> dp_step_index p then False
      else if state_root_v1 A (dp_pre_state_accounts p) \<noteq> Inr (dp_pre_state_root p)
        \<or> state_root_v1 A (dp_post_state_accounts p) \<noteq> Inr (dp_post_state_root p) then False
      else (case trace_leaf_hash A (dp_step_index p) (dp_pre_state_root p) of Inl _ \<Rightarrow> False | Inr pre_leaf \<Rightarrow>
      (case checked_add (dp_step_index p) 1 of None \<Rightarrow> False | Some post_index \<Rightarrow>
      (case trace_leaf_hash A post_index (dp_post_state_root p) of Inl _ \<Rightarrow> False | Inr post_leaf \<Rightarrow>
      (case transaction_effect_leaf_hash A (dp_step_index p) (dp_transaction p) (dp_transaction_effect p) of
         Inl _ \<Rightarrow> False
       | Inr transaction_leaf \<Rightarrow>
           transaction_leaf = dp_transaction_effect_commitment p
           \<and> verify_path (ahash A) (dp_pre_state_path p) TraceTree pre_leaf (kc_trace_root c)
           \<and> verify_path (ahash A) (dp_post_state_path p) TraceTree post_leaf (kc_trace_root c)
           \<and> verify_path (ahash A) (dp_transaction_effect_path p) TransactionEffectTree transaction_leaf
               (kc_transaction_effect_root c)
           \<and> list_all (verify_readonly A c (dp_step_index p)) (dp_readonly_l1_values p)
           \<and> list_all (verify_effect A c (dp_step_index p)) (dp_settlement_effects p))))))"

definition page_to_input :: "da_step_page \<Rightarrow> step_input" where
  "page_to_input p =
     \<lparr>si_step_index = dp_step_index p, si_transaction = dp_transaction p, si_transaction_effect = dp_transaction_effect p,
      si_pre_state_accounts = dp_pre_state_accounts p, si_post_state_accounts = dp_post_state_accounts p,
      si_pre_state_root = dp_pre_state_root p, si_post_state_root = dp_post_state_root p,
      si_readonly_l1_values = map ar_value (dp_readonly_l1_values p),
      si_settlement_effects = map ae_effect (dp_settlement_effects p)\<rparr>"

definition CheckpointArtifactV1_verify :: "artifact_env \<Rightarrow> checkpoint_artifact \<Rightarrow> unit ares" where
  "CheckpointArtifactV1_verify A a =
     (if kc_version (ca_checkpoint a) \<noteq> CHECKPOINT_FORMAT_VERSION_V1
        \<or> dm_version (pk_manifest (ca_da a)) \<noteq> CHECKPOINT_FORMAT_VERSION_V1
      then Inl (Failed UnsupportedArtifactVersion)
      else if \<not> (1 \<le> length (pk_pages (ca_da a)) \<and> length (pk_pages (ca_da a)) \<le> CANONICAL_CHECKPOINT_STEPS_V1)
        \<or> length (dm_pages (pk_manifest (ca_da a))) \<noteq> length (pk_pages (ca_da a))
      then Inl (Failed InvalidStepCount)
      else rbind (build_checkpoint_artifact_v1 A (kc_session (ca_checkpoint a)) (kc_er_slot (ca_checkpoint a))
             (map page_to_input (pk_pages (ca_da a)))) (\<lambda>rebuilt.
      if rebuilt \<noteq> a then Inl (Failed CommitmentMismatch)
      else if \<not> list_all (\<lambda>page. verify_authentication_paths A page (ca_checkpoint a)) (pk_pages (ca_da a))
      then Inl (Failed InvalidPage)
      else Inr ()))"

definition canonical_bytes :: "artifact_env \<Rightarrow> checkpoint_artifact \<Rightarrow> bytes ares" where
  "canonical_bytes A a = encode (enc_artifact A a)"

definition decode_verified :: "artifact_env \<Rightarrow> bytes \<Rightarrow> checkpoint_artifact ares" where
  "decode_verified A bs =
     rbind (ok_or (dec_artifact A bs) (Failed EncodingFailed)) (\<lambda>a.
     rbind (canonical_bytes A a) (\<lambda>canonical.
     if canonical \<noteq> bs then Inl (Failed EncodingFailed)
     else rbind (CheckpointArtifactV1_verify A a) (\<lambda>_. Inr a)))"

end
