(* ===== verification/Artifact_Props.thy ===== *)
theory Artifact_Props
  imports Checkpoint_Artifact
begin

text \<open>
  What a built checkpoint artifact promises: the steps chain from the previous state root to the new one, the
  pages carry paths that verify, rebuilding from the pages gives the artifact back, and the bytes an
  operator publishes decode to it.
\<close>

subsection \<open>Validated steps\<close>

lemma collect_nth:
  assumes "collect f xs = Inr ys"
  shows "length ys = length xs" "i < length xs \<Longrightarrow> f (xs ! i) = Inr (ys ! i)"
  using assms by (auto simp: collect_ok list_all2_conv_all_nth)

lemma to_u32_ok [ok_simps]: "to_u32 n = Inr w \<longleftrightarrow> n < 2 ^ 32 \<and> w = of_nat n"
  by (auto simp: to_u32_def)

lemma vec_at_ok [ok_simps]: "vec_at xs i = Inr x \<longleftrightarrow> i < length xs \<and> x = xs ! i"
  by (auto simp: vec_at_def)

lemma usize_add_ok [ok_simps]: "usize_add a b = Inr n \<longleftrightarrow> a + b < 2 ^ 64 \<and> n = a + b"
  by (auto simp: usize_add_def)

lemma unat_eq_of_nat: "unat w = n \<Longrightarrow> w = of_nat n" for w :: "'a::len word"
  by auto

lemma validate_fromD:
  assumes "validate_from A ts es index prev steps = Inr ()" "i < length steps"
  shows "unat (si_step_index (steps ! i)) = index + i
    \<and> state_root_v1 A (si_pre_state_accounts (steps ! i)) = Inr (si_pre_state_root (steps ! i))
    \<and> state_root_v1 A (si_post_state_accounts (steps ! i)) = Inr (si_post_state_root (steps ! i))
    \<and> (case i of 0 \<Rightarrow> \<forall>r. prev = Some r \<longrightarrow> r = si_pre_state_root (steps ! i)
       | Suc j \<Rightarrow> si_post_state_root (steps ! j) = si_pre_state_root (steps ! i))"
  using assms
proof (induction steps arbitrary: ts es index prev i)
  case (Cons step steps)
  from Cons.prems(1) obtain es' where
    here: "unat (si_step_index step) = index" "state_root_v1 A (si_pre_state_accounts step) = Inr (si_pre_state_root step)"
      "state_root_v1 A (si_post_state_accounts step) = Inr (si_post_state_root step)"
      "\<not> (case prev of None \<Rightarrow> False | Some root \<Rightarrow> root \<noteq> si_pre_state_root step)"
    and rest: "validate_from A (si_transaction step # ts) es' (Suc index) (Some (si_post_state_root step)) steps = Inr ()"
    by (auto simp: rbind_ok split: if_splits)
  show ?case
  proof (cases i)
    case 0
    then show ?thesis using here by (auto split: option.splits)
  next
    case (Suc j)
    then show ?thesis using Cons.IH [OF rest, of j] Cons.prems(2) by (auto split: nat.splits)
  qed
qed simp

lemma validate_stepsD:
  assumes "validate_steps A steps = Inr ()"
  shows "steps \<noteq> []" "length steps \<le> 16"
    "i < length steps \<Longrightarrow> si_step_index (steps ! i) = of_nat i"
    "i < length steps \<Longrightarrow> state_root_v1 A (si_pre_state_accounts (steps ! i)) = Inr (si_pre_state_root (steps ! i))"
    "i < length steps \<Longrightarrow> state_root_v1 A (si_post_state_accounts (steps ! i)) = Inr (si_post_state_root (steps ! i))"
    "Suc i < length steps \<Longrightarrow> si_post_state_root (steps ! i) = si_pre_state_root (steps ! Suc i)"
proof -
  have v: "validate_from A [] [] 0 None steps = Inr ()" "steps \<noteq> []" "length steps \<le> 16"
    using assms by (auto simp: validate_steps_def CANONICAL_CHECKPOINT_STEPS_V1_def split: if_splits)
  note D = validate_fromD [OF v(1)]
  show "steps \<noteq> []" "length steps \<le> 16" using v by simp_all
  show "i < length steps \<Longrightarrow> si_step_index (steps ! i) = of_nat i" using D [of i] by (intro unat_eq_of_nat) simp
  show "i < length steps \<Longrightarrow> state_root_v1 A (si_pre_state_accounts (steps ! i)) = Inr (si_pre_state_root (steps ! i))"
    "i < length steps \<Longrightarrow> state_root_v1 A (si_post_state_accounts (steps ! i)) = Inr (si_post_state_root (steps ! i))"
    using D [of i] by simp_all
  show "Suc i < length steps \<Longrightarrow> si_post_state_root (steps ! i) = si_pre_state_root (steps ! Suc i)"
    using D [of "Suc i"] by simp
qed

subsection \<open>Leaves\<close>

text \<open>The trace has one leaf before the first step and one after each step.\<close>

lemma trace_leavesD:
  assumes "trace_leaves A steps = Inr leaves" "validate_steps A steps = Inr ()"
  shows "length leaves = Suc (length steps)"
    "i < length steps \<Longrightarrow> trace_leaf_hash A (of_nat i) (si_pre_state_root (steps ! i)) = Inr (leaves ! i)"
    "i < length steps \<Longrightarrow> checked_add (of_nat i) 1 = Some (of_nat (Suc i) :: u32)
      \<and> trace_leaf_hash A (of_nat (Suc i)) (si_post_state_root (steps ! i)) = Inr (leaves ! Suc i)"
proof -
  note V = validate_stepsD [OF assms(2)]
  have next_index: "checked_add (of_nat i) 1 = Some (of_nat (Suc i) :: u32)" if "i < length steps" for i
    using that V(2) by (simp add: checked_add_def unat_of_nat take_bit_nat_eq_self)
  from assms(1) obtain leaf more where l: "leaves = leaf # more"
    and first: "trace_leaf_hash A 0 (si_pre_state_root (steps ! 0)) = Inr leaf"
    and c: "collect (\<lambda>step. rbind (ok_or (checked_add (si_step_index step) 1) (Failed InvalidStepIndex)) (\<lambda>post_index.
              trace_leaf_hash A post_index (si_post_state_root step))) steps = Inr more"
    by (auto simp: trace_leaves_def ok_simps)
  show "length leaves = Suc (length steps)" using collect_nth(1) [OF c] by (simp add: l)
  show post: "checked_add (of_nat i) 1 = Some (of_nat (Suc i) :: u32)
      \<and> trace_leaf_hash A (of_nat (Suc i)) (si_post_state_root (steps ! i)) = Inr (leaves ! Suc i)" if "i < length steps" for i
    using collect_nth(2) [OF c that] next_index [OF that] V(3) [OF that] by (simp add: l)
  show "trace_leaf_hash A (of_nat i) (si_pre_state_root (steps ! i)) = Inr (leaves ! i)" if "i < length steps"
    using that first post [of "i - 1"] V(6) [of "i - 1"] by (cases i) (simp_all add: l)
qed

text \<open>The leaves of the values of a step stand at its offset.\<close>

lemma value_leavesD:
  assumes "value_leaves leaf_hash step_index global_index value_index vs = Inr leaves"
  shows "length leaves = length vs"
    "j < length vs \<Longrightarrow> global_index + j < 2 ^ 32 \<and> value_index + j < 2 ^ 32
       \<and> leaf_hash (of_nat (global_index + j)) step_index (of_nat (value_index + j)) (vs ! j) = Inr (leaves ! j)"
proof -
  have "length leaves = length vs \<and> (\<forall>j < length vs. global_index + j < 2 ^ 32 \<and> value_index + j < 2 ^ 32
       \<and> leaf_hash (of_nat (global_index + j)) step_index (of_nat (value_index + j)) (vs ! j) = Inr (leaves ! j))"
    using assms
  proof (induction vs arbitrary: global_index value_index leaves)
    case (Cons v vs)
    then obtain leaf more where l: "leaves = leaf # more" "global_index < 2 ^ 32" "value_index < 2 ^ 32"
        "leaf_hash (of_nat global_index) step_index (of_nat value_index) v = Inr leaf"
        "value_leaves leaf_hash step_index (Suc global_index) (Suc value_index) vs = Inr more"
      by (auto simp: ok_simps)
    show ?case using Cons.IH [OF l(5)] l(2,3,4) by (auto simp: l(1) nth_Cons add.left_commute split: nat.splits)
  qed simp
  then show "length leaves = length vs"
    "j < length vs \<Longrightarrow> global_index + j < 2 ^ 32 \<and> value_index + j < 2 ^ 32
       \<and> leaf_hash (of_nat (global_index + j)) step_index (of_nat (value_index + j)) (vs ! j) = Inr (leaves ! j)"
    by simp_all
qed

lemma numbered_leavesD:
  assumes "numbered_leaves leaf_hash vals start steps = Inr (leaves, offsets)" "i < length steps"
  shows "i < length offsets" "start \<le> offsets ! i"
    "j < length (vals (steps ! i)) \<Longrightarrow>
       leaf_hash (of_nat (offsets ! i + j)) (si_step_index (steps ! i)) (of_nat j) (vals (steps ! i) ! j)
         = Inr (leaves ! (offsets ! i + j - start))"
proof -
  have "i < length offsets \<and> start \<le> offsets ! i \<and> (\<forall>j < length (vals (steps ! i)).
       leaf_hash (of_nat (offsets ! i + j)) (si_step_index (steps ! i)) (of_nat j) (vals (steps ! i) ! j)
         = Inr (leaves ! (offsets ! i + j - start)))"
    using assms
  proof (induction steps arbitrary: start leaves offsets i)
    case (Cons step steps)
    then obtain ls more offs where l: "leaves = ls @ more" "offsets = start # offs"
        "value_leaves leaf_hash (si_step_index step) start 0 (vals step) = Inr ls"
        "numbered_leaves leaf_hash vals (start + length ls) steps = Inr (more, offs)"
      by (auto simp: ok_simps)
    show ?case
    proof (cases i)
      case 0
      then show ?thesis using value_leavesD [OF l(3)] by (simp add: l(1,2) nth_append)
    next
      case (Suc k)
      then have "k < length steps" using Cons.prems(2) by simp
      from Cons.IH [OF l(4) this] show ?thesis by (auto simp: l(1,2) Suc nth_append)
    qed
  qed simp
  then show "i < length offsets" "start \<le> offsets ! i"
    "j < length (vals (steps ! i)) \<Longrightarrow>
       leaf_hash (of_nat (offsets ! i + j)) (si_step_index (steps ! i)) (of_nat j) (vals (steps ! i) ! j)
         = Inr (leaves ! (offsets ! i + j - start))"
    by simp_all
qed


subsection \<open>Pages\<close>

text \<open>What a successful build computed.\<close>

lemma build_treesD:
  assumes "build_trees A steps = Inr trees"
  obtains trace transactions readonly settlement where
    "trace_leaves A steps = Inr trace"
    "collect (\<lambda>step. transaction_effect_leaf_hash A (si_step_index step) (si_transaction step) (si_transaction_effect step)) steps = Inr transactions"
    "numbered_leaves (readonly_l1_leaf_hash A) si_readonly_l1_values 0 steps = Inr (readonly, ct_readonly_offsets trees)"
    "numbered_leaves (settlement_effect_leaf_hash A) si_settlement_effects 0 steps = Inr (settlement, ct_settlement_offsets trees)"
    "MerkleTree_new (ahash A) TraceTree trace = Inr (ct_trace trees)"
    "MerkleTree_new (ahash A) TransactionEffectTree transactions = Inr (ct_transaction trees)"
    "MerkleTree_new (ahash A) ReadonlyL1Tree readonly = Inr (ct_readonly trees)"
    "MerkleTree_new (ahash A) SettlementEffectTree settlement = Inr (ct_settlement trees)"
  using assms unfolding build_trees_def by (auto simp only: rbind_ok sum.inject split_paired_all prod.case checkpoint_trees.simps)

lemma authenticate_readonlyD:
  assumes "authenticate_readonly tree offset vals = Inr vs"
  shows "map ar_value vs = vals" "length vs = length vals"
    "j < length vals \<Longrightarrow> ar_global_index (vs ! j) = of_nat (offset + j) \<and> ar_value_index (vs ! j) = of_nat j
       \<and> ar_value (vs ! j) = vals ! j \<and> MerkleTree_path tree (offset + j) = Inr (ar_path (vs ! j))"
proof -
  note c = collect_nth [OF assms [unfolded authenticate_readonly_def]]
  show len: "length vs = length vals" using c(1) by simp
  show *: "ar_global_index (vs ! j) = of_nat (offset + j) \<and> ar_value_index (vs ! j) = of_nat j
       \<and> ar_value (vs ! j) = vals ! j \<and> MerkleTree_path tree (offset + j) = Inr (ar_path (vs ! j))" if "j < length vals" for j
    using c(2) [of j] that by (auto simp: nth_enumerate_eq ok_simps dest!: sym [of _ "vs ! j"])
  show "map ar_value vs = vals" using len * by (intro nth_equalityI) auto
qed

lemma authenticate_effectsD:
  assumes "authenticate_effects tree offset effects = Inr es"
  shows "map ae_effect es = effects" "length es = length effects"
    "j < length effects \<Longrightarrow> ae_global_index (es ! j) = of_nat (offset + j) \<and> ae_effect_index (es ! j) = of_nat j
       \<and> ae_effect (es ! j) = effects ! j \<and> MerkleTree_path tree (offset + j) = Inr (ae_path (es ! j))"
proof -
  note c = collect_nth [OF assms [unfolded authenticate_effects_def]]
  show len: "length es = length effects" using c(1) by simp
  show *: "ae_global_index (es ! j) = of_nat (offset + j) \<and> ae_effect_index (es ! j) = of_nat j
       \<and> ae_effect (es ! j) = effects ! j \<and> MerkleTree_path tree (offset + j) = Inr (ae_path (es ! j))" if "j < length effects" for j
    using c(2) [of j] that by (auto simp: nth_enumerate_eq ok_simps dest!: sym [of _ "es ! j"])
  show "map ae_effect es = effects" using len * by (intro nth_equalityI) auto
qed

lemma build_pageD:
  assumes "build_page A trees (i, step) = Inr page"
  shows "page_to_input page = step" "dp_version page = CHECKPOINT_FORMAT_VERSION_V1" "dp_page_index page = of_nat i"
    "transaction_effect_leaf_hash A (si_step_index step) (si_transaction step) (si_transaction_effect step)
       = Inr (dp_transaction_effect_commitment page)"
    "MerkleTree_path (ct_trace trees) i = Inr (dp_pre_state_path page)"
    "MerkleTree_path (ct_trace trees) (Suc i) = Inr (dp_post_state_path page)"
    "MerkleTree_path (ct_transaction trees) i = Inr (dp_transaction_effect_path page)"
    "authenticate_readonly (ct_readonly trees) (ct_readonly_offsets trees ! i) (si_readonly_l1_values step) = Inr (dp_readonly_l1_values page)"
    "authenticate_effects (ct_settlement trees) (ct_settlement_offsets trees ! i) (si_settlement_effects step) = Inr (dp_settlement_effects page)"
proof -
  from assms obtain readonly effects commitment pre post tx where
    r: "authenticate_readonly (ct_readonly trees) (ct_readonly_offsets trees ! i) (si_readonly_l1_values step) = Inr readonly"
    and e: "authenticate_effects (ct_settlement trees) (ct_settlement_offsets trees ! i) (si_settlement_effects step) = Inr effects"
    and c: "transaction_effect_leaf_hash A (si_step_index step) (si_transaction step) (si_transaction_effect step) = Inr commitment"
    and t: "MerkleTree_path (ct_trace trees) i = Inr pre" "MerkleTree_path (ct_trace trees) (Suc i) = Inr post"
      "MerkleTree_path (ct_transaction trees) i = Inr tx"
    and page: "page = \<lparr>dp_version = CHECKPOINT_FORMAT_VERSION_V1, dp_page_index = of_nat i, dp_step_index = si_step_index step,
          dp_transaction = si_transaction step, dp_transaction_effect = si_transaction_effect step,
          dp_transaction_effect_commitment = commitment,
          dp_pre_state_accounts = si_pre_state_accounts step, dp_post_state_accounts = si_post_state_accounts step,
          dp_pre_state_root = si_pre_state_root step, dp_post_state_root = si_post_state_root step,
          dp_pre_state_path = pre, dp_post_state_path = post, dp_transaction_effect_path = tx,
          dp_readonly_l1_values = readonly, dp_settlement_effects = effects\<rparr>"
    unfolding build_page_def prod.case rbind_ok vec_at_ok to_u32_ok usize_add_ok sum.inject Suc_eq_plus1
    by (elim exE conjE) (simp only:)
  show "page_to_input page = step"
    using authenticate_readonlyD(1) [OF r] authenticate_effectsD(1) [OF e] by (simp add: page page_to_input_def)
  show "dp_version page = CHECKPOINT_FORMAT_VERSION_V1" "dp_page_index page = of_nat i"
    "transaction_effect_leaf_hash A (si_step_index step) (si_transaction step) (si_transaction_effect step)
       = Inr (dp_transaction_effect_commitment page)"
    "MerkleTree_path (ct_trace trees) i = Inr (dp_pre_state_path page)"
    "MerkleTree_path (ct_trace trees) (Suc i) = Inr (dp_post_state_path page)"
    "MerkleTree_path (ct_transaction trees) i = Inr (dp_transaction_effect_path page)"
    "authenticate_readonly (ct_readonly trees) (ct_readonly_offsets trees ! i) (si_readonly_l1_values step) = Inr (dp_readonly_l1_values page)"
    "authenticate_effects (ct_settlement trees) (ct_settlement_offsets trees ! i) (si_settlement_effects step) = Inr (dp_settlement_effects page)"
    using r e c t by (simp_all add: page)
qed


text \<open>The pages of a built artifact, each with its step.\<close>

lemma buildD:
  assumes "build_checkpoint_artifact_v1 A session er_slot steps = Inr a"
  obtains trees where "validate_steps A steps = Inr ()" "build_trees A steps = Inr trees"
    "collect (build_page A trees) (enumerate 0 steps) = Inr (pk_pages (ca_da a))"
    "MerkleTree_root (ahash A) (ct_trace trees) = Inr (kc_trace_root (ca_checkpoint a))"
    "MerkleTree_root (ahash A) (ct_transaction trees) = Inr (kc_transaction_effect_root (ca_checkpoint a))"
    "MerkleTree_root (ahash A) (ct_readonly trees) = Inr (kc_readonly_l1_root (ca_checkpoint a))"
    "MerkleTree_root (ahash A) (ct_settlement trees) = Inr (kc_effect_commitment (ca_checkpoint a))"
    "length (dm_pages (pk_manifest (ca_da a))) = length steps"
    "kc_version (ca_checkpoint a) = CHECKPOINT_FORMAT_VERSION_V1" "dm_version (pk_manifest (ca_da a)) = CHECKPOINT_FORMAT_VERSION_V1"
    "kc_session (ca_checkpoint a) = session" "kc_er_slot (ca_checkpoint a) = er_slot"
    "kc_step_count (ca_checkpoint a) = of_nat (length steps)"
    "kc_previous_state_root (ca_checkpoint a) = si_pre_state_root (steps ! 0)"
    "kc_new_state_root (ca_checkpoint a) = si_post_state_root (steps ! (length steps - 1))"
proof -
  from assms obtain trees pages descriptors manifest c where *: "validate_steps A steps = Inr ()" "build_trees A steps = Inr trees"
    "collect (build_page A trees) (enumerate 0 steps) = Inr pages"
    "MerkleTree_root (ahash A) (ct_trace trees) = Inr (kc_trace_root c)"
    "MerkleTree_root (ahash A) (ct_transaction trees) = Inr (kc_transaction_effect_root c)"
    "MerkleTree_root (ahash A) (ct_readonly trees) = Inr (kc_readonly_l1_root c)"
    "MerkleTree_root (ahash A) (ct_settlement trees) = Inr (kc_effect_commitment c)"
    "collect (describe_page A) pages = Inr descriptors" "dm_pages manifest = descriptors"
    "kc_version c = CHECKPOINT_FORMAT_VERSION_V1" "dm_version manifest = CHECKPOINT_FORMAT_VERSION_V1"
    "kc_session c = session" "kc_er_slot c = er_slot" "kc_step_count c = of_nat (length steps)"
    "kc_previous_state_root c = si_pre_state_root (steps ! 0)"
    "kc_new_state_root c = si_post_state_root (steps ! (length steps - 1))"
    "a = \<lparr>ca_checkpoint = c, ca_da = \<lparr>pk_manifest = manifest, pk_pages = pages\<rparr>\<rparr>"
    unfolding build_checkpoint_artifact_v1_def rbind_ok Let_def vec_at_ok to_u32_ok sum.inject
    by (elim exE conjE) (simp, metis checkpoint_commitment.simps da_manifest.simps)
  have "length descriptors = length steps" using collect_nth(1) [OF *(3)] collect_nth(1) [OF *(8)] by simp
  with * show ?thesis by (intro that [of trees]) simp_all
qed


lemma built_pages:
  assumes "build_checkpoint_artifact_v1 A session er_slot steps = Inr a"
  shows "map page_to_input (pk_pages (ca_da a)) = steps" "length (pk_pages (ca_da a)) = length steps"
proof -
  from assms obtain trees where c: "collect (build_page A trees) (enumerate 0 steps) = Inr (pk_pages (ca_da a))"
    by (rule buildD)
  note n = collect_nth [OF c]
  show len: "length (pk_pages (ca_da a)) = length steps" using n(1) by simp
  show "map page_to_input (pk_pages (ca_da a)) = steps"
    using len n(2) by (intro nth_equalityI) (auto simp: nth_enumerate_eq dest!: build_pageD(1))
qed

text \<open>The paths of a page: its two states in the trace, its transaction effect, its readonly values and its
  settlement effects.\<close>

lemma built_page_paths:
  assumes "build_checkpoint_artifact_v1 A session er_slot steps = Inr a" "i < length steps"
  defines "page \<equiv> pk_pages (ca_da a) ! i" and "c \<equiv> ca_checkpoint a"
  obtains pre post tx where
    "trace_leaf_hash A (of_nat i) (si_pre_state_root (steps ! i)) = Inr pre"
    "verify_path (ahash A) (dp_pre_state_path page) TraceTree pre (kc_trace_root c)"
    "mp_leaf_index (dp_pre_state_path page) = of_nat i" "mp_leaf_count (dp_pre_state_path page) = of_nat (Suc (length steps))"
    "trace_leaf_hash A (of_nat (Suc i)) (si_post_state_root (steps ! i)) = Inr post"
    "verify_path (ahash A) (dp_post_state_path page) TraceTree post (kc_trace_root c)"
    "mp_leaf_index (dp_post_state_path page) = of_nat (Suc i)" "mp_leaf_count (dp_post_state_path page) = of_nat (Suc (length steps))"
    "transaction_effect_leaf_hash A (of_nat i) (si_transaction (steps ! i)) (si_transaction_effect (steps ! i)) = Inr tx"
    "dp_transaction_effect_commitment page = tx"
    "verify_path (ahash A) (dp_transaction_effect_path page) TransactionEffectTree tx (kc_transaction_effect_root c)"
    "mp_leaf_index (dp_transaction_effect_path page) = of_nat i"
    "mp_leaf_count (dp_transaction_effect_path page) = of_nat (length steps)"
    "list_all (verify_readonly A c (of_nat i)) (dp_readonly_l1_values page)"
    "list_all (verify_effect A c (of_nat i)) (dp_settlement_effects page)"
proof -
  from assms(1) obtain trees where v: "validate_steps A steps = Inr ()" and t: "build_trees A steps = Inr trees"
    and p: "collect (build_page A trees) (enumerate 0 steps) = Inr (pk_pages (ca_da a))"
    and roots: "MerkleTree_root (ahash A) (ct_trace trees) = Inr (kc_trace_root c)"
      "MerkleTree_root (ahash A) (ct_transaction trees) = Inr (kc_transaction_effect_root c)"
      "MerkleTree_root (ahash A) (ct_readonly trees) = Inr (kc_readonly_l1_root c)"
      "MerkleTree_root (ahash A) (ct_settlement trees) = Inr (kc_effect_commitment c)"
    unfolding c_def by (rule buildD)
  from t obtain trace transactions readonly settlement where
    leaves: "trace_leaves A steps = Inr trace"
    "collect (\<lambda>step. transaction_effect_leaf_hash A (si_step_index step) (si_transaction step) (si_transaction_effect step)) steps = Inr transactions"
    "numbered_leaves (readonly_l1_leaf_hash A) si_readonly_l1_values 0 steps = Inr (readonly, ct_readonly_offsets trees)"
    "numbered_leaves (settlement_effect_leaf_hash A) si_settlement_effects 0 steps = Inr (settlement, ct_settlement_offsets trees)"
    and new: "MerkleTree_new (ahash A) TraceTree trace = Inr (ct_trace trees)"
    "MerkleTree_new (ahash A) TransactionEffectTree transactions = Inr (ct_transaction trees)"
    "MerkleTree_new (ahash A) ReadonlyL1Tree readonly = Inr (ct_readonly trees)"
    "MerkleTree_new (ahash A) SettlementEffectTree settlement = Inr (ct_settlement trees)"
    by (rule build_treesD)
  have idx: "si_step_index (steps ! i) = of_nat i" by (rule validate_stepsD(3) [OF v assms(2)])
  have "build_page A trees (i, steps ! i) = Inr page"
    using collect_nth(2) [OF p, of i] assms(2) by (simp add: nth_enumerate_eq page_def)
  note P = build_pageD [OF this]
  note pre = tree_path_verifies [OF new(1) roots(1) P(5)] and post = tree_path_verifies [OF new(1) roots(1) P(6)]
    and tx = tree_path_verifies [OF new(2) roots(2) P(7)]
  note trace = trace_leavesD [OF leaves(1) v]
  have tl: "transactions ! i = dp_transaction_effect_commitment page" "length transactions = length steps"
    using collect_nth [OF leaves(2)] assms(2) P(4) by simp_all
  have ro: "verify_readonly A c (of_nat i) (dp_readonly_l1_values page ! j)" if "j < length (si_readonly_l1_values (steps ! i))" for j
    using authenticate_readonlyD(3) [OF P(8) that] numbered_leavesD(3) [OF leaves(3) assms(2) that]
      tree_path_verifies [OF new(3) roots(3), of "ct_readonly_offsets trees ! i + j" "ar_path (dp_readonly_l1_values page ! j)"]
    by (simp add: verify_readonly_def idx)
  have se: "verify_effect A c (of_nat i) (dp_settlement_effects page ! j)" if "j < length (si_settlement_effects (steps ! i))" for j
    using authenticate_effectsD(3) [OF P(9) that] numbered_leavesD(3) [OF leaves(4) assms(2) that]
      tree_path_verifies [OF new(4) roots(4), of "ct_settlement_offsets trees ! i + j" "ae_path (dp_settlement_effects page ! j)"]
    by (simp add: verify_effect_def idx)
  show ?thesis
  proof (rule that)
    show "trace_leaf_hash A (of_nat i) (si_pre_state_root (steps ! i)) = Inr (trace ! i)" by (rule trace(2) [OF assms(2)])
    show "trace_leaf_hash A (of_nat (Suc i)) (si_post_state_root (steps ! i)) = Inr (trace ! Suc i)" using trace(3) [OF assms(2)] by simp
    show "verify_path (ahash A) (dp_pre_state_path page) TraceTree (trace ! i) (kc_trace_root c)" by (rule pre(5))
    show "verify_path (ahash A) (dp_post_state_path page) TraceTree (trace ! Suc i) (kc_trace_root c)" by (rule post(5))
    show "mp_leaf_index (dp_pre_state_path page) = of_nat i" by (rule pre(2))
    show "mp_leaf_index (dp_post_state_path page) = of_nat (Suc i)" by (rule post(2))
    show "mp_leaf_count (dp_post_state_path page) = of_nat (Suc (length steps))" using post(3) trace(1) by simp
    show "mp_leaf_count (dp_pre_state_path page) = of_nat (Suc (length steps))" using pre(3) trace(1) by simp
    show "transaction_effect_leaf_hash A (of_nat i) (si_transaction (steps ! i)) (si_transaction_effect (steps ! i))
        = Inr (dp_transaction_effect_commitment page)" using P(4) idx by simp
    show "verify_path (ahash A) (dp_transaction_effect_path page) TransactionEffectTree (dp_transaction_effect_commitment page)
        (kc_transaction_effect_root c)" using tx(5) tl(1) by simp
    show "mp_leaf_index (dp_transaction_effect_path page) = of_nat i" by (rule tx(2))
    show "mp_leaf_count (dp_transaction_effect_path page) = of_nat (length steps)" using tx(3) tl(2) by simp
    show "list_all (verify_readonly A c (of_nat i)) (dp_readonly_l1_values page)"
      using ro authenticate_readonlyD(2) [OF P(8)] by (simp add: list_all_length)
    show "list_all (verify_effect A c (of_nat i)) (dp_settlement_effects page)"
      using se authenticate_effectsD(2) [OF P(9)] by (simp add: list_all_length)
  qed simp
qed

lemma built_page_verifies:
  assumes "build_checkpoint_artifact_v1 A session er_slot steps = Inr a" "i < length steps"
  shows "verify_authentication_paths A (pk_pages (ca_da a) ! i) (ca_checkpoint a)"
proof -
  let ?p = "pk_pages (ca_da a) ! i" and ?s = "steps ! i"
  from assms(1) obtain trees where v: "validate_steps A steps = Inr ()"
    and t: "build_trees A steps = Inr trees"
    and p: "collect (build_page A trees) (enumerate 0 steps) = Inr (pk_pages (ca_da a))"
    by (rule buildD)
  note V = validate_stepsD [OF v]
  have "build_page A trees (i, ?s) = Inr ?p"
    using collect_nth(2) [OF p, of i] assms(2) by (simp add: nth_enumerate_eq)
  note P = build_pageD(1-3) [OF this]
  have next_index: "checked_add (of_nat i) 1 = Some (of_nat (Suc i) :: u32)"
    using assms(2) V(2) by (simp add: checked_add_def unat_of_nat take_bit_nat_eq_self)
  have fields: "dp_step_index ?p = of_nat i" "dp_pre_state_root ?p = si_pre_state_root ?s" "dp_post_state_root ?p = si_post_state_root ?s"
    "dp_pre_state_accounts ?p = si_pre_state_accounts ?s" "dp_post_state_accounts ?p = si_post_state_accounts ?s"
    "dp_transaction ?p = si_transaction ?s" "dp_transaction_effect ?p = si_transaction_effect ?s"
    using V(3) [OF assms(2)] by (simp_all add: P(1) [symmetric] page_to_input_def)
  show ?thesis
    by (rule built_page_paths [OF assms])
       (simp add: verify_authentication_paths_def fields P(2,3) V(4,5) [OF assms(2)] next_index del: of_nat_Suc)
qed

lemma built_verifies:
  assumes "build_checkpoint_artifact_v1 A session er_slot steps = Inr a"
  shows "CheckpointArtifactV1_verify A a = Inr ()"
proof -
  note pages = built_pages [OF assms]
  from assms obtain trees where b: "validate_steps A steps = Inr ()" "length (dm_pages (pk_manifest (ca_da a))) = length steps"
    "kc_version (ca_checkpoint a) = CHECKPOINT_FORMAT_VERSION_V1" "dm_version (pk_manifest (ca_da a)) = CHECKPOINT_FORMAT_VERSION_V1"
    "kc_session (ca_checkpoint a) = session" "kc_er_slot (ca_checkpoint a) = er_slot"
    by (rule buildD)
  have "1 \<le> length steps" "length steps \<le> CANONICAL_CHECKPOINT_STEPS_V1"
    using validate_stepsD(1,2) [OF b(1)] by (auto simp: CANONICAL_CHECKPOINT_STEPS_V1_def Suc_le_eq)
  moreover have "list_all (\<lambda>page. verify_authentication_paths A page (ca_checkpoint a)) (pk_pages (ca_da a))"
    using built_page_verifies [OF assms] pages(2) by (simp add: list_all_length)
  ultimately show ?thesis using assms b(2-) by (simp add: CheckpointArtifactV1_verify_def pages)
qed

lemma verifyD:
  assumes "CheckpointArtifactV1_verify A a = Inr ()"
  shows "build_checkpoint_artifact_v1 A (kc_session (ca_checkpoint a)) (kc_er_slot (ca_checkpoint a))
    (map page_to_input (pk_pages (ca_da a))) = Inr a"
  using assms by (auto simp: CheckpointArtifactV1_verify_def ok_simps)

subsection \<open>A one-step artifact\<close>

text \<open>A sample environment, whose hash counts bytes, and the artifact of one step in it.\<close>

definition sample_artifact_env ::
  "(checkpoint_artifact \<Rightarrow> bytes option) \<Rightarrow> (bytes \<Rightarrow> checkpoint_artifact option) \<Rightarrow> artifact_env" where
  "sample_artifact_env enc dec = \<lparr>ahash = (\<lambda>parts. 1 + of_nat (length (concat parts))),
     enc_state_leaf = (\<lambda>i v. Some (u32_le i @ key_bytes (sv_account v) @ key_bytes (sv_data_hash v))),
     enc_trace_leaf = (\<lambda>i r. Some (u32_le i @ key_bytes r)),
     enc_transaction_leaf = (\<lambda>i t e. Some (u32_le i @ t @ e)),
     enc_readonly_leaf = (\<lambda>g s i v. Some (u32_le g @ u32_le s @ u32_le i @ key_bytes (rv_account v))),
     enc_settlement_leaf = (\<lambda>g s i e. Some (u32_le g @ u32_le s @ u32_le i @ e)),
     enc_page = (\<lambda>p. Some (u32_le (dp_page_index p) @ dp_transaction p)),
     enc_manifest = (\<lambda>m. Some (u32_le (dm_step_count m) @ key_bytes (dm_trace_root m))),
     enc_artifact = enc, dec_artifact = dec\<rparr>"

definition sample_step :: step_input where
  "sample_step =
     \<lparr>si_step_index = 0, si_transaction = [1], si_transaction_effect = [2], si_pre_state_accounts = [],
      si_post_state_accounts = [], si_pre_state_root = 5, si_post_state_root = 5,
      si_readonly_l1_values = [], si_settlement_effects = [[3]]\<rparr>"

definition sample_page :: da_step_page where
  "sample_page =
     \<lparr>dp_version = 1, dp_page_index = 0, dp_step_index = 0, dp_transaction = [1], dp_transaction_effect = [2],
      dp_transaction_effect_commitment = 28, dp_pre_state_accounts = [], dp_post_state_accounts = [],
      dp_pre_state_root = 5, dp_post_state_root = 5,
      dp_pre_state_path = \<lparr>mp_leaf_index = 0, mp_leaf_count = 2, mp_siblings = [77]\<rparr>,
      dp_post_state_path = \<lparr>mp_leaf_index = 1, mp_leaf_count = 2, mp_siblings = [77]\<rparr>,
      dp_transaction_effect_path = \<lparr>mp_leaf_index = 0, mp_leaf_count = 1, mp_siblings = []\<rparr>,
      dp_readonly_l1_values = [],
      dp_settlement_effects = [\<lparr>ae_global_index = 0, ae_effect_index = 0, ae_effect = [3],
        ae_path = \<lparr>mp_leaf_index = 0, mp_leaf_count = 1, mp_siblings = []\<rparr>\<rparr>]\<rparr>"

definition sample_artifact :: checkpoint_artifact where
  "sample_artifact =
     \<lparr>ca_checkpoint = \<lparr>kc_version = 1, kc_session = 7, kc_er_slot = 9, kc_step_count = 1,
        kc_previous_state_root = 5, kc_new_state_root = 5, kc_trace_root = 69, kc_transaction_effect_root = 82,
        kc_readonly_l1_root = 11, kc_da_commitment = 81, kc_effect_commitment = 17\<rparr>,
      ca_da = \<lparr>pk_manifest = \<lparr>dm_version = 1, dm_session = 7, dm_er_slot = 9, dm_step_count = 1, dm_codec = Raw,
          dm_dictionary_hash = 59, dm_trace_root = 69, dm_transaction_effect_root = 82, dm_readonly_l1_root = 11,
          dm_effect_commitment = 17,
          dm_pages = [\<lparr>pd_page_index = 0, pd_step_index = 0, pd_uncompressed_len = 5, pd_encoded_len = 5, pd_payload_hash = 58\<rparr>]\<rparr>,
        pk_pages = [sample_page]\<rparr>\<rparr>"

lemma small_trees:
  "MerkleTree_new hash kind [] = Inr \<lparr>mt_kind = kind, mt_leaf_count = 0,
     mt_layers = [[typed_hash hash kind (ascii ''empty-leaf'') (u32_le 0)]]\<rparr>"
  "MerkleTree_new hash kind [a] = Inr \<lparr>mt_kind = kind, mt_leaf_count = 1, mt_layers = [[a]]\<rparr>"
  "MerkleTree_new hash kind [a, b] = Inr \<lparr>mt_kind = kind, mt_leaf_count = 2, mt_layers = [[a, b], [node_hash hash kind 0 a b]]\<rparr>"
  by (simp_all add: MerkleTree_new_def to_u32_def empty_leaf_hash_def power_from.simps build_layers.simps checked_add_def)

lemma sample_root: "state_root_v1 (sample_artifact_env enc dec) [] = Inr 5"
  by (simp add: state_root_v1_def small_trees MerkleTree_root_def root_hash_def typed_hash_def CHECKPOINT_HASH_DOMAIN_V1_def
      ascii_def mask_root_def sample_artifact_env_def)

lemma sample_validates: "validate_steps (sample_artifact_env enc dec) [sample_step] = Inr ()"
proof -
  have "FrBytes_new (key_bytes 5) = Inr (key_bytes 5)" by code_simp
  then show ?thesis
    by (simp add: validate_steps_def sample_step_def sample_root CANONICAL_CHECKPOINT_STEPS_V1_def MAX_STATE_ACCOUNTS_PER_STEP_V1_def
        MAX_TRANSACTION_BYTES_V1_def MAX_TRANSACTION_EFFECT_BYTES_V1_def MAX_READONLY_L1_VALUES_PER_STEP_V1_def
        MAX_SETTLEMENT_EFFECTS_PER_STEP_V1_def MAX_SETTLEMENT_EFFECT_BYTES_V1_def)
qed

lemma sample_builds: "build_checkpoint_artifact_v1 (sample_artifact_env enc dec) 7 9 [sample_step] = Inr sample_artifact"
  unfolding build_checkpoint_artifact_v1_def sample_validates
  by (simp add: build_trees_def trace_leaves_def vec_at_def trace_leaf_hash_def transaction_effect_leaf_hash_def
      settlement_effect_leaf_hash_def encode_def sample_step_def sample_artifact_env_def small_trees checked_add_def to_u32_def
      typed_hash_def CHECKPOINT_HASH_DOMAIN_V1_def ascii_def build_page_def authenticate_readonly_def authenticate_effects_def
      usize_add_def MerkleTree_path_def sibling_index_def MerkleTree_root_def root_hash_def node_hash_def mask_root_def
      describe_page_def sample_artifact_def sample_page_def CHECKPOINT_FORMAT_VERSION_V1_def)

subsection \<open>Round trip and chain of states\<close>

text \<open>C18: Publishing and fetching an artifact is a round trip.  The artifact that the operator builds is what
  \<open>decode_verified\<close> returns for its bytes; conversely whatever \<open>decode_verified\<close> returns is an artifact that some
  steps build and whose canonical bytes are the input.\<close>

theorem artifact_round_trip:
  assumes "\<And>a bs. enc_artifact A a = Some bs \<Longrightarrow> dec_artifact A bs = Some a"
  shows "(enc_artifact A a = Some bs \<and> build_checkpoint_artifact_v1 A session er_slot steps = Inr a
            \<longrightarrow> decode_verified A bs = Inr a)
    \<and> (decode_verified A bs = Inr a \<longrightarrow> enc_artifact A a = Some bs
        \<and> (\<exists>session er_slot steps. build_checkpoint_artifact_v1 A session er_slot steps = Inr a))"
proof (intro conjI [of "_ \<longrightarrow> _"] impI)
  assume "enc_artifact A a = Some bs \<and> build_checkpoint_artifact_v1 A session er_slot steps = Inr a"
  then show "decode_verified A bs = Inr a"
    using assms [of a bs] built_verifies [of A session er_slot steps a]
    by (simp add: decode_verified_def canonical_bytes_def encode_def)
next
  assume "decode_verified A bs = Inr a"
  then have "enc_artifact A a = Some bs" "CheckpointArtifactV1_verify A a = Inr ()"
    by (auto simp: decode_verified_def canonical_bytes_def encode_def ok_simps)
  then show "enc_artifact A a = Some bs \<and> (\<exists>session er_slot steps. build_checkpoint_artifact_v1 A session er_slot steps = Inr a)"
    using verifyD by blast
qed

theorem artifact_round_trip_witness:
  "decode_verified (sample_artifact_env (\<lambda>a. if a = sample_artifact then Some [1] else None)
     (\<lambda>bs. if bs = [1] then Some sample_artifact else None)) [1] = Inr sample_artifact"
proof -
  let ?A = "sample_artifact_env (\<lambda>a. if a = sample_artifact then Some [1] else None) (\<lambda>bs. if bs = [1] then Some sample_artifact else None)"
  have "enc_artifact ?A a = Some bs \<Longrightarrow> dec_artifact ?A bs = Some a" for a bs
    by (auto simp: sample_artifact_env_def split: if_splits)
  from artifact_round_trip [of ?A, OF this, of sample_artifact "[1]" 7 9 "[sample_step]"] show ?thesis
    by (simp add: sample_builds) (simp add: sample_artifact_env_def)
qed

text \<open>C19: A verified artifact is a chain of states: it has one to sixteen pages, counted by its step count and numbered
  from zero; the first starts at the previous state root, each next one where the one before ended, and the last
  ends at the new state root; and each page's roots are those of the accounts it lists.\<close>

theorem verified_artifact_chain:
  assumes "CheckpointArtifactV1_verify A a = Inr ()"
  shows "let pages = pk_pages (ca_da a); c = ca_checkpoint a in
      1 \<le> length pages \<and> length pages \<le> 16 \<and> unat (kc_step_count c) = length pages
      \<and> dp_pre_state_root (hd pages) = kc_previous_state_root c \<and> dp_post_state_root (last pages) = kc_new_state_root c
      \<and> (\<forall>i < length pages. unat (dp_step_index (pages ! i)) = i
           \<and> state_root_v1 A (dp_pre_state_accounts (pages ! i)) = Inr (dp_pre_state_root (pages ! i))
           \<and> state_root_v1 A (dp_post_state_accounts (pages ! i)) = Inr (dp_post_state_root (pages ! i))
           \<and> (Suc i < length pages \<longrightarrow> dp_post_state_root (pages ! i) = dp_pre_state_root (pages ! Suc i)))"
proof -
  define pages where "pages = pk_pages (ca_da a)"
  let ?steps = "map page_to_input pages"
  from verifyD [OF assms(1)] obtain trees where v: "validate_steps A ?steps = Inr ()"
    and c: "kc_step_count (ca_checkpoint a) = of_nat (length ?steps)"
      "kc_previous_state_root (ca_checkpoint a) = si_pre_state_root (?steps ! 0)"
      "kc_new_state_root (ca_checkpoint a) = si_post_state_root (?steps ! (length ?steps - 1))"
    unfolding pages_def by (rule buildD)
  note V = validate_stepsD [OF v]
  have n: "1 \<le> length pages" "length pages \<le> 16" "pages \<noteq> []" using V(1,2) by (auto simp: Suc_le_eq)
  have "unat (kc_step_count (ca_checkpoint a)) = length pages"
    using n c(1) by (simp add: unat_of_nat take_bit_nat_eq_self)
  moreover have "dp_pre_state_root (hd pages) = kc_previous_state_root (ca_checkpoint a)"
    "dp_post_state_root (last pages) = kc_new_state_root (ca_checkpoint a)"
    using c(2,3) n by (simp_all add: page_to_input_def hd_conv_nth last_conv_nth)
  moreover have "unat (dp_step_index (pages ! i)) = i
      \<and> state_root_v1 A (dp_pre_state_accounts (pages ! i)) = Inr (dp_pre_state_root (pages ! i))
      \<and> state_root_v1 A (dp_post_state_accounts (pages ! i)) = Inr (dp_post_state_root (pages ! i))
      \<and> (Suc i < length pages \<longrightarrow> dp_post_state_root (pages ! i) = dp_pre_state_root (pages ! Suc i))" if "i < length pages" for i
    using that V(3,4,5,6) [of i] n(2) by (auto simp: page_to_input_def unat_of_nat take_bit_nat_eq_self)
  ultimately show ?thesis using n(1,2) by (simp add: pages_def [symmetric])
qed

theorem verified_artifact_chain_witness:
  "dp_pre_state_root (hd (pk_pages (ca_da sample_artifact))) = kc_previous_state_root (ca_checkpoint sample_artifact)
   \<and> unat (kc_step_count (ca_checkpoint sample_artifact)) = 1"
  using verified_artifact_chain [OF built_verifies [OF sample_builds [of "\<lambda>_. None" "\<lambda>_. None"]]]
  by (simp add: Let_def sample_artifact_def)

end
