(* ===== verification/Node_Portal.thy ===== *)
theory Node_Portal
  imports Artifact_Props Portal_Challenge
begin

text \<open>
  The two sides of the checkpoint protocol together: the authentication paths that the node puts into the pages
  of an artifact (\<open>northstar/src/checkpoint.rs\<close>) and the checks of the Portal program in the challenge game
  (\<open>programs/portal/src/instructions/checkpoint.rs\<close>).
\<close>

subsection \<open>The same climb\<close>

lemma node_hash_portal: "node_hash hash kind (of_nat level) l r = checkpoint_node hash (tree_tag kind) level l r"
  by (simp add: node_hash_def checkpoint_node_def CHECKPOINT_HASH_DOMAIN_V1_def checkpoint_domain_def)

lemma climb_path_portal:
  "level + length siblings \<le> 2 ^ 32 \<Longrightarrow>
   climb_path hash kind level index siblings current = Some (climb hash (tree_tag kind) level index siblings current)"
  by (induction siblings arbitrary: level index current) (simp_all add: node_hash_portal)

lemma root_hash_portal:
  "\<not> root_is_field kind \<Longrightarrow> root_hash hash kind n inner = checkpoint_root hash (tree_tag kind) n inner"
  by (simp add: root_hash_def checkpoint_root_def CHECKPOINT_HASH_DOMAIN_V1_def checkpoint_domain_def)

lemma tree_depth_le: "n \<le> 2 ^ k \<Longrightarrow> zeros_below (power_from (Suc 0) (max n (Suc 0))) \<le> k"
  using width_bounds(2) [of n k] by simp

lemma expected_depth:
  assumes "unat w \<le> 2 ^ 31"
  shows "trailing_zeros (next_power_of_two (max w 1)) = tree_depth (unat w)"
proof -
  have m: "unat (max w 1) = max (unat w) (Suc 0)" by (simp add: max_def word_le_nat_alt)
  have "tree_depth (unat w) \<le> 31" using assms by (rule width_bounds(2))
  then have "(2::nat) ^ tree_depth (unat w) \<le> 2 ^ 31" by (intro power_increasing) simp_all
  then have "unat (of_nat (2 ^ tree_depth (unat w)) :: u32) = 2 ^ tree_depth (unat w)"
    by (simp add: unat_of_nat take_bit_nat_eq_self del: of_nat_power)
  then show ?thesis by (auto simp: trailing_zeros_def next_power_of_two_def m simp del: of_nat_power)
qed

text \<open>The check of a path against a root, once the sibling count is right, is the node's \<open>verify\<close>.\<close>

lemma verify_path_portal:
  assumes "\<not> root_is_field kind" "unat n \<le> 2 ^ 31" "index < n"
  shows "verify_path hash \<lparr>mp_leaf_index = index, mp_leaf_count = n, mp_siblings = siblings\<rparr> kind leaf root
    \<longleftrightarrow> length siblings = trailing_zeros (next_power_of_two (max n 1))
       \<and> checkpoint_root hash (tree_tag kind) n (climb hash (tree_tag kind) 0 (unat index) siblings leaf) = root"
proof -
  have "n \<noteq> 0" "unat n \<ge> Suc 0" using assms(3) by (auto simp: word_less_nat_alt)
  then have pf: "zeros_below (power_from (Suc 0) (max (unat n) (Suc 0))) = tree_depth (unat n)" by (simp add: tree_depth_def)
  have "tree_depth (unat n) \<le> 31" using assms(2) by (rule width_bounds(2))
  then have "climb_path hash kind 0 (unat index) siblings leaf = Some (climb hash (tree_tag kind) 0 (unat index) siblings leaf)"
    if "length siblings = tree_depth (unat n)"
    using that by (intro climb_path_portal) simp
  then show ?thesis using assms \<open>n \<noteq> 0\<close>
    by (auto simp: verify_path_def Let_def pf expected_depth root_hash_portal simp del: width_power)
qed

subsection \<open>The Portal's checks\<close>

lemma small_ucast: "unat w < 2 ^ 32 \<Longrightarrow> unat (ucast w :: u32) = unat w" for w :: u64
  by (simp add: unsigned_ucast_eq take_bit_nat_eq_self)

text \<open>Both checks of the Portal are the node's \<open>verify\<close> on the sent prefix of the array, with the rest of the
  array zero.\<close>

definition sent_path :: "u64 \<Rightarrow> u64 \<Rightarrow> u8 \<Rightarrow> hash32 list \<Rightarrow> merkle_path" where
  "sent_path index count path_len path =
     \<lparr>mp_leaf_index = ucast index, mp_leaf_count = ucast count, mp_siblings = take (unat path_len) path\<rparr>"

lemma sent_path_check:
  assumes "\<not> root_is_field kind" "unat index < unat count" "unat count \<le> 2 ^ 31" "tree_depth (unat count) \<le> length path"
  defines "depth \<equiv> trailing_zeros (next_power_of_two (max (ucast count) 1))"
  shows "depth = tree_depth (unat count)"
    and "unat path_len = depth \<Longrightarrow>
      checkpoint_root hash (tree_tag kind) (ucast count) (climb hash (tree_tag kind) 0 (unat index) (take depth path) leaf) = root
        \<longleftrightarrow> verify_path hash (sent_path index count path_len path) kind leaf root"
    and "unat path_len \<le> length path \<Longrightarrow> verify_path hash (sent_path index count path_len path) kind leaf root \<Longrightarrow> unat path_len = depth"
proof -
  have u: "unat (ucast count :: u32) = unat count" "unat (ucast index :: u32) = unat index"
    using assms(2,3) by (simp_all add: small_ucast)
  show d: "depth = tree_depth (unat count)" unfolding depth_def using expected_depth [of "ucast count"] assms(3) by (simp add: u)
  have "(ucast index :: u32) < ucast count" using assms(2) by (simp add: word_less_nat_alt u)
  note V = verify_path_portal [OF assms(1) _ this, of hash, simplified u, OF assms(3), folded depth_def, folded sent_path_def]
  show "unat path_len = depth \<Longrightarrow>
      checkpoint_root hash (tree_tag kind) (ucast count) (climb hash (tree_tag kind) 0 (unat index) (take depth path) leaf) = root
        \<longleftrightarrow> verify_path hash (sent_path index count path_len path) kind leaf root"
    using V assms(4) d by (simp add: sent_path_def)
  show "unat path_len \<le> length path \<Longrightarrow> verify_path hash (sent_path index count path_len path) kind leaf root \<Longrightarrow> unat path_len = depth"
    using V by (simp add: sent_path_def)
qed


lemma list_ex_nonzero: "list_ex (\<lambda>node. node \<noteq> 0) xs \<longleftrightarrow> \<not> list_all (\<lambda>node. node = 0) xs"
  by (simp add: list_all_iff list_ex_iff)

lemma portal_trace_check:
  assumes "\<And>ps. hash ps = hash [concat ps]" "unat (cp_step_count c) \<le> 16" "length path = 5"
  shows "verify_trace_authentication_path hash c i r n path =
    Inr (i \<le> cp_step_count c \<and> unat n \<le> 5 \<and> list_all (\<lambda>node. node = 0) (drop (unat n) path)
       \<and> verify_path hash (sent_path i (cp_step_count c + 1) n path) TraceTree
           (typed_hash hash TraceTree (ascii ''leaf'') (u32_le (ucast i) @ key_bytes r)) (cp_trace_root c))"
proof -
  let ?n = "cp_step_count c + 1"
  have n: "saturating_add (cp_step_count c) 1 = ?n" "unat ?n = Suc (unat (cp_step_count c))"
    using assms(2) by (simp_all add: saturating_add_def unat_word_ariths)
  have d: "tree_depth (unat ?n) \<le> 5" using assms(2) by (intro width_bounds(2)) (simp add: n)
  have leaf: "typed_hash hash TraceTree (ascii ''leaf'') (u32_le (ucast i) @ key_bytes r) =
      hash [checkpoint_domain, ascii ''trace'', ascii ''leaf'', u64_le 36, u32_le (ucast i), key_bytes r]"
    unfolding typed_hash_def by (subst (1 2) assms(1)) (simp add: checkpoint_domain_def CHECKPOINT_HASH_DOMAIN_V1_def)
  show ?thesis
  proof (cases "i \<le> cp_step_count c")
    case True
    then have "unat i < unat ?n" by (simp add: n word_le_nat_alt)
    then have C: "trailing_zeros (next_power_of_two (max (ucast ?n) 1)) = tree_depth (unat ?n)"
      "unat n = tree_depth (unat ?n) \<Longrightarrow>
        checkpoint_root hash (ascii ''trace'') (ucast ?n) (climb hash (ascii ''trace'') 0 (unat i) (take (tree_depth (unat ?n)) path) leaf) = root
          \<longleftrightarrow> verify_path hash (sent_path i ?n n path) TraceTree leaf root"
      "unat n \<le> 5 \<Longrightarrow> verify_path hash (sent_path i ?n n path) TraceTree leaf root \<Longrightarrow> unat n = tree_depth (unat ?n)" for leaf root
      using sent_path_check(1) [where kind = TraceTree and index = i and count = ?n and path = path]
        sent_path_check(2,3) [where kind = TraceTree and index = i and count = ?n and path = path and path_len = n and hash = hash
          and leaf = leaf and root = root] d assms(2,3)
      by (simp_all add: n(2))
    have "\<not> i \<ge> ?n" "\<not> unat i \<ge> 2 ^ 32" "\<not> unat ?n \<ge> 2 ^ 32"
      using True assms(2) by (simp_all add: word_le_nat_alt n)
    then show ?thesis using C d assms(3) True
      by (auto simp: verify_trace_authentication_path_def n(1) leaf Let_def list_ex_nonzero)
  next
    case False
    then have "i \<ge> ?n" using n(2) by (simp add: word_le_nat_alt)
    then show ?thesis using False by (auto simp: verify_trace_authentication_path_def n(1) Let_def)
  qed
qed

lemma portal_tx_effect_check:
  assumes "unat (cp_step_count c) \<le> 16" "4 \<le> length path" "unat n \<le> length path"
  shows "verify_tx_effect_authentication_path hash c i leaf n path =
    Inr (i < cp_step_count c \<and> list_all (\<lambda>node. node = 0) (drop (unat n) path)
       \<and> verify_path hash (sent_path i (cp_step_count c) n path) TransactionEffectTree leaf (cp_tx_effect_root c))"
proof (cases "i < cp_step_count c")
  case True
  have d: "tree_depth (unat (cp_step_count c)) \<le> 4" using assms(1) by (intro width_bounds(2)) simp
  have "unat i < unat (cp_step_count c)" using True by (simp add: word_less_nat_alt)
  then have C: "trailing_zeros (next_power_of_two (max (ucast (cp_step_count c)) 1)) = tree_depth (unat (cp_step_count c))"
    "unat n = tree_depth (unat (cp_step_count c)) \<Longrightarrow>
      checkpoint_root hash (ascii ''transaction-effect'') (ucast (cp_step_count c))
        (climb hash (ascii ''transaction-effect'') 0 (unat i) (take (tree_depth (unat (cp_step_count c))) path) leaf) = cp_tx_effect_root c
        \<longleftrightarrow> verify_path hash (sent_path i (cp_step_count c) n path) TransactionEffectTree leaf (cp_tx_effect_root c)"
    "verify_path hash (sent_path i (cp_step_count c) n path) TransactionEffectTree leaf (cp_tx_effect_root c)
      \<Longrightarrow> unat n = tree_depth (unat (cp_step_count c))"
    using sent_path_check(1) [where kind = TransactionEffectTree and index = i and count = "cp_step_count c" and path = path]
      sent_path_check(2,3) [where kind = TransactionEffectTree and index = i and count = "cp_step_count c" and path = path
        and path_len = n and hash = hash and leaf = leaf and root = "cp_tx_effect_root c"] d assms
    by simp_all
  show ?thesis using C d assms True by (auto simp: verify_tx_effect_authentication_path_def Let_def list_ex_nonzero)
qed (auto simp: verify_tx_effect_authentication_path_def)


subsection \<open>A built checkpoint can be defended\<close>

text \<open>The fixed-size array in which a path is sent: its siblings, then zeros.\<close>

definition path_array :: "nat \<Rightarrow> merkle_path \<Rightarrow> hash32 list" where
  "path_array n p = mp_siblings p @ replicate (n - length (mp_siblings p)) 0"

lemma sent_path_array:
  assumes "verify_path hash p kind leaf root" "mp_leaf_index p = ucast i" "mp_leaf_count p = ucast n" "unat (mp_leaf_count p) \<le> 2 ^ k" "k < 256"
  shows "sent_path i n (of_nat (length (mp_siblings p))) (path_array m p) = p"
    "unat (of_nat (length (mp_siblings p)) :: u8) \<le> k"
    "list_all (\<lambda>node. node = 0) (drop (unat (of_nat (length (mp_siblings p)) :: u8)) (path_array m p))"
    "k \<le> m \<Longrightarrow> length (path_array m p) = m"
proof -
  have "length (mp_siblings p) = zeros_below (power_from (Suc 0) (max (unat (mp_leaf_count p)) (Suc 0)))"
    using assms(1) by (auto simp: verify_path_def Let_def split: if_splits simp del: width_power)
  then have k: "length (mp_siblings p) \<le> k" using tree_depth_le [OF assms(4)] by simp
  then have u: "unat (of_nat (length (mp_siblings p)) :: u8) = length (mp_siblings p)"
    using assms(5) by (simp add: unat_of_nat take_bit_nat_eq_self)
  show "sent_path i n (of_nat (length (mp_siblings p))) (path_array m p) = p"
    using assms(2,3) by (simp add: sent_path_def path_array_def u)
  show "unat (of_nat (length (mp_siblings p)) :: u8) \<le> k"
    "list_all (\<lambda>node. node = 0) (drop (unat (of_nat (length (mp_siblings p)) :: u8)) (path_array m p))"
    "k \<le> m \<Longrightarrow> length (path_array m p) = m"
    using k by (simp_all add: u path_array_def list_all_iff)
qed

lemma ucast_of_nat: "(ucast (of_nat m :: u64) :: u32) = of_nat m"
  by (simp add: unsigned_of_nat word_of_nat_eq_iff take_bit_take_bit min_def)

lemma small_unat:
  "m \<le> 17 \<Longrightarrow> unat (of_nat m :: u32) = m" "m \<le> 17 \<Longrightarrow> unat (of_nat m :: u64) = m"
  "m \<le> 17 \<Longrightarrow> unat (ucast (of_nat m :: u32) :: u64) = m"
  by (simp_all add: unsigned_ucast_eq unat_of_nat take_bit_nat_eq_self)

text \<open>A path that verifies in a trace of at most sixteen steps is accepted by the Portal.\<close>

lemma trace_path_accepted:
  assumes "\<And>ps. hash ps = hash [concat ps]" "cp_step_count c = of_nat n" "n \<le> 16" "j \<le> n"
    and "verify_path hash p TraceTree (typed_hash hash TraceTree (ascii ''leaf'') (u32_le (of_nat j) @ key_bytes r)) (cp_trace_root c)"
    and "mp_leaf_index p = of_nat j" "mp_leaf_count p = of_nat (Suc n)"
  shows "verify_trace_authentication_path hash c (of_nat j) r (of_nat (length (mp_siblings p))) (path_array 5 p) = Inr True"
proof -
  have "unat (mp_leaf_count p) \<le> 2 ^ 5" using assms(3,7) small_unat(1) [of "Suc n"] by simp
  note S = sent_path_array [OF assms(5), of "of_nat j" "of_nat (Suc n)" 5, unfolded ucast_of_nat, OF assms(6,7) this]
  have "unat (cp_step_count c) \<le> 16" "cp_step_count c + 1 = of_nat (Suc n)" "of_nat j \<le> cp_step_count c"
    using assms(2,3,4) by (simp_all add: small_unat word_le_nat_alt)
  then show ?thesis
    using S(1) [of 5] S(2) S(3) [of 5] S(4) [of 5] assms(5) by (simp add: portal_trace_check [of hash, OF assms(1)] ucast_of_nat del: of_nat_Suc)
qed

lemma tx_effect_path_accepted:
  assumes "cp_step_count c = of_nat n" "n \<le> 16" "j < n"
    and "verify_path hash p TransactionEffectTree leaf (cp_tx_effect_root c)" "mp_leaf_index p = of_nat j" "mp_leaf_count p = of_nat n"
  shows "verify_tx_effect_authentication_path hash c (of_nat j) leaf (of_nat (length (mp_siblings p))) (path_array 4 p) = Inr True"
proof -
  have "unat (mp_leaf_count p) \<le> 2 ^ 4" using assms(2,6) small_unat(1) [of n] by simp
  note S = sent_path_array [OF assms(4), of "of_nat j" "of_nat n" 4, unfolded ucast_of_nat, OF assms(5,6) this]
  have "unat (cp_step_count c) \<le> 16" "of_nat j < cp_step_count c"
    using assms(1,2,3) by (simp_all add: small_unat word_less_nat_alt)
  then show ?thesis
    using S(1) [of 4] S(2) S(3) [of 4] S(4) [of 4] assms(1,4) by (simp add: portal_tx_effect_check)
qed

text \<open>C20: An operator who proposes the checkpoint it built can answer every turn of the challenge game: for each
  step the Portal accepts the page's paths, sent in the instruction's fixed arrays, for the state before the
  step, the state after it, and the effect of its transaction.\<close>

theorem built_checkpoint_defends:
  assumes concat: "\<And>ps. ahash A ps = ahash A [concat ps]"
    and layout: "\<And>i r. enc_trace_leaf A i r = Some (u32_le i @ key_bytes r)"
    and built: "build_checkpoint_artifact_v1 A session er_slot steps = Inr a"
    and proposed: "cp_step_count c = ucast (kc_step_count (ca_checkpoint a))" "cp_trace_root c = kc_trace_root (ca_checkpoint a)"
      "cp_tx_effect_root c = kc_transaction_effect_root (ca_checkpoint a)"
    and i: "i < length steps"
  shows "let page = pk_pages (ca_da a) ! i; len = (\<lambda>p. of_nat (length (mp_siblings p))) in
      verify_trace_authentication_path (ahash A) c (of_nat i) (dp_pre_state_root page)
        (len (dp_pre_state_path page)) (path_array 5 (dp_pre_state_path page)) = Inr True
      \<and> verify_trace_authentication_path (ahash A) c (of_nat (Suc i)) (dp_post_state_root page)
        (len (dp_post_state_path page)) (path_array 5 (dp_post_state_path page)) = Inr True
      \<and> verify_tx_effect_authentication_path (ahash A) c (of_nat i) (dp_transaction_effect_commitment page)
        (len (dp_transaction_effect_path page)) (path_array 4 (dp_transaction_effect_path page)) = Inr True"
proof -
  let ?page = "pk_pages (ca_da a) ! i" and ?leaf = "\<lambda>j r. typed_hash (ahash A) TraceTree (ascii ''leaf'') (u32_le j @ key_bytes r)"
  from built obtain trees where v: "validate_steps A steps = Inr ()" and count: "kc_step_count (ca_checkpoint a) = of_nat (length steps)"
    by (rule buildD)
  have n: "length steps \<le> 16" by (rule validate_stepsD(2) [OF v])
  then have c: "cp_step_count c = of_nat (length steps)" by (intro unat_eq_of_nat) (simp add: proposed(1) count small_unat)
  have "page_to_input ?page = steps ! i" using built_pages [OF built] i by (metis nth_map)
  then have roots: "dp_pre_state_root ?page = si_pre_state_root (steps ! i)" "dp_post_state_root ?page = si_post_state_root (steps ! i)"
    by (simp_all add: page_to_input_def flip: \<open>page_to_input ?page = steps ! i\<close>)
  have leaf: "trace_leaf_hash A j r = Inr (?leaf j r)" for j r by (simp add: trace_leaf_hash_def layout encode_def)
  obtain tx where
    pre: "verify_path (ahash A) (dp_pre_state_path ?page) TraceTree (?leaf (of_nat i) (dp_pre_state_root ?page)) (cp_trace_root c)"
      "mp_leaf_index (dp_pre_state_path ?page) = of_nat i" "mp_leaf_count (dp_pre_state_path ?page) = of_nat (Suc (length steps))"
    and post: "verify_path (ahash A) (dp_post_state_path ?page) TraceTree (?leaf (of_nat (Suc i)) (dp_post_state_root ?page)) (cp_trace_root c)"
      "mp_leaf_index (dp_post_state_path ?page) = of_nat (Suc i)" "mp_leaf_count (dp_post_state_path ?page) = of_nat (Suc (length steps))"
    and tx: "dp_transaction_effect_commitment ?page = tx"
      "verify_path (ahash A) (dp_transaction_effect_path ?page) TransactionEffectTree tx (cp_tx_effect_root c)"
      "mp_leaf_index (dp_transaction_effect_path ?page) = of_nat i" "mp_leaf_count (dp_transaction_effect_path ?page) = of_nat (length steps)"
    by (rule built_page_paths [OF built i]) (simp add: leaf roots proposed del: of_nat_Suc)
  show ?thesis
    unfolding Let_def tx(1)
    using trace_path_accepted [of "ahash A", OF concat c n _ pre] trace_path_accepted [of "ahash A", OF concat c n _ post] tx_effect_path_accepted [OF c n i tx(2-4)] i
    by (simp del: of_nat_Suc)
qed

theorem built_checkpoint_defends_witness:
  "verify_trace_authentication_path (ahash (sample_artifact_env (\<lambda>_. None) (\<lambda>_. None)))
     (proposed_checkpoint \<lparr>pc_er_slot = 9, pc_step_count = 1, pc_previous_state_root = 5, pc_new_state_root = 5, pc_trace_root = 69,
        pc_tx_effect_root = 82, pc_readonly_l1_root = 11, pc_da_commitment = 81, pc_effect_commitment = 17, pc_challenge_window_slots = 100\<rparr> 7 6 100 200 255)
     0 5 1 (path_array 5 (dp_pre_state_path sample_page)) = Inr True"
proof -
  let ?c = "proposed_checkpoint \<lparr>pc_er_slot = 9, pc_step_count = 1, pc_previous_state_root = 5, pc_new_state_root = 5, pc_trace_root = 69,
        pc_tx_effect_root = 82, pc_readonly_l1_root = 11, pc_da_commitment = 81, pc_effect_commitment = 17, pc_challenge_window_slots = 100\<rparr> 7 6 100 200 255"
  let ?A = "sample_artifact_env (\<lambda>_. None) (\<lambda>_. None)"
  have "ahash ?A ps = ahash ?A [concat ps]" for ps by (simp add: sample_artifact_env_def)
  moreover have "enc_trace_leaf ?A i r = Some (u32_le i @ key_bytes r)" for i r by (simp add: sample_artifact_env_def)
  ultimately show ?thesis
    using built_checkpoint_defends [of ?A, OF _ _ sample_builds, of ?c 0]
    by (simp add: sample_artifact_def sample_page_def proposed_checkpoint_def)
qed

end
