(* ===== verification/Replay_Types.thy ===== *)
theory Replay_Types
  imports Checkpoint_Artifact
begin

text \<open>
  The witness of the transaction prover (\<open>transaction-proof/src/lib.rs\<close> and \<open>checkpoint.rs\<close>), its errors, and what
  the guest program links.  Byte arrays of 32 bytes are 256-bit words, longer ones are byte lists of the array's length;
  \<open>[u64; 12]\<close> is a list of twelve words.  The structs that the crate shares with the node, field by field, are those
  of \<open>Checkpoint_Artifact\<close>.
\<close>

subsection \<open>Witness\<close>

datatype replay_error =
  ReplayEncoding | Magic | Version | Domain | Wire | Signature | Blockhash | Accounts | Fee | Program | Trace | Opcode
  | Register | Memory | Compute | Outcome | ReplayCommitment

text \<open>The guest rejects with an error of the enum, or panics.\<close>

datatype replay_failure = Rejected replay_error | GuestPanic

type_synonym 'a rres = "replay_failure + 'a"

record account_witness =
  aw_key :: hash32
  aw_signer :: bool
  aw_writable :: bool
  aw_invoked :: bool
  aw_lamports :: u64
  aw_owner :: hash32
  aw_executable :: bool
  aw_rent_epoch :: u64
  aw_data :: bytes

record account_effect =
  fx_step_index :: u32
  fx_value :: state_account_value
  fx_deleted :: bool

record transaction_effect =
  te_version :: u8
  te_step_index :: u32
  te_transaction_hash :: hash32
  te_executed_units :: u64
  te_account_effects :: "account_effect list"

record checkpoint_binding =
  cb_pre_state_accounts :: "state_account_value list"
  cb_post_state_accounts :: "state_account_value list"
  cb_transaction_effect :: bytes
  cb_transaction_effect_path :: merkle_path
  cb_checkpoint_transaction_effect_root :: hash32
  cb_readonly_l1_values :: "authenticated_readonly_l1_value list"
  cb_readonly_l1_root :: hash32
  cb_settlement_effects :: "authenticated_settlement_effect list"
  cb_settlement_effect_root :: hash32

record program_word =
  pw_pc :: u64
  pw_instruction :: bytes
  pw_lddw_high :: u32

record call_target =
  tg_function_hash :: u32
  tg_target_pc :: u64

record vm_row =
  vr_registers :: "u64 list"
  vr_instruction :: bytes
  vr_syscall_key :: u32

record runtime_witness =
  rw_agave_revision :: bytes
  rw_northstar_revision :: bytes
  rw_feature_set_hash :: hash32
  rw_recent_blockhashes :: "hash32 list"
  rw_lamports_per_signature :: u64
  rw_slot :: u64
  rw_sbpf_version :: u8
  rw_vm_config_hash :: hash32
  rw_syscall_registry_hash :: hash32
  rw_program_id :: hash32
  rw_programdata_id :: hash32
  rw_entry_pc :: u64
  rw_program_elf :: bytes
  rw_program_hash :: hash32

record result_witness =
  rs_executed_success :: bool
  rs_transaction_error :: u32
  rs_instruction_error :: u32
  rs_instruction_index :: u32
  rs_custom_error :: u32
  rs_executed_units :: u64
  rs_loaded_accounts_data_size :: u64
  rs_transaction_fee :: u64
  rs_prioritization_fee :: u64
  rs_return_data :: bytes
  rs_log_commitment :: hash32

record replay_witness =
  w_magic :: bytes
  w_version :: u16
  w_proof_kind :: u8
  w_proof_version :: u8
  w_trace_schema_version :: u16
  w_session_context :: bytes
  w_er_slot :: u64
  w_step_index :: u64
  w_transaction_bytes :: bytes
  w_message_bytes :: bytes
  w_signature :: bytes
  w_signer :: hash32
  w_recent_blockhash :: hash32
  w_instruction_data :: bytes
  w_pre_accounts :: "account_witness list"
  w_post_accounts :: "account_witness list"
  w_rollback_accounts :: "account_witness list"
  w_readonly_accounts :: "account_witness list"
  w_checkpoint :: checkpoint_binding
  w_runtime :: runtime_witness
  w_event_tags :: bytes
  w_program_words :: "program_word list"
  w_call_targets :: "call_target list"
  w_vm_rows :: "vm_row list"
  w_program_input_before :: bytes
  w_program_input_after :: bytes
  w_stack_after :: bytes
  w_heap_after :: bytes
  w_compute_units_before :: u64
  w_compute_units_after :: u64
  w_trace_hash :: hash32
  w_result :: result_witness

record checkpoint_public_inputs =
  cpi_pre_state_root :: hash32
  cpi_post_state_root :: hash32
  cpi_transaction_effect_commitment :: hash32
  cpi_readonly_l1_root :: hash32
  cpi_settlement_effect_root :: hash32

text \<open>What the guest links: SHA-256, the derived Borsh instances, strict Ed25519 verification of a message under a
  signer's key (false also when the key does not decode), and the Poseidon hash of field elements.\<close>

record replay_env =
  rsha :: hasher
  renc_state_leaf :: "u32 \<Rightarrow> state_account_value \<Rightarrow> bytes option"
  renc_transaction_leaf :: "u32 \<Rightarrow> bytes \<Rightarrow> bytes \<Rightarrow> bytes option"
  renc_readonly_leaf :: "u32 \<Rightarrow> u32 \<Rightarrow> u32 \<Rightarrow> readonly_l1_value \<Rightarrow> bytes option"
  renc_settlement_leaf :: "u32 \<Rightarrow> u32 \<Rightarrow> u32 \<Rightarrow> bytes \<Rightarrow> bytes option"
  renc_account_effect :: "account_effect \<Rightarrow> bytes option"
  renc_transaction_effect :: "transaction_effect \<Rightarrow> bytes option"
  rdec_transaction_effect :: "bytes \<Rightarrow> transaction_effect option"
  rverify_strict :: "hash32 \<Rightarrow> bytes \<Rightarrow> bytes \<Rightarrow> bool"
  rposeidon :: "nat list \<Rightarrow> nat option"

end
