(* ===== verification/Replay_Checkpoint.thy ===== *)
theory Replay_Checkpoint
  imports Replay_Types "HOL-Library.Product_Lexorder"
begin

text \<open>
  The checkpoint part of the transaction prover (\<open>transaction-proof/src/checkpoint.rs\<close>): the guest program
  recomputes the state roots and leaves of a step from its witness and checks the transition between them.
  The crate has its own Merkle code, modelled here as it is written.
\<close>

abbreviation commitment_error :: replay_failure where "commitment_error \<equiv> Rejected ReplayCommitment"

subsection \<open>Hashes and trees\<close>

datatype replay_tree_kind = RState | RTransactionEffect | RReadonlyL1 | RSettlementEffect

fun replay_tag :: "replay_tree_kind \<Rightarrow> bytes" where
  "replay_tag RState = ascii ''state''"
| "replay_tag RTransactionEffect = ascii ''transaction-effect''"
| "replay_tag RReadonlyL1 = ascii ''readonly-l1''"
| "replay_tag RSettlementEffect = ascii ''settlement-effect''"

fun replay_root_is_field :: "replay_tree_kind \<Rightarrow> bool" where
  "replay_root_is_field RTransactionEffect = False"
| "replay_root_is_field _ = True"

definition replay_domain :: bytes where "replay_domain = ascii ''northstar-checkpoint-v1''"

definition replay_u32 :: "nat \<Rightarrow> u32 rres" where
  "replay_u32 n = (if n < 2 ^ 32 then Inr (of_nat n) else Inl commitment_error)"

definition replay_encode :: "bytes option \<Rightarrow> bytes rres" where
  "replay_encode encoded = ok_or encoded commitment_error"

definition replay_typed_hash :: "hasher \<Rightarrow> replay_tree_kind \<Rightarrow> bytes \<Rightarrow> bytes \<Rightarrow> hash32 rres" where
  "replay_typed_hash hash kind label bs =
     (if length bs \<ge> 2 ^ 64 then Inl commitment_error
      else Inr (hash [replay_domain, replay_tag kind, label, u64_le (of_nat (length bs)), bs]))"

definition replay_empty_leaf_hash :: "hasher \<Rightarrow> replay_tree_kind \<Rightarrow> nat \<Rightarrow> hash32 rres" where
  "replay_empty_leaf_hash hash kind index =
     rbind (replay_u32 index) (\<lambda>index. replay_typed_hash hash kind (ascii ''empty-leaf'') (u32_le index))"

definition replay_node_hash :: "hasher \<Rightarrow> replay_tree_kind \<Rightarrow> u32 \<Rightarrow> hash32 \<Rightarrow> hash32 \<Rightarrow> hash32" where
  "replay_node_hash hash kind level left right =
     hash [replay_domain, replay_tag kind, ascii ''node'', u32_le level, key_bytes left, key_bytes right]"

definition replay_root_hash :: "hasher \<Rightarrow> replay_tree_kind \<Rightarrow> u32 \<Rightarrow> hash32 \<Rightarrow> hash32" where
  "replay_root_hash hash kind leaf_count inner =
     (let root = hash [replay_domain, replay_tag kind, ascii ''root'', u32_le leaf_count, key_bytes inner]
      in if replay_root_is_field kind then mask_root root else root)"

fun replay_next_layer :: "hasher \<Rightarrow> replay_tree_kind \<Rightarrow> u32 \<Rightarrow> hash32 list \<Rightarrow> hash32 list" where
  "replay_next_layer hash kind level (l # r # rest) = replay_node_hash hash kind level l r # replay_next_layer hash kind level rest"
| "replay_next_layer hash kind level _ = []"

lemma length_replay_next_layer [simp]: "length (replay_next_layer hash kind level xs) = length xs div 2"
  by (induction hash kind level xs rule: replay_next_layer.induct) auto

function replay_build_layers :: "hasher \<Rightarrow> replay_tree_kind \<Rightarrow> u32 \<Rightarrow> hash32 list \<Rightarrow> hash32 list list rres" where
  "replay_build_layers hash kind level layer =
     (if length layer > 1 then
        rbind (ok_or (checked_add level 1) commitment_error) (\<lambda>level'.
        rbind (replay_build_layers hash kind level' (replay_next_layer hash kind level layer)) (\<lambda>layers. Inr (layer # layers)))
      else Inr [layer])"
  by pat_completeness auto
termination by (relation "measure (\<lambda>(hash, kind, level, layer). length layer)") auto

declare replay_build_layers.simps [simp del]

record replay_tree =
  rt_kind :: replay_tree_kind
  rt_leaf_count :: u32
  rt_layers :: "hash32 list list"

definition replay_tree_new :: "hasher \<Rightarrow> replay_tree_kind \<Rightarrow> hash32 list \<Rightarrow> replay_tree rres" where
  "replay_tree_new hash kind leaves =
     rbind (replay_u32 (length leaves)) (\<lambda>leaf_count.
     let width = power_from 1 (max (length leaves) 1)
     in rbind (collect (replay_empty_leaf_hash hash kind) [length leaves..<width]) (\<lambda>padding.
        rbind (replay_build_layers hash kind 0 (leaves @ padding)) (\<lambda>layers.
        Inr \<lparr>rt_kind = kind, rt_leaf_count = leaf_count, rt_layers = layers\<rparr>)))"

definition replay_tree_root :: "hasher \<Rightarrow> replay_tree \<Rightarrow> hash32 rres" where
  "replay_tree_root hash t =
     (case rt_layers t of [] \<Rightarrow> Inl GuestPanic
      | _ \<Rightarrow> (case last (rt_layers t) of [] \<Rightarrow> Inl GuestPanic
              | inner # _ \<Rightarrow> Inr (replay_root_hash hash (rt_kind t) (rt_leaf_count t) inner)))"

definition empty_root :: "hasher \<Rightarrow> replay_tree_kind \<Rightarrow> hash32 rres" where
  "empty_root hash kind =
     (case replay_tree_new hash kind [] of Inl _ \<Rightarrow> Inl GuestPanic | Inr t \<Rightarrow> replay_tree_root hash t)"

fun replay_climb :: "hasher \<Rightarrow> replay_tree_kind \<Rightarrow> nat \<Rightarrow> nat \<Rightarrow> hash32 list \<Rightarrow> hash32 \<Rightarrow> hash32 option" where
  "replay_climb hash kind level index [] current = Some current"
| "replay_climb hash kind level index (sibling # siblings) current =
     (if level \<ge> 2 ^ 32 then None
      else replay_climb hash kind (Suc level) (index div 2) siblings
        (if even index then replay_node_hash hash kind (of_nat level) current sibling
         else replay_node_hash hash kind (of_nat level) sibling current))"

definition replay_verify_path :: "hasher \<Rightarrow> replay_tree_kind \<Rightarrow> merkle_path \<Rightarrow> hash32 \<Rightarrow> hash32 \<Rightarrow> bool" where
  "replay_verify_path hash kind p leaf expected_root =
     (if mp_leaf_count p = 0 \<or> mp_leaf_index p \<ge> mp_leaf_count p then False
      else
      let width = power_from 1 (unat (mp_leaf_count p))
      in if length (mp_siblings p) \<noteq> zeros_below width then False
      else (case replay_climb hash kind 0 (unat (mp_leaf_index p)) (mp_siblings p) leaf of
              None \<Rightarrow> False
            | Some current \<Rightarrow> replay_root_hash hash kind (mp_leaf_count p) current = expected_root))"

subsection \<open>Leaves and state roots\<close>

definition replay_transaction_leaf_hash :: "replay_env \<Rightarrow> u32 \<Rightarrow> bytes \<Rightarrow> bytes \<Rightarrow> hash32 rres" where
  "replay_transaction_leaf_hash R index transaction transaction_effect =
     rbind (replay_encode (renc_transaction_leaf R index transaction transaction_effect)) (\<lambda>bs.
     rbind (replay_typed_hash (rsha R) RTransactionEffect (ascii ''leaf'') bs) (\<lambda>h. Inr (mask_root h)))"

definition replay_readonly_leaf_hash :: "replay_env \<Rightarrow> u32 \<Rightarrow> u32 \<Rightarrow> u32 \<Rightarrow> readonly_l1_value \<Rightarrow> hash32 rres" where
  "replay_readonly_leaf_hash R global_index step_index value_index v =
     rbind (replay_encode (renc_readonly_leaf R global_index step_index value_index v)) (\<lambda>bs.
     replay_typed_hash (rsha R) RReadonlyL1 (ascii ''leaf'') bs)"

definition replay_settlement_leaf_hash :: "replay_env \<Rightarrow> u32 \<Rightarrow> u32 \<Rightarrow> u32 \<Rightarrow> bytes \<Rightarrow> hash32 rres" where
  "replay_settlement_leaf_hash R global_index step_index effect_index effect =
     rbind (replay_encode (renc_settlement_leaf R global_index step_index effect_index effect)) (\<lambda>bs.
     replay_typed_hash (rsha R) RSettlementEffect (ascii ''leaf'') bs)"

definition state_accounts_are_canonical :: "state_account_value list \<Rightarrow> bool" where
  "state_accounts_are_canonical accounts \<longleftrightarrow>
     \<not> list_ex (\<lambda>a. sv_data_hash a = 0) accounts \<and> successively state_account_less accounts"

definition replay_state_root :: "replay_env \<Rightarrow> state_account_value list \<Rightarrow> hash32 rres" where
  "replay_state_root R accounts =
     (if \<not> state_accounts_are_canonical accounts then Inl commitment_error
      else rbind (collect (\<lambda>(index, account). rbind (replay_u32 index) (\<lambda>i.
               rbind (replay_encode (renc_state_leaf R i account)) (\<lambda>bs. replay_typed_hash (rsha R) RState (ascii ''leaf'') bs)))
             (enumerate 0 accounts)) (\<lambda>leaves.
      rbind (replay_tree_new (rsha R) RState leaves) (replay_tree_root (rsha R))))"

subsection \<open>The transition of a step\<close>

definition state_account :: "replay_env \<Rightarrow> account_witness \<Rightarrow> state_account_value" where
  "state_account R account =
     \<lparr>sv_account = aw_key account, sv_owner = aw_owner account, sv_lamports = aw_lamports account,
      sv_executable = aw_executable account, sv_rent_epoch = aw_rent_epoch account,
      sv_data_hash = rsha R [aw_data account]\<rparr>"

text \<open>A \<open>BTreeMap\<close> collected from a list: the last value of a key.\<close>

definition account_map :: "state_account_value list \<Rightarrow> hash32 \<Rightarrow> state_account_value option" where
  "account_map vs = map_of (map (\<lambda>v. (sv_account v, v)) (rev vs))"

definition effect_keys :: "account_effect list \<Rightarrow> hash32 list" where
  "effect_keys effects = map (sv_account \<circ> fx_value) effects"

definition validate_state_transition ::
  "replay_env \<Rightarrow> state_account_value list \<Rightarrow> state_account_value list \<Rightarrow> account_effect list \<Rightarrow> account_witness list \<Rightarrow> unit rres" where
  "validate_state_transition R pre post effects execution_pre =
     (let pre_map = account_map pre; post_map = account_map post; keys = effect_keys effects
      in if \<not> distinct keys then Inl commitment_error
      else if \<not> list_all (\<lambda>account. pre_map (aw_key account) = Some (state_account R account)) execution_pre
      then Inl commitment_error
      else if \<not> list_all (\<lambda>key. pre_map key = post_map key \<or> key \<in> set keys) (map sv_account (pre @ post))
      then Inl commitment_error
      else if \<not> list_all (\<lambda>effect. if fx_deleted effect
                 then sv_lamports (fx_value effect) = 0 \<and> post_map (sv_account (fx_value effect)) = None
                 else post_map (sv_account (fx_value effect)) = Some (fx_value effect)) effects
      then Inl commitment_error
      else Inr ())"

text \<open>The derived order of readonly values and the order of addresses, as keys for sorting.\<close>

definition key_nat :: "hash32 \<Rightarrow> nat" where "key_nat k = be_nat (key_bytes k)"

definition readonly_key :: "readonly_l1_value \<Rightarrow> nat \<times> nat \<times> nat \<times> nat \<times> nat" where
  "readonly_key v = (key_nat (rv_account v), key_nat (rv_owner v), unat (rv_lamports v), key_nat (rv_data_hash v),
     unat (rv_observed_l1_slot v))"

definition expected_readonly :: "replay_env \<Rightarrow> replay_witness \<Rightarrow> readonly_l1_value list" where
  "expected_readonly R w = sort_key readonly_key (map (\<lambda>account.
     \<lparr>rv_account = aw_key account, rv_owner = aw_owner account, rv_lamports = aw_lamports account,
      rv_data_hash = rsha R [aw_data account], rv_observed_l1_slot = rw_slot (w_runtime w)\<rparr>) (w_readonly_accounts w))"

fun check_readonly ::
  "replay_env \<Rightarrow> hash32 \<Rightarrow> u32 \<Rightarrow> nat \<Rightarrow> (authenticated_readonly_l1_value \<times> readonly_l1_value) list \<Rightarrow> unit rres" where
  "check_readonly R root step_index n [] = Inr ()"
| "check_readonly R root step_index n ((authenticated, expected) # rest) =
     rbind (replay_u32 n) (\<lambda>value_index.
     if ar_value authenticated \<noteq> expected \<or> ar_value_index authenticated \<noteq> value_index
        \<or> mp_leaf_index (ar_path authenticated) \<noteq> ar_global_index authenticated
     then Inl commitment_error
     else rbind (replay_readonly_leaf_hash R (ar_global_index authenticated) step_index value_index expected) (\<lambda>leaf.
     if \<not> replay_verify_path (rsha R) RReadonlyL1 (ar_path authenticated) leaf root then Inl commitment_error
     else check_readonly R root step_index (Suc n) rest))"

definition validate_readonly_values :: "replay_env \<Rightarrow> replay_witness \<Rightarrow> u32 \<Rightarrow> unit rres" where
  "validate_readonly_values R w step_index =
     (let binding = w_checkpoint w; expected = expected_readonly R w
      in if length (cb_readonly_l1_values binding) \<noteq> length expected then Inl commitment_error
      else if expected = [] then rbind (empty_root (rsha R) RReadonlyL1) (\<lambda>root.
        if cb_readonly_l1_root binding = root then Inr () else Inl commitment_error)
      else check_readonly R (cb_readonly_l1_root binding) step_index 0 (zip (cb_readonly_l1_values binding) expected))"

fun check_settlement ::
  "replay_env \<Rightarrow> hash32 \<Rightarrow> u32 \<Rightarrow> nat \<Rightarrow> (authenticated_settlement_effect \<times> account_effect) list \<Rightarrow> unit rres" where
  "check_settlement R root step_index n [] = Inr ()"
| "check_settlement R root step_index n ((authenticated, effect) # rest) =
     rbind (replay_u32 n) (\<lambda>effect_index.
     rbind (replay_encode (renc_account_effect R effect)) (\<lambda>encoded.
     if ae_effect authenticated \<noteq> encoded \<or> ae_effect_index authenticated \<noteq> effect_index
        \<or> mp_leaf_index (ae_path authenticated) \<noteq> ae_global_index authenticated
     then Inl commitment_error
     else rbind (replay_settlement_leaf_hash R (ae_global_index authenticated) step_index effect_index encoded) (\<lambda>leaf.
     if \<not> replay_verify_path (rsha R) RSettlementEffect (ae_path authenticated) leaf root then Inl commitment_error
     else check_settlement R root step_index (Suc n) rest)))"

definition validate_settlement_effects :: "replay_env \<Rightarrow> replay_witness \<Rightarrow> u32 \<Rightarrow> account_effect list \<Rightarrow> unit rres" where
  "validate_settlement_effects R w step_index effects =
     (let binding = w_checkpoint w
      in if length (cb_settlement_effects binding) \<noteq> length effects then Inl commitment_error
      else if effects = [] then rbind (empty_root (rsha R) RSettlementEffect) (\<lambda>root.
        if cb_settlement_effect_root binding = root then Inr () else Inl commitment_error)
      else check_settlement R (cb_settlement_effect_root binding) step_index 0 (zip (cb_settlement_effects binding) effects))"

text \<open>The effects that the accounts after execution stand for, in the order of their addresses.\<close>

definition expected_effects :: "replay_env \<Rightarrow> replay_witness \<Rightarrow> u32 \<Rightarrow> account_effect list" where
  "expected_effects R w step_index = sort_key (key_nat \<circ> sv_account \<circ> fx_value) (map (\<lambda>account.
     \<lparr>fx_step_index = step_index, fx_value = state_account R account, fx_deleted = (aw_lamports account = 0)\<rparr>) (w_post_accounts w))"

definition verify_checkpoint_binding :: "replay_env \<Rightarrow> replay_witness \<Rightarrow> checkpoint_public_inputs rres" where
  "verify_checkpoint_binding R w =
     (let binding = w_checkpoint w; step_count = mp_leaf_count (cb_transaction_effect_path binding)
      in if unat (w_step_index w) \<ge> 2 ^ 32 then Inl commitment_error
      else
      let step_index = ucast (w_step_index w) :: u32
      in if \<not> (1 \<le> step_count \<and> step_count \<le> 16) \<or> step_index \<ge> step_count
           \<or> \<not> state_accounts_are_canonical (cb_pre_state_accounts binding)
           \<or> \<not> state_accounts_are_canonical (cb_post_state_accounts binding)
      then Inl commitment_error
      else rbind (replay_state_root R (cb_pre_state_accounts binding)) (\<lambda>pre_state_root.
      rbind (replay_state_root R (cb_post_state_accounts binding)) (\<lambda>post_state_root.
      rbind (ok_or (rdec_transaction_effect R (cb_transaction_effect binding)) commitment_error) (\<lambda>effect.
      rbind (replay_encode (renc_transaction_effect R effect)) (\<lambda>encoded.
      if encoded \<noteq> cb_transaction_effect binding \<or> te_version effect \<noteq> 1 \<or> te_step_index effect \<noteq> step_index
         \<or> te_transaction_hash effect \<noteq> rsha R [w_transaction_bytes w]
         \<or> te_executed_units effect \<noteq> rs_executed_units (w_result w)
      then Inl commitment_error
      else if te_account_effects effect \<noteq> expected_effects R w step_index then Inl commitment_error
      else rbind (validate_state_transition R (cb_pre_state_accounts binding) (cb_post_state_accounts binding)
             (te_account_effects effect) (w_pre_accounts w)) (\<lambda>_.
      rbind (replay_transaction_leaf_hash R step_index (w_transaction_bytes w) (cb_transaction_effect binding)) (\<lambda>commitment.
      if mp_leaf_index (cb_transaction_effect_path binding) \<noteq> step_index
         \<or> \<not> replay_verify_path (rsha R) RTransactionEffect (cb_transaction_effect_path binding) commitment
              (cb_checkpoint_transaction_effect_root binding)
      then Inl commitment_error
      else rbind (validate_readonly_values R w step_index) (\<lambda>_.
      rbind (validate_settlement_effects R w step_index (te_account_effects effect)) (\<lambda>_.
      Inr \<lparr>cpi_pre_state_root = pre_state_root, cpi_post_state_root = post_state_root,
           cpi_transaction_effect_commitment = commitment, cpi_readonly_l1_root = cb_readonly_l1_root binding,
           cpi_settlement_effect_root = cb_settlement_effect_root binding\<rparr>)))))))))"

end
