(* ===== verification/Replay_Agreement.thy ===== *)
theory Replay_Agreement
  imports Replay_Checkpoint Artifact_Props
begin

text \<open>
  The Merkle code of the prover and that of the node compute the same hashes, paths and state roots, although they are
  separate crates.
\<close>

fun node_kind :: "replay_tree_kind \<Rightarrow> tree_kind" where
  "node_kind RState = StateTree"
| "node_kind RTransactionEffect = TransactionEffectTree"
| "node_kind RReadonlyL1 = ReadonlyL1Tree"
| "node_kind RSettlementEffect = SettlementEffectTree"

lemma replay_tag_node: "replay_tag k = tree_tag (node_kind k)" "replay_root_is_field k = root_is_field (node_kind k)"
  by (cases k; simp)+

lemma replay_hash_node:
  "replay_node_hash hash k level l r = node_hash hash (node_kind k) level l r"
  "replay_root_hash hash k n x = root_hash hash (node_kind k) n x"
  "length bs < 2 ^ 64 \<Longrightarrow> replay_typed_hash hash k label bs = Inr (typed_hash hash (node_kind k) label bs)"
  by (simp_all add: replay_node_hash_def node_hash_def replay_root_hash_def root_hash_def replay_typed_hash_def typed_hash_def
      replay_domain_def CHECKPOINT_HASH_DOMAIN_V1_def replay_tag_node)

lemma replay_climb_node:
  "replay_climb hash k level index siblings current = climb_path hash (node_kind k) level index siblings current"
  by (induction hash k level index siblings current rule: replay_climb.induct) (simp_all add: replay_hash_node)

lemma replay_verify_path_node: "replay_verify_path hash k p leaf root = verify_path hash p (node_kind k) leaf root"
proof -
  have "mp_leaf_count p \<noteq> 0 \<Longrightarrow> max (unat (mp_leaf_count p)) 1 = unat (mp_leaf_count p)"
    by (metis One_nat_def Suc_leI max.absorb1 unat_eq_zero gr0I)
  then show ?thesis
    by (auto simp: replay_verify_path_def verify_path_def replay_climb_node replay_hash_node Let_def simp del: width_power split: option.splits)
qed

subsection \<open>Trees\<close>

lemma replay_next_layer_node: "replay_next_layer hash k level xs = next_layer hash (node_kind k) level xs"
  by (induction hash k level xs rule: replay_next_layer.induct) (simp_all add: replay_hash_node)

text \<open>The prover's results are the node's, with every error of the node the commitment error.\<close>

definition as_replay :: "'a ares \<Rightarrow> 'a rres" where
  "as_replay r = (case r of Inl _ \<Rightarrow> Inl commitment_error | Inr v \<Rightarrow> Inr v)"

lemma as_replay_simps [simp]: "as_replay (Inl e) = Inl commitment_error" "as_replay (Inr v) = Inr v"
  by (simp_all add: as_replay_def)

lemma as_replay_ok [simp]: "as_replay r = Inr v \<longleftrightarrow> r = Inr v"
  by (cases r) auto

lemma as_replay_bind: "as_replay (rbind m f) = rbind (as_replay m) (\<lambda>x. as_replay (f x))"
  by (cases m) auto

lemma as_replay_ok_or: "as_replay (ok_or x e) = ok_or x commitment_error"
  by (cases x) auto

lemma as_replay_collect: "collect (\<lambda>x. as_replay (f x)) xs = as_replay (collect f xs)"
  by (induction xs) (simp_all add: as_replay_bind)

lemma replay_build_layers_node:
  "replay_build_layers hash k level layer = as_replay (build_layers hash (node_kind k) level layer)"
proof (induction hash k level layer rule: replay_build_layers.induct)
  case (1 hash k level layer)
  show ?case
  proof (cases "length layer > 1 \<and> checked_add level 1 \<noteq> None")
    case True
    then obtain level' where "checked_add level 1 = Some level'" by blast
    with 1 True show ?thesis
      by (subst replay_build_layers.simps, subst build_layers.simps) (simp add: as_replay_bind replay_next_layer_node)
  qed (subst replay_build_layers.simps, subst build_layers.simps, auto)
qed

definition node_tree :: "replay_tree \<Rightarrow> merkle_tree" where
  "node_tree t = \<lparr>mt_kind = node_kind (rt_kind t), mt_leaf_count = rt_leaf_count t, mt_layers = rt_layers t\<rparr>"

lemma replay_empty_leaf_node: "replay_empty_leaf_hash hash k i = as_replay (empty_leaf_hash hash (node_kind k) i)"
  by (simp add: replay_empty_leaf_hash_def empty_leaf_hash_def replay_u32_def to_u32_def replay_hash_node)

lemma replay_tree_root_node:
  "replay_tree_new hash k leaves = Inr t \<Longrightarrow> replay_tree_root hash t = Inr r \<longleftrightarrow> MerkleTree_root hash (node_tree t) = Inr r"
  by (auto simp: replay_tree_root_def MerkleTree_root_def node_tree_def replay_hash_node split: list.splits)

lemma replay_tree_new_node:
  "(\<exists>t. replay_tree_new hash k leaves = Inr t \<and> node_tree t = t') \<longleftrightarrow> MerkleTree_new hash (node_kind k) leaves = Inr t'"
proof -
  have "collect (replay_empty_leaf_hash hash k) is = as_replay (collect (empty_leaf_hash hash (node_kind k)) is)" for "is"
    unfolding as_replay_collect [symmetric] replay_empty_leaf_node [symmetric] ..
  then show ?thesis
    by (auto simp: replay_tree_new_def MerkleTree_new_def Let_def rbind_ok replay_u32_def to_u32_def replay_build_layers_node node_tree_def
        split: if_splits)
qed


subsection \<open>State roots and leaves\<close>

lemma replay_state_root_node:
  assumes "rsha R = ahash A" "renc_state_leaf R = enc_state_leaf A" "\<And>i v bs. enc_state_leaf A i v = Some bs \<Longrightarrow> length bs < 2 ^ 64"
  shows "replay_state_root R vs = Inr r \<longleftrightarrow> state_root_v1 A vs = Inr r"
proof -
  let ?leaf = "\<lambda>(index, account). rbind (to_u32 index) (\<lambda>i. rbind (encode (enc_state_leaf A i account)) (\<lambda>bs.
      Inr (typed_hash (ahash A) StateTree (ascii ''leaf'') bs)))"
  have "(\<lambda>(index, account). rbind (replay_u32 index) (\<lambda>i. rbind (replay_encode (renc_state_leaf R i account)) (\<lambda>bs.
      replay_typed_hash (rsha R) RState (ascii ''leaf'') bs))) = (\<lambda>x. as_replay (?leaf x))"
    by (auto simp: fun_eq_iff replay_u32_def to_u32_def encode_def replay_encode_def assms(1,2) ok_or_def replay_hash_node
        split: option.splits dest!: assms(3))
  then have leaves: "collect (\<lambda>(index, account). rbind (replay_u32 index) (\<lambda>i. rbind (replay_encode (renc_state_leaf R i account)) (\<lambda>bs.
      replay_typed_hash (rsha R) RState (ascii ''leaf'') bs))) xs = as_replay (collect ?leaf xs)" for xs
    by (simp only: as_replay_collect)
  have trees: "(\<exists>t. replay_tree_new (ahash A) RState ls = Inr t \<and> replay_tree_root (ahash A) t = Inr r)
      \<longleftrightarrow> (\<exists>t. MerkleTree_new (ahash A) StateTree ls = Inr t \<and> MerkleTree_root (ahash A) t = Inr r)" for ls
    using replay_tree_new_node [of "ahash A" RState ls] replay_tree_root_node [of "ahash A" RState ls] by (metis node_kind.simps(1))
  show ?thesis
    unfolding replay_state_root_def state_root_v1_def leaves state_accounts_are_canonical_def rbind_ok guard_ok as_replay_ok
    unfolding assms(1) trees by blast
qed

lemma replay_transaction_leaf_node:
  assumes "rsha R = ahash A" "renc_transaction_leaf R = enc_transaction_leaf A"
    "\<And>i t e bs. enc_transaction_leaf A i t e = Some bs \<Longrightarrow> length bs < 2 ^ 64"
  shows "replay_transaction_leaf_hash R i t e = Inr h \<longleftrightarrow> transaction_effect_leaf_hash A i t e = Inr h"
  using assms by (auto simp: replay_transaction_leaf_hash_def transaction_effect_leaf_hash_def replay_encode_def encode_def rbind_ok
      ok_or_ok replay_hash_node)

end
