(* ===== verification/Replay_Vm.thy ===== *)
theory Replay_Vm
  imports Replay_Types
begin

text \<open>
  The sBPF trace check of the transaction prover (\<open>transaction-proof/src/lib.rs\<close>): decoding of instructions, the
  arithmetic and jump rules, the check of one row against the next, and the loop over the rows with its call stack.
\<close>

definition SOL_MEMCPY_KEY :: u32 where "SOL_MEMCPY_KEY = 0x717cc4a3"
definition EXIT_INSTRUCTION :: bytes where "EXIT_INSTRUCTION = [0x95, 0, 0, 0, 0, 0, 0, 0]"

subsection \<open>Instructions\<close>

record decoded_instruction =
  di_opcode :: u8
  di_dst :: nat
  di_src :: nat
  di_offset :: u16
  di_imm :: u32

text \<open>The offset is an \<open>i16\<close> and the immediate an \<open>i32\<close>; they are kept as words and read with \<open>sint\<close>.\<close>

definition decode_instruction :: "bytes \<Rightarrow> decoded_instruction" where
  "decode_instruction bs =
     \<lparr>di_opcode = bs ! 0, di_dst = unat (bs ! 1 AND 0x0f), di_src = unat (drop_bit 4 (bs ! 1)),
      di_offset = le_word [bs ! 2, bs ! 3], di_imm = le_word (take 4 (drop 4 bs))\<rparr>"

definition alu :: "u8 \<Rightarrow> bool \<Rightarrow> u64 \<Rightarrow> u64 \<Rightarrow> u64 rres" where
  "alu operation is_32 left0 right0 =
     (let left = if is_32 then ucast (ucast left0 :: u32) else left0;
          right = if is_32 then ucast (ucast right0 :: u32) else right0;
          shift = unat (right AND (if is_32 then 31 else 63));
          value =
            (if operation = 0x00 then Inr (left + right)
             else if operation = 0x10 then Inr (left - right)
             else if operation = 0x20 then Inr (left * right)
             else if operation = 0x30 then (if right = 0 then Inl (Rejected Opcode) else Inr (left div right))
             else if operation = 0x40 then Inr (left OR right)
             else if operation = 0x50 then Inr (left AND right)
             else if operation = 0x60 then Inr (push_bit shift left)
             else if operation = 0x70 then Inr (drop_bit shift left)
             else if operation = 0x80 then Inr (- left)
             else if operation = 0x90 then (if right = 0 then Inl (Rejected Opcode) else Inr (left mod right))
             else if operation = 0xa0 then Inr (left XOR right)
             else if operation = 0xb0 then Inr right
             else if operation = 0xc0 \<and> is_32 then Inr (ucast (signed_drop_bit (unat (right AND 31)) (ucast left :: u32)))
             else if operation = 0xc0 then Inr (signed_drop_bit (unat (right AND 63)) left)
             else Inl (Rejected Opcode))
      in rbind value (\<lambda>v. Inr (if is_32 then ucast (ucast v :: u32) else v)))"

definition jump :: "u8 \<Rightarrow> bool \<Rightarrow> u64 \<Rightarrow> u64 \<Rightarrow> bool rres" where
  "jump operation is_32 left0 right0 =
     (let left = if is_32 then ucast (ucast left0 :: u32) else left0;
          right = if is_32 then ucast (ucast right0 :: u32) else right0;
          signed_left = if is_32 then sint (ucast left :: u32) else sint left;
          signed_right = if is_32 then sint (ucast right :: u32) else sint right
      in if operation = 0x00 then Inr True
      else if operation = 0x10 then Inr (left = right)
      else if operation = 0x20 then Inr (left > right)
      else if operation = 0x30 then Inr (left \<ge> right)
      else if operation = 0x40 then Inr (left AND right \<noteq> 0)
      else if operation = 0x50 then Inr (left \<noteq> right)
      else if operation = 0x60 then Inr (signed_left > signed_right)
      else if operation = 0x70 then Inr (signed_left \<ge> signed_right)
      else if operation = 0xa0 then Inr (left < right)
      else if operation = 0xb0 then Inr (left \<le> right)
      else if operation = 0xc0 then Inr (signed_left < signed_right)
      else if operation = 0xd0 then Inr (signed_left \<le> signed_right)
      else Inl (Rejected Opcode))"

subsection \<open>One row\<close>

definition validate_register_preservation :: "vm_row \<Rightarrow> vm_row \<Rightarrow> nat list \<Rightarrow> unit rres" where
  "validate_register_preservation row next_row exceptions =
     (if list_ex (\<lambda>index. index \<notin> set exceptions \<and> vr_registers row ! index \<noteq> vr_registers next_row ! index) [0..<11]
      then Inl (Rejected Register) else Inr ())"

definition validate_register_delta :: "vm_row \<Rightarrow> vm_row \<Rightarrow> nat \<Rightarrow> u64 \<Rightarrow> u64 \<Rightarrow> unit rres" where
  "validate_register_delta row next_row destination v next_pc =
     (if vr_registers next_row ! 11 \<noteq> next_pc \<or> vr_registers next_row ! destination \<noteq> v then Inl (Rejected Register)
      else if list_ex (\<lambda>index. index \<noteq> destination \<and> vr_registers row ! index \<noteq> vr_registers next_row ! index) [0..<11]
      then Inl (Rejected Register) else Inr ())"

text \<open>The right operand: the source register, or the sign-extended immediate.\<close>

definition operand :: "vm_row \<Rightarrow> decoded_instruction \<Rightarrow> u64" where
  "operand row i = (if di_opcode i AND 0x08 \<noteq> 0 then vr_registers row ! di_src i else scast (di_imm i))"

text \<open>The target of a taken jump: \<open>i64\<close> addition without overflow, and not negative.\<close>

definition jump_target :: "u64 \<Rightarrow> u16 \<Rightarrow> u64 rres" where
  "jump_target fallthrough offset =
     (let t = sint fallthrough + sint offset
      in if t < - (2 ^ 63) \<or> t \<ge> 2 ^ 63 \<or> t < 0 then Inl (Rejected Register) else Inr (word_of_int t))"

definition validate_row :: "vm_row \<Rightarrow> vm_row \<Rightarrow> u32 \<Rightarrow> (u32 \<Rightarrow> u64 option) \<Rightarrow> unit rres" where
  "validate_row row next_row lddw_high call_targets =
     (let i = decode_instruction (vr_instruction row); class = di_opcode i AND 0x07; operation = di_opcode i AND 0xf0;
          pc = vr_registers row ! 11; next_pc = vr_registers next_row ! 11
      in if di_dst i \<ge> 11 \<or> di_src i \<ge> 11 then Inl (Rejected Opcode)
      else rbind (ok_or (checked_add pc 1) (Rejected Register)) (\<lambda>fallthrough.
      if vr_syscall_key row \<noteq> 0 \<and> (class \<noteq> 5 \<or> operation \<noteq> 0x80) then Inl (Rejected Opcode)
      else if class = 0 \<and> di_opcode i = 0x18 then
        rbind (ok_or (checked_add pc 2) (Rejected Register)) (\<lambda>after.
        validate_register_delta row next_row (di_dst i) (ucast (di_imm i) OR push_bit 32 (ucast lddw_high)) after)
      else if class = 4 \<or> class = 7 then
        rbind (alu operation (class = 4) (vr_registers row ! di_dst i) (operand row i)) (\<lambda>v.
        validate_register_delta row next_row (di_dst i) v fallthrough)
      else if class = 5 \<and> operation = 0x80 then
        (if di_opcode i \<noteq> 0x85 then Inl (Rejected Opcode)
         else if vr_syscall_key row = SOL_MEMCPY_KEY then
           (if next_pc \<noteq> fallthrough \<or> vr_registers next_row ! 0 \<noteq> 0 then Inl (Rejected Register)
            else validate_register_preservation row next_row [0])
         else rbind (ok_or (call_targets (di_imm i)) (Rejected Register)) (\<lambda>target.
           if vr_syscall_key row \<noteq> 0 \<or> next_pc \<noteq> target then Inl (Rejected Register)
           else validate_register_preservation row next_row [10]))
      else if class = 5 \<and> operation = 0x90 then
        (if vr_instruction row \<noteq> EXIT_INSTRUCTION \<or> vr_syscall_key row \<noteq> 0 \<or> next_pc = pc then Inl (Rejected Register)
         else validate_register_preservation row next_row [6, 7, 8, 9, 10])
      else if class = 5 \<or> class = 6 then
        rbind (jump operation (class = 6) (vr_registers row ! di_dst i) (operand row i)) (\<lambda>taken.
        rbind (if taken then jump_target fallthrough (di_offset i) else Inr fallthrough) (\<lambda>target.
        if next_pc \<noteq> target \<or> take 11 (vr_registers row) \<noteq> take 11 (vr_registers next_row) then Inl (Rejected Register)
        else Inr ()))
      else if class = 1 then
        (if next_pc \<noteq> fallthrough then Inl (Rejected Register) else validate_register_preservation row next_row [di_dst i])
      else if class = 2 \<or> class = 3 then
        (if next_pc \<noteq> fallthrough then Inl (Rejected Register) else validate_register_preservation row next_row [])
      else Inl (Rejected Opcode)))"

subsection \<open>The rows of a trace\<close>

text \<open>The loop over the rows: the call targets used so far and the stack of return addresses with the saved
  registers.\<close>

type_synonym call_stack = "(u64 \<times> u64 list) list"

definition step_stack :: "vm_row \<Rightarrow> vm_row option \<Rightarrow> u32 list \<Rightarrow> call_stack \<Rightarrow> (u32 list \<times> call_stack) rres" where
  "step_stack row next_row used stack =
     (if vr_instruction row ! 0 = 0x85 \<and> vr_syscall_key row = 0 then
        rbind (ok_or (checked_add (vr_registers row ! 11) 1) (Rejected Register)) (\<lambda>return_pc.
        Inr (le_word (take 4 (drop 4 (vr_instruction row))) # used, (return_pc, take 5 (drop 6 (vr_registers row))) # stack))
      else if vr_instruction row = EXIT_INSTRUCTION then
        (case next_row of
           Some n \<Rightarrow> (case stack of
              [] \<Rightarrow> Inl (Rejected Register)
            | (return_pc, saved) # rest \<Rightarrow>
                if vr_registers n ! 11 \<noteq> return_pc \<or> take 5 (drop 6 (vr_registers n)) \<noteq> saved then Inl (Rejected Register)
                else Inr (used, rest))
         | None \<Rightarrow> if stack \<noteq> [] then Inl (Rejected Register) else Inr (used, stack))
      else Inr (used, stack))"

definition first_row :: "vm_row list \<Rightarrow> vm_row option" where
  "first_row rows = (case rows of [] \<Rightarrow> None | r # _ \<Rightarrow> Some r)"

fun check_rows ::
  "(u64 \<Rightarrow> program_word option) \<Rightarrow> (u32 \<Rightarrow> u64 option) \<Rightarrow> u32 list \<Rightarrow> call_stack \<Rightarrow> vm_row list \<Rightarrow> (u32 list \<times> call_stack) rres" where
  "check_rows words targets used stack [] = Inr (used, stack)"
| "check_rows words targets used stack (row # rows) =
     rbind (ok_or (words (vr_registers row ! 11)) (Rejected Program)) (\<lambda>word.
     if pw_instruction word \<noteq> vr_instruction row then Inl (Rejected Program)
     else rbind (case first_row rows of None \<Rightarrow> Inr () | Some n \<Rightarrow> validate_row row n (pw_lddw_high word) targets) (\<lambda>_.
     rbind (step_stack row (first_row rows) used stack) (\<lambda>(used', stack').
     check_rows words targets used' stack' rows)))"

end
