(* ===== verification/Replay.thy ===== *)
theory Replay
  imports Replay_Checkpoint Replay_Vm
begin

text \<open>
  The guest program of the transaction prover (\<open>transaction-proof/src/lib.rs\<close>): the checks on a witness (header, wire
  format and signature of the transaction, accounts and fee, VM trace, checkpoint binding), the commitment to the
  session context (\<open>commitment.rs\<close>) and the public inputs of the proof.
\<close>

definition WITNESS_MAGIC_V1 :: bytes where "WITNESS_MAGIC_V1 = ascii ''NSTXPF01''"
definition WITNESS_VERSION_V2 :: u16 where "WITNESS_VERSION_V2 = 2"
definition TRACE_SCHEMA_VERSION_V1 :: u16 where "TRACE_SCHEMA_VERSION_V1 = 1"
definition SBPF_VERSION_V0 :: u8 where "SBPF_VERSION_V0 = 0"
definition SESSION_CONTEXT_DOMAIN_V1 :: bytes where "SESSION_CONTEXT_DOMAIN_V1 = ascii ''northstar-session-context-v1''"
definition SETTLEMENT_POLICY_VERSION_V1 :: u8 where "SETTLEMENT_POLICY_VERSION_V1 = 1"

definition session_context_bytes_v1 :: "pubkey \<Rightarrow> pubkey \<Rightarrow> u64 \<Rightarrow> u128 \<Rightarrow> pubkey \<Rightarrow> bytes" where
  "session_context_bytes_v1 portal_program session grid_id nonce validator =
     SESSION_CONTEXT_DOMAIN_V1 @ key_bytes portal_program @ key_bytes session @ u64_le grid_id @ u128_le nonce
     @ key_bytes validator @ [SETTLEMENT_POLICY_VERSION_V1]"

subsection \<open>Poseidon commitments\<close>

text \<open>A field element is the number below the modulus that it stands for.\<close>

definition SESSION_CONTEXT_TAG :: u64 where "SESSION_CONTEXT_TAG = 0x100"
definition BYTE_STRING_TAG :: u64 where "BYTE_STRING_TAG = 0x10a"

definition fr_modulus :: nat where "fr_modulus = be_nat BN254_FR_MODULUS_BE"

definition fr_of_bytes :: "bytes \<Rightarrow> nat" where "fr_of_bytes bs = be_nat bs mod fr_modulus"

fun be_digits :: "nat \<Rightarrow> nat \<Rightarrow> bytes" where
  "be_digits 0 n = []"
| "be_digits (Suc k) n = be_digits k (n div 256) @ [of_nat (n mod 256)]"

definition fr_to_bytes :: "nat \<Rightarrow> fr_bytes rres" where
  "fr_to_bytes v = (if is_ok (FrBytes_new (be_digits 32 v)) then Inr (be_digits 32 v) else Inl GuestPanic)"

text \<open>\<open>chunks(n)\<close> of a slice.\<close>

function chunks :: "nat \<Rightarrow> 'a list \<Rightarrow> 'a list list" where
  "chunks n xs = (if n = 0 \<or> xs = [] then [] else take n xs # chunks n (drop n xs))"
  by pat_completeness auto
termination by (relation "measure (\<lambda>(n, xs). length xs)") auto

declare chunks.simps [simp del]

fun poseidon_fold :: "replay_env \<Rightarrow> nat \<Rightarrow> nat list list \<Rightarrow> nat option" where
  "poseidon_fold R accumulator [] = Some accumulator"
| "poseidon_fold R accumulator (chunk # rest) =
     (case rposeidon R (accumulator # chunk) of None \<Rightarrow> None | Some a \<Rightarrow> poseidon_fold R a rest)"

definition commitment_fold :: "replay_env \<Rightarrow> u64 \<Rightarrow> nat list \<Rightarrow> nat option" where
  "commitment_fold R tag values = poseidon_fold R (unat tag) (chunks 11 values)"

definition commitment_bytes :: "replay_env \<Rightarrow> u64 \<Rightarrow> bytes \<Rightarrow> nat option" where
  "commitment_bytes R tag v =
     (if length v \<ge> 2 ^ 64 then None
      else commitment_fold R tag (unat BYTE_STRING_TAG # length v
        # map (\<lambda>chunk. fr_of_bytes (replicate (32 - length chunk) 0 @ chunk)) (chunks 31 v)))"

subsection \<open>The wire format of a transaction\<close>

text \<open>The readers advance a cursor; the model passes the bytes that are left.\<close>

definition take_byte :: "bytes \<Rightarrow> (u8 \<times> bytes) rres" where
  "take_byte bs = (case bs of [] \<Rightarrow> Inl (Rejected Wire) | b # rest \<Rightarrow> Inr (b, rest))"

definition take_bytes :: "nat \<Rightarrow> bytes \<Rightarrow> (bytes \<times> bytes) rres" where
  "take_bytes n bs = (if n \<le> length bs then Inr (take n bs, drop n bs) else Inl (Rejected Wire))"

definition take_key :: "bytes \<Rightarrow> (hash32 \<times> bytes) rres" where
  "take_key bs = rbind (take_bytes 32 bs) (\<lambda>(k, rest). Inr (le_word k, rest))"

fun read_short_vec_from :: "nat \<Rightarrow> nat \<Rightarrow> u16 \<Rightarrow> bytes \<Rightarrow> (nat \<times> bytes) rres" where
  "read_short_vec_from 0 byte_index value bs = Inl (Rejected Wire)"
| "read_short_vec_from (Suc left) byte_index value bs =
     rbind (take_byte bs) (\<lambda>(byte, rest).
     if byte = 0 \<and> byte_index \<noteq> 0 \<or> byte_index = 2 \<and> byte AND 0x80 \<noteq> 0 then Inl (Rejected Wire)
     else
     let combined = (ucast value :: u32) OR push_bit (7 * byte_index) (ucast (byte AND 0x7f))
     in if unat combined \<ge> 2 ^ 16 then Inl (Rejected Wire)
     else if byte AND 0x80 = 0 then Inr (unat combined, rest)
     else read_short_vec_from left (Suc byte_index) (ucast combined) rest)"

definition read_short_vec :: "bytes \<Rightarrow> (nat \<times> bytes) rres" where
  "read_short_vec bs = read_short_vec_from 3 0 0 bs"

record parsed_transaction =
  pt_signature :: bytes
  pt_message :: bytes
  pt_signer :: hash32
  pt_recent_blockhash :: hash32
  pt_account_keys :: "hash32 list"
  pt_instruction_data :: bytes

definition parse_legacy_transaction :: "bytes \<Rightarrow> parsed_transaction rres" where
  "parse_legacy_transaction bs =
     rbind (read_short_vec bs) (\<lambda>(signatures, bs1).
     if signatures \<noteq> 1 then Inl (Rejected Wire)
     else rbind (take_bytes 64 bs1) (\<lambda>(signature, message).
     rbind (take_bytes 3 message) (\<lambda>(header, bs2).
     if header \<noteq> [1, 0, 1] then Inl (Rejected Wire)
     else rbind (read_short_vec bs2) (\<lambda>(key_count, bs3).
     if key_count \<noteq> 3 then Inl (Rejected Wire)
     else rbind (take_key bs3) (\<lambda>(key0, bs4).
     rbind (take_key bs4) (\<lambda>(key1, bs5).
     rbind (take_key bs5) (\<lambda>(key2, bs6).
     rbind (take_key bs6) (\<lambda>(recent_blockhash, bs7).
     rbind (read_short_vec bs7) (\<lambda>(instructions, bs8).
     if instructions \<noteq> 1 then Inl (Rejected Wire)
     else rbind (take_byte bs8) (\<lambda>(program_index, bs9).
     rbind (read_short_vec bs9) (\<lambda>(account_count, bs10).
     rbind (take_bytes account_count bs10) (\<lambda>(instruction_accounts, bs11).
     rbind (read_short_vec bs11) (\<lambda>(data_len, bs12).
     rbind (take_bytes data_len bs12) (\<lambda>(instruction_data, bs13).
     if program_index \<noteq> 2 \<or> instruction_accounts \<noteq> [1] \<or> bs13 \<noteq> [] then Inl (Rejected Wire)
     else Inr \<lparr>pt_signature = signature, pt_message = message, pt_signer = key0, pt_recent_blockhash = recent_blockhash,
            pt_account_keys = [key0, key1, key2], pt_instruction_data = instruction_data\<rparr>))))))))))))))"

subsection \<open>The checks\<close>

definition validate_header :: "replay_witness \<Rightarrow> unit rres" where
  "validate_header w =
     (if w_magic w \<noteq> WITNESS_MAGIC_V1 then Inl (Rejected Magic)
      else if w_version w \<noteq> WITNESS_VERSION_V2 \<or> w_proof_kind w \<noteq> ER_STEP_PROOF_KIND_FULL_TRANSACTION
        \<or> w_proof_version w \<noteq> ER_STEP_PROOF_VERSION_V1 \<or> w_trace_schema_version w \<noteq> TRACE_SCHEMA_VERSION_V1
      then Inl (Rejected Version)
      else if rw_sbpf_version (w_runtime w) \<noteq> SBPF_VERSION_V0 then Inl (Rejected Version)
      else Inr ())"

definition validate_transaction :: "replay_env \<Rightarrow> replay_witness \<Rightarrow> unit rres" where
  "validate_transaction R w =
     rbind (parse_legacy_transaction (w_transaction_bytes w)) (\<lambda>parsed.
     if pt_message parsed \<noteq> w_message_bytes w \<or> pt_signature parsed \<noteq> w_signature w \<or> pt_signer parsed \<noteq> w_signer w
        \<or> pt_recent_blockhash parsed \<noteq> w_recent_blockhash w \<or> pt_instruction_data parsed \<noteq> w_instruction_data w
        \<or> length (pt_account_keys parsed) \<noteq> 3 \<or> pt_account_keys parsed ! 0 \<noteq> w_signer w
     then Inl (Rejected Wire)
     else if length (w_pre_accounts w) \<le> 1 then Inl (Rejected Accounts)
     else if pt_account_keys parsed ! 1 \<noteq> aw_key (w_pre_accounts w ! 1)
        \<or> pt_account_keys parsed ! 2 \<noteq> rw_program_id (w_runtime w)
     then Inl (Rejected Wire)
     else if \<not> rverify_strict R (w_signer w) (w_message_bytes w) (w_signature w) then Inl (Rejected Signature)
     else if w_recent_blockhash w \<notin> set (rw_recent_blockhashes (w_runtime w)) then Inl (Rejected Blockhash)
     else Inr ())"

definition validate_accounts_and_result :: "replay_witness \<Rightarrow> unit rres" where
  "validate_accounts_and_result w =
     (if length (w_pre_accounts w) \<noteq> 2 \<or> length (w_post_accounts w) \<noteq> 2 \<or> w_rollback_accounts w \<noteq> []
        \<or> \<not> (w_instruction_data w = [1] \<or> length (w_instruction_data w) = 5 \<and> w_instruction_data w ! 0 = 1)
      then Inl (Rejected Accounts)
      else
      let pre_fee = w_pre_accounts w ! 0; pre_target = w_pre_accounts w ! 1;
          post_fee = w_post_accounts w ! 0; post_target = w_post_accounts w ! 1; result = w_result w
      in if \<not> aw_signer pre_fee \<or> \<not> aw_writable pre_fee \<or> aw_signer pre_target \<or> \<not> aw_writable pre_target
        \<or> aw_owner pre_target \<noteq> rw_program_id (w_runtime w) \<or> aw_data pre_target = []
        \<or> aw_key pre_fee \<noteq> aw_key post_fee \<or> aw_key pre_target \<noteq> aw_key post_target
        \<or> aw_owner pre_fee \<noteq> aw_owner post_fee \<or> aw_owner pre_target \<noteq> aw_owner post_target
        \<or> aw_data pre_fee \<noteq> aw_data post_fee \<or> aw_lamports pre_target \<noteq> aw_lamports post_target
      then Inl (Rejected Accounts)
      else if checked_sub (aw_lamports pre_fee) (rw_lamports_per_signature (w_runtime w)) \<noteq> Some (aw_lamports post_fee)
        \<or> rs_transaction_fee result \<noteq> rw_lamports_per_signature (w_runtime w) \<or> rs_prioritization_fee result \<noteq> 0
      then Inl (Rejected Fee)
      else if aw_data post_target \<noteq> (aw_data pre_target)[0 := 100] then Inl (Rejected Accounts)
      else if \<not> rs_executed_success result \<or> rs_transaction_error result \<noteq> 0 \<or> rs_instruction_error result \<noteq> 0
        \<or> rs_custom_error result \<noteq> 0
      then Inl (Rejected Outcome)
      else Inr ())"

definition program_elf_hash :: "replay_env \<Rightarrow> replay_witness \<Rightarrow> hash32" where
  "program_elf_hash R w = rsha R [rw_program_elf (w_runtime w)]"

definition trace_hash :: "replay_env \<Rightarrow> replay_witness \<Rightarrow> hash32 \<Rightarrow> hash32" where
  "trace_hash R w elf_hash =
     rsha R ([w_event_tags w, key_bytes elf_hash, key_bytes (rw_program_hash (w_runtime w)), u64_le (rw_entry_pc (w_runtime w))]
       @ concat (map (\<lambda>word. [u64_le (pw_pc word), pw_instruction word, u32_le (pw_lddw_high word)]) (w_program_words w))
       @ concat (map (\<lambda>target. [u32_le (tg_function_hash target), u64_le (tg_target_pc target)]) (w_call_targets w))
       @ concat (map (\<lambda>row. map u64_le (vr_registers row) @ [vr_instruction row, u32_le (vr_syscall_key row)]) (w_vm_rows w))
       @ concat (map (\<lambda>memory. [u64_le (of_nat (length memory)), memory])
           [w_program_input_before w, w_program_input_after w, w_stack_after w, w_heap_after w])
       @ [u64_le (w_compute_units_before w), u64_le (w_compute_units_after w)])"

definition validate_trace :: "replay_env \<Rightarrow> replay_witness \<Rightarrow> hash32 \<Rightarrow> unit rres" where
  "validate_trace R w elf_hash =
     (case w_vm_rows w of [] \<Rightarrow> Inl (Rejected Trace) | first # _ \<Rightarrow>
      let final = last (w_vm_rows w);
          words = map_of (map (\<lambda>word. (pw_pc word, word)) (w_program_words w));
          targets = map_of (map (\<lambda>target. (tg_function_hash target, tg_target_pc target)) (w_call_targets w))
      in if w_program_words w = [] \<or> w_event_tags w = [] \<or> last (w_event_tags w) \<noteq> 6
        \<or> w_compute_units_before w \<le> w_compute_units_after w \<or> rs_executed_units (w_result w) = 0
        \<or> w_trace_hash w \<noteq> trace_hash R w elf_hash \<or> vr_registers first ! 11 \<noteq> rw_entry_pc (w_runtime w)
        \<or> vr_instruction final \<noteq> EXIT_INSTRUCTION \<or> vr_syscall_key final \<noteq> 0
      then Inl (Rejected Trace)
      else if rw_program_elf (w_runtime w) = [] \<or> rw_program_hash (w_runtime w) = 0 then Inl (Rejected Program)
      else if \<not> distinct (map pw_pc (w_program_words w)) then Inl (Rejected Program)
      else if \<not> successively (<) (map tg_function_hash (w_call_targets w))
        \<or> list_ex (\<lambda>target. words (tg_target_pc target) = None) (w_call_targets w)
      then Inl (Rejected Trace)
      else if length (filter (\<lambda>row. vr_syscall_key row \<noteq> 0) (w_vm_rows w)) \<noteq> 1
        \<or> list_ex (\<lambda>row. vr_syscall_key row \<noteq> 0 \<and> vr_syscall_key row \<noteq> SOL_MEMCPY_KEY) (w_vm_rows w)
      then Inl (Rejected Trace)
      else rbind (check_rows words targets [] [] (w_vm_rows w)) (\<lambda>(used, stack).
      if stack \<noteq> [] \<or> card (set used) \<noteq> length (w_call_targets w) then Inl (Rejected Trace)
      else Inr ()))"

subsection \<open>Public inputs\<close>

definition replay_fr :: "hash32 \<Rightarrow> fr_bytes rres" where
  "replay_fr h = (case FrBytes_new (key_bytes h) of Inl _ \<Rightarrow> Inl commitment_error | Inr f \<Rightarrow> Inr f)"

definition derive_public_inputs_with_elf_hash :: "replay_env \<Rightarrow> replay_witness \<Rightarrow> hash32 \<Rightarrow> er_step_public_inputs rres" where
  "derive_public_inputs_with_elf_hash R w elf_hash =
     rbind (verify_checkpoint_binding R w) (\<lambda>c.
     rbind (ok_or (commitment_bytes R SESSION_CONTEXT_TAG (w_session_context w)) commitment_error) (\<lambda>context_fr.
     rbind (fr_to_bytes context_fr) (\<lambda>session_context.
     rbind (replay_fr (cpi_pre_state_root c)) (\<lambda>pre_state_root.
     rbind (replay_fr (cpi_post_state_root c)) (\<lambda>post_state_root.
     rbind (replay_fr (cpi_transaction_effect_commitment c)) (\<lambda>tx_effect_root.
     rbind (replay_fr (cpi_readonly_l1_root c)) (\<lambda>readonly_l1_root.
     rbind (replay_fr (cpi_settlement_effect_root c)) (\<lambda>settlement_effect_root.
     Inr \<lparr>pi_domain = FrBytes_er_step_domain_v1 ER_STEP_PROOF_KIND_FULL_TRANSACTION ER_STEP_PROOF_VERSION_V1,
          pi_session_context = session_context, pi_slot_step = FrBytes_from_u64_pair (w_er_slot w) (w_step_index w),
          pi_pre_state_root = pre_state_root, pi_post_state_root = post_state_root, pi_tx_effect_root = tx_effect_root,
          pi_readonly_l1_root = readonly_l1_root, pi_settlement_effect_root = settlement_effect_root\<rparr>))))))))"

definition derive_public_inputs :: "replay_env \<Rightarrow> replay_witness \<Rightarrow> er_step_public_inputs rres" where
  "derive_public_inputs R w = derive_public_inputs_with_elf_hash R w (program_elf_hash R w)"

definition public_inputs_bytes :: "er_step_public_inputs \<Rightarrow> bytes" where
  "public_inputs_bytes p = concat (ErStepPublicInputsV1_to_array p)"

definition replay :: "replay_env \<Rightarrow> replay_witness \<Rightarrow> er_step_public_inputs rres" where
  "replay R w =
     (let elf_hash = program_elf_hash R w
      in rbind (validate_header w) (\<lambda>_.
         rbind (validate_transaction R w) (\<lambda>_.
         rbind (validate_accounts_and_result w) (\<lambda>_.
         rbind (validate_trace R w elf_hash) (\<lambda>_.
         rbind (derive_public_inputs_with_elf_hash R w elf_hash) (\<lambda>public.
         case FullTransactionPublicInputsV1_try_from public of
           Inl _ \<Rightarrow> Inl (Rejected Domain)
         | Inr _ \<Rightarrow> Inr public))))))"

end
