(* ===== verification/Replay_Wire.thy ===== *)
theory Replay_Wire
  imports Replay
begin

text \<open>
  The wire format that the prover accepts is canonical: a transaction parses to a result exactly when it is the encoding
  of that result, so no two byte strings stand for one transaction.
\<close>

subsection \<open>Compact lengths\<close>

text \<open>The shortest encoding of a length in groups of seven bits.\<close>

definition short_vec :: "nat \<Rightarrow> bytes" where
  "short_vec n =
     (if n < 128 then [of_nat n]
      else if n < 16384 then [of_nat (n mod 128 + 128), of_nat (n div 128)]
      else [of_nat (n mod 128 + 128), of_nat (n div 128 mod 128 + 128), of_nat (n div 16384)])"

lemma unat_or_push:
  fixes a :: u32 and b :: u32
  assumes "unat a < 2 ^ k" "unat a + unat b * 2 ^ k < 2 ^ 32"
  shows "unat (a OR push_bit k b) = unat a + unat b * 2 ^ k"
proof -
  have "push_bit k b = of_nat (unat b * 2 ^ k)" by (simp add: push_bit_eq_mult)
  then have p: "unat (push_bit k b) = unat b * 2 ^ k" using assms(2) by (simp add: unat_of_nat take_bit_nat_eq_self del: of_nat_mult)
  have "\<not> bit a n \<or> \<not> bit (push_bit k b) n" for n
  proof (cases "k \<le> n")
    case True
    then have "(2::nat) ^ k \<le> 2 ^ n" by (intro power_increasing) simp_all
    then have "unat a div 2 ^ n = 0" using assms(1) by (intro div_less) linarith
    then have "\<not> bit (unat a) n" by (simp add: bit_iff_odd)
    then show ?thesis by (simp add: bit_unsigned_iff)
  qed (simp add: bit_push_bit_iff)
  then have "a OR push_bit k b = a + push_bit k b" by (simp add: disjunctive_add)
  then show ?thesis using assms(2) p by (simp add: unat_add_exact)
qed

text \<open>The low seven bits and the continuation bit of a byte.\<close>

lemma byte_bits:
  fixes b :: u8
  shows "unat (b AND 0x7f) = unat b mod 128" "b AND 0x80 = 0 \<longleftrightarrow> unat b < 128"
proof -
  have "b AND 0x7f = take_bit 7 b" by (simp add: take_bit_eq_mask mask_eq_exp_minus_1)
  then have "unat (b AND 0x7f) = take_bit 7 (unat b)" by (simp only: unsigned_take_bit_eq)
  then show "unat (b AND 0x7f) = unat b mod 128" by (simp add: take_bit_eq_mod)
  have "b AND 0x80 = 0 \<longleftrightarrow> \<not> bit b 7" using and_exp_eq_0_iff_not_bit [of b 7] by simp
  also have "\<dots> \<longleftrightarrow> \<not> bit (unat b) 7" by (simp add: bit_unsigned_iff)
  also have "\<dots> \<longleftrightarrow> even (unat b div 128)" by (simp add: bit_iff_odd)
  also have "\<dots> \<longleftrightarrow> unat b < 128"
  proof (cases "unat b < 128")
    case False
    have "unat b < 256" using unsigned_less [where 'a = nat, of b] by simp
    then have "unat b div 128 = 1" using False by (intro div_nat_eqI) simp_all
    then show ?thesis using False by simp
  qed simp
  finally show "b AND 0x80 = 0 \<longleftrightarrow> unat b < 128" .
qed

text \<open>One step of the reader, on numbers.\<close>

lemma read_short_vec_step:
  assumes "unat v < 2 ^ (7 * i)" "i \<le> 2"
  shows "read_short_vec_from (Suc k) i v (b # rest) =
    (if b = 0 \<and> i \<noteq> 0 \<or> i = 2 \<and> unat b \<ge> 128 then Inl (Rejected Wire)
     else let n = unat v + unat b mod 128 * 2 ^ (7 * i)
     in if n \<ge> 2 ^ 16 then Inl (Rejected Wire)
     else if unat b < 128 then Inr (n, rest)
     else read_short_vec_from k (Suc i) (of_nat n) rest)"
proof -
  let ?c = "(ucast v :: u32) OR push_bit (7 * i) (ucast (b AND 0x7f))"
  have i: "(2::nat) ^ (7 * i) \<le> 2 ^ 14" using assms(2) by (intro power_increasing) simp_all
  have u: "unat (ucast v :: u32) = unat v" "unat (ucast (b AND 0x7f) :: u32) = unat b mod 128"
    using unsigned_less [where 'a = nat, of v] by (simp_all add: unsigned_ucast_eq take_bit_nat_eq_self byte_bits)
  have "unat b mod 128 * 2 ^ (7 * i) \<le> 127 * 2 ^ 14" using i by (intro mult_mono) auto
  then have "unat v + unat b mod 128 * 2 ^ (7 * i) < 2 ^ 32" using assms(1) i by simp
  then have c: "unat ?c = unat v + unat b mod 128 * 2 ^ (7 * i)"
    using unat_or_push [of "ucast v" "7 * i" "ucast (b AND 0x7f)"] assms(1) by (simp add: u)
  have "(ucast ?c :: u16) = of_nat (unat ?c)" by simp
  then show ?thesis by (auto simp: take_byte_def Let_def byte_bits c)
qed

lemma read_nil: "read_short_vec_from k i v [] = Inl (Rejected Wire)"
  by (cases k) (simp_all add: take_byte_def)

declare read_short_vec_from.simps [simp del]

text \<open>The three shapes that the reader accepts.\<close>

lemma read_short_vec_shapes:
  "read_short_vec bs = Inr (n, rest) \<longleftrightarrow>
     (\<exists>b0. bs = b0 # rest \<and> unat b0 < 128 \<and> n = unat b0)
   \<or> (\<exists>b0 b1. bs = b0 # b1 # rest \<and> unat b0 \<ge> 128 \<and> 0 < unat b1 \<and> unat b1 < 128 \<and> n = unat b0 mod 128 + unat b1 * 128)
   \<or> (\<exists>b0 b1 b2. bs = b0 # b1 # b2 # rest \<and> unat b0 \<ge> 128 \<and> unat b1 \<ge> 128 \<and> 0 < unat b2 \<and> unat b2 < 4
        \<and> n = unat b0 mod 128 + unat b1 mod 128 * 128 + unat b2 * 16384)"
proof -
  have nz: "b \<noteq> 0 \<longleftrightarrow> 0 < unat b" for b :: u8 by (simp add: unat_gt_0)
  have u16: "unat (of_nat m :: u16) = m" if "m < 65536" for m using that by (simp add: unat_of_nat take_bit_nat_eq_self)
  show ?thesis
  proof (cases bs)
    case Nil
    then show ?thesis by (simp add: read_short_vec_def read_nil)
  next
    case b0: (Cons b0 r0)
    have "\<not> 65536 \<le> unat b0 mod 128" using mod_less_divisor [of 128 "unat b0"] by linarith
    then have s0: "read_short_vec bs = (if unat b0 < 128 then Inr (unat b0, r0)
        else read_short_vec_from (Suc (Suc 0)) (Suc 0) (of_nat (unat b0 mod 128)) r0)"
      using read_short_vec_step [of 0 0 "Suc (Suc 0)" b0 r0] by (simp add: b0 read_short_vec_def Let_def numeral_3_eq_3)
    show ?thesis
    proof (cases r0)
      case Nil
      then show ?thesis unfolding s0 by (auto simp: read_nil b0)
    next
      case b1: (Cons b1 r1)
      have u0: "unat (of_nat (unat b0 mod 128) :: u16) = unat b0 mod 128" by (rule u16) (simp add: less_trans [OF mod_less_divisor])
      have m: "unat b0 mod 128 + unat b1 mod 128 * 128 < 16384" using mod_less_divisor [of 128 "unat b0"] mod_less_divisor [of 128 "unat b1"] by linarith
      have s1: "read_short_vec_from (Suc (Suc 0)) (Suc 0) (of_nat (unat b0 mod 128)) r0 = (if b1 = 0 then Inl (Rejected Wire)
          else if unat b1 < 128 then Inr (unat b0 mod 128 + unat b1 mod 128 * 128, r1)
          else read_short_vec_from (Suc 0) (Suc (Suc 0)) (of_nat (unat b0 mod 128 + unat b1 mod 128 * 128)) r1)"
        using read_short_vec_step [of "of_nat (unat b0 mod 128)" "Suc 0" "Suc 0" b1 r1] m
        by (simp add: b1 u0 Let_def del: of_nat_add of_nat_mult)
      show ?thesis
      proof (cases r1)
        case Nil
        then show ?thesis unfolding s0 s1 by (auto simp: read_nil b0 b1 nz)
      next
        case b2: (Cons b2 r2)
        let ?m = "unat b0 mod 128 + unat b1 mod 128 * 128"
        have um: "unat (of_nat ?m :: u16) = ?m" using m by (intro u16) simp
        have s2: "read_short_vec_from (Suc 0) (Suc (Suc 0)) (of_nat ?m) r1 =
          (if b2 = 0 \<or> unat b2 \<ge> 128 then Inl (Rejected Wire)
           else if ?m + unat b2 * 16384 \<ge> 65536 then Inl (Rejected Wire) else Inr (?m + unat b2 * 16384, r2))"
          using read_short_vec_step [of "of_nat ?m" "Suc (Suc 0)" 0 b2 r2] m by (simp add: b2 um Let_def del: of_nat_add of_nat_mult)
        have small: "?m + unat b2 * 16384 \<ge> 65536 \<longleftrightarrow> unat b2 \<ge> 4" using m by linarith
        show ?thesis unfolding s0 s1 s2 small by (auto simp: b0 b1 b2 nz)
      qed
    qed
  qed
qed

lemma byte_cases:
  fixes b :: u8
  shows "unat b < 256" "128 \<le> unat b \<Longrightarrow> unat b mod 128 + 128 = unat b"
proof -
  show b: "unat b < 256" using unsigned_less [where 'a = nat, of b] by simp
  show "unat b mod 128 + 128 = unat b" if "128 \<le> unat b"
    using b that mod_if [of "unat b" 128] by (simp add: mod_less)
qed

lemma read_short_vec_iff: "read_short_vec bs = Inr (n, rest) \<longleftrightarrow> n < 2 ^ 16 \<and> bs = short_vec n @ rest"
proof
  assume "read_short_vec bs = Inr (n, rest)"
  then consider (one) b0 where "bs = b0 # rest" "unat b0 < 128" "n = unat b0"
    | (two) b0 b1 where "bs = b0 # b1 # rest" "unat b0 \<ge> 128" "0 < unat b1" "unat b1 < 128" "n = unat b0 mod 128 + unat b1 * 128"
    | (three) b0 b1 b2 where "bs = b0 # b1 # b2 # rest" "unat b0 \<ge> 128" "unat b1 \<ge> 128" "0 < unat b2" "unat b2 < 4"
        "n = unat b0 mod 128 + unat b1 mod 128 * 128 + unat b2 * 16384"
    unfolding read_short_vec_shapes by blast
  then show "n < 2 ^ 16 \<and> bs = short_vec n @ rest"
  proof cases
    case one
    then show ?thesis by (simp add: short_vec_def)
  next
    case two
    have "unat b0 mod 128 < 128" by simp
    then have "n mod 128 = unat b0 mod 128" "n div 128 = unat b1" "128 \<le> n" "n < 16384" using two(3-5) by auto
    then show ?thesis using two(1,2) byte_cases(2) [of b0] by (simp add: short_vec_def)
  next
    case three
    have lt: "unat b0 mod 128 < 128" "unat b1 mod 128 < 128" by simp_all
    have "n = unat b0 mod 128 + (unat b1 mod 128 + unat b2 * 128) * 128" using three(6) by simp
    then have "n mod 128 = unat b0 mod 128" and d: "n div 128 = unat b1 mod 128 + unat b2 * 128" by (simp_all only: mod_mult_self1 mod_mod_trivial div_mult_self1)
    moreover have "n div 128 mod 128 = unat b1 mod 128" "n div 128 div 128 = unat b2" unfolding d by simp_all
    moreover have "n div 16384 = n div 128 div 128" by (simp add: div_mult2_eq [symmetric])
    moreover have "16384 \<le> n" "n < 65536" using three(4-6) lt by linarith+
    ultimately have "n mod 128 = unat b0 mod 128" "n div 128 mod 128 = unat b1 mod 128" "n div 16384 = unat b2" "16384 \<le> n" "n < 65536"
      by simp_all
    then show ?thesis using three(1-3) byte_cases(2) [of b0] byte_cases(2) [of b1] by (simp add: short_vec_def)
  qed
next
  have u: "unat (of_nat m :: u8) = m" if "m < 256" for m using that by (simp add: unat_of_nat take_bit_nat_eq_self)
  assume "n < 2 ^ 16 \<and> bs = short_vec n @ rest"
  then have n: "n < 65536" and bs: "bs = short_vec n @ rest" by simp_all
  consider "n < 128" | "128 \<le> n" "n < 16384" | "16384 \<le> n" by linarith
  then show "read_short_vec bs = Inr (n, rest)"
  proof cases
    case 1
    then show ?thesis unfolding read_short_vec_shapes bs by (auto simp: short_vec_def u)
  next
    case 2
    let ?b0 = "of_nat (n mod 128 + 128) :: u8" and ?b1 = "of_nat (n div 128) :: u8"
    have "n mod 128 + 128 < 256" "n div 128 < 256" using 2 by auto
    then have "unat ?b0 = n mod 128 + 128" "unat ?b1 = n div 128" by (simp_all only: u)
    then have "unat ?b0 \<ge> 128" "0 < unat ?b1" "unat ?b1 < 128" "n = unat ?b0 mod 128 + unat ?b1 * 128" using 2 by auto
    moreover have "bs = ?b0 # ?b1 # rest" using 2 by (simp add: bs short_vec_def)
    ultimately show ?thesis unfolding read_short_vec_shapes by blast
  next
    case 3
    let ?b0 = "of_nat (n mod 128 + 128) :: u8" and ?b1 = "of_nat (n div 128 mod 128 + 128) :: u8" and ?b2 = "of_nat (n div 16384) :: u8"
    have "n mod 128 + 128 < 256" "n div 128 mod 128 + 128 < 256" "n div 16384 < 256" using n by auto
    then have "unat ?b0 = n mod 128 + 128" "unat ?b1 = n div 128 mod 128 + 128" "unat ?b2 = n div 16384" by (simp_all only: u)
    moreover have "n div 16384 = n div 128 div 128" by (simp add: div_mult2_eq [symmetric])
    moreover from this have "n mod 128 + n div 128 mod 128 * 128 + n div 16384 * 16384 = n"
      using mult_div_mod_eq [of 128 n] mult_div_mod_eq [of 128 "n div 128"] by linarith
    moreover have "0 < n div 16384" "n div 16384 < 4" using 3 n by auto
    ultimately have "unat ?b0 \<ge> 128" "unat ?b1 \<ge> 128" "0 < unat ?b2" "unat ?b2 < 4"
      "n = unat ?b0 mod 128 + unat ?b1 mod 128 * 128 + unat ?b2 * 16384" by simp_all
    moreover have "bs = ?b0 # ?b1 # ?b2 # rest" using 3 by (simp add: bs short_vec_def)
    ultimately show ?thesis unfolding read_short_vec_shapes by blast
  qed
qed

subsection \<open>Transactions\<close>

lemma take_ok:
  "take_byte bs = Inr (b, rest) \<longleftrightarrow> bs = b # rest"
  "take_bytes n bs = Inr (x, rest) \<longleftrightarrow> length x = n \<and> bs = x @ rest"
  "take_key bs = Inr (k, rest) \<longleftrightarrow> bs = key_bytes k @ rest"
proof -
  show "take_byte bs = Inr (b, rest) \<longleftrightarrow> bs = b # rest" by (cases bs) (auto simp: take_byte_def)
  show b: "take_bytes n bs = Inr (x, rest) \<longleftrightarrow> length x = n \<and> bs = x @ rest" for n x
    by (auto simp: take_bytes_def)
  have "le_word x = k \<longleftrightarrow> x = key_bytes k" if "length x = 32" for x :: bytes
    using that by auto
  then show "take_key bs = Inr (k, rest) \<longleftrightarrow> bs = key_bytes k @ rest"
    by (auto simp: take_key_def rbind_ok b)
qed

text \<open>The canonical encoding of a transaction with one signature and one instruction on the second account.\<close>

definition wire_message :: "hash32 list \<Rightarrow> hash32 \<Rightarrow> bytes \<Rightarrow> bytes" where
  "wire_message keys recent_blockhash data =
     [1, 0, 1] @ short_vec (length keys) @ concat (map key_bytes keys) @ key_bytes recent_blockhash
     @ short_vec 1 @ [2] @ short_vec 1 @ [1] @ short_vec (length data) @ data"

definition transaction_wire :: "parsed_transaction \<Rightarrow> bytes" where
  "transaction_wire p = short_vec 1 @ pt_signature p @ pt_message p"

definition canonical_transaction :: "parsed_transaction \<Rightarrow> bool" where
  "canonical_transaction p \<longleftrightarrow>
     length (pt_signature p) = 64 \<and> length (pt_account_keys p) = 3 \<and> pt_signer p = hd (pt_account_keys p)
     \<and> length (pt_instruction_data p) < 2 ^ 16
     \<and> pt_message p = wire_message (pt_account_keys p) (pt_recent_blockhash p) (pt_instruction_data p)"

lemma parse_ok:
  "parse_legacy_transaction bs = Inr p \<longleftrightarrow> canonical_transaction p \<and> bs = transaction_wire p"
proof
  assume "parse_legacy_transaction bs = Inr p"
  then show "canonical_transaction p \<and> bs = transaction_wire p"
    unfolding parse_legacy_transaction_def rbind_ok split_paired_Ex prod.case guard_ok
    by (elim exE conjE, unfold read_short_vec_iff take_ok sum.inject, elim conjE, hypsubst,
        simp add: canonical_transaction_def transaction_wire_def wire_message_def numeral_3_eq_3)
next
  assume c: "canonical_transaction p \<and> bs = transaction_wire p"
  obtain sg msg signer blockhash keys data where p: "p = \<lparr>pt_signature = sg, pt_message = msg, pt_signer = signer,
      pt_recent_blockhash = blockhash, pt_account_keys = keys, pt_instruction_data = data\<rparr>"
    by (cases p)
  obtain k0 k1 k2 where keys: "keys = [k0, k1, k2]"
    using c by (auto simp: p canonical_transaction_def length_Suc_conv numeral_3_eq_3)
  let ?rest = "key_bytes k0 @ key_bytes k1 @ key_bytes k2 @ key_bytes blockhash @ short_vec 1 @ 2 # short_vec 1 @ 1
      # short_vec (length data) @ data"
  have m: "msg = [1, 0, 1] @ short_vec 3 @ ?rest" "signer = k0" "length sg = 64" "length data < 65536" "bs = short_vec 1 @ sg @ msg"
    using c by (simp_all add: p canonical_transaction_def transaction_wire_def wire_message_def keys numeral_3_eq_3)
  have r: "read_short_vec (short_vec n @ rest) = Inr (n, rest)" if "n < 65536" for n rest using that by (simp add: read_short_vec_iff)
  have r0: "read_short_vec (short_vec 1 @ rest) = Inr (1, rest)" "read_short_vec (short_vec 3 @ rest) = Inr (3, rest)"
      "read_short_vec (short_vec (length data) @ rest) = Inr (length data, rest)" for rest using m(4) by (auto intro: r)
  have t: "take_bytes 64 (sg @ msg) = Inr (sg, msg)" "take_bytes 3 ([1, 0, 1] @ rest) = Inr ([1, 0, 1], rest)"
      "take_bytes 1 (1 # rest) = Inr ([1], rest)" "take_bytes (length data) data = Inr (data, [])"
      "take_key (key_bytes k @ rest) = Inr (k, rest)" "take_byte (b # rest) = Inr (b, rest)" for rest k b
    using m(3) by (simp_all add: take_ok)
  show "parse_legacy_transaction bs = Inr p"
    unfolding m(5) parse_legacy_transaction_def r0(1) rbind_simps prod.case t(1) unfolding m(1)
    by (simp only: r0 t rbind_simps prod.case) (simp add: p m(1,2) keys)
qed

text \<open>C27: The prover's wire format is canonical: \<open>parse_legacy_transaction\<close> returns a transaction exactly for the byte
  string that encodes it, with every length in its shortest form and nothing left over; so different byte
  strings never stand for the same transaction, and each well-formed transaction is accepted.\<close>

theorem wire_format_canonical:
  "parse_legacy_transaction bs = Inr p \<longleftrightarrow> canonical_transaction p \<and> bs = transaction_wire p"
  by (rule parse_ok)

end
