(* ===== verification/Replay_Sample.thy ===== *)
theory Replay_Sample
  imports Replay_Wire
begin

text \<open>
  A witness that the guest accepts, in an environment whose hash counts bytes: one signed transaction, two accounts and a
  trace of two rows.  The fee account (key 20) is not the signer (key 30).
\<close>

definition sample_account :: "hash32 \<Rightarrow> bool \<Rightarrow> u64 \<Rightarrow> hash32 \<Rightarrow> bytes \<Rightarrow> account_witness" where
  "sample_account k signer lamports owner data =
     \<lparr>aw_key = k, aw_signer = signer, aw_writable = True, aw_invoked = False, aw_lamports = lamports, aw_owner = owner,
      aw_executable = False, aw_rent_epoch = 0, aw_data = data\<rparr>"

definition sample_value :: "hash32 \<Rightarrow> u64 \<Rightarrow> hash32 \<Rightarrow> hash32 \<Rightarrow> state_account_value" where
  "sample_value k lamports owner data_hash =
     \<lparr>sv_account = k, sv_owner = owner, sv_lamports = lamports, sv_executable = False, sv_rent_epoch = 0, sv_data_hash = data_hash\<rparr>"

definition sample_effects :: "account_effect list" where
  "sample_effects =
     [\<lparr>fx_step_index = 0, fx_value = sample_value 20 95 0 1, fx_deleted = False\<rparr>,
      \<lparr>fx_step_index = 0, fx_value = sample_value 40 7 50 3, fx_deleted = False\<rparr>]"

definition sample_transaction_effect :: transaction_effect where
  "sample_transaction_effect =
     \<lparr>te_version = 1, te_step_index = 0, te_transaction_hash = 204, te_executed_units = 1, te_account_effects = sample_effects\<rparr>"

definition sample_replay_env :: replay_env where
  "sample_replay_env =
     \<lparr>rsha = (\<lambda>parts. 1 + of_nat (length (concat parts))),
      renc_state_leaf = (\<lambda>i v. Some (u32_le i @ key_bytes (sv_account v) @ key_bytes (sv_data_hash v))),
      renc_transaction_leaf = (\<lambda>i t e. Some (u32_le i @ t @ e)),
      renc_readonly_leaf = (\<lambda>g s i v. Some (u32_le g @ u32_le s @ u32_le i @ key_bytes (rv_account v))),
      renc_settlement_leaf = (\<lambda>g s i e. Some (u32_le g @ u32_le s @ u32_le i @ e)),
      renc_account_effect = (\<lambda>e. Some (key_bytes (sv_account (fx_value e)))),
      renc_transaction_effect = (\<lambda>e. if e = sample_transaction_effect then Some [7] else None),
      rdec_transaction_effect = (\<lambda>bs. if bs = [7] then Some sample_transaction_effect else None),
      rverify_strict = (\<lambda>signer message signature. signature = replicate 64 9),
      rposeidon = (\<lambda>xs. Some (length xs))\<rparr>"

definition sample_parsed :: parsed_transaction where
  "sample_parsed =
     \<lparr>pt_signature = replicate 64 9, pt_message = wire_message [30, 40, 50] 60 [1], pt_signer = 30, pt_recent_blockhash = 60,
      pt_account_keys = [30, 40, 50], pt_instruction_data = [1]\<rparr>"

definition sample_binding :: checkpoint_binding where
  "sample_binding =
     \<lparr>cb_pre_state_accounts = [sample_value 20 100 0 1, sample_value 40 7 50 3],
      cb_post_state_accounts = [sample_value 20 95 0 1, sample_value 40 7 50 3],
      cb_transaction_effect = [7],
      cb_transaction_effect_path = \<lparr>mp_leaf_index = 0, mp_leaf_count = 1, mp_siblings = []\<rparr>,
      cb_checkpoint_transaction_effect_root = 82, cb_readonly_l1_values = [], cb_readonly_l1_root = 11,
      cb_settlement_effects =
        [\<lparr>ae_global_index = 0, ae_effect_index = 0, ae_effect = key_bytes 20,
          ae_path = \<lparr>mp_leaf_index = 0, mp_leaf_count = 2, mp_siblings = [97]\<rparr>\<rparr>,
         \<lparr>ae_global_index = 1, ae_effect_index = 1, ae_effect = key_bytes 40,
          ae_path = \<lparr>mp_leaf_index = 1, mp_leaf_count = 2, mp_siblings = [97]\<rparr>\<rparr>],
      cb_settlement_effect_root = 17\<rparr>"

definition sample_runtime :: runtime_witness where
  "sample_runtime =
     \<lparr>rw_agave_revision = replicate 20 0, rw_northstar_revision = replicate 20 0, rw_feature_set_hash = 0,
      rw_recent_blockhashes = [60], rw_lamports_per_signature = 5, rw_slot = 900, rw_sbpf_version = 0, rw_vm_config_hash = 0,
      rw_syscall_registry_hash = 0, rw_program_id = 50, rw_programdata_id = 51, rw_entry_pc = 0, rw_program_elf = [1],
      rw_program_hash = 1\<rparr>"

definition sample_result :: result_witness where
  "sample_result =
     \<lparr>rs_executed_success = True, rs_transaction_error = 0, rs_instruction_error = 0, rs_instruction_index = 0,
      rs_custom_error = 0, rs_executed_units = 1, rs_loaded_accounts_data_size = 0, rs_transaction_fee = 5,
      rs_prioritization_fee = 0, rs_return_data = [], rs_log_commitment = 0\<rparr>"

definition sample_witness :: replay_witness where
  "sample_witness =
     \<lparr>w_magic = WITNESS_MAGIC_V1, w_version = 2, w_proof_kind = 2, w_proof_version = 1, w_trace_schema_version = 1,
      w_session_context = [], w_er_slot = 9, w_step_index = 0, w_transaction_bytes = transaction_wire sample_parsed,
      w_message_bytes = pt_message sample_parsed, w_signature = replicate 64 9, w_signer = 30, w_recent_blockhash = 60,
      w_instruction_data = [1],
      w_pre_accounts = [sample_account 20 True 100 0 [], sample_account 40 False 7 50 [1, 2]],
      w_post_accounts = [sample_account 20 True 95 0 [], sample_account 40 False 7 50 [100, 2]],
      w_rollback_accounts = [], w_readonly_accounts = [], w_checkpoint = sample_binding, w_runtime = sample_runtime,
      w_event_tags = [6],
      w_program_words = [\<lparr>pw_pc = 0, pw_instruction = [0x85, 0, 0, 0, 0, 0, 0, 0], pw_lddw_high = 0\<rparr>,
        \<lparr>pw_pc = 1, pw_instruction = EXIT_INSTRUCTION, pw_lddw_high = 0\<rparr>],
      w_call_targets = [],
      w_vm_rows = [\<lparr>vr_registers = [0, 0, 0, 0, 0, 0, 0, 0, 0, 0, 0, 0], vr_instruction = [0x85, 0, 0, 0, 0, 0, 0, 0],
          vr_syscall_key = SOL_MEMCPY_KEY\<rparr>,
        \<lparr>vr_registers = [0, 0, 0, 0, 0, 0, 0, 0, 0, 0, 0, 1], vr_instruction = EXIT_INSTRUCTION, vr_syscall_key = 0\<rparr>],
      w_program_input_before = [], w_program_input_after = [], w_stack_after = [], w_heap_after = [],
      w_compute_units_before = 2, w_compute_units_after = 1, w_trace_hash = 378, w_result = sample_result\<rparr>"

lemma sample_transaction_ok: "validate_transaction sample_replay_env sample_witness = Inr ()"
proof -
  have "canonical_transaction sample_parsed" by (simp add: canonical_transaction_def sample_parsed_def)
  then have "parse_legacy_transaction (transaction_wire sample_parsed) = Inr sample_parsed" by (simp add: parse_ok)
  then show ?thesis
    by (simp add: validate_transaction_def sample_witness_def sample_runtime_def sample_account_def sample_replay_env_def)
       (simp add: sample_parsed_def)
qed

lemma sample_accounts_ok: "validate_accounts_and_result sample_witness = Inr ()"
  by (simp add: validate_accounts_and_result_def sample_witness_def sample_runtime_def sample_result_def sample_account_def checked_sub_def)

lemma sample_trace_ok: "validate_trace sample_replay_env sample_witness (program_elf_hash sample_replay_env sample_witness) = Inr ()"
proof -
  have trace: "trace_hash sample_replay_env sample_witness h = 378" for h
    by (simp add: trace_hash_def sample_replay_env_def sample_witness_def sample_runtime_def EXIT_INSTRUCTION_def)
  show ?thesis unfolding validate_trace_def Let_def trace
    by (simp add: sample_witness_def sample_runtime_def sample_result_def SOL_MEMCPY_KEY_def EXIT_INSTRUCTION_def validate_row_def
          decode_instruction_def checked_add_def validate_register_preservation_def step_stack_def first_row_def upt_rec word_le_nat_alt)
qed

lemma small_replay_trees:
  "replay_tree_new hash kind [] = rbind (replay_typed_hash hash kind (ascii ''empty-leaf'') (u32_le 0)) (\<lambda>h.
     Inr \<lparr>rt_kind = kind, rt_leaf_count = 0, rt_layers = [[h]]\<rparr>)"
  "replay_tree_new hash kind [a, b]
   = Inr \<lparr>rt_kind = kind, rt_leaf_count = 2, rt_layers = [[a, b], [replay_node_hash hash kind 0 a b]]\<rparr>"
  by (simp_all add: replay_tree_new_def replay_u32_def replay_empty_leaf_hash_def power_from.simps replay_build_layers.simps
      checked_add_def replay_typed_hash_def del: width_power)

lemmas replay_hashes = small_replay_trees replay_tree_root_def replay_root_hash_def replay_node_hash_def replay_typed_hash_def
  replay_u32_def replay_encode_def replay_domain_def ascii_def mask_root_def

lemma sample_canonical:
  "state_accounts_are_canonical (cb_pre_state_accounts sample_binding)"
  "state_accounts_are_canonical (cb_post_state_accounts sample_binding)"
  by code_simp+

lemma sample_state_roots:
  "replay_state_root sample_replay_env (cb_pre_state_accounts sample_binding) = Inr 5"
  "replay_state_root sample_replay_env (cb_post_state_accounts sample_binding) = Inr 5"
  by (simp_all add: replay_state_root_def sample_canonical)
     (simp_all add: replay_hashes sample_binding_def sample_replay_env_def sample_value_def)

lemma sample_expected_effects: "expected_effects sample_replay_env sample_witness 0 = sample_effects"
proof -
  have "key_bytes 20 = 20 # replicate 31 0" "key_bytes 40 = 40 # replicate 31 0" by code_simp+
  then have "\<not> key_nat 40 \<le> key_nat 20" by (simp add: key_nat_def)
  then show ?thesis
    by (simp add: expected_effects_def sample_witness_def sample_effects_def state_account_def sample_account_def sample_value_def
        sample_replay_env_def)
qed

lemma sample_transition:
  "validate_state_transition sample_replay_env (cb_pre_state_accounts sample_binding) (cb_post_state_accounts sample_binding)
     sample_effects (w_pre_accounts sample_witness) = Inr ()"
  by (simp add: validate_state_transition_def account_map_def effect_keys_def sample_binding_def sample_effects_def sample_witness_def
      sample_account_def sample_value_def state_account_def sample_replay_env_def)

lemma sample_transaction_leaf:
  "replay_transaction_leaf_hash sample_replay_env 0 (w_transaction_bytes sample_witness) [7] = Inr 262"
  "rsha sample_replay_env [w_transaction_bytes sample_witness] = 204"
  by (simp_all add: replay_transaction_leaf_hash_def replay_hashes sample_replay_env_def sample_witness_def sample_parsed_def
      transaction_wire_def wire_message_def short_vec_def)

lemma sample_readonly: "validate_readonly_values sample_replay_env sample_witness 0 = Inr ()"
  by (simp add: validate_readonly_values_def expected_readonly_def empty_root_def replay_hashes sample_witness_def sample_binding_def
      sample_replay_env_def)

lemma sample_settlement: "validate_settlement_effects sample_replay_env sample_witness 0 sample_effects = Inr ()"
  by (simp add: validate_settlement_effects_def sample_effects_def sample_witness_def sample_binding_def sample_value_def
      replay_settlement_leaf_hash_def replay_verify_path_def power_from.simps zeros_below.simps word_le_nat_alt replay_hashes sample_replay_env_def
      del: width_power)

lemma sample_binding_ok: "verify_checkpoint_binding sample_replay_env sample_witness =
    Inr \<lparr>cpi_pre_state_root = 5, cpi_post_state_root = 5, cpi_transaction_effect_commitment = 262, cpi_readonly_l1_root = 11,
      cpi_settlement_effect_root = 17\<rparr>"
proof -
  have f: "w_checkpoint sample_witness = sample_binding" "w_step_index sample_witness = 0" "w_result sample_witness = sample_result"
    "cb_transaction_effect sample_binding = [7]" "rs_executed_units sample_result = 1"
    "cb_transaction_effect_path sample_binding = \<lparr>mp_leaf_index = 0, mp_leaf_count = 1, mp_siblings = []\<rparr>"
    "cb_checkpoint_transaction_effect_root sample_binding = 82" "cb_readonly_l1_root sample_binding = 11"
    "cb_settlement_effect_root sample_binding = 17"
    by (simp_all add: sample_witness_def sample_binding_def sample_result_def)
  have e: "rdec_transaction_effect sample_replay_env [7] = Some sample_transaction_effect"
    "renc_transaction_effect sample_replay_env sample_transaction_effect = Some [7]"
    by (simp_all add: sample_replay_env_def)
  have t: "te_version sample_transaction_effect = 1" "te_step_index sample_transaction_effect = 0"
    "te_transaction_hash sample_transaction_effect = 204" "te_executed_units sample_transaction_effect = 1"
    "te_account_effects sample_transaction_effect = sample_effects"
    by (simp_all add: sample_transaction_effect_def)
  have p: "replay_verify_path (rsha sample_replay_env) RTransactionEffect \<lparr>mp_leaf_index = 0, mp_leaf_count = 1, mp_siblings = []\<rparr> 262 82"
    by (simp add: replay_verify_path_def power_from.simps zeros_below.simps word_le_nat_alt replay_hashes sample_replay_env_def del: width_power)
  show ?thesis
    by (simp add: verify_checkpoint_binding_def f sample_canonical sample_state_roots e t sample_transaction_leaf
        sample_expected_effects sample_transition p sample_readonly sample_settlement replay_encode_def)
qed

definition sample_public :: er_step_public_inputs where
  "sample_public =
     \<lparr>pi_domain = FrBytes_er_step_domain_v1 ER_STEP_PROOF_KIND_FULL_TRANSACTION ER_STEP_PROOF_VERSION_V1,
      pi_session_context = be_digits 32 3, pi_slot_step = FrBytes_from_u64_pair 9 0, pi_pre_state_root = key_bytes 5,
      pi_post_state_root = key_bytes 5, pi_tx_effect_root = key_bytes 262, pi_readonly_l1_root = key_bytes 11,
      pi_settlement_effect_root = key_bytes 17\<rparr>"

lemma sample_fr: "n \<in> {5, 262, 11, 17} \<Longrightarrow> replay_fr n = Inr (key_bytes n)"
proof -
  have "FrBytes_new (key_bytes 5) = Inr (key_bytes 5)" "FrBytes_new (key_bytes 262) = Inr (key_bytes 262)"
    "FrBytes_new (key_bytes 11) = Inr (key_bytes 11)" "FrBytes_new (key_bytes 17) = Inr (key_bytes 17)"
    by code_simp+
  then show "n \<in> {5, 262, 11, 17} \<Longrightarrow> replay_fr n = Inr (key_bytes n)" by (auto simp: replay_fr_def)
qed

lemma sample_replay: "replay sample_replay_env sample_witness = Inr sample_public"
proof -
  have h: "validate_header sample_witness = Inr ()"
    by (simp add: validate_header_def sample_witness_def sample_runtime_def WITNESS_VERSION_V2_def TRACE_SCHEMA_VERSION_V1_def
        SBPF_VERSION_V0_def ER_STEP_PROOF_KIND_FULL_TRANSACTION_def ER_STEP_PROOF_VERSION_V1_def)
  have s: "w_session_context sample_witness = []" "w_er_slot sample_witness = 9" "w_step_index sample_witness = 0"
    by (simp_all add: sample_witness_def)
  have c: "commitment_bytes sample_replay_env SESSION_CONTEXT_TAG [] = Some 3"
    by (simp add: commitment_bytes_def commitment_fold_def sample_replay_env_def chunks.simps)
  have "is_ok (FrBytes_new (be_digits 32 3))" by code_simp
  then have "fr_to_bytes 3 = Inr (be_digits 32 3)" by (simp add: fr_to_bytes_def)
  then have d: "derive_public_inputs_with_elf_hash sample_replay_env sample_witness h = Inr sample_public" for h
    by (simp add: derive_public_inputs_with_elf_hash_def sample_binding_ok s c sample_fr sample_public_def)
  have "is_ok (FullTransactionPublicInputsV1_try_from sample_public)" by code_simp
  then show ?thesis
    by (auto simp: replay_def h sample_transaction_ok sample_accounts_ok sample_trace_ok d is_ok_def split: sum.splits)
qed

end
