(* ===== verification/Replay_Alu.thy ===== *)
theory Replay_Alu
  imports Replay_Vm
begin

text \<open>
  The arithmetic and jump rules of the trace check against a reference: one definition per operation on words of any
  width, used at 32 and at 64 bits.
\<close>

definition alu_reference :: "u8 \<Rightarrow> 'a::len word \<Rightarrow> 'a word \<Rightarrow> 'a word option" where
  "alu_reference operation a b =
     (let shift = unat b mod LENGTH('a) in
      if operation = 0x00 then Some (a + b)
      else if operation = 0x10 then Some (a - b)
      else if operation = 0x20 then Some (a * b)
      else if operation = 0x30 then (if b = 0 then None else Some (a div b))
      else if operation = 0x40 then Some (a OR b)
      else if operation = 0x50 then Some (a AND b)
      else if operation = 0x60 then Some (push_bit shift a)
      else if operation = 0x70 then Some (drop_bit shift a)
      else if operation = 0x80 then Some (- a)
      else if operation = 0x90 then (if b = 0 then None else Some (a mod b))
      else if operation = 0xa0 then Some (a XOR b)
      else if operation = 0xb0 then Some b
      else if operation = 0xc0 then Some (signed_drop_bit shift a)
      else None)"

definition jump_reference :: "u8 \<Rightarrow> 'a::len word \<Rightarrow> 'a word \<Rightarrow> bool option" where
  "jump_reference operation a b =
     (if operation = 0x00 then Some True
      else if operation = 0x10 then Some (a = b)
      else if operation = 0x20 then Some (a > b)
      else if operation = 0x30 then Some (a \<ge> b)
      else if operation = 0x40 then Some (a AND b \<noteq> 0)
      else if operation = 0x50 then Some (a \<noteq> b)
      else if operation = 0x60 then Some (sint a > sint b)
      else if operation = 0x70 then Some (sint a \<ge> sint b)
      else if operation = 0xa0 then Some (a < b)
      else if operation = 0xb0 then Some (a \<le> b)
      else if operation = 0xc0 then Some (sint a < sint b)
      else if operation = 0xd0 then Some (sint a \<le> sint b)
      else None)"

lemma ucast_of_int: "(ucast (word_of_int z :: u64) :: u32) = word_of_int z"
proof (rule bit_word_eqI)
  fix n assume "n < LENGTH(32)"
  then show "bit (ucast (word_of_int z :: u64) :: u32) n = bit (word_of_int z :: u32) n"
    by (simp add: bit_ucast_iff bit_word_of_int_iff)
qed

lemma ucast_down_ring:
  fixes x y :: u64
  shows "(ucast (x + y) :: u32) = ucast x + ucast y" "(ucast (x - y) :: u32) = ucast x - ucast y"
    "(ucast (x * y) :: u32) = ucast x * ucast y" "(ucast (- x) :: u32) = - ucast x"
proof -
  obtain a b where ab: "x = word_of_int a" "y = word_of_int b" by (metis word_of_int_uint)
  have "x + y = word_of_int (a + b)" "x - y = word_of_int (a - b)" "x * y = word_of_int (a * b)" "- x = word_of_int (- a)"
    by (simp_all add: ab)
  then show "(ucast (x + y) :: u32) = ucast x + ucast y" "(ucast (x - y) :: u32) = ucast x - ucast y"
    "(ucast (x * y) :: u32) = ucast x * ucast y" "(ucast (- x) :: u32) = - ucast x"
    by (simp_all only: ab ucast_of_int) simp_all
qed

lemma ucast_up_down [simp]: "(ucast (ucast a :: u64) :: u32) = a" for a :: u32
  by (rule bit_word_eqI) (simp add: bit_ucast_iff)

lemma unat_up [simp]: "unat (ucast a :: u64) = unat a" for a :: u32
  using unsigned_less [where 'a = nat, of a] by (simp add: unsigned_ucast_eq take_bit_nat_eq_self)

lemma up_eq_iff [simp]: "(ucast a :: u64) = ucast b \<longleftrightarrow> a = b" "(ucast a :: u64) = 0 \<longleftrightarrow> a = 0" for a b :: u32
  by (simp_all add: word_unat_eq_iff)

lemma down_bits:
  fixes a b :: u32
  shows "(ucast ((ucast a :: u64) OR ucast b) :: u32) = a OR b" "(ucast ((ucast a :: u64) AND ucast b) :: u32) = a AND b"
    "(ucast ((ucast a :: u64) XOR ucast b) :: u32) = a XOR b"
    "(ucast (push_bit n (ucast a :: u64)) :: u32) = push_bit n a" "(ucast (drop_bit n (ucast a :: u64)) :: u32) = drop_bit n a"
  by (rule bit_word_eqI; auto simp: bit_ucast_iff bit_or_iff bit_and_iff bit_xor_iff bit_push_bit_iff bit_drop_bit_eq dest: bit_imp_le_length)+

lemma down_division:
  fixes a b :: u32
  shows "(ucast ((ucast a :: u64) div ucast b) :: u32) = a div b" "(ucast ((ucast a :: u64) mod ucast b) :: u32) = a mod b"
proof -
  have "unat a div unat b < 2 ^ 32" "unat a mod unat b < 2 ^ 32"
    using unsigned_less [where 'a = nat, of a]
    by (simp_all add: le_less_trans [OF div_le_dividend] le_less_trans [OF mod_less_eq_dividend])
  then show "(ucast ((ucast a :: u64) div ucast b) :: u32) = a div b" "(ucast ((ucast a :: u64) mod ucast b) :: u32) = a mod b"
    by (simp_all add: word_unat_eq_iff unsigned_ucast_eq unat_div_distrib unat_mod_distrib take_bit_nat_eq_self)
qed

lemma shift_amounts:
  fixes b :: u32 and c :: u64
  shows "unat ((ucast b :: u64) AND 31) = unat b mod 32" "unat (c AND 63) = unat c mod 64"
proof -
  have m: "unat (w AND mask n) = unat w mod 2 ^ n" for w :: u64 and n
    by (simp only: take_bit_eq_mask [symmetric] unsigned_take_bit_eq) (simp add: take_bit_eq_mod)
  have "(31 :: u64) = mask 5" "(63 :: u64) = mask 6" by (simp_all add: mask_eq_exp_minus_1)
  then show "unat ((ucast b :: u64) AND 31) = unat b mod 32" "unat (c AND 63) = unat c mod 64" by (simp_all only: m) simp_all
qed

lemma order_up: "(ucast a :: u64) < ucast b \<longleftrightarrow> a < b" "(ucast a :: u64) \<le> ucast b \<longleftrightarrow> a \<le> b" for a b :: u32
  by (simp_all add: word_less_nat_alt word_le_nat_alt)

lemma and_up_zero: "(ucast a :: u64) AND ucast b = 0 \<longleftrightarrow> a AND b = 0" for a b :: u32
proof -
  have "(ucast a :: u64) AND ucast b = ucast (a AND b)" by (rule bit_word_eqI) (auto simp: bit_ucast_iff bit_and_iff)
  then show ?thesis by simp
qed

text \<open>C26: The arithmetic and the conditions that the trace check applies are the reference operations: on the low 32 bits
  with a zero-extended result for the 32-bit classes and on 64 bits for the others; division by zero and unknown
  operations are rejected.\<close>

theorem alu_and_jump_reference:
  "alu operation True l r = (case alu_reference operation (ucast l :: u32) (ucast r) of
       None \<Rightarrow> Inl (Rejected Opcode) | Some v \<Rightarrow> Inr (ucast v))
   \<and> alu operation False l r = (case alu_reference operation l r of None \<Rightarrow> Inl (Rejected Opcode) | Some v \<Rightarrow> Inr v)
   \<and> jump operation True l r = (case jump_reference operation (ucast l :: u32) (ucast r) of
       None \<Rightarrow> Inl (Rejected Opcode) | Some v \<Rightarrow> Inr v)
   \<and> jump operation False l r = (case jump_reference operation l r of None \<Rightarrow> Inl (Rejected Opcode) | Some v \<Rightarrow> Inr v)"
proof (intro conjI)
  show "alu operation True l r = (case alu_reference operation (ucast l :: u32) (ucast r) of
       None \<Rightarrow> Inl (Rejected Opcode) | Some v \<Rightarrow> Inr (ucast v))"
    by (simp add: alu_def alu_reference_def Let_def ucast_down_ring down_bits down_division shift_amounts)
  show "alu operation False l r = (case alu_reference operation l r of None \<Rightarrow> Inl (Rejected Opcode) | Some v \<Rightarrow> Inr v)"
    by (simp add: alu_def alu_reference_def Let_def shift_amounts)
  show "jump operation True l r = (case jump_reference operation (ucast l :: u32) (ucast r) of
       None \<Rightarrow> Inl (Rejected Opcode) | Some v \<Rightarrow> Inr v)"
    by (simp add: jump_def jump_reference_def Let_def order_up and_up_zero)
  show "jump operation False l r = (case jump_reference operation l r of None \<Rightarrow> Inl (Rejected Opcode) | Some v \<Rightarrow> Inr v)"
    by (simp add: jump_def jump_reference_def Let_def)
qed

end
