(* ===== verification/Replay_Props.thy ===== *)
theory Replay_Props
  imports Replay_Agreement Replay_Sample Replay_Alu
begin

text \<open>
  What an accepted witness means: the transition of the account map that the proved state roots stand for, and the checks
  that the guest does not make.
\<close>

subsection \<open>The transition of the account map\<close>

lemma account_map_None: "account_map vs k = None \<longleftrightarrow> k \<notin> sv_account ` set vs"
  by (auto simp: account_map_def map_of_eq_None_iff image_iff)

text \<open>The value that an effect leaves in the map.\<close>

definition effect_result :: "account_effect \<Rightarrow> state_account_value option" where
  "effect_result e = (if fx_deleted e then None else Some (fx_value e))"

lemma validate_state_transitionD:
  assumes "validate_state_transition R pre post effects execution_pre = Inr ()"
  shows "distinct (effect_keys effects)"
    "a \<in> set execution_pre \<Longrightarrow> account_map pre (aw_key a) = Some (state_account R a)"
    "e \<in> set effects \<Longrightarrow> account_map post (sv_account (fx_value e)) = effect_result e"
    "k \<notin> set (effect_keys effects) \<Longrightarrow> account_map post k = account_map pre k"
proof -
  have v: "distinct (effect_keys effects)" "\<forall>a \<in> set execution_pre. account_map pre (aw_key a) = Some (state_account R a)"
    "\<forall>k \<in> set (map sv_account (pre @ post)). account_map pre k = account_map post k \<or> k \<in> set (effect_keys effects)"
    "\<forall>e \<in> set effects. if fx_deleted e then sv_lamports (fx_value e) = 0 \<and> account_map post (sv_account (fx_value e)) = None
       else account_map post (sv_account (fx_value e)) = Some (fx_value e)"
    using assms unfolding validate_state_transition_def Let_def by (simp_all only: guard_ok list_all_iff not_not if_cancel) (auto split: if_splits)
  show "distinct (effect_keys effects)" by (rule v(1))
  show "a \<in> set execution_pre \<Longrightarrow> account_map pre (aw_key a) = Some (state_account R a)" using v(2) by blast
  show "e \<in> set effects \<Longrightarrow> account_map post (sv_account (fx_value e)) = effect_result e"
    using v(4) by (auto simp: effect_result_def split: if_splits)
  show "account_map post k = account_map pre k" if "k \<notin> set (effect_keys effects)"
  proof (cases "k \<in> sv_account ` set (pre @ post)")
    case True
    then have "account_map pre k = account_map post k \<or> k \<in> set (effect_keys effects)" using v(3) by (simp only: set_map)
    then show ?thesis using that by simp
  next
    case False
    then have "account_map pre k = None" "account_map post k = None" by (auto simp: account_map_None)
    then show ?thesis by simp
  qed
qed

text \<open>With the effects of two accounts the map changes at their keys.\<close>

definition after :: "replay_env \<Rightarrow> account_witness \<Rightarrow> state_account_value option" where
  "after R a = (if aw_lamports a = 0 then None else Some (state_account R a))"

lemma two_effects:
  assumes "validate_state_transition R pre post (expected_effects R w i) (w_pre_accounts w) = Inr ()" "w_post_accounts w = [a, b]"
  shows "aw_key a \<noteq> aw_key b" "account_map post = (account_map pre)(aw_key a := after R a, aw_key b := after R b)"
proof -
  note T = validate_state_transitionD [OF assms(1)]
  let ?e = "\<lambda>a. \<lparr>fx_step_index = i, fx_value = state_account R a, fx_deleted = (aw_lamports a = 0)\<rparr>"
  have list: "expected_effects R w i = [?e a, ?e b] \<or> expected_effects R w i = [?e b, ?e a]"
    by (simp add: expected_effects_def assms(2))
  then have effects: "set (expected_effects R w i) = {?e a, ?e b}" and keys: "set (effect_keys (expected_effects R w i)) = {aw_key a, aw_key b}"
    by (auto simp: effect_keys_def state_account_def)
  show ne: "aw_key a \<noteq> aw_key b" using T(1) list by (auto simp: effect_keys_def state_account_def)
  have "account_map post (aw_key a) = after R a" "account_map post (aw_key b) = after R b"
    using T(3) [of "?e a"] T(3) [of "?e b"] effects by (simp_all add: effect_result_def after_def state_account_def)
  moreover have "account_map post k = account_map pre k" if "k \<noteq> aw_key a" "k \<noteq> aw_key b" for k
    using T(4) [of k] keys that by simp
  ultimately show "account_map post = (account_map pre)(aw_key a := after R a, aw_key b := after R b)" using ne by auto
qed


subsection \<open>Accepted witnesses\<close>

lemma verify_checkpoint_bindingD:
  assumes "verify_checkpoint_binding R w = Inr c"
  obtains i where "unat (w_step_index w) < 2 ^ 32" "i = ucast (w_step_index w)"
    "replay_state_root R (cb_pre_state_accounts (w_checkpoint w)) = Inr (cpi_pre_state_root c)"
    "replay_state_root R (cb_post_state_accounts (w_checkpoint w)) = Inr (cpi_post_state_root c)"
    "validate_state_transition R (cb_pre_state_accounts (w_checkpoint w)) (cb_post_state_accounts (w_checkpoint w))
       (expected_effects R w i) (w_pre_accounts w) = Inr ()"
    "replay_transaction_leaf_hash R i (w_transaction_bytes w) (cb_transaction_effect (w_checkpoint w))
       = Inr (cpi_transaction_effect_commitment c)"
    "mp_leaf_index (cb_transaction_effect_path (w_checkpoint w)) = i"
    "replay_verify_path (rsha R) RTransactionEffect (cb_transaction_effect_path (w_checkpoint w))
       (cpi_transaction_effect_commitment c) (cb_checkpoint_transaction_effect_root (w_checkpoint w))"
    "validate_readonly_values R w i = Inr ()" "validate_settlement_effects R w i (expected_effects R w i) = Inr ()"
    "cpi_readonly_l1_root c = cb_readonly_l1_root (w_checkpoint w)"
    "cpi_settlement_effect_root c = cb_settlement_effect_root (w_checkpoint w)"
  using assms unfolding verify_checkpoint_binding_def Let_def rbind_ok guard_ok
  by (elim exE conjE) (rule that, auto)

lemma validate_accountsD:
  assumes "validate_accounts_and_result w = Inr ()"
  obtains fee target fee' target' where "w_pre_accounts w = [fee, target]" "w_post_accounts w = [fee', target']"
    "aw_key fee' = aw_key fee" "aw_key target' = aw_key target" "aw_data fee' = aw_data fee"
    "aw_data target' = (aw_data target)[0 := 100]" "aw_lamports target' = aw_lamports target"
    "aw_owner fee' = aw_owner fee" "aw_owner target' = aw_owner target"
    "unat (aw_lamports fee) = unat (aw_lamports fee') + unat (rw_lamports_per_signature (w_runtime w))"
proof -
  from assms have "length (w_pre_accounts w) = 2" "length (w_post_accounts w) = 2"
    by (auto simp: validate_accounts_and_result_def split: if_splits)
  then obtain fee target fee' target' where l: "w_pre_accounts w = [fee, target]" "w_post_accounts w = [fee', target']"
    by (auto simp: length_Suc_conv numeral_2_eq_2)
  have *: "aw_key fee = aw_key fee'" "aw_key target = aw_key target'" "aw_data fee = aw_data fee'"
      "aw_data target' = (aw_data target)[0 := 100]" "aw_lamports target = aw_lamports target'"
      "aw_owner fee = aw_owner fee'" "aw_owner target = aw_owner target'"
      "checked_sub (aw_lamports fee) (rw_lamports_per_signature (w_runtime w)) = Some (aw_lamports fee')"
    using assms unfolding validate_accounts_and_result_def Let_def l by (simp_all only: guard_ok de_Morgan_disj not_not) auto
  from *(8) have "unat (aw_lamports fee) = unat (aw_lamports fee') + unat (rw_lamports_per_signature (w_runtime w))"
    by (simp add: checked_sub_Some_iff)
  with l * show ?thesis by (intro that [of fee target fee' target']) simp_all
qed

lemma replay_fr_ok: "replay_fr h = Inr f \<Longrightarrow> f = key_bytes h"
  by (auto simp: replay_fr_def FrBytes_new_def split: if_splits)

lemma replayD:
  assumes "replay R w = Inr p"
  obtains c where "validate_transaction R w = Inr ()" "validate_accounts_and_result w = Inr ()"
    "verify_checkpoint_binding R w = Inr c" "pi_slot_step p = FrBytes_from_u64_pair (w_er_slot w) (w_step_index w)"
    "pi_pre_state_root p = key_bytes (cpi_pre_state_root c)" "pi_post_state_root p = key_bytes (cpi_post_state_root c)"
    "pi_tx_effect_root p = key_bytes (cpi_transaction_effect_commitment c)"
    "pi_readonly_l1_root p = key_bytes (cpi_readonly_l1_root c)"
    "pi_settlement_effect_root p = key_bytes (cpi_settlement_effect_root c)"
proof -
  have case_ok: "(case r of Inl _ \<Rightarrow> Inl e | Inr _ \<Rightarrow> Inr x) = Inr y \<Longrightarrow> x = y" for r :: "'b + 'c" and e :: 'd and x y :: 'e
    by (cases r) simp_all
  from assms have v: "validate_transaction R w = Inr ()" "validate_accounts_and_result w = Inr ()"
    and d: "derive_public_inputs_with_elf_hash R w (program_elf_hash R w) = Inr p"
    by (auto simp: replay_def rbind_ok Let_def dest!: case_ok)
  from d obtain c ctx s a b e f g where *: "verify_checkpoint_binding R w = Inr c"
    "replay_fr (cpi_pre_state_root c) = Inr a" "replay_fr (cpi_post_state_root c) = Inr b"
    "replay_fr (cpi_transaction_effect_commitment c) = Inr e" "replay_fr (cpi_readonly_l1_root c) = Inr f"
    "replay_fr (cpi_settlement_effect_root c) = Inr g"
    "p = \<lparr>pi_domain = FrBytes_er_step_domain_v1 ER_STEP_PROOF_KIND_FULL_TRANSACTION ER_STEP_PROOF_VERSION_V1,
          pi_session_context = s, pi_slot_step = FrBytes_from_u64_pair (w_er_slot w) (w_step_index w),
          pi_pre_state_root = a, pi_post_state_root = b, pi_tx_effect_root = e, pi_readonly_l1_root = f, pi_settlement_effect_root = g\<rparr>"
    unfolding derive_public_inputs_with_elf_hash_def rbind_ok sum.inject by (elim exE conjE) (rule that, assumption+, rule sym)
  show ?thesis
    by (rule that [OF v *(1)]) (simp_all add: *(7) replay_fr_ok [OF *(2)] replay_fr_ok [OF *(3)] replay_fr_ok [OF *(4)]
        replay_fr_ok [OF *(5)] replay_fr_ok [OF *(6)])
qed

text \<open>C21: What a proof attests.  When the guest accepts a witness, the two state roots among its public inputs are the
  roots of account maps of which the second is the first with exactly two accounts changed: the fee account, debited
  by the fee, and the target account, with its first byte set and its lamports unchanged; both held the witness's
  values before, and the signer signed the message.\<close>

theorem replay_proves_step:
  assumes "replay R w = Inr p"
  shows "\<exists>fee target fee' target' r r'. let b = w_checkpoint w; pre = account_map (cb_pre_state_accounts b);
          post = account_map (cb_post_state_accounts b) in
      w_pre_accounts w = [fee, target] \<and> w_post_accounts w = [fee', target']
      \<and> replay_state_root R (cb_pre_state_accounts b) = Inr r \<and> pi_pre_state_root p = key_bytes r
      \<and> replay_state_root R (cb_post_state_accounts b) = Inr r' \<and> pi_post_state_root p = key_bytes r'
      \<and> pre (aw_key fee) = Some (state_account R fee) \<and> pre (aw_key target) = Some (state_account R target)
      \<and> aw_key fee \<noteq> aw_key target
      \<and> post = pre(aw_key fee := after R fee', aw_key target := after R target')
      \<and> unat (aw_lamports fee) = unat (aw_lamports fee') + unat (rw_lamports_per_signature (w_runtime w))
      \<and> aw_lamports target' = aw_lamports target \<and> aw_data fee' = aw_data fee
      \<and> aw_data target' = (aw_data target)[0 := 100]
      \<and> rverify_strict R (w_signer w) (w_message_bytes w) (w_signature w)"
proof -
  from assms obtain c where tx: "validate_transaction R w = Inr ()" and acc: "validate_accounts_and_result w = Inr ()"
    and bind: "verify_checkpoint_binding R w = Inr c"
    and roots: "pi_pre_state_root p = key_bytes (cpi_pre_state_root c)" "pi_post_state_root p = key_bytes (cpi_post_state_root c)"
    by (rule replayD)
  from acc obtain fee target fee' target' where a: "w_pre_accounts w = [fee, target]" "w_post_accounts w = [fee', target']"
    "aw_key fee' = aw_key fee" "aw_key target' = aw_key target" "aw_data fee' = aw_data fee"
    "aw_data target' = (aw_data target)[0 := 100]" "aw_lamports target' = aw_lamports target"
    "unat (aw_lamports fee) = unat (aw_lamports fee') + unat (rw_lamports_per_signature (w_runtime w))"
    by (rule validate_accountsD)
  from bind obtain i where
    r: "replay_state_root R (cb_pre_state_accounts (w_checkpoint w)) = Inr (cpi_pre_state_root c)"
      "replay_state_root R (cb_post_state_accounts (w_checkpoint w)) = Inr (cpi_post_state_root c)"
    and t: "validate_state_transition R (cb_pre_state_accounts (w_checkpoint w)) (cb_post_state_accounts (w_checkpoint w))
       (expected_effects R w i) (w_pre_accounts w) = Inr ()"
    by (rule verify_checkpoint_bindingD)
  note two = two_effects [OF t a(2), unfolded a(3,4)] and pre = validate_state_transitionD(2) [OF t, unfolded a(1)]
  have "rverify_strict R (w_signer w) (w_message_bytes w) (w_signature w)"
    using tx by (auto simp: validate_transaction_def ok_simps)
  then show ?thesis
    using a r roots two pre [of fee] pre [of target]
    by (intro exI [of _ fee] exI [of _ target] exI [of _ fee'] exI [of _ target'] exI [of _ "cpi_pre_state_root c"]
        exI [of _ "cpi_post_state_root c"]) (simp add: Let_def)
qed

theorem replay_proves_step_witness:
  "replay sample_replay_env sample_witness = Inr sample_public
   \<and> account_map (cb_post_state_accounts sample_binding)
     = (account_map (cb_pre_state_accounts sample_binding))(20 \<mapsto> sample_value 20 95 0 1, 40 \<mapsto> sample_value 40 7 50 3)"
  using replay_proves_step [OF sample_replay] sample_replay
  by (auto simp: Let_def sample_witness_def sample_account_def after_def state_account_def sample_value_def sample_replay_env_def)


subsection \<open>What the guest does not check\<close>

text \<open>The witness with another key for the fee account, before and after.\<close>

definition with_fee_key :: "hash32 \<Rightarrow> replay_witness \<Rightarrow> replay_witness" where
  "with_fee_key k w =
     w\<lparr>w_pre_accounts := (w_pre_accounts w)[0 := (w_pre_accounts w ! 0)\<lparr>aw_key := k\<rparr>],
       w_post_accounts := (w_post_accounts w)[0 := (w_post_accounts w ! 0)\<lparr>aw_key := k\<rparr>]\<rparr>"

text \<open>C23: The fee account is not tied to the signer.  The transaction's first account key must be the signer, but no check
  compares it with the fee account of the witness: with any other key for that account the checks of the
  transaction, of the accounts and the fee, and of the trace still pass.\<close>

theorem fee_payer_unbound:
  assumes "validate_transaction R w = Inr ()" "validate_accounts_and_result w = Inr ()" "validate_trace R w h = Inr ()"
  shows "validate_transaction R (with_fee_key k w) = Inr () \<and> validate_accounts_and_result (with_fee_key k w) = Inr ()
    \<and> validate_trace R (with_fee_key k w) h = Inr () \<and> w_signer (with_fee_key k w) = w_signer w
    \<and> aw_key (w_pre_accounts (with_fee_key k w) ! 0) = k"
proof -
  from assms(2) obtain fee target fee' target' where l: "w_pre_accounts w = [fee, target]" "w_post_accounts w = [fee', target']"
    by (rule validate_accountsD)
  have "validate_transaction R (with_fee_key k w) = validate_transaction R w"
    by (simp add: validate_transaction_def with_fee_key_def l cong: if_cong)
  moreover have "validate_accounts_and_result (with_fee_key k w) = Inr ()"
    using assms(2) unfolding validate_accounts_and_result_def Let_def by (simp_all only: guard_ok) (simp add: with_fee_key_def l)
  moreover have "validate_trace R (with_fee_key k w) h = validate_trace R w h"
  proof -
    have "trace_hash R (with_fee_key k w) h = trace_hash R w h" by (simp add: trace_hash_def with_fee_key_def)
    moreover have "w_vm_rows (with_fee_key k w) = w_vm_rows w" "w_program_words (with_fee_key k w) = w_program_words w"
      "w_call_targets (with_fee_key k w) = w_call_targets w" "w_event_tags (with_fee_key k w) = w_event_tags w"
      "w_compute_units_before (with_fee_key k w) = w_compute_units_before w" "w_compute_units_after (with_fee_key k w) = w_compute_units_after w"
      "w_result (with_fee_key k w) = w_result w" "w_trace_hash (with_fee_key k w) = w_trace_hash w" "w_runtime (with_fee_key k w) = w_runtime w"
      by (simp_all add: with_fee_key_def)
    ultimately show ?thesis by (simp only: validate_trace_def)
  qed
  ultimately show ?thesis using assms by (simp add: with_fee_key_def l)
qed

theorem fee_payer_unbound_witness:
  "validate_transaction sample_replay_env (with_fee_key 77 sample_witness) = Inr ()
   \<and> aw_key (w_pre_accounts (with_fee_key 77 sample_witness) ! 0) = 77 \<and> w_signer (with_fee_key 77 sample_witness) = 30
   \<and> replay sample_replay_env sample_witness = Inr sample_public \<and> aw_key (w_pre_accounts sample_witness ! 0) = 20"
  using fee_payer_unbound [OF sample_transaction_ok sample_accounts_ok sample_trace_ok, of 77] sample_replay
  by (simp add: sample_witness_def sample_account_def)

text \<open>C25: Loads are not checked against memory.  Whatever value the next row has in the destination register of a load, the
  row is accepted if it is accepted for some value.\<close>

theorem load_value_unchecked:
  assumes "di_opcode (decode_instruction (vr_instruction row)) AND 0x07 = 1" "validate_row row n lddw_high targets = Inr ()"
    "length (vr_registers n) = 12"
  shows "validate_row row (n\<lparr>vr_registers := (vr_registers n)[di_dst (decode_instruction (vr_instruction row)) := v]\<rparr>) lddw_high targets = Inr ()"
proof -
  let ?i = "decode_instruction (vr_instruction row)"
  have d: "di_dst ?i < 11" using assms(2) by (auto simp: validate_row_def Let_def split: if_splits)
  have "validate_register_preservation row (n\<lparr>vr_registers := (vr_registers n)[di_dst ?i := v]\<rparr>) [di_dst ?i]
      = validate_register_preservation row n [di_dst ?i]"
    by (simp add: validate_register_preservation_def cong: conj_cong)
  then show ?thesis using assms(1,2) d by (auto simp: validate_row_def Let_def rbind_ok split: if_splits)
qed

theorem load_value_unchecked_witness:
  "validate_row \<lparr>vr_registers = [0, 0, 0, 0, 0, 0, 0, 0, 0, 0, 0, 4], vr_instruction = [0x79, 0x21, 0, 0, 0, 0, 0, 0], vr_syscall_key = 0\<rparr>
     \<lparr>vr_registers = [0, 99, 0, 0, 0, 0, 0, 0, 0, 0, 0, 5], vr_instruction = EXIT_INSTRUCTION, vr_syscall_key = 0\<rparr> 0 Map.empty = Inr ()"
proof -
  let ?row = "\<lparr>vr_registers = [0, 0, 0, 0, 0, 0, 0, 0, 0, 0, 0, 4], vr_instruction = [0x79, 0x21, 0, 0, 0, 0, 0, 0], vr_syscall_key = 0\<rparr>"
  let ?n = "\<lparr>vr_registers = [0, 8, 0, 0, 0, 0, 0, 0, 0, 0, 0, 5], vr_instruction = EXIT_INSTRUCTION, vr_syscall_key = 0\<rparr>"
  have d: "di_dst (decode_instruction [0x79, 0x21, 0, 0, 0, 0, 0, 0]) = 1"
    "di_opcode (decode_instruction [0x79, 0x21, 0, 0, 0, 0, 0, 0]) AND 0x07 = 1" by (simp_all add: decode_instruction_def)
  have "validate_row ?row ?n 0 Map.empty = Inr ()"
    by (simp add: validate_row_def decode_instruction_def checked_add_def validate_register_preservation_def upt_rec)
  from load_value_unchecked [OF _ this, of 99] show ?thesis by (simp add: d)
qed

lemma empty_root_node:
  assumes "MerkleTree_new hash (node_kind k) [] = Inr t" "MerkleTree_root hash t = Inr r"
  shows "empty_root hash k = Inr r"
proof -
  obtain t' where "replay_tree_new hash k [] = Inr t'" "node_tree t' = t" using assms(1) replay_tree_new_node [of hash k "[]" t] by blast
  then show ?thesis using replay_tree_root_node [of hash k "[]" t' r] assms(2) by (simp add: empty_root_def)
qed



text \<open>C22: The prover and the node agree: with the same hash function and the same encoding of a leaf, the prover accepts
  exactly the state roots and the authentication paths that the node computes and verifies.\<close>

theorem prover_agrees_with_node:
  assumes "rsha R = ahash A" "renc_state_leaf R = enc_state_leaf A" "\<And>i v bs. enc_state_leaf A i v = Some bs \<Longrightarrow> length bs < 2 ^ 64"
  shows "(replay_state_root R vs = Inr r \<longleftrightarrow> state_root_v1 A vs = Inr r)
    \<and> replay_verify_path (rsha R) k p leaf root = verify_path (ahash A) p (node_kind k) leaf root"
  using replay_state_root_node [OF assms] replay_verify_path_node [of "ahash A"] assms(1) by simp

theorem prover_agrees_with_node_witness:
  "replay_state_root sample_replay_env (cb_pre_state_accounts sample_binding) = Inr 5
   \<and> state_root_v1 (sample_artifact_env (\<lambda>_. None) (\<lambda>_. None)) (cb_pre_state_accounts sample_binding) = Inr 5"
  using prover_agrees_with_node [of sample_replay_env "sample_artifact_env (\<lambda>_. None) (\<lambda>_. None)"] sample_state_roots
  by (simp add: sample_replay_env_def sample_artifact_env_def)

end
