(* ===== verification/Spec2Isabelle.thy ===== *)
theory Spec2Isabelle
  imports Events Token_Props Proof_Props Bond_Props Bridge_Delegation Node_Portal Replay_Props
begin

text \<open>
  Verification library of NorthStar, an ephemeral rollup for Solana (the crates under \<open>src/northstar\<close>).

  \<^bold>\<open>The program.\<close>  A session delegates accounts of the L1 chain to a rollup.  The \<^emph>\<open>Portal\<close> program
  (\<open>programs/portal/src\<close>) keeps the session on L1: it opens and closes sessions, escrows deposits, takes over and
  returns delegated accounts, records checkpoints of the rollup with a bond, referees the challenge game about a
  checkpoint, and writes a committed checkpoint back to the L1 accounts (settlement).  The \<^emph>\<open>token bridge\<close>
  (\<open>programs/token-bridge/src\<close>) keeps SPL tokens in a vault on L1 and balances against it in the rollup; it calls the Portal
  to delegate balances and to consume the authorizations of settled withdrawals.  The \<^emph>\<open>node\<close>
  (\<open>src/checkpoint.rs\<close>) builds the data of a checkpoint: Merkle trees over the steps, pages, a manifest.
  The \<^emph>\<open>transaction prover\<close> (\<open>transaction-proof/src\<close>) is the program whose execution a zero-knowledge proof attests:
  it replays one step from a witness and exposes eight public inputs, which the Portal recomputes when it resolves a
  challenge.

  \<^bold>\<open>Common theories.\<close>
  \<^item> \<open>Prelude\<close>: Rust's integers as words, results with \<open>rbind\<close> for the question mark, checked and saturating
    arithmetic, little-endian bytes, and the collection \<open>ok_simps\<close> that inverts successful runs.
  \<^item> \<open>Borsh\<close>: the codec interface \<open>borsh_codec\<close> and combinators that satisfy it.  \<open>Portal_Layout\<close> gives the byte
    layout of every stored struct and interprets the interface \<open>portal_codecs\<close> of the instructions on them.
  \<^item> \<open>Ledger\<close>, \<open>System_Program\<close>: accounts, account views, program errors, and the system program's transfer, allocate,
    assign and create account with the privilege check of a cross-program call.  A view only names an address, so views may alias, and every
    handler is a function from ledger to error or ledger; the runtime discards the changes of a failed instruction.
  \<^item> \<open>Sample_Env\<close>: the interface \<open>portal_runtime\<close> (rent, address derivation) and the concrete environment in which
    the witnesses run.

  \<^bold>\<open>The Portal.\<close>
  \<^item> \<open>Portal_State\<close>, \<open>Portal_Env\<close>, \<open>Portal_Store\<close>: \<open>state.rs\<close>, \<open>continuity.rs\<close>, \<open>pda.rs\<close> and the shared loads and
    stores; \<open>versioned_store\<close> is the contract of the readers and writers that accept both frame versions.
  \<^item> \<open>Portal_Session\<close>: \<open>open_session.rs\<close>, \<open>close_session.rs\<close>, \<open>deposit_fee.rs\<close>, \<open>start_withdrawal.rs\<close>.  What each
    creates, moves and refunds, and that a session is exclusive.
  \<^item> \<open>Portal_Delegation\<close>: \<open>delegate.rs\<close>, \<open>request_undelegation.rs\<close>, \<open>undelegate.rs\<close>.  The recorded owner gets the
    account back, and only after the validator's approval.
  \<^item> \<open>Portal_Settlement\<close>, \<open>Settlement_Props\<close>, \<open>Settlement_Run\<close>: \<open>settlement.rs\<close> and \<open>settle_deposit_receipt.rs\<close>.
    Single instructions (guards, exact bytes, lamports conserved, receipts paid once) and whole settlements: a run from
    \<open>BeginSettlement\<close> to \<open>FinishSettlement\<close>, in any order and with any other instructions in between, applied exactly
    effects that hash to the committed checksum; the checksum determines them up to a hash collision.
  \<^item> \<open>Portal_Token\<close>, \<open>Token_Props\<close>: \<open>register_session_bridge.rs\<close>, \<open>accumulate_token_withdrawal.rs\<close>.
  \<^item> \<open>Portal_Checkpoint\<close>, \<open>Portal_Challenge\<close>, \<open>Portal_Step_Proof\<close>: \<open>checkpoint.rs\<close> and \<open>verifier.rs\<close>, every handler.
  \<^item> \<open>Checkpoint_Run\<close>, \<open>Checkpoint_Props\<close>, \<open>Challenge_Props\<close>, \<open>Bond_Props\<close>, \<open>Proof_Props\<close>: an abstract
    protocol of checkpoints, the refinement of every handler to one of its steps, and what follows for all reachable
    ledgers: one live checkpoint per session, bonds that stay backed and follow the outcome, finalized state that only
    advances, games that halve the disputed interval and end, frozen finished checkpoints, and what the verifier
    accepted when a checkpoint is upheld.
  \<^item> \<open>Events\<close>: the transfer events and their log line.

  \<^bold>\<open>The token bridge.\<close>
  \<^item> \<open>Bridge_State\<close>, \<open>Token_Bridge\<close>: \<open>state.rs\<close>, \<open>zk-types/src/token_bridge.rs\<close>, \<open>processor.rs\<close> and
    \<open>processor/token_deposit.rs\<close>, every instruction and the dispatch.  A call to the Portal runs the Portal's own definitions.
  \<^item> \<open>Bridge_Laws\<close>: the contracts \<open>bridge_codecs\<close>, \<open>spl_token\<close> (what the checked transfer of the token program does) and
    \<open>bridge_vault\<close> (a vault, and the runtime's protection of it while a foreign program runs).  \<open>Bridge_Sample\<close> interprets
    them on the byte layouts and on a token program with the SPL account format.
  \<^item> \<open>Bridge_Solvency\<close>, \<open>Bridge_Props\<close>: every instruction leaves a vault alone or keeps it solvent, so the vault covers
    its books in every run; a withdrawal is settled once and pays exactly its amount.  That a vault starts out solvent, with
    its token account free of a delegate, is a hypothesis: \<open>InitializeVault\<close> does not look at the delegate.
  \<^item> \<open>Bridge_Balances\<close>, \<open>Bridge_Delegation\<close>: deposits are credited once, transfers conserve the balances of a bridge, and
    a balance keeps its bytes on the way into the rollup and back.

  \<^bold>\<open>Proof types, node and prover.\<close>
  \<^item> \<open>Zk_Types\<close>, \<open>Zk_Continuity\<close>: \<open>zk-types/src/lib.rs\<close> and \<open>continuity.rs\<close>.
  \<^item> \<open>Merkle\<close>, \<open>Checkpoint_Artifact\<close>, \<open>Artifact_Props\<close>: tree construction always returns, a root binds its leaves
    up to a hash collision, a built artifact verifies, decodes from its bytes and chains the states of its steps.
  \<^item> \<open>Node_Portal\<close>: node and Portal together; the paths in the pages of a built checkpoint pass the Portal's checks, so
    an honest proposer can always answer.
  \<^item> \<open>Replay_Types\<close>, \<open>Replay_Checkpoint\<close>, \<open>Replay_Vm\<close>, \<open>Replay\<close>: the guest program, every check in its order.
    \<open>Replay_Agreement\<close> shows that its Merkle code agrees with the node's, \<open>Replay_Wire\<close> that the wire format is canonical,
    \<open>Replay_Alu\<close> that the arithmetic is that of 32- and 64-bit words; \<open>Replay_Props\<close> says what an accepted witness means and
    which checks are missing; \<open>Replay_Sample\<close> is an accepted witness.

  \<^bold>\<open>Bounds.\<close>  All recursion is total; no definition takes fuel.  Machine integers keep their width.  Lengths are natural
  numbers, with the checks of the code against \<open>u32\<close> and \<open>u64\<close> written out.

  \<^bold>\<open>Parameters.\<close>  SHA-256, Poseidon, Ed25519, the Groth16 pairing check, address derivation, rent and the SPL token
  program are parameters.  Where a property needs a law of one of them (no collision among the hashed inputs, distinct
  addresses for distinct seeds) the law is a hypothesis, and its witness instantiates the parameter.

  \<^bold>\<open>Not modelled.\<close>  The Portal's instruction dispatch and the decoding of instructions; the handlers behind the features
  \<open>checkpoint-continuity-v2\<close> and \<open>zk-verifier-bounded-vrf\<close>; the node's threads, RPC clients, files and processes; the VRF
  tools; and the Agave validator, of which the library has the parts that the programs rely on.  Instructions that share
  a transaction are consecutive steps; a transaction that fails as a whole is a run without them.
\<close>

end
